(* ===== verification/Identifiers.thy ===== *)
theory Identifiers
  imports Prelude
begin

text \<open>
  \<^verbatim>\<open>catalog/identifier.go\<close>: qualified names, ANSI quoting of identifiers and the encoding of
  index names. The SQL side of quoting is a reference scanner for delimited identifiers
  (\<open>scan_quoted\<close>): it reads up to the closing quote and takes a doubled quote as one quote.
\<close>

section \<open>Definitions\<close>

abbreviation dquote :: char where
  "dquote \<equiv> CHR 0x22"

abbreviation dollar :: char where
  "dollar \<equiv> CHR ''$''"

definition FullSchemaName :: "string \<Rightarrow> string \<Rightarrow> string" where
  "FullSchemaName catalog schema =
     (if catalog = [] then dquote # schema @ [dquote]
      else if schema = [] then dquote # catalog @ [dquote]
      else dquote # catalog @ [dquote, CHR ''.'', dquote] @ schema @ [dquote])"

definition FullTableName :: "string \<Rightarrow> string \<Rightarrow> string \<Rightarrow> string" where
  "FullTableName catalog schema table =
     FullSchemaName catalog schema @ [CHR ''.'', dquote] @ table @ [dquote]"

definition FullIndexName :: "string \<Rightarrow> string \<Rightarrow> string \<Rightarrow> string" where
  "FullIndexName catalog schema index = FullTableName catalog schema index"

definition FullColumnName :: "string \<Rightarrow> string \<Rightarrow> string \<Rightarrow> string \<Rightarrow> string" where
  "FullColumnName catalog schema table column =
     FullTableName catalog schema table @ [CHR ''.'', dquote] @ column @ [dquote]"

definition EncodeIndexName :: "string \<Rightarrow> string \<Rightarrow> string" where
  "EncodeIndexName table index = table @ [dollar, dollar] @ index"

text \<open>\<^verbatim>\<open>strings.Split(s, "$$")\<close>: the separator is searched from the left, without overlaps.\<close>

fun split_dollars :: "string \<Rightarrow> string \<Rightarrow> string list" where
  "split_dollars acc [] = [rev acc]"
| "split_dollars acc [c] = [rev (c # acc)]"
| "split_dollars acc (c # d # cs) =
     (if c = dollar \<and> d = dollar then rev acc # split_dollars [] cs
      else split_dollars (c # acc) (d # cs))"

definition DecodeIndexName :: "string \<Rightarrow> string \<times> string" where
  "DecodeIndexName encodedName =
     (let parts = split_dollars [] encodedName in
      if length parts \<noteq> 2 then ([], encodedName) else (parts ! 0, parts ! 1))"

text \<open>\<^verbatim>\<open>strings.ReplaceAll\<close> of a double quote by two.\<close>

definition double_quotes :: "string \<Rightarrow> string" where
  "double_quotes s = concat (map (\<lambda>c. if c = dquote then [dquote, dquote] else [c]) s)"

definition QuoteIdentifierANSI :: "string \<Rightarrow> string" where
  "QuoteIdentifierANSI identifier = dquote # double_quotes identifier @ [dquote]"

definition ConnectIdentifiersANSI :: "string list \<Rightarrow> string" where
  "ConnectIdentifiersANSI identifiers = join ''.'' (map QuoteIdentifierANSI identifiers)"

section \<open>Scanning quoted identifiers\<close>

fun scan_body :: "string \<Rightarrow> string \<Rightarrow> (string \<times> string) option" where
  "scan_body acc [] = None"
| "scan_body acc [c] = (if c = dquote then Some (rev acc, []) else None)"
| "scan_body acc (c # d # cs) =
     (if c = dquote then
        (if d = dquote then scan_body (dquote # acc) cs else Some (rev acc, d # cs))
      else scan_body (c # acc) (d # cs))"

definition scan_quoted :: "string \<Rightarrow> (string \<times> string) option" where
  "scan_quoted s = (case s of c # cs \<Rightarrow> if c = dquote then scan_body [] cs else None | [] \<Rightarrow> None)"

text \<open>A dotted list of quoted identifiers.\<close>

fun scan_path :: "nat \<Rightarrow> string \<Rightarrow> string list option" where
  "scan_path 0 s = None"
| "scan_path (Suc fuel) s =
     (case scan_quoted s of
        None \<Rightarrow> None
      | Some (x, rest) \<Rightarrow>
          (case rest of
             [] \<Rightarrow> Some [x]
           | c # cs \<Rightarrow> if c = CHR ''.'' then map_option ((#) x) (scan_path fuel cs) else None))"

lemma double_quotes_simps [simp]:
  "double_quotes [] = []"
  "double_quotes (c # cs) = (if c = dquote then [dquote, dquote] else [c]) @ double_quotes cs"
  by (simp_all add: double_quotes_def)

lemma scan_body_ordinary:
  "c \<noteq> dquote \<Longrightarrow> xs \<noteq> [] \<Longrightarrow> scan_body acc (c # xs) = scan_body (c # acc) xs"
  by (cases xs) auto

lemma scan_body_quoted:
  assumes "rest = [] \<or> hd rest \<noteq> dquote"
  shows "scan_body acc (double_quotes s @ dquote # rest) = Some (rev acc @ s, rest)"
proof (induction s arbitrary: acc)
  case Nil
  with assms show ?case by (cases rest) auto
next
  case (Cons c s)
  then show ?case by (simp add: scan_body_ordinary)
qed

lemma scan_quoted_quote:
  assumes "rest = [] \<or> hd rest \<noteq> dquote"
  shows "scan_quoted (QuoteIdentifierANSI s @ rest) = Some (s, rest)"
  using scan_body_quoted [OF assms, of "[]" s] by (simp add: scan_quoted_def QuoteIdentifierANSI_def)

lemma scan_path_connect:
  "ids \<noteq> [] \<Longrightarrow> length ids \<le> fuel \<Longrightarrow>
     scan_path fuel (join ''.'' (map QuoteIdentifierANSI ids)) = Some ids"
proof (induction ids arbitrary: fuel)
  case Nil
  then show ?case by simp
next
  case (Cons x xs)
  then obtain f where f: "fuel = Suc f" by (cases fuel) auto
  show ?case
  proof (cases xs)
    case Nil
    with f scan_quoted_quote [of "[]" x] show ?thesis by simp
  next
    case (Cons y ys)
    have "scan_path f (join ''.'' (map QuoteIdentifierANSI xs)) = Some xs"
      using Cons.IH Cons.prems Cons f by simp
    with Cons f scan_quoted_quote [of "''.'' @ join ''.'' (map QuoteIdentifierANSI xs)" x]
    show ?thesis by simp
  qed
qed

section \<open>Splitting index names\<close>

text \<open>No \<open>$$\<close> occurs in the string.\<close>

fun no_dollars :: "string \<Rightarrow> bool" where
  "no_dollars (c # d # cs) \<longleftrightarrow> \<not> (c = dollar \<and> d = dollar) \<and> no_dollars (d # cs)"
| "no_dollars _ \<longleftrightarrow> True"

lemma split_no_dollars: "no_dollars s \<Longrightarrow> split_dollars acc s = [rev acc @ s]"
  by (induction acc s rule: split_dollars.induct) auto

lemma split_first:
  "no_dollars t \<Longrightarrow> (t = [] \<or> last t \<noteq> dollar) \<Longrightarrow>
     split_dollars acc (t @ dollar # dollar # i) = (rev acc @ t) # split_dollars [] i"
proof (induction acc t rule: split_dollars.induct)
  case (3 acc c d cs)
  then show ?case by (auto split: if_splits)
qed auto

section \<open>Properties\<close>

text \<open>
  (C39) A scanner of dotted, delimited identifiers that reads the text of
  \<^verbatim>\<open>ConnectIdentifiersANSI\<close> gets exactly the given identifiers back, whatever characters
  they have: a schema, table or column name that comes from the replication stream cannot
  end its own quotes and be read as SQL.
\<close>

theorem ConnectIdentifiersANSI_scan:
  assumes "ids \<noteq> []"
  shows "scan_path (length ids) (ConnectIdentifiersANSI ids) = Some ids"
  using scan_path_connect [OF assms] by (simp add: ConnectIdentifiersANSI_def)

theorem ConnectIdentifiersANSI_scan_witness:
  "scan_path 2 (ConnectIdentifiersANSI [''pub'', [CHR ''a'', dquote, CHR ''.'', dquote, CHR ''b'']])
     = Some [''pub'', [CHR ''a'', dquote, CHR ''.'', dquote, CHR ''b'']]"
  using ConnectIdentifiersANSI_scan [of "[''pub'', [CHR ''a'', dquote, CHR ''.'', dquote, CHR ''b'']]"]
  by (simp add: eval_nat_numeral)

text \<open>
  (C40) An index name encoded by \<^verbatim>\<open>EncodeIndexName\<close> decodes to the table and the index it was
  made from, when neither name has \<open>$$\<close> and the table name does not end with \<open>$\<close>.
\<close>

theorem DecodeIndexName_EncodeIndexName:
  assumes "no_dollars table" and "table = [] \<or> last table \<noteq> dollar" and "no_dollars index"
  shows "DecodeIndexName (EncodeIndexName table index) = (table, index)"
  using split_first [OF assms(1,2), of "[]" index] split_no_dollars [OF assms(3), of "[]"]
  by (simp add: DecodeIndexName_def EncodeIndexName_def)

theorem DecodeIndexName_EncodeIndexName_witness:
  "no_dollars ''t$1'' \<and> last ''t$1'' \<noteq> dollar \<and> no_dollars ''$idx''
   \<and> DecodeIndexName (EncodeIndexName ''t$1'' ''$idx'') = (''t$1'', ''$idx'')"
  using DecodeIndexName_EncodeIndexName [of "''t$1''" "''$idx''"] by simp

text \<open>
  Without these conditions the round trip fails: an index of a table whose name ends with
  \<open>$\<close> is attributed to another table, and names with \<open>$$\<close> are attributed to no table.
\<close>

theorem DecodeIndexName_dollar_tables:
  "DecodeIndexName (EncodeIndexName ''t$'' ''i'') = (''t'', ''$i'')
   \<and> DecodeIndexName (EncodeIndexName ''a$$b'' ''i'') = ([], ''a$$b$$i'')"
  by (simp add: DecodeIndexName_def EncodeIndexName_def)

text \<open>
  \<^verbatim>\<open>FullTableName\<close>, unlike \<^verbatim>\<open>ConnectIdentifiersANSI\<close>, does not escape: two different
  qualified names have the same text when a name holds a quote.
\<close>

theorem FullTableName_not_injective:
  "FullTableName ''c'' ''s'' ''t'' = FullTableName [] (''c'' @ [dquote, CHR ''.'', dquote] @ ''s'') ''t''"
  by (simp add: FullTableName_def FullSchemaName_def)

end
