(* ===== verification/Charset.thy ===== *)
theory Charset
  imports Prelude
begin

text \<open>
  Character sets (\<^verbatim>\<open>charset/charset.go\<close>): which MySQL character sets are supported and which encoding
  of \<^verbatim>\<open>golang.org/x/text\<close> each one uses. The encodings themselves are third-party code; they are the
  parameter \<open>codec\<close>, a pair of functions per encoding that fail on text they cannot convert.
\<close>

datatype CharacterSetID =
    CharacterSet_Unspecified | CharacterSet_ascii | CharacterSet_latin1 | CharacterSet_utf8mb3
  | CharacterSet_utf8mb4 | CharacterSet_ucs2 | CharacterSet_utf16 | CharacterSet_utf16le
  | CharacterSet_utf32 | CharacterSet_gb2312 | CharacterSet_gbk | CharacterSet_gb18030
  | CharacterSet_big5 | CharacterSet_other nat

datatype text_encoding = Nop | Windows1252 | UTF16_BigEndian | UTF16_LittleEndian | UTF32_BigEndian | GBK | GB18030 | Big5

record codec =
  encoder :: "text_encoding \<Rightarrow> bytes \<Rightarrow> bytes option"
  decoder :: "text_encoding \<Rightarrow> bytes \<Rightarrow> bytes option"

definition IsSupported :: "CharacterSetID \<Rightarrow> bool" where
  "IsSupported cs \<longleftrightarrow>
     cs \<in> {CharacterSet_Unspecified, CharacterSet_ascii, CharacterSet_latin1, CharacterSet_utf8mb3,
           CharacterSet_utf8mb4, CharacterSet_ucs2, CharacterSet_utf16, CharacterSet_utf16le,
           CharacterSet_utf32, CharacterSet_gb2312, CharacterSet_gbk, CharacterSet_gb18030, CharacterSet_big5}"

definition IsUTF8 :: "CharacterSetID \<Rightarrow> bool" where
  "IsUTF8 cs \<longleftrightarrow>
     cs \<in> {CharacterSet_Unspecified, CharacterSet_ascii, CharacterSet_utf8mb3, CharacterSet_utf8mb4}"

definition IsSupportedNonUTF8 :: "CharacterSetID \<Rightarrow> bool" where
  "IsSupportedNonUTF8 cs \<longleftrightarrow> IsSupported cs \<and> \<not> IsUTF8 cs"

primrec getEncoding :: "CharacterSetID \<Rightarrow> text_encoding res" where
  "getEncoding CharacterSet_Unspecified = Inr Nop"
| "getEncoding CharacterSet_ascii = Inr Nop"
| "getEncoding CharacterSet_utf8mb3 = Inr Nop"
| "getEncoding CharacterSet_utf8mb4 = Inr Nop"
| "getEncoding CharacterSet_latin1 = Inr Windows1252"
| "getEncoding CharacterSet_ucs2 = Inr UTF16_BigEndian"
| "getEncoding CharacterSet_utf16 = Inr UTF16_BigEndian"
| "getEncoding CharacterSet_utf16le = Inr UTF16_LittleEndian"
| "getEncoding CharacterSet_utf32 = Inr UTF32_BigEndian"
| "getEncoding CharacterSet_gb2312 = Inr GBK"
| "getEncoding CharacterSet_gbk = Inr GBK"
| "getEncoding CharacterSet_gb18030 = Inr GB18030"
| "getEncoding CharacterSet_big5 = Inr Big5"
| "getEncoding (CharacterSet_other n) = Inl (Error ''unsupported charset'')"

definition convert :: "(bytes \<Rightarrow> bytes option) \<Rightarrow> bytes \<Rightarrow> bytes res" where
  "convert f s = (case f s of Some r \<Rightarrow> Inr r | None \<Rightarrow> Inl (Error ''encoding error''))"

definition EncodeBytes :: "codec \<Rightarrow> CharacterSetID \<Rightarrow> bytes \<Rightarrow> bytes res" where
  "EncodeBytes cd cs utf8 =
     bind_res (getEncoding cs) (\<lambda>en. if en = Nop then Inr utf8 else convert (encoder cd en) utf8)"

definition DecodeBytes :: "codec \<Rightarrow> CharacterSetID \<Rightarrow> bytes \<Rightarrow> bytes res" where
  "DecodeBytes cd cs encoded =
     bind_res (getEncoding cs) (\<lambda>en. if en = Nop then Inr encoded else convert (decoder cd en) encoded)"

text \<open>What the code relies on: decoding undoes encoding.\<close>

definition codec_inverse :: "codec \<Rightarrow> bool" where
  "codec_inverse cd \<longleftrightarrow> (\<forall>en s r. encoder cd en s = Some r \<longrightarrow> decoder cd en r = Some s)"

section \<open>Properties\<close>

text \<open>
  Exactly the supported character sets have an encoding, and the ones that are stored as UTF-8
  are exactly the ones whose text is passed on unchanged.
\<close>

theorem getEncoding_supported:
  "(IsSupported cs \<longleftrightarrow> (\<exists>en. getEncoding cs = Inr en)) \<and> (IsUTF8 cs \<longleftrightarrow> getEncoding cs = Inr Nop) \<and>
   (IsSupportedNonUTF8 cs \<longleftrightarrow> (\<exists>en. en \<noteq> Nop \<and> getEncoding cs = Inr en))"
  by (cases cs) (auto simp: IsSupported_def IsUTF8_def IsSupportedNonUTF8_def)

text \<open>
  Text that could be encoded into a character set decodes to itself.
\<close>

theorem DecodeBytes_EncodeBytes:
  assumes "codec_inverse cd" and "EncodeBytes cd cs utf8 = Inr encoded"
  shows "DecodeBytes cd cs encoded = Inr utf8"
  using assms
  by (auto simp: EncodeBytes_def DecodeBytes_def convert_def codec_inverse_def res_simps split: option.splits if_splits)

definition swap_pairs :: "bytes \<Rightarrow> bytes option" where
  "swap_pairs s = (case s of [a, b] \<Rightarrow> Some [b, a] | _ \<Rightarrow> None)"

theorem DecodeBytes_EncodeBytes_witness:
  "DecodeBytes \<lparr>encoder = (\<lambda>_. swap_pairs), decoder = (\<lambda>_. swap_pairs)\<rparr> CharacterSet_utf16le [0x41, 0x00] = Inr [0x00, 0x41]"
proof (rule DecodeBytes_EncodeBytes)
  show "codec_inverse \<lparr>encoder = (\<lambda>_. swap_pairs), decoder = (\<lambda>_. swap_pairs)\<rparr>"
    by (auto simp: codec_inverse_def swap_pairs_def split: list.splits)
  show "EncodeBytes \<lparr>encoder = (\<lambda>_. swap_pairs), decoder = (\<lambda>_. swap_pairs)\<rparr> CharacterSet_utf16le [0x00, 0x41] = Inr [0x41, 0x00]"
    by (simp add: EncodeBytes_def convert_def swap_pairs_def)
qed

end
