(* ===== verification/SqlTypes.thy ===== *)
theory SqlTypes
  imports Charset
begin

unbundle bit_operations_syntax

text \<open>
  Column types and their Arrow types: \<^verbatim>\<open>myarrow/schema.go\<close> (MySQL types) and the type part of
  \<^verbatim>\<open>pgtypes/pgtypes.go\<close> (Postgres types). The type tags of Vitess, the OIDs of pgtype and the
  Arrow data types are third-party enumerations; the model has one constructor per tag the
  sources name and a constructor for every other tag.
\<close>

section \<open>Types of columns\<close>

datatype query_type =
    Type_INT8 | Type_UINT8 | Type_INT16 | Type_UINT16 | Type_INT24 | Type_UINT24
  | Type_INT32 | Type_UINT32 | Type_INT64 | Type_UINT64 | Type_FLOAT32 | Type_FLOAT64
  | Type_TIMESTAMP | Type_DATE | Type_TIME | Type_DATETIME | Type_YEAR | Type_DECIMAL
  | Type_TEXT | Type_BLOB | Type_VARCHAR | Type_VARBINARY | Type_CHAR | Type_BINARY
  | Type_BIT | Type_ENUM | Type_SET | Type_JSON | Type_GEOMETRY | Type_NULL_TYPE | Type_OTHER nat

datatype pg_oid =
    BoolOID | QCharOID | ByteaOID | NameOID | TextOID | VarcharOID | BPCharOID | JSONOID | JSONBOID
  | XMLOID | Int8OID | Int2OID | Int4OID | OIDOID | TIDOID | XIDOID | CIDOID | Float4OID | Float8OID
  | DateOID | TimeOID | TimetzOID | TimestampOID | TimestamptzOID | IntervalOID | NumericOID
  | NumericArrayOID | UUIDOID | PointOID | UnknownOID | MacaddrOID | Macaddr8OID | BitOID | VarbitOID
  | OtherOID nat

text \<open>A type of pgtype: its OID and, for an array codec, the element type.\<close>

datatype pg_type = PGType pg_oid "pg_type option"

primrec pg_oid_of :: "pg_type \<Rightarrow> pg_oid" where
  "pg_oid_of (PGType oid elem) = oid"

text \<open>
  A \<^verbatim>\<open>sql.Type\<close> of go-mysql-server, with the attributes the sources ask it for, or a
  \<^verbatim>\<open>pgtypes.PostgresType\<close>.
\<close>

record gms_type =
  qtype :: query_type
  precision :: nat
  scale :: nat
  charset :: CharacterSetID
  members :: "string list"

record PostgresType =
  PG :: pg_type
  PgPrecision :: int
  PgScale :: int
  PgSize :: int
  PgFallback :: bool

datatype sql_type = GMS gms_type | Postgres PostgresType

record column =
  col_name :: string
  col_type :: sql_type
  col_pk :: bool
  col_nullable :: bool

type_synonym schema = "column list"

section \<open>Arrow types\<close>

datatype time_unit = Second | Millisecond | Microsecond

datatype arrow_type =
    Arrow_Boolean | Arrow_Int8 | Arrow_Uint8 | Arrow_Int16 | Arrow_Uint16 | Arrow_Int32 | Arrow_Uint32
  | Arrow_Int64 | Arrow_Uint64 | Arrow_Float32 | Arrow_Float64 | Arrow_Date32 | Arrow_Time64ns
  | Arrow_Duration_us | Arrow_Timestamp time_unit string | Arrow_Decimal128 int int
  | Arrow_Decimal256 int int | Arrow_String | Arrow_Binary | Arrow_List arrow_type
  | Arrow_Struct "(string \<times> arrow_type) list" | Arrow_Dictionary arrow_type

text \<open>\<^verbatim>\<open>arrow.FixedWidthTypes.Timestamp_*\<close> are timestamps in the time zone UTC.\<close>

definition Timestamp_utc :: "time_unit \<Rightarrow> arrow_type" where
  "Timestamp_utc u = Arrow_Timestamp u ''UTC''"

definition datetime_unit :: "nat \<Rightarrow> time_unit" where
  "datetime_unit p = (if p = 0 then Second else if p \<in> {1, 2, 3} then Millisecond else Microsecond)"

text \<open>\<^verbatim>\<open>pgTypeToArrowType\<close>: the codec of a type is an array codec when the type has an element.\<close>

fun pgTypeToArrowType :: "pg_type \<Rightarrow> int \<Rightarrow> int \<Rightarrow> arrow_type" where
  "pgTypeToArrowType (PGType oid elem) prec scl =
     (case oid of
        BoolOID \<Rightarrow> Arrow_Boolean
      | QCharOID \<Rightarrow> Arrow_Uint8
      | ByteaOID \<Rightarrow> Arrow_Binary
      | NameOID \<Rightarrow> Arrow_String | TextOID \<Rightarrow> Arrow_String | VarcharOID \<Rightarrow> Arrow_String
      | BPCharOID \<Rightarrow> Arrow_String | JSONOID \<Rightarrow> Arrow_String | JSONBOID \<Rightarrow> Arrow_String
      | XMLOID \<Rightarrow> Arrow_String
      | Int8OID \<Rightarrow> Arrow_Int64
      | Int2OID \<Rightarrow> Arrow_Int16
      | Int4OID \<Rightarrow> Arrow_Int32
      | OIDOID \<Rightarrow> Arrow_Uint32
      | TIDOID \<Rightarrow> Arrow_Uint64
      | Float4OID \<Rightarrow> Arrow_Float32
      | Float8OID \<Rightarrow> Arrow_Float64
      | DateOID \<Rightarrow> Arrow_Date32
      | TimeOID \<Rightarrow> Arrow_Time64ns | TimetzOID \<Rightarrow> Arrow_Time64ns
      | TimestampOID \<Rightarrow> Arrow_Timestamp Microsecond []
      | TimestamptzOID \<Rightarrow> Timestamp_utc Microsecond
      | NumericOID \<Rightarrow>
          (if prec > 0 \<and> scl \<ge> 0 then (if prec \<le> 38 then Arrow_Decimal128 prec scl else Arrow_String)
           else Arrow_String)
      | UUIDOID \<Rightarrow> Arrow_String
      | PointOID \<Rightarrow> Arrow_Struct [(''x'', Arrow_Float64), (''y'', Arrow_Float64)]
      | _ \<Rightarrow>
          (case elem of
             Some et \<Rightarrow> Arrow_List (pgTypeToArrowType et prec scl)
           | None \<Rightarrow> Arrow_Binary))"

definition PostgresTypeToArrowType :: "PostgresType \<Rightarrow> arrow_type" where
  "PostgresTypeToArrowType p = pgTypeToArrowType (PG p) (PgPrecision p) (PgScale p)"

definition toArrowType :: "sql_type \<Rightarrow> arrow_type res" where
  "toArrowType t =
     (case t of
        Postgres p \<Rightarrow> Inr (PostgresTypeToArrowType p)
      | GMS g \<Rightarrow>
          (case qtype g of
             Type_UINT8 \<Rightarrow> Inr Arrow_Uint8
           | Type_INT8 \<Rightarrow> Inr Arrow_Int8
           | Type_UINT16 \<Rightarrow> Inr Arrow_Uint16
           | Type_INT16 \<Rightarrow> Inr Arrow_Int16
           | Type_UINT24 \<Rightarrow> Inr Arrow_Uint32
           | Type_INT24 \<Rightarrow> Inr Arrow_Int32
           | Type_UINT32 \<Rightarrow> Inr Arrow_Uint32
           | Type_INT32 \<Rightarrow> Inr Arrow_Int32
           | Type_UINT64 \<Rightarrow> Inr Arrow_Uint64
           | Type_INT64 \<Rightarrow> Inr Arrow_Int64
           | Type_FLOAT32 \<Rightarrow> Inr Arrow_Float32
           | Type_FLOAT64 \<Rightarrow> Inr Arrow_Float64
           | Type_TIMESTAMP \<Rightarrow> Inr (Timestamp_utc (datetime_unit (precision g)))
           | Type_DATE \<Rightarrow> Inr Arrow_Date32
           | Type_TIME \<Rightarrow> Inr Arrow_Duration_us
           | Type_DATETIME \<Rightarrow> Inr (Arrow_Timestamp (datetime_unit (precision g)) [])
           | Type_YEAR \<Rightarrow> Inr Arrow_Uint16
           | Type_DECIMAL \<Rightarrow>
               (if precision g > 38 then Inr (Arrow_Decimal256 (int (precision g)) (int (scale g)))
                else Inr (Arrow_Decimal128 (int (precision g)) (int (scale g))))
           | Type_TEXT \<Rightarrow> Inr Arrow_String
           | Type_BLOB \<Rightarrow> Inr Arrow_Binary
           | Type_VARCHAR \<Rightarrow> Inr Arrow_String
           | Type_VARBINARY \<Rightarrow> Inr Arrow_Binary
           | Type_CHAR \<Rightarrow> Inr Arrow_String
           | Type_BINARY \<Rightarrow> Inr Arrow_Binary
           | Type_BIT \<Rightarrow> Inr Arrow_Uint64
           | Type_ENUM \<Rightarrow> Inr Arrow_String
           | Type_SET \<Rightarrow> Inr Arrow_String
           | Type_JSON \<Rightarrow> Inr Arrow_String
           | Type_GEOMETRY \<Rightarrow> Inr Arrow_Binary
           | Type_NULL_TYPE \<Rightarrow> Inl (Panic ''unsupported data type'')
           | Type_OTHER n \<Rightarrow> Inl (Panic ''unsupported data type'')))"

text \<open>
  \<^verbatim>\<open>ToArrowType\<close> turns a nil type into an error; \<^verbatim>\<open>toArrowType\<close> has no branch that returns nil,
  so its result is passed on.
\<close>

definition ToArrowType :: "sql_type \<Rightarrow> arrow_type res" where
  "ToArrowType t = toArrowType t"

record arrow_field =
  field_name :: string
  field_type :: arrow_type
  field_nullable :: bool

fun set_dictionary :: "arrow_field list \<Rightarrow> nat list \<Rightarrow> arrow_field list res" where
  "set_dictionary fs [] = Inr fs"
| "set_dictionary fs (i # dict) =
     (if i < length fs
      then set_dictionary
             (fs[i := (fs ! i)\<lparr>field_type := Arrow_Dictionary (field_type (fs ! i))\<rparr>]) dict
      else Inl (Panic ''index out of range''))"

definition ToArrowSchema :: "schema \<Rightarrow> nat list \<Rightarrow> arrow_field list res" where
  "ToArrowSchema s dictionary =
     bind_res
       (map_res
          (\<lambda>col. bind_res (ToArrowType (col_type col)) (\<lambda>at.
             Inr \<lparr>field_name = col_name col, field_type = at, field_nullable = col_nullable col\<rparr>)) s)
       (\<lambda>fs. set_dictionary fs dictionary)"

section \<open>Postgres numeric modifiers\<close>

definition DecodePrecisionScale :: "int \<Rightarrow> int \<times> int \<times> bool" where
  "DecodePrecisionScale typmod =
     (if typmod > 0 then
        (let m = typmod - 4 in ((drop_bit 16 m) AND 0xFFFF, m AND 0xFFFF, True))
      else (0, 0, False))"

text \<open>
  \<^verbatim>\<open>NewPostgresType\<close>: the registry of pgtype is a parameter that gives the type of an OID.
\<close>

definition PostgresTypeSize :: "pg_oid \<Rightarrow> int" where
  "PostgresTypeSize oid =
     (case oid of
        BoolOID \<Rightarrow> 1 | NameOID \<Rightarrow> 64 | Int8OID \<Rightarrow> 8 | Int2OID \<Rightarrow> 2 | Int4OID \<Rightarrow> 4 | OIDOID \<Rightarrow> 4
      | TIDOID \<Rightarrow> 6 | XIDOID \<Rightarrow> 4 | CIDOID \<Rightarrow> 4 | PointOID \<Rightarrow> 8 | Float4OID \<Rightarrow> 4 | Float8OID \<Rightarrow> 8
      | UnknownOID \<Rightarrow> -2 | MacaddrOID \<Rightarrow> 6 | Macaddr8OID \<Rightarrow> 8 | DateOID \<Rightarrow> 4 | TimeOID \<Rightarrow> 8
      | TimetzOID \<Rightarrow> 12 | TimestampOID \<Rightarrow> 8 | TimestamptzOID \<Rightarrow> 8 | IntervalOID \<Rightarrow> 16 | UUIDOID \<Rightarrow> 16
      | _ \<Rightarrow> -1)"

definition NewPostgresType :: "(pg_oid \<Rightarrow> pg_type option) \<Rightarrow> pg_oid \<Rightarrow> int \<Rightarrow> PostgresType res" where
  "NewPostgresType registry oid modifier =
     (case registry oid of
        None \<Rightarrow> Inl (Error ''unsupported type OID'')
      | Some t \<Rightarrow>
          (let (p, s) =
             (if oid = NumericOID \<or> oid = NumericArrayOID
              then (let (p, s, ok) = DecodePrecisionScale modifier in (p, s)) else (0, 0))
           in Inr \<lparr>PG = t, PgPrecision = p, PgScale = s, PgSize = PostgresTypeSize oid,
                   PgFallback = False\<rparr>))"

section \<open>Facts about the mappings\<close>

lemma and_0xFFFF: "(x :: int) AND 0xFFFF = x mod 65536"
proof -
  have "x AND mask 16 = x mod 2 ^ 16"
    by (simp add: take_bit_eq_mask [symmetric] take_bit_eq_mod)
  then show ?thesis by (simp add: mask_eq_exp_minus_1)
qed

lemma DecodePrecisionScale_arith:
  "typmod > 0 \<Longrightarrow>
     DecodePrecisionScale typmod = ((typmod - 4) div 65536 mod 65536, (typmod - 4) mod 65536, True)"
  by (simp add: DecodePrecisionScale_def and_0xFFFF drop_bit_eq_div Let_def)

lemma map_res_length: "map_res f xs = Inr ys \<Longrightarrow> length ys = length xs"
  by (induction xs arbitrary: ys) (auto simp: res_simps)

lemma map_res_nth: "map_res f xs = Inr ys \<Longrightarrow> i < length xs \<Longrightarrow> f (xs ! i) = Inr (ys ! i)"
  by (induction xs arbitrary: ys i) (auto simp: res_simps nth_Cons split: nat.splits)

section \<open>Properties\<close>

text \<open>
  The modifier Postgres stores for \<^verbatim>\<open>numeric(p, s)\<close>, \<open>p * 65536 + s + 4\<close>, decodes to that precision and
  scale.
\<close>

lemma DecodePrecisionScale_roundtrip:
  assumes "0 < p" "p < 65536" "0 \<le> s" "s < 65536"
  shows "DecodePrecisionScale (p * 65536 + s + 4) = (p, s, True)"
  using assms by (simp add: DecodePrecisionScale_arith)

text \<open>
  A negative scale, which Postgres 15 and later stores in eleven bits, decodes to a large
  positive scale, and a precision above \<open>32767\<close> is returned as known although the comment says
  that it is treated as unknown.
\<close>

theorem DecodePrecisionScale_negative_scale:
  "DecodePrecisionScale (5 * 65536 + (((-2) :: int) AND 0x7FF) + 4) = (5, 2046, True)
   \<and> DecodePrecisionScale (40000 * 65536 + 4) = (40000, 0, True)"
  by (simp add: DecodePrecisionScale_arith)

end
