(* ===== verification/DuckDB.thy ===== *)
theory DuckDB
  imports Identifiers "HOL-Library.Char_ord" "HOL-Library.List_Lexorder" "HOL-Library.Product_Lexorder"
begin

text \<open>
  The statements the delta controller (\<^verbatim>\<open>delta/controller.go\<close>) sends to DuckDB, their SQL text,
  and what the controller relies on when it sends them.

  DuckDB is not part of the repository: running a statement is a parameter \<open>exec\<close> of the
  controller. \<open>sql_sound exec\<close> is the documented meaning of the statements, as a relation between
  the state of the database before and after a statement that succeeds, together with the fact
  that a statement that fails has no effect; \<open>sql_complete exec\<close> says that a statement with a
  meaning does not fail. Where SQL leaves a choice (the order of the rows of a table, the row
  that \<^verbatim>\<open>LAST\<close> takes among rows that tie) the relation leaves it too. A \<^verbatim>\<open>::TIMESTAMP\<close> cast leaves
  the value that a column denotes as it is. \<open>ref_exec\<close> is an executable database that has the
  two properties.
\<close>

section \<open>Values, rows and statements\<close>

datatype 'v datum = Null | Num nat | Text string | Val 'v

type_synonym 'v drow = "'v datum list"

record 'v batch =
  header :: "string list"
  batch_rows :: "'v drow list"

record tableIdentifier =
  dbName :: string
  tableName :: string

text \<open>
  The query of \<^verbatim>\<open>buildCondenseDeltaSQL\<close>: the view it reads, the key columns it groups by, the
  columns it orders by, and the selected fields of the row struct with their names and whether
  they are cast to \<^verbatim>\<open>TIMESTAMP\<close>.
\<close>

record condense =
  cd_view :: string
  cd_keys :: "string list"
  cd_order :: "string list"
  cd_fields :: "(nat \<times> string \<times> bool) list"

datatype 'v op =
    RegisterView string "'v batch"
  | DropView string
  | InsertSelect tableIdentifier "(string \<times> bool) list" string
  | DeleteInView tableIdentifier "string list" string
  | UpsertCondensed tableIdentifier "string list" condense
  | CreateDelta condense
  | UpsertDelta tableIdentifier "string list" nat
  | DeleteInDelta tableIdentifier "string list" "nat option"
  | InsertDelta tableIdentifier "string list" nat
  | DropDelta

section \<open>The text of the statements\<close>

definition cast_text :: "bool \<Rightarrow> string" where
  "cast_text ts = (if ts then ''::TIMESTAMP'' else [])"

definition column_list_text :: "(string \<times> bool) list \<Rightarrow> string" where
  "column_list_text cols = join '', '' (map (\<lambda>(c, ts). QuoteIdentifierANSI c @ cast_text ts) cols)"

definition key_struct_text :: "string list \<Rightarrow> string" where
  "key_struct_text pks =
     (let qs = map QuoteIdentifierANSI pks in
      case qs of [] \<Rightarrow> [] | [q] \<Rightarrow> q | _ \<Rightarrow> ''row('' @ join '', '' qs @ '')'')"

definition key_list_text :: "string list \<Rightarrow> string" where
  "key_list_text pks = join '', '' (map QuoteIdentifierANSI pks)"

definition field_text :: "nat \<times> string \<times> bool \<Rightarrow> string" where
  "field_text f =
     (case f of (i, c, ts) \<Rightarrow> ''r['' @ itoa i @ '']'' @ cast_text ts @ '' AS '' @ QuoteIdentifierANSI c)"

definition condense_text :: "condense \<Rightarrow> string" where
  "condense_text q =
     ''SELECT '' @ join '', '' (map field_text (cd_fields q)) @
     '' FROM (SELECT '' @ key_list_text (cd_keys q) @
     '', LAST(ROW('' @ ''*COLUMNS('' @ ''*)) ORDER BY '' @ join '', '' (cd_order q) @ '') AS r'' @
     '' FROM '' @ cd_view q @ '' GROUP BY '' @ key_list_text (cd_keys q) @ '')''"

definition table_text :: "tableIdentifier \<Rightarrow> string" where
  "table_text t = ConnectIdentifiersANSI [dbName t, tableName t]"

definition exclude_text :: "string list \<Rightarrow> string" where
  "exclude_text ex = '' SELECT * EXCLUDE ('' @ join '', '' ex @ '')''"

fun sql_text :: "'v op \<Rightarrow> string" where
  "sql_text (RegisterView v b) = []"
| "sql_text (DropView v) = ''DROP VIEW IF EXISTS '' @ v"
| "sql_text (InsertSelect t cols v) =
     ''INSERT INTO '' @ table_text t @ '' SELECT '' @ column_list_text cols @ '' FROM '' @ v"
| "sql_text (DeleteInView t pks v) =
     ''DELETE FROM '' @ table_text t @ '' WHERE '' @ key_struct_text pks @
     '' IN (SELECT '' @ key_struct_text pks @ '' FROM '' @ v @ '')''"
| "sql_text (UpsertCondensed t ex q) =
     ''INSERT OR REPLACE INTO '' @ table_text t @ exclude_text ex @ '' FROM ('' @ condense_text q @ '')''"
| "sql_text (CreateDelta q) = ''CREATE OR REPLACE TEMP TABLE delta AS '' @ condense_text q"
| "sql_text (UpsertDelta t ex a) =
     ''INSERT OR REPLACE INTO '' @ table_text t @ exclude_text ex @
     '' FROM temp.main.delta WHERE action = '' @ itoa a"
| "sql_text (DeleteInDelta t pks a) =
     ''DELETE FROM '' @ table_text t @ '' WHERE '' @ key_struct_text pks @
     '' IN (SELECT '' @ key_struct_text pks @ ''FROM temp.main.delta'' @
     (case a of None \<Rightarrow> [] | Some n \<Rightarrow> '' WHERE action = '' @ itoa n) @ '')''"
| "sql_text (InsertDelta t ex a) =
     ''INSERT INTO '' @ table_text t @ exclude_text ex @
     '' FROM temp.main.delta WHERE action = '' @ itoa a"
| "sql_text DropDelta = ''DROP TABLE IF EXISTS temp.main.delta''"

section \<open>The meaning of the statements\<close>

text \<open>A table: its columns, the columns of its primary-key index if it has one, and its rows.\<close>

record 'v dtable =
  tcols :: "string list"
  tindex :: "nat list option"
  trows :: "'v drow list"

record 'v store =
  tables :: "tableIdentifier \<Rightarrow> 'v dtable option"
  views :: "string \<Rightarrow> 'v batch option"
  temp_delta :: "'v batch option"

text \<open>Columns are found by name, without regard to case.\<close>

definition column_value :: "string list \<Rightarrow> 'v drow \<Rightarrow> string \<Rightarrow> 'v datum" where
  "column_value h r c =
     (case map_of (zip (map to_lower h) r) (to_lower c) of Some v \<Rightarrow> v | None \<Rightarrow> Null)"

definition project :: "string list \<Rightarrow> string list \<Rightarrow> 'v drow \<Rightarrow> 'v drow" where
  "project h cs r = map (column_value h r) cs"

definition has_columns :: "string list \<Rightarrow> string list \<Rightarrow> bool" where
  "has_columns h cs \<longleftrightarrow> set (map to_lower cs) \<subseteq> set (map to_lower h)"

definition exclude_columns :: "string list \<Rightarrow> string list \<Rightarrow> 'v drow \<Rightarrow> 'v drow" where
  "exclude_columns ex h r =
     map snd (filter (\<lambda>(c, v). to_lower c \<notin> set (map to_lower ex)) (zip h r))"

text \<open>The sort key of a value; \<^verbatim>\<open>NULL\<close> comes last, text is compared by its bytes.\<close>

fun sort_key :: "'v datum \<Rightarrow> nat \<times> string \<times> nat" where
  "sort_key (Num n) = (0, [], n)"
| "sort_key (Text s) = (1, s, 0)"
| "sort_key (Val v) = (2, [], 0)"
| "sort_key Null = (3, [], 0)"

definition order_key :: "string list \<Rightarrow> string list \<Rightarrow> 'v drow \<Rightarrow> (nat \<times> string \<times> nat) list" where
  "order_key h cs r = map sort_key (project h cs r)"

text \<open>
  \<open>condensed\<close>: one row per key, with each key of the view, and that row comes last in the order
  among the rows with its key.
\<close>

definition condensed :: "condense \<Rightarrow> 'v batch \<Rightarrow> 'v drow list \<Rightarrow> bool" where
  "condensed q b rs \<longleftrightarrow>
     (let key = project (header b) (cd_keys q); ord = order_key (header b) (cd_order q) in
      distinct (map key rs) \<and> key ` set rs = key ` set (batch_rows b) \<and> set rs \<subseteq> set (batch_rows b) \<and>
      (\<forall>r\<in>set rs. \<forall>r'\<in>set (batch_rows b). key r' = key r \<longrightarrow> ord r' \<le> ord r))"

definition select_fields :: "condense \<Rightarrow> 'v drow \<Rightarrow> 'v drow" where
  "select_fields q r = map (\<lambda>(i, c, ts). r ! (i - 1)) (cd_fields q)"

definition condense_ok :: "condense \<Rightarrow> 'v batch \<Rightarrow> bool" where
  "condense_ok q b \<longleftrightarrow>
     cd_keys q \<noteq> [] \<and> has_columns (header b) (cd_keys q) \<and> has_columns (header b) (cd_order q) \<and>
     (\<forall>(i, c, ts)\<in>set (cd_fields q). 0 < i \<and> i \<le> length (header b))"

definition condense_result :: "condense \<Rightarrow> 'v batch \<Rightarrow> 'v batch \<Rightarrow> bool" where
  "condense_result q b d \<longleftrightarrow>
     condense_ok q b \<and> header d = map (\<lambda>(i, c, ts). c) (cd_fields q) \<and>
     (\<exists>rs. condensed q b rs \<and> batch_rows d = map (select_fields q) rs)"

text \<open>
  \<^verbatim>\<open>key IN (SELECT key ...)\<close>: a single column that is \<^verbatim>\<open>NULL\<close> matches nothing.
\<close>

definition in_keys :: "'v drow \<Rightarrow> 'v drow set \<Rightarrow> bool" where
  "in_keys k ks \<longleftrightarrow> k \<noteq> [Null] \<and> k \<in> ks"

definition index_ok :: "'v dtable \<Rightarrow> bool" where
  "index_ok tab \<longleftrightarrow>
     (case tindex tab of None \<Rightarrow> True | Some ix \<Rightarrow> distinct (map (\<lambda>r. map ((!) r) ix) (trows tab)))"

definition set_rows :: "'v store \<Rightarrow> tableIdentifier \<Rightarrow> 'v drow list \<Rightarrow> 'v store" where
  "set_rows s t rs =
     (case tables s t of None \<Rightarrow> s | Some tab \<Rightarrow> s\<lparr>tables := (tables s)(t \<mapsto> tab\<lparr>trows := rs\<rparr>)\<rparr>)"

text \<open>The rows of table \<open>t\<close> become \<open>rs\<close>, in some order; its index admits them.\<close>

definition rows_become :: "'v store \<Rightarrow> tableIdentifier \<Rightarrow> 'v drow list \<Rightarrow> 'v store \<Rightarrow> bool" where
  "rows_become s t rs s' \<longleftrightarrow>
     (\<exists>rs' tab. tables s t = Some tab \<and> mset rs' = mset rs \<and> index_ok (tab\<lparr>trows := rs'\<rparr>) \<and>
        s' = set_rows s t rs')"

definition deleted :: "string list \<Rightarrow> string list \<Rightarrow> 'v drow set \<Rightarrow> 'v drow list \<Rightarrow> 'v drow list" where
  "deleted h pks ks rs = filter (\<lambda>r. \<not> in_keys (project h pks r) ks) rs"

definition upserted :: "nat list \<Rightarrow> 'v drow list \<Rightarrow> 'v drow list \<Rightarrow> 'v drow list" where
  "upserted ix rs new =
     filter (\<lambda>r. map ((!) r) ix \<notin> (\<lambda>r. map ((!) r) ix) ` set new) rs @ new"

definition with_action :: "'v batch \<Rightarrow> nat \<Rightarrow> 'v drow list" where
  "with_action d a = filter (\<lambda>r. column_value (header d) r ''action'' = Num a) (batch_rows d)"

definition inserted_step ::
    "'v store \<Rightarrow> tableIdentifier \<Rightarrow> 'v drow list \<Rightarrow> nat \<Rightarrow> 'v store \<Rightarrow> bool" where
  "inserted_step s t new k s' \<longleftrightarrow>
     k = length new \<and>
     (case tables s t of None \<Rightarrow> False
      | Some tab \<Rightarrow> (\<forall>r\<in>set new. length r = length (tcols tab)) \<and> rows_become s t (trows tab @ new) s')"

definition upserted_step ::
    "'v store \<Rightarrow> tableIdentifier \<Rightarrow> 'v drow list \<Rightarrow> nat \<Rightarrow> 'v store \<Rightarrow> bool" where
  "upserted_step s t new k s' \<longleftrightarrow>
     k = length new \<and>
     (case tables s t of None \<Rightarrow> False
      | Some tab \<Rightarrow>
          (case tindex tab of None \<Rightarrow> False
           | Some ix \<Rightarrow> (\<forall>r\<in>set new. length r = length (tcols tab)) \<and>
                        rows_become s t (upserted ix (trows tab) new) s'))"

definition deleted_step ::
    "'v store \<Rightarrow> tableIdentifier \<Rightarrow> string list \<Rightarrow> string list \<Rightarrow> 'v drow list \<Rightarrow> nat \<Rightarrow> 'v store \<Rightarrow> bool"
where
  "deleted_step s t pks h src k s' \<longleftrightarrow>
     pks \<noteq> [] \<and> has_columns h pks \<and>
     (case tables s t of None \<Rightarrow> False
      | Some tab \<Rightarrow>
          (let rs = deleted (tcols tab) pks (project h pks ` set src) (trows tab) in
           has_columns (tcols tab) pks \<and> k = length (trows tab) - length rs \<and> rows_become s t rs s'))"

fun sql_step :: "'v store \<Rightarrow> 'v op \<Rightarrow> nat \<Rightarrow> 'v store \<Rightarrow> bool" where
  "sql_step s (RegisterView v b) k s' \<longleftrightarrow> k = 0 \<and> s' = s\<lparr>views := (views s)(v \<mapsto> b)\<rparr>"
| "sql_step s (DropView v) k s' \<longleftrightarrow> k = 0 \<and> s' = s\<lparr>views := (views s)(v := None)\<rparr>"
| "sql_step s (InsertSelect t cols v) k s' \<longleftrightarrow>
     (case views s v of None \<Rightarrow> False
      | Some b \<Rightarrow> has_columns (header b) (map fst cols) \<and>
                  inserted_step s t (map (project (header b) (map fst cols)) (batch_rows b)) k s')"
| "sql_step s (DeleteInView t pks v) k s' \<longleftrightarrow>
     (case views s v of None \<Rightarrow> False
      | Some b \<Rightarrow> deleted_step s t pks (header b) (batch_rows b) k s')"
| "sql_step s (UpsertCondensed t ex q) k s' \<longleftrightarrow>
     (case views s (cd_view q) of None \<Rightarrow> False
      | Some b \<Rightarrow> (\<exists>d. condense_result q b d \<and>
                       upserted_step s t (map (exclude_columns ex (header d)) (batch_rows d)) k s'))"
| "sql_step s (CreateDelta q) k s' \<longleftrightarrow>
     (case views s (cd_view q) of None \<Rightarrow> False
      | Some b \<Rightarrow> (\<exists>d. condense_result q b d \<and> k = length (batch_rows d) \<and> s' = s\<lparr>temp_delta := Some d\<rparr>))"
| "sql_step s (UpsertDelta t ex a) k s' \<longleftrightarrow>
     (case temp_delta s of None \<Rightarrow> False
      | Some d \<Rightarrow> upserted_step s t (map (exclude_columns ex (header d)) (with_action d a)) k s')"
| "sql_step s (DeleteInDelta t pks a) k s' \<longleftrightarrow>
     (case temp_delta s of None \<Rightarrow> False
      | Some d \<Rightarrow> deleted_step s t pks (header d)
                    (case a of None \<Rightarrow> batch_rows d | Some n \<Rightarrow> with_action d n) k s')"
| "sql_step s (InsertDelta t ex a) k s' \<longleftrightarrow>
     (case temp_delta s of None \<Rightarrow> False
      | Some d \<Rightarrow> inserted_step s t (map (exclude_columns ex (header d)) (with_action d a)) k s')"
| "sql_step s DropDelta k s' \<longleftrightarrow> k = 0 \<and> s' = s\<lparr>temp_delta := None\<rparr>"

type_synonym 'v exec = "'v store \<Rightarrow> 'v op \<Rightarrow> (string + nat) \<times> 'v store"

definition sql_sound :: "'v exec \<Rightarrow> bool" where
  "sql_sound exec \<longleftrightarrow>
     (\<forall>s oper. case exec s oper of (Inr k, s') \<Rightarrow> sql_step s oper k s' | (Inl e, s') \<Rightarrow> s' = s)"

text \<open>
  A statement is admissible when it has a meaning whatever choice the database makes in it.
\<close>

definition sql_ok :: "'v store \<Rightarrow> 'v op \<Rightarrow> bool" where
  "sql_ok s oper \<longleftrightarrow>
     (case oper of
        UpsertCondensed t ex q \<Rightarrow>
          (case views s (cd_view q) of None \<Rightarrow> False
           | Some b \<Rightarrow> condense_ok q b \<and>
               (\<forall>d. condense_result q b d \<longrightarrow>
                  (\<exists>k s'. upserted_step s t (map (exclude_columns ex (header d)) (batch_rows d)) k s')))
      | _ \<Rightarrow> (\<exists>k s'. sql_step s oper k s'))"

definition sql_complete :: "'v exec \<Rightarrow> bool" where
  "sql_complete exec \<longleftrightarrow> (\<forall>s oper. sql_ok s oper \<longrightarrow> (\<exists>k s'. exec s oper = (Inr k, s')))"

section \<open>An executable database\<close>

definition latest :: "('a \<Rightarrow> 'k :: linorder) \<Rightarrow> 'a \<Rightarrow> 'a list \<Rightarrow> 'a" where
  "latest ord r rs = foldl (\<lambda>b x. if ord b \<le> ord x then x else b) r rs"

definition condense_rows :: "condense \<Rightarrow> 'v batch \<Rightarrow> 'v drow list" where
  "condense_rows q b =
     (let key = project (header b) (cd_keys q); ord = order_key (header b) (cd_order q) in
      map (\<lambda>k. case filter (\<lambda>r. key r = k) (batch_rows b) of [] \<Rightarrow> [] | r # rs \<Rightarrow> latest ord r rs)
          (remdups (map key (batch_rows b))))"

definition condense_batch :: "condense \<Rightarrow> 'v batch \<Rightarrow> 'v batch" where
  "condense_batch q b =
     \<lparr>header = map (\<lambda>(i, c, ts). c) (cd_fields q), batch_rows = map (select_fields q) (condense_rows q b)\<rparr>"

definition sql_error :: "'v store \<Rightarrow> (string + nat) \<times> 'v store" where
  "sql_error s = (Inl ''SQL error'', s)"

definition replace_rows :: "'v store \<Rightarrow> tableIdentifier \<Rightarrow> 'v drow list \<Rightarrow> nat \<Rightarrow> (string + nat) \<times> 'v store" where
  "replace_rows s t rs k =
     (case tables s t of None \<Rightarrow> sql_error s
      | Some tab \<Rightarrow> if index_ok (tab\<lparr>trows := rs\<rparr>) then (Inr k, set_rows s t rs) else sql_error s)"

definition run_insert :: "'v store \<Rightarrow> tableIdentifier \<Rightarrow> 'v drow list \<Rightarrow> (string + nat) \<times> 'v store" where
  "run_insert s t new =
     (case tables s t of None \<Rightarrow> sql_error s
      | Some tab \<Rightarrow> if list_all (\<lambda>r. length r = length (tcols tab)) new
                    then replace_rows s t (trows tab @ new) (length new) else sql_error s)"

definition run_upsert :: "'v store \<Rightarrow> tableIdentifier \<Rightarrow> 'v drow list \<Rightarrow> (string + nat) \<times> 'v store" where
  "run_upsert s t new =
     (case tables s t of None \<Rightarrow> sql_error s
      | Some tab \<Rightarrow>
          (case tindex tab of None \<Rightarrow> sql_error s
           | Some ix \<Rightarrow> if list_all (\<lambda>r. length r = length (tcols tab)) new
                        then replace_rows s t (upserted ix (trows tab) new) (length new) else sql_error s))"

definition run_delete ::
    "'v store \<Rightarrow> tableIdentifier \<Rightarrow> string list \<Rightarrow> string list \<Rightarrow> 'v drow list \<Rightarrow> (string + nat) \<times> 'v store"
where
  "run_delete s t pks h src =
     (case tables s t of None \<Rightarrow> sql_error s
      | Some tab \<Rightarrow>
          if pks \<noteq> [] \<and> has_columns h pks \<and> has_columns (tcols tab) pks then
            (let rs = deleted (tcols tab) pks (project h pks ` set src) (trows tab) in
             replace_rows s t rs (length (trows tab) - length rs))
          else sql_error s)"

fun ref_exec :: "'v store \<Rightarrow> 'v op \<Rightarrow> (string + nat) \<times> 'v store" where
  "ref_exec s (RegisterView v b) = (Inr 0, s\<lparr>views := (views s)(v \<mapsto> b)\<rparr>)"
| "ref_exec s (DropView v) = (Inr 0, s\<lparr>views := (views s)(v := None)\<rparr>)"
| "ref_exec s (InsertSelect t cols v) =
     (case views s v of None \<Rightarrow> sql_error s
      | Some b \<Rightarrow> if has_columns (header b) (map fst cols)
                  then run_insert s t (map (project (header b) (map fst cols)) (batch_rows b)) else sql_error s)"
| "ref_exec s (DeleteInView t pks v) =
     (case views s v of None \<Rightarrow> sql_error s | Some b \<Rightarrow> run_delete s t pks (header b) (batch_rows b))"
| "ref_exec s (UpsertCondensed t ex q) =
     (case views s (cd_view q) of None \<Rightarrow> sql_error s
      | Some b \<Rightarrow>
          if condense_ok q b then
            (let d = condense_batch q b in run_upsert s t (map (exclude_columns ex (header d)) (batch_rows d)))
          else sql_error s)"
| "ref_exec s (CreateDelta q) =
     (case views s (cd_view q) of None \<Rightarrow> sql_error s
      | Some b \<Rightarrow>
          if condense_ok q b then
            (let d = condense_batch q b in (Inr (length (batch_rows d)), s\<lparr>temp_delta := Some d\<rparr>))
          else sql_error s)"
| "ref_exec s (UpsertDelta t ex a) =
     (case temp_delta s of None \<Rightarrow> sql_error s
      | Some d \<Rightarrow> run_upsert s t (map (exclude_columns ex (header d)) (with_action d a)))"
| "ref_exec s (DeleteInDelta t pks a) =
     (case temp_delta s of None \<Rightarrow> sql_error s
      | Some d \<Rightarrow> run_delete s t pks (header d)
                    (case a of None \<Rightarrow> batch_rows d | Some n \<Rightarrow> with_action d n))"
| "ref_exec s (InsertDelta t ex a) =
     (case temp_delta s of None \<Rightarrow> sql_error s
      | Some d \<Rightarrow> run_insert s t (map (exclude_columns ex (header d)) (with_action d a)))"
| "ref_exec s DropDelta = (Inr 0, s\<lparr>temp_delta := None\<rparr>)"

lemma latest_cons: "latest ord r (x # xs) = latest ord (if ord r \<le> ord x then x else r) xs"
  by (simp add: latest_def)

lemma latest_props:
  "latest ord r rs \<in> set (r # rs) \<and> (\<forall>x\<in>set (r # rs). ord x \<le> ord (latest ord r rs))"
proof (induction rs arbitrary: r)
  case Nil
  then show ?case by (simp add: latest_def)
next
  case (Cons x rs)
  show ?case
    using Cons [of "if ord r \<le> ord x then x else r"]
    by (auto simp: latest_cons split: if_splits intro: order_trans)
qed

lemma condense_rows_condensed: "condensed q b (condense_rows q b)"
proof -
  let ?key = "project (header b) (cd_keys q)" and ?ord = "order_key (header b) (cd_order q)"
  let ?pick = "\<lambda>k. case filter (\<lambda>r. ?key r = k) (batch_rows b) of [] \<Rightarrow> [] | r # rs \<Rightarrow> latest ?ord r rs"
  have pick: "?pick (?key r) \<in> set (batch_rows b) \<and> ?key (?pick (?key r)) = ?key r \<and>
      (\<forall>x\<in>set (batch_rows b). ?key x = ?key r \<longrightarrow> ?ord x \<le> ?ord (?pick (?key r)))"
    if "r \<in> set (batch_rows b)" for r
  proof -
    from that have "r \<in> set (filter (\<lambda>x. ?key x = ?key r) (batch_rows b))" by simp
    then obtain x xs where f: "filter (\<lambda>x. ?key x = ?key r) (batch_rows b) = x # xs"
      by (cases "filter (\<lambda>x. ?key x = ?key r) (batch_rows b)") auto
    then have s: "set (x # xs) = {y \<in> set (batch_rows b). ?key y = ?key r}"
      by (metis set_filter)
    with latest_props [of ?ord x xs] f show ?thesis by auto
  qed
  then have keys: "map (\<lambda>k. ?key (?pick k)) (remdups (map ?key (batch_rows b))) = remdups (map ?key (batch_rows b))"
    by (intro map_idI) auto
  have "map ?key (condense_rows q b) = remdups (map ?key (batch_rows b))"
    using keys by (simp add: condense_rows_def Let_def comp_def)
  then have "distinct (map ?key (condense_rows q b))"
    and "?key ` set (condense_rows q b) = ?key ` set (batch_rows b)"
    by (metis distinct_remdups, metis image_set set_remdups)
  moreover have "r \<in> ?pick ` ?key ` set (batch_rows b)" if "r \<in> set (condense_rows q b)" for r
    using that by (auto simp: condense_rows_def Let_def)
  ultimately show ?thesis using pick unfolding condensed_def Let_def by fastforce
qed

lemma condense_batch_result: "condense_ok q b \<Longrightarrow> condense_result q b (condense_batch q b)"
  using condense_rows_condensed [of q b] by (auto simp: condense_result_def condense_batch_def)

text \<open>What a run of a statement gives: the step when it succeeds, no change when it fails.\<close>

definition outcome :: "(nat \<Rightarrow> 'v store \<Rightarrow> bool) \<Rightarrow> 'v store \<Rightarrow> (string + nat) \<times> 'v store \<Rightarrow> bool" where
  "outcome step s rs \<longleftrightarrow> (case rs of (Inr k, s') \<Rightarrow> step k s' | (Inl e, s') \<Rightarrow> s' = s)"

lemma outcome_simps [simp]:
  "outcome step s (Inr k, s') = step k s'"
  "outcome step s (sql_error s)"
  by (auto simp: outcome_def sql_error_def)

lemma outcome_mono: "outcome p s x \<Longrightarrow> (\<And>k s'. p k s' \<Longrightarrow> q k s') \<Longrightarrow> outcome q s x"
  by (auto simp: outcome_def split: prod.splits sum.splits)

lemma replace_rows_outcome: "outcome (\<lambda>k' s'. k' = k \<and> rows_become s t rs s') s (replace_rows s t rs k)"
  by (auto simp: replace_rows_def rows_become_def split: option.split)

lemma index_ok_perm:
  assumes "mset rs = mset rs'"
  shows "index_ok (tab\<lparr>trows := rs\<rparr>) = index_ok (tab\<lparr>trows := rs'\<rparr>)"
proof -
  have "distinct (map f rs) = distinct (map f rs')" for f :: "'a drow \<Rightarrow> 'a drow"
    using assms by (intro mset_eq_imp_distinct_iff) simp
  then show ?thesis by (simp add: index_ok_def split: option.split)
qed

lemma run_insert_outcome: "outcome (inserted_step s t new) s (run_insert s t new)"
  by (auto simp: run_insert_def inserted_step_def list_all_iff split: option.split
      intro: outcome_mono [OF replace_rows_outcome])

lemma run_upsert_outcome: "outcome (upserted_step s t new) s (run_upsert s t new)"
  by (auto simp: run_upsert_def upserted_step_def list_all_iff split: option.split
      intro: outcome_mono [OF replace_rows_outcome])

lemma run_delete_outcome: "outcome (deleted_step s t pks h src) s (run_delete s t pks h src)"
  by (auto simp: run_delete_def deleted_step_def Let_def split: option.split
      intro: outcome_mono [OF replace_rows_outcome])

lemmas run_outcomes = run_insert_outcome run_upsert_outcome run_delete_outcome

lemmas outcome_runs = run_outcomes [THEN outcome_mono]

lemma ref_exec_outcome: "outcome (sql_step s oper) s (ref_exec s oper)"
proof (cases oper)
  case (UpsertCondensed t ex q)
  then show ?thesis
    by (auto simp: Let_def split: option.split
        intro!: outcome_runs exI [of _ "condense_batch q b" for b] condense_batch_result)
next
  case (CreateDelta q)
  then show ?thesis
    by (auto simp: Let_def split: option.split intro: condense_batch_result)
qed (auto split: option.split intro!: outcome_runs)

lemma ref_exec_sound: "sql_sound ref_exec"
  unfolding sql_sound_def outcome_def [symmetric] by (simp add: ref_exec_outcome)

lemma replace_rows_complete:
  "rows_become s t rs s' \<Longrightarrow> \<exists>s''. replace_rows s t rs k = (Inr k, s'')"
  by (auto simp: rows_become_def replace_rows_def dest: index_ok_perm)

lemma run_insert_complete: "inserted_step s t new k s' \<Longrightarrow> \<exists>k s''. run_insert s t new = (Inr k, s'')"
  using replace_rows_complete by (fastforce simp: inserted_step_def run_insert_def list_all_iff split: option.splits)

lemma run_upsert_complete: "upserted_step s t new k s' \<Longrightarrow> \<exists>k s''. run_upsert s t new = (Inr k, s'')"
  using replace_rows_complete by (fastforce simp: upserted_step_def run_upsert_def list_all_iff split: option.splits)

lemma run_delete_complete:
  "deleted_step s t pks h src k s' \<Longrightarrow> \<exists>k s''. run_delete s t pks h src = (Inr k, s'')"
  using replace_rows_complete by (fastforce simp: deleted_step_def run_delete_def Let_def split: option.splits)

lemmas run_complete = run_insert_complete run_upsert_complete run_delete_complete

lemma ref_exec_complete: "sql_complete ref_exec"
proof -
  have "\<exists>k s'. ref_exec s oper = (Inr k, s')" if "sql_ok s oper" for s :: "'a store" and oper
  proof (cases oper)
    case (UpsertCondensed t ex q)
    with that obtain b where b: "views s (cd_view q) = Some b" "condense_ok q b"
      and all: "\<forall>d. condense_result q b d \<longrightarrow>
        (\<exists>k s'. upserted_step s t (map (exclude_columns ex (header d)) (batch_rows d)) k s')"
      by (auto simp: sql_ok_def split: option.splits)
    from all condense_batch_result [OF b(2)] b show ?thesis
      by (auto simp: UpsertCondensed Let_def dest: run_complete)
  qed (use that in \<open>auto simp: sql_ok_def condense_result_def Let_def split: option.splits dest: run_complete\<close>)
  then show ?thesis by (auto simp: sql_complete_def)
qed

lemma sql_soundI:
  "sql_sound exec \<Longrightarrow> outcome (sql_step s oper) s (exec s oper)"
  by (simp add: sql_sound_def outcome_def)

lemma sql_sound_Inr: "sql_sound exec \<Longrightarrow> exec s oper = (Inr k, s') \<Longrightarrow> sql_step s oper k s'"
  using sql_soundI [of exec s oper] by simp

lemma sql_sound_Inl: "sql_sound exec \<Longrightarrow> exec s oper = (Inl e, s') \<Longrightarrow> s' = s"
  using sql_soundI [of exec s oper] by (simp add: outcome_def)

end
