(* ===== verification/Delta.thy ===== *)
theory Delta
  imports DuckDB SqlTypes
begin

text \<open>
  The delta buffer of \<^verbatim>\<open>delta/\<close>: row changes are collected per table in an Arrow record with six
  augmented columns (\<^verbatim>\<open>delta.go\<close>), and a flush (\<^verbatim>\<open>controller.go\<close>) writes the net effect of the
  collected changes to the table with one to four SQL statements. The state is a \<open>DeltaAppender\<close> per
  table; an operation that fails returns the error together with the state it leaves.

  Running a statement, the hash of \<^verbatim>\<open>maphash\<close> and \<^verbatim>\<open>types.IsTimestampType\<close> of go-mysql-server are
  the fields of \<open>delta_env\<close>.
\<close>

section \<open>Row events and flush reasons\<close>

datatype RowEventType = DeleteRowEvent | UpdateRowEvent | InsertRowEvent

primrec row_event_code :: "RowEventType \<Rightarrow> nat" where
  "row_event_code DeleteRowEvent = 0"
| "row_event_code UpdateRowEvent = 1"
| "row_event_code InsertRowEvent = 2"

primrec RowEventType_String :: "RowEventType \<Rightarrow> string" where
  "RowEventType_String DeleteRowEvent = ''DELETE''"
| "RowEventType_String UpdateRowEvent = ''UPDATE''"
| "RowEventType_String InsertRowEvent = ''INSERT''"

lemma row_event_code_inject [simp]: "row_event_code x = row_event_code y \<longleftrightarrow> x = y"
  by (cases x; cases y) auto

instantiation RowEventType :: linorder
begin

definition less_eq_RowEventType :: "RowEventType \<Rightarrow> RowEventType \<Rightarrow> bool" where
  "less_eq_RowEventType x y \<longleftrightarrow> row_event_code x \<le> row_event_code y"

definition less_RowEventType :: "RowEventType \<Rightarrow> RowEventType \<Rightarrow> bool" where
  "less_RowEventType x y \<longleftrightarrow> row_event_code x < row_event_code y"

instance
  by standard (auto simp: less_eq_RowEventType_def less_RowEventType_def)

end

datatype FlushReason =
    UnknownFlushReason | DDLStmtFlushReason | DMLStmtFlushReason | RowCountLimitFlushReason
  | MemoryLimitFlushReason | TimeTickFlushReason | QueryFlushReason | InitFlushReason | OnCloseFlushReason

primrec FlushReason_String :: "FlushReason \<Rightarrow> string" where
  "FlushReason_String UnknownFlushReason = ''Unknown''"
| "FlushReason_String DDLStmtFlushReason = ''DDLStmt''"
| "FlushReason_String DMLStmtFlushReason = ''DMLStmt''"
| "FlushReason_String RowCountLimitFlushReason = ''RowCountLimit''"
| "FlushReason_String MemoryLimitFlushReason = ''MemoryLimit''"
| "FlushReason_String TimeTickFlushReason = ''TimeTick''"
| "FlushReason_String QueryFlushReason = ''Query''"
| "FlushReason_String InitFlushReason = ''Init''"
| "FlushReason_String OnCloseFlushReason = ''OnClose''"

text \<open>\<^verbatim>\<open>IsReplicationWithoutIndex\<close>, given the value of \<^verbatim>\<open>REPLICATION_WITHOUT_INDEX\<close> (empty when unset).\<close>

definition IsReplicationWithoutIndex :: "string \<Rightarrow> bool" where
  "IsReplicationWithoutIndex value \<longleftrightarrow>
     to_lower value \<in> {[], ''y'', ''t'', ''1'', ''on'', ''yes'', ''true''}"

section \<open>Delta appenders\<close>

text \<open>
  A row of the record under construction. The transaction columns are those of \<^verbatim>\<open>newDeltaAppender\<close>;
  a nil byte slice appended to a dictionary column is a NULL.
\<close>

record 'v delta_row =
  action :: RowEventType
  txn_tag :: "string option"
  txn_server :: "string option"
  txn_group :: "string option"
  txn_seq :: u64
  txn_stmt :: u64
  vals :: "'v drow"

record counters =
  event_delete :: nat
  event_insert :: nat
  event_update :: nat
  action_delete :: nat
  action_insert :: nat

text \<open>
  \<open>torn\<close> counts the rows whose append stopped midway: their first columns are longer than the
  others, and the record cannot be built any more.
\<close>

record 'v DeltaAppender =
  app_schema :: schema
  app_rows :: "'v delta_row list"
  torn :: nat
  app_counters :: counters

definition gms_simple :: "query_type \<Rightarrow> sql_type" where
  "gms_simple q = GMS \<lparr>qtype = q, precision = 0, scale = 0, charset = CharacterSet_Unspecified, members = []\<rparr>"

definition aug_column :: "string \<Rightarrow> query_type \<Rightarrow> column" where
  "aug_column n q = \<lparr>col_name = n, col_type = gms_simple q, col_pk = False, col_nullable = False\<rparr>"

definition augmented_columns :: schema where
  "augmented_columns =
     [aug_column ''action'' Type_INT8, aug_column ''txn_tag'' Type_TEXT,
      aug_column ''txn_server'' Type_BLOB, aug_column ''txn_group'' Type_TEXT,
      aug_column ''txn_seq'' Type_UINT64, aug_column ''txn_stmt'' Type_UINT64]"

definition AugmentedColumnList :: "string list" where
  "AugmentedColumnList = [''action'', ''txn_tag'', ''txn_server'', ''txn_group'', ''txn_seq'', ''txn_stmt'']"

definition NumAugmentedFields :: nat where
  "NumAugmentedFields = 6"

definition zero_counters :: counters where
  "zero_counters =
     \<lparr>event_delete = 0, event_insert = 0, event_update = 0, action_delete = 0, action_insert = 0\<rparr>"

definition newDeltaAppender :: "schema \<Rightarrow> 'v DeltaAppender res" where
  "newDeltaAppender sch =
     (let augmented = augmented_columns @ sch in
      bind_res (ToArrowSchema augmented [1, 2, 3]) (\<lambda>_.
      Inr \<lparr>app_schema = augmented, app_rows = [], torn = 0, app_counters = zero_counters\<rparr>))"

definition BaseSchema :: "'v DeltaAppender \<Rightarrow> schema" where
  "BaseSchema a = drop NumAugmentedFields (app_schema a)"

definition RowCount :: "'v DeltaAppender \<Rightarrow> nat" where
  "RowCount a = length (app_rows a) + torn a"

definition UpdateActionStats :: "RowEventType \<Rightarrow> nat \<Rightarrow> 'v DeltaAppender \<Rightarrow> 'v DeltaAppender" where
  "UpdateActionStats act n a =
     (case act of
        DeleteRowEvent \<Rightarrow> a\<lparr>app_counters := (app_counters a)\<lparr>action_delete := action_delete (app_counters a) + n\<rparr>\<rparr>
      | InsertRowEvent \<Rightarrow> a\<lparr>app_counters := (app_counters a)\<lparr>action_insert := action_insert (app_counters a) + n\<rparr>\<rparr>
      | UpdateRowEvent \<Rightarrow> a)"

definition ObserveEvents :: "RowEventType \<Rightarrow> nat \<Rightarrow> 'v DeltaAppender \<Rightarrow> 'v DeltaAppender" where
  "ObserveEvents ev n a =
     (case ev of
        DeleteRowEvent \<Rightarrow> a\<lparr>app_counters := (app_counters a)\<lparr>event_delete := event_delete (app_counters a) + 1\<rparr>\<rparr>
      | InsertRowEvent \<Rightarrow> a\<lparr>app_counters := (app_counters a)\<lparr>event_insert := event_insert (app_counters a) + 1\<rparr>\<rparr>
      | UpdateRowEvent \<Rightarrow> a\<lparr>app_counters := (app_counters a)\<lparr>event_update := event_update (app_counters a) + 1\<rparr>\<rparr>)"

definition ResetCounters :: "'v DeltaAppender \<Rightarrow> 'v DeltaAppender" where
  "ResetCounters a = a\<lparr>app_counters := zero_counters\<rparr>"

text \<open>The cells of a row in the order of the augmented schema.\<close>

definition opt_text :: "string option \<Rightarrow> 'v datum" where
  "opt_text x = (case x of None \<Rightarrow> Null | Some s \<Rightarrow> Text s)"

definition cells :: "'v delta_row \<Rightarrow> 'v drow" where
  "cells d =
     [Num (row_event_code (action d)), opt_text (txn_tag d), opt_text (txn_server d), opt_text (txn_group d),
      Num (unat (txn_seq d)), Num (unat (txn_stmt d))] @ vals d"

section \<open>Building the statements\<close>

record 'v delta_env =
  env_exec :: "'v exec"
  env_hash :: "string \<Rightarrow> u64"
  env_IsTimestampType :: "sql_type \<Rightarrow> bool"

text \<open>\<^verbatim>\<open>isTimestampType\<close>\<close>

definition isTimestampType :: "'v delta_env \<Rightarrow> sql_type \<Rightarrow> bool" where
  "isTimestampType env t \<longleftrightarrow>
     env_IsTimestampType env t \<or>
     (case t of Postgres p \<Rightarrow> pg_oid_of (PG p) = TimestampOID | GMS g \<Rightarrow> False)"

definition buildColumnList :: "'v delta_env \<Rightarrow> schema \<Rightarrow> (string \<times> bool) list" where
  "buildColumnList env sch = map (\<lambda>c. (col_name c, isTimestampType env (col_type c))) sch"

definition pk_positions :: "schema \<Rightarrow> nat list" where
  "pk_positions sch = filter (\<lambda>i. col_pk (sch ! i)) [0..<length sch]"

definition getPrimaryKeyIndices :: "'v DeltaAppender \<Rightarrow> nat list" where
  "getPrimaryKeyIndices a = map (\<lambda>i. i + NumAugmentedFields) (pk_positions (BaseSchema a))"

text \<open>
  The key columns: \<^verbatim>\<open>getPrimaryKeyStruct\<close> and \<^verbatim>\<open>getPrimaryKeyList\<close> render them as
  \<open>key_struct_text\<close> and \<open>key_list_text\<close>.
\<close>

definition getPrimaryKeyList :: "schema \<Rightarrow> string list" where
  "getPrimaryKeyList sch = map col_name (filter col_pk sch)"

definition buildCondenseDeltaSQL :: "'v delta_env \<Rightarrow> string \<Rightarrow> 'v DeltaAppender \<Rightarrow> condense" where
  "buildCondenseDeltaSQL env viewName a =
     \<lparr>cd_view = viewName, cd_keys = getPrimaryKeyList (BaseSchema a),
      cd_order = [''txn_group'', ''txn_seq'', ''txn_stmt'', ''action''],
      cd_fields =
        (1, col_name (app_schema a ! 0), False) #
        map (\<lambda>(i, col). (i + 2, col_name col, isTimestampType env (col_type col)))
            (enumerate 0 (drop 1 (app_schema a)))\<rparr>"

text \<open>\<^verbatim>\<open>strconv.FormatUint(x, 16)\<close>\<close>

definition hex_digit :: "nat \<Rightarrow> char" where
  "hex_digit n = (if n < 10 then char_of (48 + n) else char_of (87 + n))"

fun format_hex :: "nat \<Rightarrow> string" where
  "format_hex n = (if n < 16 then [hex_digit n] else format_hex (n div 16) @ [hex_digit (n mod 16)])"

declare format_hex.simps [simp del]

definition delta_view_name :: "'v delta_env \<Rightarrow> tableIdentifier \<Rightarrow> string" where
  "delta_view_name env t =
     ''__sys_view_arrow_delta_'' @
     format_hex (unat (env_hash env (dbName t @ [CHR 0x00] @ tableName t))) @ ''__''"

section \<open>Flushing one table\<close>

text \<open>
  \<^verbatim>\<open>prepareArrowView\<close>: the record is built, which empties the appender whatever happens next, is
  projected, and is registered as a view.
\<close>

definition prepareArrowView ::
    "'v delta_env \<Rightarrow> tableIdentifier \<Rightarrow> 'v DeltaAppender \<Rightarrow> nat \<Rightarrow> nat list \<Rightarrow> 'v store \<Rightarrow>
       string res \<times> 'v store \<times> 'v DeltaAppender" where
  "prepareArrowView env t a fieldOffset fieldIndices db =
     (if torn a > 0 then (Inl (Panic ''record columns have different lengths''), db, a)
      else
        let names = map col_name (app_schema a);
            rows = map cells (app_rows a);
            b = (if fieldOffset > 0 then
                   \<lparr>header = drop fieldOffset names, batch_rows = map (drop fieldOffset) rows\<rparr>
                 else if fieldIndices \<noteq> [] then
                   \<lparr>header = map ((!) names) fieldIndices, batch_rows = map (\<lambda>r. map ((!) r) fieldIndices) rows\<rparr>
                 else \<lparr>header = names, batch_rows = rows\<rparr>);
            a' = a\<lparr>app_rows := []\<rparr>;
            v = delta_view_name env t
        in case env_exec env db (RegisterView v b) of
             (Inl e, db') \<Rightarrow> (Inl (Error e), db', a')
           | (Inr _, db') \<Rightarrow> (Inr v, db', a'))"

text \<open>Deferred statements; their errors are ignored.\<close>

definition run_ignored :: "'v delta_env \<Rightarrow> 'v op \<Rightarrow> 'v store \<Rightarrow> 'v store" where
  "run_ignored env oper db = snd (env_exec env db oper)"

record FlushStats =
  DeltaSize :: nat
  Insertions :: nat
  Deletions :: nat

type_synonym 'v flushed = "go_error option \<times> 'v store \<times> FlushStats \<times> 'v DeltaAppender"

definition add_insertions :: "nat \<Rightarrow> FlushStats \<Rightarrow> FlushStats" where
  "add_insertions n st = st\<lparr>Insertions := Insertions st + n\<rparr>"

definition add_deletions :: "nat \<Rightarrow> FlushStats \<Rightarrow> FlushStats" where
  "add_deletions n st = st\<lparr>Deletions := Deletions st + n\<rparr>"

definition add_delta :: "nat \<Rightarrow> FlushStats \<Rightarrow> FlushStats" where
  "add_delta n st = st\<lparr>DeltaSize := DeltaSize st + n\<rparr>"

definition handleInsertOnly ::
    "'v delta_env \<Rightarrow> tableIdentifier \<Rightarrow> 'v DeltaAppender \<Rightarrow> FlushStats \<Rightarrow> 'v store \<Rightarrow> 'v flushed" where
  "handleInsertOnly env t a st db =
     (case prepareArrowView env t a NumAugmentedFields [] db of
        (Inl e, db', a') \<Rightarrow> (Some e, db', st, a')
      | (Inr v, db', a') \<Rightarrow>
          (case env_exec env db' (InsertSelect t (buildColumnList env (BaseSchema a')) v) of
             (Inl e, db'') \<Rightarrow> (Some (Error e), run_ignored env (DropView v) db'', st, a')
           | (Inr k, db'') \<Rightarrow>
               (None, run_ignored env (DropView v) db'', add_delta k (add_insertions k st), a')))"

definition handleDeleteOnly ::
    "'v delta_env \<Rightarrow> tableIdentifier \<Rightarrow> 'v DeltaAppender \<Rightarrow> FlushStats \<Rightarrow> 'v store \<Rightarrow> 'v flushed" where
  "handleDeleteOnly env t a st db =
     (case prepareArrowView env t a 0 (getPrimaryKeyIndices a) db of
        (Inl e, db', a') \<Rightarrow> (Some e, db', st, a')
      | (Inr v, db', a') \<Rightarrow>
          (case env_exec env db' (DeleteInView t (getPrimaryKeyList (BaseSchema a')) v) of
             (Inl e, db'') \<Rightarrow> (Some (Error e), run_ignored env (DropView v) db'', st, a')
           | (Inr k, db'') \<Rightarrow>
               (None, run_ignored env (DropView v) db'', add_delta k (add_deletions k st), a')))"

definition handleZeroDelete ::
    "'v delta_env \<Rightarrow> tableIdentifier \<Rightarrow> 'v DeltaAppender \<Rightarrow> FlushStats \<Rightarrow> 'v store \<Rightarrow> 'v flushed" where
  "handleZeroDelete env t a st db =
     (case prepareArrowView env t a 0 [] db of
        (Inl e, db', a') \<Rightarrow> (Some e, db', st, a')
      | (Inr v, db', a') \<Rightarrow>
          (case env_exec env db' (UpsertCondensed t AugmentedColumnList (buildCondenseDeltaSQL env v a')) of
             (Inl e, db'') \<Rightarrow> (Some (Error e), run_ignored env (DropView v) db'', st, a')
           | (Inr k, db'') \<Rightarrow>
               (None, run_ignored env (DropView v) db'', add_delta k (add_insertions k st), a')))"

definition materializeCondensedDelta ::
    "'v delta_env \<Rightarrow> tableIdentifier \<Rightarrow> 'v DeltaAppender \<Rightarrow> FlushStats \<Rightarrow> 'v store \<Rightarrow> 'v flushed" where
  "materializeCondensedDelta env t a st db =
     (case prepareArrowView env t a 0 [] db of
        (Inl e, db', a') \<Rightarrow> (Some e, db', st, a')
      | (Inr v, db', a') \<Rightarrow>
          (case env_exec env db' (CreateDelta (buildCondenseDeltaSQL env v a')) of
             (Inl e, db'') \<Rightarrow> (Some (Error e), run_ignored env (DropView v) db'', st, a')
           | (Inr k, db'') \<Rightarrow> (None, run_ignored env (DropView v) db'', add_delta k st, a')))"

definition handleGeneralCase ::
    "'v delta_env \<Rightarrow> tableIdentifier \<Rightarrow> 'v DeltaAppender \<Rightarrow> FlushStats \<Rightarrow> 'v store \<Rightarrow> 'v flushed" where
  "handleGeneralCase env t a st db =
     (case materializeCondensedDelta env t a st db of
        (Some e, db', st', a') \<Rightarrow> (Some e, db', st', a')
      | (None, db', st', a') \<Rightarrow>
          (case env_exec env db' (UpsertDelta t AugmentedColumnList (row_event_code InsertRowEvent)) of
             (Inl e, db'') \<Rightarrow> (Some (Error e), run_ignored env DropDelta db'', st', a')
           | (Inr k, db'') \<Rightarrow>
               (let st'' = add_insertions k st' in
                case env_exec env db'' (DeleteInDelta t (getPrimaryKeyList (BaseSchema a'))
                                          (Some (row_event_code DeleteRowEvent))) of
                  (Inl e, db3) \<Rightarrow> (Some (Error e), run_ignored env DropDelta db3, st'', a')
                | (Inr n, db3) \<Rightarrow> (None, run_ignored env DropDelta db3, add_deletions n st'', a'))))"

definition handleWithoutIndex ::
    "'v delta_env \<Rightarrow> tableIdentifier \<Rightarrow> 'v DeltaAppender \<Rightarrow> FlushStats \<Rightarrow> 'v store \<Rightarrow> 'v flushed" where
  "handleWithoutIndex env t a st db =
     (case materializeCondensedDelta env t a st db of
        (Some e, db', st', a') \<Rightarrow> (Some e, db', st', a')
      | (None, db', st', a') \<Rightarrow>
          (case env_exec env db' (DeleteInDelta t (getPrimaryKeyList (BaseSchema a')) None) of
             (Inl e, db'') \<Rightarrow> (Some (Error e), run_ignored env DropDelta db'', st', a')
           | (Inr k, db'') \<Rightarrow>
               (let st'' = add_deletions k st' in
                case env_exec env db'' (InsertDelta t AugmentedColumnList (row_event_code InsertRowEvent)) of
                  (Inl e, db3) \<Rightarrow> (Some (Error e), run_ignored env DropDelta db3, st'', a')
                | (Inr n, db3) \<Rightarrow> (None, run_ignored env DropDelta db3, add_insertions n st'', a'))))"

text \<open>
  \<^verbatim>\<open>updateTable\<close>; \<open>tx\<close> tells whether a transaction was passed, \<open>withoutIndex\<close> is the setting of
  \<^verbatim>\<open>IsReplicationWithoutIndex\<close>. The counters are reset on every return after the first check.
\<close>

definition update_case ::
    "'v delta_env \<Rightarrow> bool \<Rightarrow> tableIdentifier \<Rightarrow> 'v DeltaAppender \<Rightarrow> FlushStats \<Rightarrow> 'v store \<Rightarrow> 'v flushed" where
  "update_case env withoutIndex t a st db =
     (let hasInserts = event_insert (app_counters a) > 0;
          hasDeletes = event_delete (app_counters a) > 0;
          hasUpdates = event_update (app_counters a) > 0
      in if hasInserts \<and> \<not> hasDeletes \<and> \<not> hasUpdates then handleInsertOnly env t a st db
         else if hasDeletes \<and> \<not> hasInserts \<and> \<not> hasUpdates then handleDeleteOnly env t a st db
         else if action_delete (app_counters a) = 0 \<and> \<not> withoutIndex then handleZeroDelete env t a st db
         else if withoutIndex then handleWithoutIndex env t a st db
         else handleGeneralCase env t a st db)"

definition updateTable ::
    "'v delta_env \<Rightarrow> bool \<Rightarrow> bool \<Rightarrow> tableIdentifier \<Rightarrow> 'v DeltaAppender \<Rightarrow> FlushStats \<Rightarrow> 'v store \<Rightarrow> 'v flushed"
where
  "updateTable env withoutIndex tx t a st db =
     (if \<not> tx then (Some (Error ''no active transaction''), db, st, a)
      else
        let (e, db', st', a') = update_case env withoutIndex t a st db
        in (e, db', st', ResetCounters a'))"

section \<open>The controller\<close>

text \<open>
  The map of appenders is a list of entries; Go iterates over a map in an unspecified order, so
  nothing below depends on the order of the entries.
\<close>

type_synonym 'v controller = "(tableIdentifier \<times> 'v DeltaAppender) list"

definition NewController :: "'v controller" where
  "NewController = []"

definition GetDeltaAppender ::
    "'v controller \<Rightarrow> tableIdentifier \<Rightarrow> schema \<Rightarrow> ('v DeltaAppender \<times> 'v controller) res" where
  "GetDeltaAppender c t sch =
     (case map_of c t of
        Some a \<Rightarrow> Inr (a, c)
      | None \<Rightarrow> bind_res (newDeltaAppender sch) (\<lambda>a. Inr (a, (t, a) # c)))"

definition Close :: "'v controller \<Rightarrow> 'v controller" where
  "Close c = []"

text \<open>The appender of a table is shared by reference: a client that appended to it sees its entry change.\<close>

definition put_appender :: "tableIdentifier \<Rightarrow> 'v DeltaAppender \<Rightarrow> 'v controller \<Rightarrow> 'v controller" where
  "put_appender t a c = map (\<lambda>(t', a'). if t' = t then (t', a) else (t', a')) c"

fun flush_tables ::
    "'v delta_env \<Rightarrow> bool \<Rightarrow> bool \<Rightarrow> FlushReason \<Rightarrow> 'v controller \<Rightarrow> FlushStats \<Rightarrow> 'v store \<Rightarrow>
       go_error option \<times> 'v store \<times> FlushStats \<times> 'v controller" where
  "flush_tables env wi tx reason [] st db = (None, db, st, [])"
| "flush_tables env wi tx reason ((t, a) # rest) st db =
     (case (if RowCount a > 0 then updateTable env wi tx t a st db else (None, db, st, a)) of
        (Some e, db', st', a') \<Rightarrow> (Some e, db', st', (t, a') # rest)
      | (None, db', st', a') \<Rightarrow>
          (let (e, db'', st'', rest') = flush_tables env wi tx reason rest st' db'
           in (e, db'', st'', if reason = DDLStmtFlushReason then rest' else (t, a') # rest')))"

definition zero_stats :: FlushStats where
  "zero_stats = \<lparr>DeltaSize = 0, Insertions = 0, Deletions = 0\<rparr>"

definition Flush ::
    "'v delta_env \<Rightarrow> bool \<Rightarrow> bool \<Rightarrow> FlushReason \<Rightarrow> 'v controller \<Rightarrow> 'v store \<Rightarrow>
       go_error option \<times> 'v store \<times> FlushStats \<times> 'v controller" where
  "Flush env withoutIndex tx reason c db = flush_tables env withoutIndex tx reason c zero_stats db"

end
