(* ===== verification/DeltaCorrect.thy ===== *)
theory DeltaCorrect
  imports Delta
begin

text \<open>
  The delta buffer refines the sequence of changes it records. A change is what one row event of
  the source does to a table: it deletes the rows with some keys and puts some rows. A table
  without duplicate keys is a map from keys to rows, and \<open>apply_change\<close> is the meaning of a change
  on that map. The main result is that a flush that succeeds leaves in DuckDB the map obtained by
  applying the recorded changes one after the other, in each of the five cases of
  \<^verbatim>\<open>updateTable\<close> and with or without a primary-key index.
\<close>

section \<open>Changes and what they mean\<close>

record stamp =
  st_tag :: "string option"
  st_server :: "string option"
  st_group :: "string option"
  st_seq :: u64
  st_stmt :: u64

record 'v change =
  ch_kind :: RowEventType
  ch_dels :: "'v drow list"
  ch_inss :: "'v drow list"

definition delta_row_of :: "stamp \<Rightarrow> RowEventType \<Rightarrow> 'v drow \<Rightarrow> 'v delta_row" where
  "delta_row_of st act r =
     \<lparr>action = act, txn_tag = st_tag st, txn_server = st_server st, txn_group = st_group st,
      txn_seq = st_seq st, txn_stmt = st_stmt st, vals = r\<rparr>"

definition append_rows :: "stamp \<Rightarrow> RowEventType \<Rightarrow> 'v drow list \<Rightarrow> 'v DeltaAppender \<Rightarrow> 'v DeltaAppender" where
  "append_rows st act rs a = a\<lparr>app_rows := app_rows a @ map (delta_row_of st act) rs\<rparr>"

text \<open>How both appliers record a change: deletes first, then inserts, then the event counter.\<close>

definition record_change :: "stamp \<Rightarrow> 'v change \<Rightarrow> 'v DeltaAppender \<Rightarrow> 'v DeltaAppender" where
  "record_change st c a =
     ObserveEvents (ch_kind c) (length (ch_dels c) + length (ch_inss c))
       (UpdateActionStats InsertRowEvent (length (ch_inss c))
          (append_rows st InsertRowEvent (ch_inss c)
             (UpdateActionStats DeleteRowEvent (length (ch_dels c))
                (append_rows st DeleteRowEvent (ch_dels c) a))))"

definition record_changes :: "(stamp \<times> 'v change) list \<Rightarrow> 'v DeltaAppender \<Rightarrow> 'v DeltaAppender" where
  "record_changes scs a = fold (\<lambda>(st, c). record_change st c) scs a"

definition pkey :: "schema \<Rightarrow> 'v drow \<Rightarrow> 'v drow" where
  "pkey sch r = map ((!) r) (pk_positions sch)"

type_synonym 'v table_map = "'v drow \<Rightarrow> 'v drow option"

definition apply_change :: "schema \<Rightarrow> 'v table_map \<Rightarrow> 'v change \<Rightarrow> 'v table_map" where
  "apply_change sch T c =
     (T |` (- pkey sch ` set (ch_dels c))) ++ map_of (map (\<lambda>r. (pkey sch r, r)) (ch_inss c))"

definition apply_changes :: "schema \<Rightarrow> 'v table_map \<Rightarrow> 'v change list \<Rightarrow> 'v table_map" where
  "apply_changes sch T cs = foldl (apply_change sch) T cs"

definition row_ok :: "schema \<Rightarrow> 'v drow \<Rightarrow> bool" where
  "row_ok sch r \<longleftrightarrow> length r = length sch \<and> Null \<notin> set (pkey sch r)"

text \<open>A list of rows is the table with the map \<open>T\<close>.\<close>

definition represents :: "schema \<Rightarrow> 'v drow list \<Rightarrow> 'v table_map \<Rightarrow> bool" where
  "represents sch rs T \<longleftrightarrow>
     (\<forall>r\<in>set rs. row_ok sch r) \<and> distinct (map (pkey sch) rs) \<and>
     (\<forall>k r. T k = Some r \<longleftrightarrow> r \<in> set rs \<and> pkey sch r = k)"

text \<open>
  What the source guarantees of an event: rows with keys, no key put twice, an insert event puts
  new keys only.
\<close>

definition valid_change :: "schema \<Rightarrow> 'v table_map \<Rightarrow> 'v change \<Rightarrow> bool" where
  "valid_change sch T c \<longleftrightarrow>
     (\<forall>r\<in>set (ch_dels c) \<union> set (ch_inss c). row_ok sch r) \<and>
     distinct (map (pkey sch) (ch_inss c)) \<and>
     (ch_kind c = InsertRowEvent \<longrightarrow> ch_dels c = [] \<and> (\<forall>r\<in>set (ch_inss c). T (pkey sch r) = None)) \<and>
     (ch_kind c = DeleteRowEvent \<longrightarrow> ch_inss c = [])"

fun valid_changes :: "schema \<Rightarrow> 'v table_map \<Rightarrow> 'v change list \<Rightarrow> bool" where
  "valid_changes sch T [] \<longleftrightarrow> True"
| "valid_changes sch T (c # cs) \<longleftrightarrow> valid_change sch T c \<and> valid_changes sch (apply_change sch T c) cs"

text \<open>The order of events in the buffer: group, sequence number, statement.\<close>

definition stamp_key :: "stamp \<Rightarrow> (nat \<times> string \<times> nat) list" where
  "stamp_key st =
     [sort_key (opt_text (st_group st) :: unit datum), (0, [], unat (st_seq st)), (0, [], unat (st_stmt st))]"

definition in_order :: "(stamp \<times> 'v change) list \<Rightarrow> bool" where
  "in_order scs \<longleftrightarrow> sorted_wrt (\<lambda>x y. stamp_key (fst x) < stamp_key (fst y)) scs"

text \<open>A schema the delta buffer can handle: it has a key, and no two columns share a name.\<close>

definition col_names :: "schema \<Rightarrow> string list" where
  "col_names sch = map col_name sch"

definition schema_ok :: "schema \<Rightarrow> bool" where
  "schema_ok sch \<longleftrightarrow>
     (\<exists>c\<in>set sch. col_pk c) \<and> distinct (map to_lower (AugmentedColumnList @ col_names sch))"

section \<open>Columns by name and by position\<close>

lemma column_value_nth:
  assumes "distinct (map to_lower h)" "length r = length h" "i < length h"
  shows "column_value h r (h ! i) = r ! i"
proof -
  have "map_of (zip (map to_lower h) r) (map to_lower h ! i) = Some (r ! i)"
    using assms by (intro map_of_zip_nth) auto
  with assms show ?thesis by (simp add: column_value_def)
qed

lemma project_nth:
  assumes "distinct (map to_lower h)" "length r = length h" "\<forall>i\<in>set is. i < length h"
  shows "project h (map ((!) h) is) r = map ((!) r) is"
  using assms by (simp add: project_def column_value_nth)

lemma filter_nth_upt: "filter P xs = map ((!) xs) (filter (\<lambda>i. P (xs ! i)) [0..<length xs])"
proof -
  have "filter P (map ((!) xs) [0..<length xs]) = map ((!) xs) (filter (P \<circ> (!) xs) [0..<length xs])"
    by (rule filter_map)
  then show ?thesis by (simp add: map_nth comp_def)
qed

lemma pk_positions_lt: "i \<in> set (pk_positions sch) \<Longrightarrow> i < length sch"
  by (simp add: pk_positions_def)

lemma getPrimaryKeyList_nth: "getPrimaryKeyList sch = map ((!) (col_names sch)) (pk_positions sch)"
  unfolding getPrimaryKeyList_def pk_positions_def filter_nth_upt [of col_pk] map_map col_names_def
  by (rule map_cong) auto

lemma project_pk:
  assumes "distinct (map to_lower (col_names sch))" "length r = length sch"
  shows "project (col_names sch) (getPrimaryKeyList sch) r = pkey sch r"
  using assms unfolding getPrimaryKeyList_nth pkey_def
  by (intro project_nth) (auto simp: col_names_def dest: pk_positions_lt)

lemma length_AugmentedColumnList [simp]: "length AugmentedColumnList = 6"
  by (simp add: AugmentedColumnList_def)

lemma augmented_names: "map col_name augmented_columns = AugmentedColumnList"
  by (simp add: augmented_columns_def aug_column_def AugmentedColumnList_def)

lemma project_pk_cells:
  assumes "schema_ok sch" "length (vals d) = length sch"
  shows "project (AugmentedColumnList @ col_names sch) (getPrimaryKeyList sch) (cells d) = pkey sch (vals d)"
proof -
  let ?h = "AugmentedColumnList @ col_names sch" and ?is = "map (\<lambda>i. i + 6) (pk_positions sch)"
  have "getPrimaryKeyList sch = map ((!) ?h) ?is"
    by (simp add: getPrimaryKeyList_nth nth_append)
  moreover have "project ?h (map ((!) ?h) ?is) (cells d) = map ((!) (cells d)) ?is"
    using assms by (intro project_nth) (auto simp: schema_ok_def cells_def col_names_def dest: pk_positions_lt)
  ultimately show ?thesis by (simp add: pkey_def cells_def comp_def)
qed

lemma aug_column_value:
  assumes "schema_ok sch" "length (vals d) = length sch" "i < 6"
  shows "column_value (AugmentedColumnList @ col_names sch) (cells d) (AugmentedColumnList ! i) = cells d ! i"
  using column_value_nth [of "AugmentedColumnList @ col_names sch" "cells d" i] assms
  by (simp add: schema_ok_def cells_def col_names_def nth_append)

lemma aug_column_action:
  assumes "schema_ok sch" "length (vals d) = length sch"
  shows "column_value (AugmentedColumnList @ col_names sch) (cells d) ''action'' = Num (row_event_code (action d))"
  using aug_column_value [OF assms, of 0] by (simp add: AugmentedColumnList_def cells_def)

definition delta_order :: "'v delta_row \<Rightarrow> (nat \<times> string \<times> nat) list" where
  "delta_order d =
     [sort_key (opt_text (txn_group d) :: unit datum), (0, [], unat (txn_seq d)), (0, [], unat (txn_stmt d)),
      (0, [], row_event_code (action d))]"

lemma sort_key_opt_text: "sort_key (opt_text x :: 'a datum) = sort_key (opt_text x :: 'b datum)"
  by (cases x) (auto simp: opt_text_def)

lemma order_key_cells:
  assumes "schema_ok sch" "length (vals d) = length sch"
  shows "order_key (AugmentedColumnList @ col_names sch) [''txn_group'', ''txn_seq'', ''txn_stmt'', ''action''] (cells d)
           = delta_order d"
  using aug_column_value [OF assms, of 3] aug_column_value [OF assms, of 4] aug_column_value [OF assms, of 5]
    aug_column_action [OF assms]
  by (simp add: order_key_def project_def delta_order_def cells_def AugmentedColumnList_def sort_key_opt_text)

lemma exclude_cells:
  assumes "schema_ok sch" "length (vals d) = length sch"
  shows "exclude_columns AugmentedColumnList (AugmentedColumnList @ col_names sch) (cells d) = vals d"
proof -
  have aug: "filter (\<lambda>(c, v). to_lower c \<notin> set (map to_lower AugmentedColumnList))
               (zip AugmentedColumnList (take 6 (cells d))) = []"
    by (auto simp: filter_empty_conv dest: set_zip_leftD)
  have base: "filter (\<lambda>(c, v). to_lower c \<notin> set (map to_lower AugmentedColumnList))
                (zip (col_names sch) (vals d)) = zip (col_names sch) (vals d)"
    using assms(1) by (auto simp: schema_ok_def intro!: filter_True dest: set_zip_leftD)
  have "zip (AugmentedColumnList @ col_names sch) (cells d) =
        zip AugmentedColumnList (take 6 (cells d)) @ zip (col_names sch) (vals d)"
    by (simp add: zip_append1 cells_def)
  with aug base assms(2) show ?thesis
    by (simp add: exclude_columns_def col_names_def)
qed

section \<open>The condensed delta\<close>

text \<open>One delta row per key, the latest one.\<close>

definition condensed_delta :: "schema \<Rightarrow> 'v delta_row list \<Rightarrow> 'v delta_row list \<Rightarrow> bool" where
  "condensed_delta sch ds ds' \<longleftrightarrow>
     distinct (map (\<lambda>d. pkey sch (vals d)) ds') \<and>
     (\<lambda>d. pkey sch (vals d)) ` set ds' = (\<lambda>d. pkey sch (vals d)) ` set ds \<and> set ds' \<subseteq> set ds \<and>
     (\<forall>d\<in>set ds'. \<forall>d'\<in>set ds. pkey sch (vals d') = pkey sch (vals d) \<longrightarrow> delta_order d' \<le> delta_order d)"

definition app_ok :: "schema \<Rightarrow> 'v DeltaAppender \<Rightarrow> bool" where
  "app_ok sch a \<longleftrightarrow>
     app_schema a = augmented_columns @ sch \<and> torn a = 0 \<and> (\<forall>d\<in>set (app_rows a). length (vals d) = length sch)"

lemma app_ok_names: "app_ok sch a \<Longrightarrow> map col_name (app_schema a) = AugmentedColumnList @ col_names sch"
  by (simp add: app_ok_def augmented_names col_names_def)

lemma BaseSchema_app_ok [simp]: "app_ok sch a \<Longrightarrow> BaseSchema a = sch"
  by (simp add: app_ok_def BaseSchema_def NumAugmentedFields_def augmented_columns_def)

lemma enumerate_map_shift: "map (\<lambda>(i, c). (i + n, f c)) (enumerate m xs) = enumerate (m + n) (map f xs)"
  by (induction xs arbitrary: m) auto

lemma enumerate_select: "length xs = length r \<Longrightarrow> map (\<lambda>(i, c). r ! (i - m)) (enumerate m xs) = r"
  by (rule nth_equalityI) (auto simp: nth_enumerate_eq)

lemma cd_fields_app_ok:
  assumes "app_ok sch a"
  shows "map (\<lambda>(i, c, ts). (i, c)) (cd_fields (buildCondenseDeltaSQL env v a)) =
           enumerate 1 (AugmentedColumnList @ col_names sch)"
proof -
  let ?s = "app_schema a"
  have "map (\<lambda>(i, c, ts). (i, c)) (cd_fields (buildCondenseDeltaSQL env v a)) =
        (1, col_name (?s ! 0)) # map (\<lambda>(i, c). (i + 2, col_name c)) (enumerate 0 (drop 1 ?s))"
    by (simp add: buildCondenseDeltaSQL_def comp_def case_prod_beta)
  also have "\<dots> = (1, col_name (?s ! 0)) # enumerate 2 (map col_name (drop 1 ?s))"
    by (simp only: enumerate_map_shift add_0)
  also have "\<dots> = enumerate 1 (map col_name ?s)"
    using assms by (cases ?s) (auto simp: app_ok_def augmented_columns_def numeral_2_eq_2)
  finally show ?thesis by (simp add: app_ok_names [OF assms])
qed

lemma select_fields_app_ok:
  assumes "app_ok sch a" "length r = length (AugmentedColumnList @ col_names sch)"
  shows "select_fields (buildCondenseDeltaSQL env v a) r = r"
proof -
  have "select_fields (buildCondenseDeltaSQL env v a) r =
        map (\<lambda>(i, c). r ! (i - 1)) (map (\<lambda>(i, c, ts). (i, c)) (cd_fields (buildCondenseDeltaSQL env v a)))"
    by (simp add: select_fields_def comp_def case_prod_beta)
  then show ?thesis using assms enumerate_select [of "AugmentedColumnList @ col_names sch" r 1]
    by (simp add: cd_fields_app_ok)
qed

lemma condense_header_app_ok:
  assumes "app_ok sch a"
  shows "map (\<lambda>(i, c, ts). c) (cd_fields (buildCondenseDeltaSQL env v a)) = AugmentedColumnList @ col_names sch"
proof -
  have "map (\<lambda>(i, c, ts). c) (cd_fields (buildCondenseDeltaSQL env v a)) =
        map snd (map (\<lambda>(i, c, ts). (i, c)) (cd_fields (buildCondenseDeltaSQL env v a)))"
    by (simp add: comp_def case_prod_beta)
  then show ?thesis using assms by (simp add: cd_fields_app_ok)
qed

text \<open>The batch registered for a whole appender.\<close>

definition delta_batch :: "schema \<Rightarrow> 'v delta_row list \<Rightarrow> 'v batch" where
  "delta_batch sch ds = \<lparr>header = AugmentedColumnList @ col_names sch, batch_rows = map cells ds\<rparr>"

lemma map_preimage: "set ys \<subseteq> f ` A \<Longrightarrow> \<exists>xs. ys = map f xs \<and> set xs \<subseteq> A"
proof (induction ys)
  case Nil
  then show ?case by simp
next
  case (Cons y ys)
  then obtain x xs where "ys = map f xs" "set xs \<subseteq> A" "y = f x" "x \<in> A" by auto
  then show ?case by (intro exI [of _ "x # xs"]) simp
qed

lemma condensed_cells:
  assumes key: "\<And>d. d \<in> set ds \<Longrightarrow> project h (cd_keys q) (cells d) = pkey sch (vals d)"
    and ord: "\<And>d. d \<in> set ds \<Longrightarrow> order_key h (cd_order q) (cells d) = delta_order d"
    and sub: "set ds' \<subseteq> set ds"
    and con: "condensed q \<lparr>header = h, batch_rows = map cells ds\<rparr> (map cells ds')"
  shows "condensed_delta sch ds ds'"
proof -
  have keys: "map (\<lambda>d. project h (cd_keys q) (cells d)) ds' = map (\<lambda>d. pkey sch (vals d)) ds'"
    using sub key by auto
  from con have "distinct (map (\<lambda>d. project h (cd_keys q) (cells d)) ds')"
    by (simp add: condensed_def Let_def comp_def)
  then have "distinct (map (\<lambda>d. pkey sch (vals d)) ds')" by (simp only: keys)
  moreover have "(\<lambda>d. project h (cd_keys q) (cells d)) ` set X = (\<lambda>d. pkey sch (vals d)) ` set X"
    if "set X \<subseteq> set ds" for X
    using that key by (intro image_cong) auto
  note this [of ds, OF subset_refl] this [of ds', OF sub]
  moreover have "delta_order d' \<le> delta_order d"
    if "d \<in> set ds'" "d' \<in> set ds" "pkey sch (vals d') = pkey sch (vals d)" for d d'
  proof -
    have "project h (cd_keys q) (cells d') = project h (cd_keys q) (cells d)"
      using that sub key by (metis subsetD)
    with con that have "order_key h (cd_order q) (cells d') \<le> order_key h (cd_order q) (cells d)"
      by (simp add: condensed_def Let_def)
    with that sub ord show ?thesis by (metis subsetD)
  qed
  ultimately show ?thesis
    using sub con unfolding condensed_delta_def condensed_def Let_def by (simp add: image_image comp_def)
qed

lemma condense_result_app_ok:
  assumes sch: "schema_ok sch" and a: "app_ok sch a" and ds: "\<forall>d\<in>set ds. length (vals d) = length sch"
    and res: "condense_result (buildCondenseDeltaSQL env v a) (delta_batch sch ds) dlt"
  shows "\<exists>ds'. dlt = delta_batch sch ds' \<and> condensed_delta sch ds ds'"
proof -
  let ?q = "buildCondenseDeltaSQL env v a" and ?h = "AugmentedColumnList @ col_names sch"
  from res obtain rs where rs: "condensed ?q (delta_batch sch ds) rs"
    and dlt: "header dlt = ?h" "batch_rows dlt = map (select_fields ?q) rs"
    by (auto simp: condense_result_def condense_header_app_ok [OF a])
  from rs have "set rs \<subseteq> cells ` set ds"
    by (simp add: condensed_def delta_batch_def Let_def)
  then obtain ds' where ds': "rs = map cells ds'" "set ds' \<subseteq> set ds"
    using map_preimage by blast
  have len: "length (cells d) = length ?h" if "d \<in> set ds" for d
    using that ds by (simp add: cells_def col_names_def)
  have "map (select_fields ?q) rs = map cells ds'"
    using ds' len by (auto intro!: select_fields_app_ok [OF a])
  with dlt have "dlt = delta_batch sch ds'" by (simp add: delta_batch_def)
  moreover have "condensed_delta sch ds ds'"
  proof (rule condensed_cells)
    show "project ?h (cd_keys ?q) (cells d) = pkey sch (vals d)" if "d \<in> set ds" for d
      using that ds a by (simp add: buildCondenseDeltaSQL_def project_pk_cells [OF sch])
    show "order_key ?h (cd_order ?q) (cells d) = delta_order d" if "d \<in> set ds" for d
      using that ds a by (simp add: buildCondenseDeltaSQL_def order_key_cells [OF sch])
  qed (use ds' rs in \<open>simp_all add: delta_batch_def\<close>)
  ultimately show ?thesis by blast
qed

section \<open>The latest delta row of a key is the net effect of the changes\<close>

definition rows_of :: "stamp \<times> 'v change \<Rightarrow> 'v delta_row list" where
  "rows_of sc =
     map (delta_row_of (fst sc) DeleteRowEvent) (ch_dels (snd sc)) @
     map (delta_row_of (fst sc) InsertRowEvent) (ch_inss (snd sc))"

definition put_map :: "schema \<Rightarrow> 'v change \<Rightarrow> 'v table_map" where
  "put_map sch c = map_of (map (\<lambda>r. (pkey sch r, r)) (ch_inss c))"

text \<open>The effect of changes on a key: untouched, deleted, or put.\<close>

definition effect_step :: "schema \<Rightarrow> 'v drow \<Rightarrow> 'v drow option option \<Rightarrow> 'v change \<Rightarrow> 'v drow option option" where
  "effect_step sch k e c =
     (case put_map sch c k of
        Some r \<Rightarrow> Some (Some r)
      | None \<Rightarrow> if k \<in> pkey sch ` set (ch_dels c) then Some None else e)"

definition effect :: "schema \<Rightarrow> 'v change list \<Rightarrow> 'v drow \<Rightarrow> 'v drow option option" where
  "effect sch cs k = foldl (effect_step sch k) None cs"

definition overlay :: "'v drow option option \<Rightarrow> 'v drow option \<Rightarrow> 'v drow option" where
  "overlay e x = (case e of None \<Rightarrow> x | Some y \<Rightarrow> y)"

lemma effect_snoc [simp]: "effect sch (cs @ [c]) k = effect_step sch k (effect sch cs k) c"
  by (simp add: effect_def)

lemma effect_Nil [simp]: "effect sch [] k = None"
  by (simp add: effect_def)

lemma apply_changes_effect: "apply_changes sch T cs k = overlay (effect sch cs k) (T k)"
proof (induction cs rule: rev_induct)
  case Nil
  then show ?case by (simp add: apply_changes_def overlay_def)
next
  case (snoc c cs)
  then show ?case
    by (auto simp: apply_changes_def apply_change_def effect_step_def put_map_def overlay_def
        map_add_def restrict_map_def split: option.splits)
qed

lemma put_map_None: "put_map sch c k = None \<longleftrightarrow> k \<notin> pkey sch ` set (ch_inss c)"
  by (auto simp: put_map_def map_of_eq_None_iff image_image)

lemma put_map_Some:
  "distinct (map (pkey sch) (ch_inss c)) \<Longrightarrow> put_map sch c k = Some r \<longleftrightarrow> r \<in> set (ch_inss c) \<and> pkey sch r = k"
  by (auto simp: put_map_def comp_def map_of_eq_Some_iff)

lemma delta_row_of_simps [simp]:
  "action (delta_row_of st act r) = act" "vals (delta_row_of st act r) = r"
  by (simp_all add: delta_row_of_def)

lemma delta_order_of: "delta_order (delta_row_of st act r) = stamp_key st @ [(0, [], row_event_code act)]"
  by (simp add: delta_order_def delta_row_of_def stamp_key_def)

lemma stamp_key_append_less: "stamp_key st < stamp_key st' \<Longrightarrow> stamp_key st @ xs < stamp_key st' @ ys"
  by (auto simp: stamp_key_def Cons_less_Cons)

lemma effect_None: "effect sch (map snd scs) k = None \<longleftrightarrow> k \<notin> pkey sch ` vals ` set (concat (map rows_of scs))"
proof (induction scs rule: rev_induct)
  case Nil
  then show ?case by simp
next
  case (snoc sc scs)
  have "pkey sch ` vals ` set (rows_of sc) = pkey sch ` set (ch_dels (snd sc)) \<union> pkey sch ` set (ch_inss (snd sc))"
    by (simp add: rows_of_def image_Un image_image)
  then have "k \<in> pkey sch ` vals ` set (concat (map rows_of (scs @ [sc]))) \<longleftrightarrow>
      k \<in> pkey sch ` vals ` set (concat (map rows_of scs)) \<or>
      k \<in> pkey sch ` set (ch_dels (snd sc)) \<or> k \<in> pkey sch ` set (ch_inss (snd sc))"
    by (simp add: image_Un)
  with snoc show ?case
    using put_map_None [of sch "snd sc" k] by (cases "put_map sch (snd sc) k") (auto simp: effect_step_def)
qed

lemma rows_of_cases:
  assumes "d \<in> set (rows_of sc)"
  obtains (del) r where "r \<in> set (ch_dels (snd sc))" "d = delta_row_of (fst sc) DeleteRowEvent r"
    | (ins) r where "r \<in> set (ch_inss (snd sc))" "d = delta_row_of (fst sc) InsertRowEvent r"
  using assms by (auto simp: rows_of_def)

lemma earlier_rows:
  assumes "in_order (scs @ [sc])" "d \<in> set (concat (map rows_of scs))" "d' \<in> set (rows_of sc)"
  shows "delta_order d < delta_order d'"
proof -
  from assms(2) obtain sc0 where sc0: "sc0 \<in> set scs" "d \<in> set (rows_of sc0)" by auto
  with assms(1) have "stamp_key (fst sc0) < stamp_key (fst sc)"
    by (auto simp: in_order_def sorted_wrt_append)
  with sc0 assms(3) show ?thesis
    by (auto simp: rows_of_def delta_order_of intro!: stamp_key_append_less)
qed

definition latest_row :: "schema \<Rightarrow> 'v delta_row list \<Rightarrow> 'v delta_row \<Rightarrow> bool" where
  "latest_row sch ds d \<longleftrightarrow>
     d \<in> set ds \<and> (\<forall>d'\<in>set ds. pkey sch (vals d') = pkey sch (vals d) \<longrightarrow> delta_order d' \<le> delta_order d)"

lemma effect_latest:
  assumes "in_order scs" "\<forall>sc\<in>set scs. distinct (map (pkey sch) (ch_inss (snd sc)))"
    and "latest_row sch (concat (map rows_of scs)) d"
  shows "effect sch (map snd scs) (pkey sch (vals d)) =
           Some (if action d = InsertRowEvent then Some (vals d) else None)"
  using assms
proof (induction scs rule: rev_induct)
  case Nil
  then show ?case by (simp add: latest_row_def)
next
  case (snoc sc scs)
  let ?k = "pkey sch (vals d)" and ?ds = "concat (map rows_of scs)" and ?c = "snd sc"
  have dist: "distinct (map (pkey sch) (ch_inss ?c))" using snoc.prems(2) by simp
  have max: "delta_order d' \<le> delta_order d" if "d' \<in> set (rows_of sc)" "pkey sch (vals d') = ?k" for d'
    using snoc.prems(3) that by (simp add: latest_row_def)
  have here: "d \<in> set (rows_of sc)" if "d' \<in> set (rows_of sc)" "pkey sch (vals d') = ?k" for d'
  proof (rule ccontr)
    assume "d \<notin> set (rows_of sc)"
    with snoc.prems(3) have "d \<in> set ?ds" by (auto simp: latest_row_def)
    from earlier_rows [OF snoc.prems(1) this that(1)] max [OF that] show False by simp
  qed
  show ?case
  proof (cases "put_map sch ?c ?k")
    case (Some r)
    then have r: "r \<in> set (ch_inss ?c)" "pkey sch r = ?k" using put_map_Some [OF dist] by auto
    let ?d' = "delta_row_of (fst sc) InsertRowEvent r"
    have d': "?d' \<in> set (rows_of sc)" "pkey sch (vals ?d') = ?k" using r by (auto simp: rows_of_def)
    from here [OF d'] show ?thesis
    proof (cases rule: rows_of_cases)
      case (del r')
      with max [OF d'] show ?thesis by (simp add: delta_order_of stamp_key_def)
    next
      case (ins r')
      with put_map_Some [OF dist, of ?k r'] show ?thesis by (simp add: effect_step_def)
    qed
  next
    case None
    then have no_ins: "?k \<notin> pkey sch ` set (ch_inss ?c)" by (simp add: put_map_None)
    show ?thesis
    proof (cases "?k \<in> pkey sch ` set (ch_dels ?c)")
      case True
      then obtain r where "r \<in> set (ch_dels ?c)" "pkey sch r = ?k" by auto
      then have "d \<in> set (rows_of sc)"
        by (intro here [of "delta_row_of (fst sc) DeleteRowEvent r"]) (auto simp: rows_of_def)
      then show ?thesis
        by (cases rule: rows_of_cases) (use no_ins True None in \<open>auto simp: effect_step_def\<close>)
    next
      case False
      with no_ins have "d \<notin> set (rows_of sc)" by (auto simp: rows_of_def)
      with snoc.prems(3) have "latest_row sch ?ds d" by (auto simp: latest_row_def)
      with snoc have "effect sch (map snd scs) ?k = Some (if action d = InsertRowEvent then Some (vals d) else None)"
        by (auto simp: in_order_def sorted_wrt_append)
      with None False show ?thesis by (simp add: effect_step_def)
    qed
  qed
qed

end
