(* ===== verification/DeltaFlush.thy ===== *)
theory DeltaFlush
  imports DeltaCorrect
begin

text \<open>
  Correctness of \<^verbatim>\<open>updateTable\<close> and \<^verbatim>\<open>Flush\<close>: what the statements of a flush do to the map a table
  holds, the five cases of \<^verbatim>\<open>updateTable\<close>, and the flush of all tables.
\<close>

section \<open>Tables\<close>

lemma represents_perm: "mset rs = mset rs' \<Longrightarrow> represents sch rs T \<longleftrightarrow> represents sch rs' T"
  using mset_eq_imp_distinct_iff [of "map (pkey sch) rs" "map (pkey sch) rs'"] mset_eq_setD [of rs rs']
  by (simp add: represents_def)

lemma deleted_perm: "mset rs = mset rs' \<Longrightarrow> mset (deleted h pks ks rs) = mset (deleted h pks ks rs')"
  by (simp add: deleted_def)

lemma row_ok_not_null: "row_ok sch r \<Longrightarrow> pkey sch r \<noteq> [Null]"
  by (auto simp: row_ok_def)

definition put_rows :: "schema \<Rightarrow> 'v drow list \<Rightarrow> 'v table_map" where
  "put_rows sch rs = map_of (map (\<lambda>r. (pkey sch r, r)) rs)"

lemma put_rows_None: "put_rows sch rs k = None \<longleftrightarrow> k \<notin> pkey sch ` set rs"
  by (auto simp: put_rows_def map_of_eq_None_iff image_image)

lemma put_rows_Some:
  "distinct (map (pkey sch) rs) \<Longrightarrow> put_rows sch rs k = Some r \<longleftrightarrow> r \<in> set rs \<and> pkey sch r = k"
  by (auto simp: put_rows_def comp_def map_of_eq_Some_iff)

lemma represents_delete:
  "represents sch rs T \<Longrightarrow> represents sch (filter (\<lambda>r. pkey sch r \<notin> ks) rs) (T |` (- ks))"
  by (auto simp: represents_def distinct_map_filter restrict_map_def)

lemma represents_put:
  assumes "represents sch rs T" "\<forall>r\<in>set new. row_ok sch r" "distinct (map (pkey sch) new)"
  shows "represents sch (filter (\<lambda>r. pkey sch r \<notin> pkey sch ` set new) rs @ new) (T ++ put_rows sch new)"
proof -
  have "distinct (map (pkey sch) (filter (\<lambda>r. pkey sch r \<notin> pkey sch ` set new) rs @ new))"
    using assms by (auto simp: represents_def distinct_map_filter)
  moreover have "(T ++ put_rows sch new) k = Some r \<longleftrightarrow>
      r \<in> set (filter (\<lambda>r. pkey sch r \<notin> pkey sch ` set new) rs @ new) \<and> pkey sch r = k" for k r
    using assms put_rows_Some [OF assms(3), of k r] put_rows_None [of sch new k]
    by (cases "put_rows sch new k") (auto simp: represents_def map_add_def)
  ultimately show ?thesis using assms by (auto simp: represents_def)
qed

text \<open>The database holds table \<open>t\<close> with the columns and the index it was created with, and the rows of \<open>T\<close>.\<close>

definition holds_table :: "schema \<Rightarrow> bool \<Rightarrow> 'v store \<Rightarrow> tableIdentifier \<Rightarrow> 'v table_map \<Rightarrow> bool" where
  "holds_table sch withoutIndex s t T \<longleftrightarrow>
     (case tables s t of None \<Rightarrow> False
      | Some tab \<Rightarrow>
          tcols tab = col_names sch \<and> tindex tab = (if withoutIndex then None else Some (pk_positions sch)) \<and>
          represents sch (trows tab) T)"

definition same_other_tables :: "tableIdentifier \<Rightarrow> 'v store \<Rightarrow> 'v store \<Rightarrow> bool" where
  "same_other_tables t s s' \<longleftrightarrow> (\<forall>t'. t' \<noteq> t \<longrightarrow> tables s' t' = tables s t')"

lemma holds_table_cong: "tables s' t = tables s t \<Longrightarrow> holds_table sch wi s' t T = holds_table sch wi s t T"
  by (simp add: holds_table_def)

lemma same_other_tables_trans [trans]:
  "same_other_tables t s s' \<Longrightarrow> same_other_tables t s' s'' \<Longrightarrow> same_other_tables t s s''"
  by (simp add: same_other_tables_def)

lemma rows_become_holds:
  assumes "rows_become s t rs s'" "holds_table sch wi s t T" "represents sch rs T'"
  shows "holds_table sch wi s' t T' \<and> same_other_tables t s s'"
proof -
  from assms(1) obtain rs' tab where r: "tables s t = Some tab" "mset rs' = mset rs" "s' = set_rows s t rs'"
    by (auto simp: rows_become_def)
  then have "represents sch rs' T'" using assms(3) represents_perm by blast
  with r assms(2) show ?thesis by (simp add: holds_table_def same_other_tables_def set_rows_def)
qed

text \<open>Deleting by key, inserting and upserting, on the map a table holds.\<close>

lemma deleted_pk:
  assumes "schema_ok sch" "\<forall>r\<in>set rs. row_ok sch r"
  shows "deleted (col_names sch) (getPrimaryKeyList sch) ks rs = filter (\<lambda>r. pkey sch r \<notin> ks) rs"
  unfolding deleted_def
proof (rule filter_cong)
  fix r assume "r \<in> set rs"
  with assms have "project (col_names sch) (getPrimaryKeyList sch) r = pkey sch r" "pkey sch r \<noteq> [Null]"
    by (auto simp: schema_ok_def row_ok_def intro!: project_pk)
  then show "(\<not> in_keys (project (col_names sch) (getPrimaryKeyList sch) r) ks) = (pkey sch r \<notin> ks)"
    by (simp add: in_keys_def)
qed simp

lemma delete_holds:
  assumes "schema_ok sch" "holds_table sch wi s t T"
    and "deleted_step s t (getPrimaryKeyList sch) h src k s'"
  shows "holds_table sch wi s' t (T |` (- project h (getPrimaryKeyList sch) ` set src)) \<and> same_other_tables t s s'"
proof -
  from assms(2) obtain tab where tab: "tables s t = Some tab" "tcols tab = col_names sch" "represents sch (trows tab) T"
    by (auto simp: holds_table_def split: option.splits)
  with assms(1,3) have
    "rows_become s t (filter (\<lambda>r. pkey sch r \<notin> project h (getPrimaryKeyList sch) ` set src) (trows tab)) s'"
    by (simp add: deleted_step_def Let_def deleted_pk represents_def)
  from rows_become_holds [OF this assms(2) represents_delete [OF tab(3)]] show ?thesis .
qed

lemma represents_insert:
  assumes "represents sch rs T" "\<forall>r\<in>set new. row_ok sch r" "distinct (map (pkey sch) new)"
    and "\<forall>r\<in>set new. T (pkey sch r) = None"
  shows "represents sch (rs @ new) (T ++ put_rows sch new)"
proof -
  have "T (pkey sch r) = Some r" if "r \<in> set rs" for r
    using assms(1) that by (simp add: represents_def)
  then have "pkey sch r \<notin> pkey sch ` set new" if "r \<in> set rs" for r
    using that assms(4) by (metis imageE option.distinct(1))
  then have "filter (\<lambda>r. pkey sch r \<notin> pkey sch ` set new) rs = rs"
    by (intro filter_True) blast
  with represents_put [OF assms(1-3)] show ?thesis by simp
qed

lemma insert_holds:
  assumes "holds_table sch wi s t T" "inserted_step s t new k s'"
    and "\<forall>r\<in>set new. row_ok sch r" "distinct (map (pkey sch) new)" "\<forall>r\<in>set new. T (pkey sch r) = None"
  shows "holds_table sch wi s' t (T ++ put_rows sch new) \<and> same_other_tables t s s'"
proof -
  from assms(1) obtain tab where tab: "tables s t = Some tab" "represents sch (trows tab) T"
    by (auto simp: holds_table_def split: option.splits)
  from tab(1) assms(2) have "rows_become s t (trows tab @ new) s'" by (simp add: inserted_step_def)
  from rows_become_holds [OF this assms(1) represents_insert [OF tab(2) assms(3-5)]] show ?thesis .
qed

lemma upsert_holds:
  assumes "holds_table sch False s t T" "upserted_step s t new k s'"
    and "\<forall>r\<in>set new. row_ok sch r" "distinct (map (pkey sch) new)"
  shows "holds_table sch False s' t (T ++ put_rows sch new) \<and> same_other_tables t s s'"
proof -
  from assms(1) obtain tab where tab: "tables s t = Some tab" "tindex tab = Some (pk_positions sch)" "represents sch (trows tab) T"
    by (auto simp: holds_table_def split: option.splits)
  with assms(2) have "rows_become s t (filter (\<lambda>r. pkey sch r \<notin> pkey sch ` set new) (trows tab) @ new) s'"
    by (simp add: upserted_step_def upserted_def pkey_def)
  from rows_become_holds [OF this assms(1) represents_put [OF tab(3) assms(3,4)]] show ?thesis .
qed

lemma rows_become_temp: "rows_become s t rs s' \<Longrightarrow> temp_delta s' = temp_delta s"
  by (auto simp: rows_become_def set_rows_def)

section \<open>Statements of a flush\<close>

lemma run_ignored_tables:
  assumes "sql_sound (env_exec env)"
  shows "tables (run_ignored env (DropView v) db) = tables db" "tables (run_ignored env DropDelta db) = tables db"
  using sql_soundI [OF assms, of db "DropView v"] sql_soundI [OF assms, of db DropDelta]
  by (auto simp: run_ignored_def outcome_def split: prod.splits sum.splits)

lemma run_ignored_view:
  assumes "sql_sound (env_exec env)"
  shows "tables (run_ignored env (DropView v) db) = tables db"
    "temp_delta (run_ignored env (DropView v) db) = temp_delta db"
  using sql_soundI [OF assms, of db "DropView v"]
  by (auto simp: run_ignored_def outcome_def split: prod.splits sum.splits)

text \<open>The view a flush registers: all columns, the base columns, or the key columns.\<close>

lemma prepareArrowView_ok:
  assumes sound: "sql_sound (env_exec env)" and a: "app_ok sch a"
    and res: "prepareArrowView env t a off idx db = (Inr v, db', a')"
  shows "a' = a\<lparr>app_rows := []\<rparr>" "tables db' = tables db"
    and "off = 0 \<Longrightarrow> idx = [] \<Longrightarrow> views db' v = Some (delta_batch sch (app_rows a))"
    and "off = NumAugmentedFields \<Longrightarrow>
           views db' v = Some \<lparr>header = col_names sch, batch_rows = map vals (app_rows a)\<rparr>"
    and "off = 0 \<Longrightarrow> idx = getPrimaryKeyIndices a \<Longrightarrow> idx \<noteq> [] \<Longrightarrow>
           views db' v = Some \<lparr>header = getPrimaryKeyList sch, batch_rows = map (pkey sch \<circ> vals) (app_rows a)\<rparr>"
proof -
  have names: "map col_name (app_schema a) = AugmentedColumnList @ col_names sch"
    using a by (rule app_ok_names)
  define b where "b = (if off > 0 then \<lparr>header = drop off (AugmentedColumnList @ col_names sch),
                                   batch_rows = map (drop off) (map cells (app_rows a))\<rparr>
                 else if idx \<noteq> [] then \<lparr>header = map ((!) (AugmentedColumnList @ col_names sch)) idx,
                                   batch_rows = map (\<lambda>r. map ((!) r) idx) (map cells (app_rows a))\<rparr>
                 else \<lparr>header = AugmentedColumnList @ col_names sch, batch_rows = map cells (app_rows a)\<rparr>)"
  have "prepareArrowView env t a off idx db =
        (case env_exec env db (RegisterView (delta_view_name env t) b) of
           (Inl e, db') \<Rightarrow> (Inl (Error e), db', a\<lparr>app_rows := []\<rparr>)
         | (Inr _, db') \<Rightarrow> (Inr (delta_view_name env t), db', a\<lparr>app_rows := []\<rparr>))"
    using a unfolding prepareArrowView_def b_def names by (simp add: app_ok_def Let_def)
  with res obtain k where ex: "env_exec env db (RegisterView v b) = (Inr k, db')" and a': "a' = a\<lparr>app_rows := []\<rparr>"
    by (auto split: prod.splits sum.splits)
  from sql_sound_Inr [OF sound ex] have v: "tables db' = tables db" "views db' v = Some b" by simp_all
  from a' show "a' = a\<lparr>app_rows := []\<rparr>" .
  from v show "tables db' = tables db" by simp
  show "views db' v = Some (delta_batch sch (app_rows a))" if "off = 0" "idx = []"
    using that v by (simp add: b_def delta_batch_def)
  show "views db' v = Some \<lparr>header = col_names sch, batch_rows = map vals (app_rows a)\<rparr>"
    if "off = NumAugmentedFields"
    using that v by (simp add: b_def NumAugmentedFields_def cells_def comp_def)
  show "views db' v = Some \<lparr>header = getPrimaryKeyList sch, batch_rows = map (pkey sch \<circ> vals) (app_rows a)\<rparr>"
    if "off = 0" "idx = getPrimaryKeyIndices a" "idx \<noteq> []"
    using that v a
    by (simp add: b_def getPrimaryKeyIndices_def NumAugmentedFields_def getPrimaryKeyList_nth pkey_def cells_def
        comp_def nth_append)
qed

section \<open>The five cases\<close>

text \<open>
  Delta rows that stand for the effect \<open>E\<close> on the keys: the keys of the rows are the touched
  ones, and the latest row of a key tells what happened to it.
\<close>

definition nets :: "schema \<Rightarrow> 'v delta_row list \<Rightarrow> ('v drow \<Rightarrow> 'v drow option option) \<Rightarrow> bool" where
  "nets sch ds E \<longleftrightarrow>
     (\<forall>d\<in>set ds. row_ok sch (vals d) \<and> action d \<noteq> UpdateRowEvent) \<and>
     (\<forall>k. E k = None \<longleftrightarrow> k \<notin> pkey sch ` vals ` set ds) \<and>
     (\<forall>d. latest_row sch ds d \<longrightarrow>
        E (pkey sch (vals d)) = Some (if action d = InsertRowEvent then Some (vals d) else None))"

definition inserts :: "'v delta_row list \<Rightarrow> 'v drow list" where
  "inserts ds = map vals (filter (\<lambda>d. action d = InsertRowEvent) ds)"

definition delete_keys :: "schema \<Rightarrow> 'v delta_row list \<Rightarrow> 'v drow set" where
  "delete_keys sch ds = pkey sch ` vals ` set (filter (\<lambda>d. action d = DeleteRowEvent) ds)"

text \<open>The condensed delta of such rows.\<close>

definition net_delta ::
    "schema \<Rightarrow> 'v delta_row list \<Rightarrow> 'v delta_row list \<Rightarrow> ('v drow \<Rightarrow> 'v drow option option) \<Rightarrow> bool" where
  "net_delta sch ds ds' E \<longleftrightarrow> nets sch ds E \<and> condensed_delta sch ds ds'"

lemma net_effect_row:
  assumes N: "net_delta sch ds ds' E"
  shows "d \<in> set ds' \<Longrightarrow> E (pkey sch (vals d)) = Some (if action d = InsertRowEvent then Some (vals d) else None)"
  using N by (auto simp: net_delta_def nets_def condensed_delta_def latest_row_def)

lemma net_keys:
  assumes N: "net_delta sch ds ds' E"
  shows "pkey sch ` vals ` set ds' = pkey sch ` vals ` set ds"
  using N by (simp add: net_delta_def condensed_delta_def image_image)

lemma net_untouched:
  assumes N: "net_delta sch ds ds' E"
  shows "E k = None \<longleftrightarrow> k \<notin> pkey sch ` vals ` set ds'"
  using N by (simp add: net_delta_def nets_def net_keys [OF N])

lemma net_inserts_ok:
  assumes N: "net_delta sch ds ds' E"
  shows "\<forall>r\<in>set (inserts ds'). row_ok sch r"
  using N by (auto simp: net_delta_def nets_def condensed_delta_def inserts_def)

lemma net_inserts_distinct:
  assumes N: "net_delta sch ds ds' E"
  shows "distinct (map (pkey sch) (inserts ds'))"
  using N by (simp add: net_delta_def condensed_delta_def inserts_def comp_def distinct_map_filter)

lemma net_put:
  assumes N: "net_delta sch ds ds' E"
  shows "put_rows sch (inserts ds') k = (case E k of Some (Some r) \<Rightarrow> Some r | _ \<Rightarrow> None)"
proof (cases "k \<in> pkey sch ` vals ` set ds'")
  case True
  then obtain d where d: "d \<in> set ds'" "k = pkey sch (vals d)" by auto
  show ?thesis
  proof (cases "action d = InsertRowEvent")
    case True
    with d have "put_rows sch (inserts ds') k = Some (vals d)"
      by (subst put_rows_Some [OF net_inserts_distinct [OF N]]) (auto simp: inserts_def)
    with d True show ?thesis by (simp add: net_effect_row [OF N])
  next
    case False
    have "k \<notin> pkey sch ` set (inserts ds')"
    proof
      assume "k \<in> pkey sch ` set (inserts ds')"
      then obtain d' where "d' \<in> set ds'" "action d' = InsertRowEvent" "pkey sch (vals d') = k"
        by (auto simp: inserts_def)
      with d False net_effect_row [OF N, of d] net_effect_row [OF N, of d'] show False by simp
    qed
    with d False show ?thesis by (simp add: net_effect_row [OF N] put_rows_None)
  qed
next
  case False
  then have "k \<notin> pkey sch ` set (inserts ds')" by (auto simp: inserts_def)
  with False show ?thesis by (simp add: put_rows_None net_untouched [OF N, THEN iffD2])
qed

lemma net_removed:
  assumes N: "net_delta sch ds ds' E"
  shows "k \<in> delete_keys sch ds' \<longleftrightarrow> E k = Some None"
proof
  assume "k \<in> delete_keys sch ds'"
  then show "E k = Some None" by (auto simp: delete_keys_def net_effect_row [OF N])
next
  assume E: "E k = Some None"
  then obtain d where d: "d \<in> set ds'" "k = pkey sch (vals d)" using net_untouched [OF N, of k] by auto
  with E have "action d \<noteq> InsertRowEvent" by (auto simp: net_effect_row [OF N])
  moreover from d N have "action d \<noteq> UpdateRowEvent"
    by (auto simp: net_delta_def nets_def condensed_delta_def)
  ultimately have "action d = DeleteRowEvent" by (cases "action d") auto
  with d show "k \<in> delete_keys sch ds'" by (auto simp: delete_keys_def)
qed

lemma net_delete_then_insert:
  assumes N: "net_delta sch ds ds' E"
  shows "(T |` (- pkey sch ` vals ` set ds')) ++ put_rows sch (inserts ds') = (\<lambda>k. overlay (E k) (T k))"
proof
  fix k
  show "((T |` (- pkey sch ` vals ` set ds')) ++ put_rows sch (inserts ds')) k = overlay (E k) (T k)"
    using net_put [OF N, of k] net_untouched [OF N, of k]
    by (cases "E k") (auto simp: map_add_def overlay_def restrict_map_def split: option.splits)
qed

lemma net_upsert_then_delete:
  assumes N: "net_delta sch ds ds' E"
  shows "(T ++ put_rows sch (inserts ds')) |` (- delete_keys sch ds') = (\<lambda>k. overlay (E k) (T k))"
proof
  fix k
  show "((T ++ put_rows sch (inserts ds')) |` (- delete_keys sch ds')) k = overlay (E k) (T k)"
    using net_put [OF N, of k] net_removed [OF N, of k]
    by (cases "E k") (auto simp: map_add_def overlay_def restrict_map_def split: option.splits)
qed

lemma net_upsert_only:
  assumes N: "net_delta sch ds ds' E" and ins: "\<forall>d\<in>set ds. action d = InsertRowEvent"
  shows "T ++ put_rows sch (map vals ds') = (\<lambda>k. overlay (E k) (T k))"
proof -
  from ins N have all: "\<forall>d\<in>set ds'. action d = InsertRowEvent"
    by (auto simp: net_delta_def condensed_delta_def)
  then have "delete_keys sch ds' = {}" "inserts ds' = map vals ds'"
    by (auto simp: delete_keys_def inserts_def filter_empty_conv intro!: arg_cong [of _ _ "map vals"] filter_True)
  with net_upsert_then_delete [OF N, of T] show ?thesis by (simp add: restrict_map_def)
qed


text \<open>The temporary table \<^verbatim>\<open>delta\<close> read back.\<close>

lemma batch_keys:
  assumes "schema_ok sch" "\<forall>d\<in>set ds. length (vals d) = length sch"
  shows "project (header (delta_batch sch ds)) (getPrimaryKeyList sch) ` set (map cells ds) = pkey sch ` vals ` set ds"
  using assms by (auto simp: delta_batch_def image_image project_pk_cells intro!: image_cong)

lemma batch_with_action:
  assumes "schema_ok sch" "\<forall>d\<in>set ds. length (vals d) = length sch"
  shows "with_action (delta_batch sch ds) (row_event_code act) = map cells (filter (\<lambda>d. action d = act) ds)"
proof -
  have "filter ((\<lambda>r. column_value (AugmentedColumnList @ col_names sch) r ''action'' = Num (row_event_code act)) \<circ> cells) ds =
        filter (\<lambda>d. action d = act) ds"
    using assms by (intro filter_cong) (auto simp: aug_column_action)
  then show ?thesis by (simp add: with_action_def delta_batch_def filter_map)
qed

lemma batch_exclude:
  assumes "schema_ok sch" "\<forall>d\<in>set ds. length (vals d) = length sch"
  shows "map (exclude_columns AugmentedColumnList (header (delta_batch sch xs)) \<circ> cells) ds = map vals ds"
  using assms by (auto simp: delta_batch_def exclude_cells)

lemma batch_inserts:
  assumes "schema_ok sch" "\<forall>d\<in>set ds. length (vals d) = length sch"
  shows "map (exclude_columns AugmentedColumnList (header (delta_batch sch ds)))
           (with_action (delta_batch sch ds) (row_event_code InsertRowEvent)) = inserts ds"
  unfolding batch_with_action [OF assms] map_map inserts_def
  using assms by (intro batch_exclude) auto

lemma batch_delete_keys:
  assumes "schema_ok sch" "\<forall>d\<in>set ds. length (vals d) = length sch"
  shows "project (header (delta_batch sch ds)) (getPrimaryKeyList sch) `
           set (with_action (delta_batch sch ds) (row_event_code DeleteRowEvent)) = delete_keys sch ds"
  using batch_keys [OF assms(1), of "filter (\<lambda>d. action d = DeleteRowEvent) ds"] assms
  unfolding batch_with_action [OF assms] delete_keys_def by (simp add: delta_batch_def)

lemma materializeCondensedDelta_ok:
  assumes sound: "sql_sound (env_exec env)" and sch: "schema_ok sch" and a: "app_ok sch a"
    and res: "materializeCondensedDelta env t a st db = (None, db', st', a')"
  obtains ds' where "temp_delta db' = Some (delta_batch sch ds')" "condensed_delta sch (app_rows a) ds'"
    "tables db' = tables db" "a' = a\<lparr>app_rows := []\<rparr>"
proof -
  from res obtain v db1 k db2 where
    prep: "prepareArrowView env t a 0 [] db = (Inr v, db1, a')"
    and ex: "env_exec env db1 (CreateDelta (buildCondenseDeltaSQL env v a')) = (Inr k, db2)"
    and db': "db' = run_ignored env (DropView v) db2"
    by (auto simp: materializeCondensedDelta_def split: prod.splits sum.splits)
  note p = prepareArrowView_ok [OF sound a prep]
  have a': "app_ok sch a'" using a by (simp add: p(1) app_ok_def)
  have view: "views db1 v = Some (delta_batch sch (app_rows a))" by (rule p(3)) simp_all
  have "cd_view (buildCondenseDeltaSQL env v a') = v" by (simp add: buildCondenseDeltaSQL_def)
  with sql_sound_Inr [OF sound ex] view obtain dlt where
    dlt: "condense_result (buildCondenseDeltaSQL env v a') (delta_batch sch (app_rows a)) dlt"
    and db2: "db2 = db1\<lparr>temp_delta := Some dlt\<rparr>"
    by auto
  from condense_result_app_ok [OF sch a' _ dlt] a obtain ds' where
    "dlt = delta_batch sch ds'" "condensed_delta sch (app_rows a) ds'"
    by (auto simp: app_ok_def)
  with db' db2 p(1,2) run_ignored_view [OF sound] show thesis
    by (intro that [of ds']) simp_all
qed

lemma BaseSchema_emptied: "app_ok sch a \<Longrightarrow> BaseSchema (a\<lparr>app_rows := []\<rparr>) = sch"
  by (simp add: app_ok_def BaseSchema_def NumAugmentedFields_def augmented_columns_def)

lemma condensed_lengths:
  "app_ok sch a \<Longrightarrow> condensed_delta sch (app_rows a) ds' \<Longrightarrow> \<forall>d\<in>set ds'. length (vals d) = length sch"
  by (auto simp: app_ok_def condensed_delta_def)

text \<open>What a case of \<^verbatim>\<open>updateTable\<close> achieves.\<close>

definition flushed_to ::
    "schema \<Rightarrow> bool \<Rightarrow> tableIdentifier \<Rightarrow> 'v DeltaAppender \<Rightarrow> 'v store \<Rightarrow> 'v table_map \<Rightarrow> 'v store \<times> 'v DeltaAppender \<Rightarrow> bool"
where
  "flushed_to sch wi t a db T' r \<longleftrightarrow>
     holds_table sch wi (fst r) t T' \<and> same_other_tables t db (fst r) \<and> snd r = a\<lparr>app_rows := []\<rparr>"

lemma flushed_toI:
  assumes "holds_table sch wi db2 t T'" "same_other_tables t db1 db2"
    and "tables db1 = tables db" "tables db' = tables db2" "a' = a\<lparr>app_rows := []\<rparr>"
  shows "flushed_to sch wi t a db T' (db', a')"
  using assms by (simp add: flushed_to_def holds_table_def same_other_tables_def)

lemma deleted_step_temp: "deleted_step s t pks h src k s' \<Longrightarrow> temp_delta s' = temp_delta s"
  unfolding deleted_step_def Let_def by (cases "tables s t") (auto dest: rows_become_temp)

lemma handleWithoutIndexE:
  assumes "handleWithoutIndex env t a st db = (None, db', st', a')"
  obtains db1 st1 k db2 n db3 where
    "materializeCondensedDelta env t a st db = (None, db1, st1, a')"
    "env_exec env db1 (DeleteInDelta t (getPrimaryKeyList (BaseSchema a')) None) = (Inr k, db2)"
    "env_exec env db2 (InsertDelta t AugmentedColumnList (row_event_code InsertRowEvent)) = (Inr n, db3)"
    "db' = run_ignored env DropDelta db3"
proof -
  obtain e1 db1 st1 a1 where m: "materializeCondensedDelta env t a st db = (e1, db1, st1, a1)"
    by (metis prod_cases4)
  with assms have e1: "e1 = None" by (cases e1) (auto simp: handleWithoutIndex_def)
  obtain r2 db2 where d: "env_exec env db1 (DeleteInDelta t (getPrimaryKeyList (BaseSchema a1)) None) = (r2, db2)"
    by fastforce
  with assms m e1 obtain k where k: "r2 = Inr k" by (cases r2) (auto simp: handleWithoutIndex_def)
  obtain r3 db3 where i: "env_exec env db2 (InsertDelta t AugmentedColumnList (row_event_code InsertRowEvent)) = (r3, db3)"
    by fastforce
  with assms m e1 d k obtain n where "r3 = Inr n" by (cases r3) (auto simp: handleWithoutIndex_def)
  with assms m e1 d k i show thesis
    by (intro that) (auto simp: handleWithoutIndex_def simp del: row_event_code.simps)
qed

lemma handleWithoutIndex_ok:
  assumes sound: "sql_sound (env_exec env)" and sch: "schema_ok sch" and a: "app_ok sch a"
    and tab: "holds_table sch wi db t T" and nets: "nets sch (app_rows a) E"
    and res: "handleWithoutIndex env t a st db = (None, db', st', a')"
  shows "flushed_to sch wi t a db (\<lambda>k. overlay (E k) (T k)) (db', a')"
proof -
  from handleWithoutIndexE [OF res] obtain db1 st1 k db2 n db3 where
    mat: "materializeCondensedDelta env t a st db = (None, db1, st1, a')"
    and del: "env_exec env db1 (DeleteInDelta t (getPrimaryKeyList (BaseSchema a')) None) = (Inr k, db2)"
    and ins: "env_exec env db2 (InsertDelta t AugmentedColumnList (row_event_code InsertRowEvent)) = (Inr n, db3)"
    and db': "db' = run_ignored env DropDelta db3" .
  from materializeCondensedDelta_ok [OF sound sch a mat] obtain ds' where
    d: "temp_delta db1 = Some (delta_batch sch ds')" "condensed_delta sch (app_rows a) ds'"
      "tables db1 = tables db" "a' = a\<lparr>app_rows := []\<rparr>" by blast
  have N: "net_delta sch (app_rows a) ds' E" using nets d(2) by (simp add: net_delta_def)
  note len = condensed_lengths [OF a d(2)]
  have base: "BaseSchema a' = sch" using a d(4) by (simp add: BaseSchema_emptied)
  have tab1: "holds_table sch wi db1 t T" using tab d(3) by (simp add: holds_table_def)
  have step: "deleted_step db1 t (getPrimaryKeyList sch) (header (delta_batch sch ds')) (map cells ds') k db2"
    using sql_sound_Inr [OF sound del] d(1) by (simp add: base delta_batch_def)
  have h2: "holds_table sch wi db2 t (T |` (- pkey sch ` vals ` set ds')) \<and> same_other_tables t db1 db2"
    using delete_holds [OF sch tab1 step] by (simp only: batch_keys [OF sch len])
  from deleted_step_temp [OF step] d(1) have "temp_delta db2 = Some (delta_batch sch ds')" by simp
  with sql_sound_Inr [OF sound ins] have "inserted_step db2 t (inserts ds') n db3"
    by (simp add: batch_inserts [OF sch len] del: row_event_code.simps)
  from insert_holds [OF conjunct1 [OF h2] this net_inserts_ok [OF N] net_inserts_distinct [OF N]]
  have h3: "holds_table sch wi db3 t ((T |` (- pkey sch ` vals ` set ds')) ++ put_rows sch (inserts ds')) \<and>
        same_other_tables t db2 db3"
    by (auto simp: inserts_def restrict_map_def)
  show ?thesis
  proof (rule flushed_toI)
    show "holds_table sch wi db3 t (\<lambda>k. overlay (E k) (T k))"
      using h3 by (simp add: net_delete_then_insert [OF N])
    show "same_other_tables t db1 db3"
      using h2 h3 by (blast intro: same_other_tables_trans)
    show "tables db' = tables db3"
      using db' by (simp add: run_ignored_tables [OF sound])
  qed (use d in simp_all)
qed

lemma handleGeneralCaseE:
  assumes "handleGeneralCase env t a st db = (None, db', st', a')"
  obtains db1 st1 k db2 n db3 where
    "materializeCondensedDelta env t a st db = (None, db1, st1, a')"
    "env_exec env db1 (UpsertDelta t AugmentedColumnList (row_event_code InsertRowEvent)) = (Inr k, db2)"
    "env_exec env db2 (DeleteInDelta t (getPrimaryKeyList (BaseSchema a')) (Some (row_event_code DeleteRowEvent))) = (Inr n, db3)"
    "db' = run_ignored env DropDelta db3"
proof -
  obtain e1 db1 st1 a1 where m: "materializeCondensedDelta env t a st db = (e1, db1, st1, a1)"
    by (metis prod_cases4)
  with assms have e1: "e1 = None" by (cases e1) (auto simp: handleGeneralCase_def)
  obtain r2 db2 where d: "env_exec env db1 (UpsertDelta t AugmentedColumnList (row_event_code InsertRowEvent)) = (r2, db2)"
    by fastforce
  with assms m e1 obtain k where k: "r2 = Inr k" by (cases r2) (auto simp: handleGeneralCase_def)
  obtain r3 db3 where i: "env_exec env db2 (DeleteInDelta t (getPrimaryKeyList (BaseSchema a1)) (Some (row_event_code DeleteRowEvent))) = (r3, db3)"
    by fastforce
  with assms m e1 d k obtain n where "r3 = Inr n" by (cases r3) (auto simp: handleGeneralCase_def)
  with assms m e1 d k i show thesis
    by (intro that) (auto simp: handleGeneralCase_def simp del: row_event_code.simps)
qed

lemma upserted_step_temp: "upserted_step s t new k s' \<Longrightarrow> temp_delta s' = temp_delta s"
  unfolding upserted_step_def by (auto split: option.splits dest: rows_become_temp)

lemma handleGeneralCase_ok:
  assumes sound: "sql_sound (env_exec env)" and sch: "schema_ok sch" and a: "app_ok sch a"
    and tab: "holds_table sch False db t T" and nets: "nets sch (app_rows a) E"
    and res: "handleGeneralCase env t a st db = (None, db', st', a')"
  shows "flushed_to sch False t a db (\<lambda>k. overlay (E k) (T k)) (db', a')"
proof -
  from handleGeneralCaseE [OF res] obtain db1 st1 k db2 n db3 where
    mat: "materializeCondensedDelta env t a st db = (None, db1, st1, a')"
    and ins: "env_exec env db1 (UpsertDelta t AugmentedColumnList (row_event_code InsertRowEvent)) = (Inr k, db2)"
    and del: "env_exec env db2 (DeleteInDelta t (getPrimaryKeyList (BaseSchema a')) (Some (row_event_code DeleteRowEvent))) = (Inr n, db3)"
    and db': "db' = run_ignored env DropDelta db3" .
  from materializeCondensedDelta_ok [OF sound sch a mat] obtain ds' where
    d: "temp_delta db1 = Some (delta_batch sch ds')" "condensed_delta sch (app_rows a) ds'"
      "tables db1 = tables db" "a' = a\<lparr>app_rows := []\<rparr>" by blast
  have N: "net_delta sch (app_rows a) ds' E" using nets d(2) by (simp add: net_delta_def)
  note len = condensed_lengths [OF a d(2)]
  have base: "BaseSchema a' = sch" using a d(4) by (simp add: BaseSchema_emptied)
  have tab1: "holds_table sch False db1 t T" using tab d(3) by (simp add: holds_table_def)
  have step: "upserted_step db1 t (inserts ds') k db2"
    using sql_sound_Inr [OF sound ins] d(1) by (simp add: batch_inserts [OF sch len] del: row_event_code.simps)
  note h2 = upsert_holds [OF tab1 step net_inserts_ok [OF N] net_inserts_distinct [OF N]]
  from upserted_step_temp [OF step] d(1) have "temp_delta db2 = Some (delta_batch sch ds')" by simp
  with sql_sound_Inr [OF sound del] have
    "deleted_step db2 t (getPrimaryKeyList sch) (header (delta_batch sch ds'))
       (with_action (delta_batch sch ds') (row_event_code DeleteRowEvent)) n db3"
    by (simp add: base del: row_event_code.simps)
  from delete_holds [OF sch conjunct1 [OF h2] this]
  have h3: "holds_table sch False db3 t ((T ++ put_rows sch (inserts ds')) |` (- delete_keys sch ds')) \<and>
        same_other_tables t db2 db3"
    by (simp only: batch_delete_keys [OF sch len])
  show ?thesis
  proof (rule flushed_toI)
    show "holds_table sch False db3 t (\<lambda>k. overlay (E k) (T k))"
      using h3 by (simp add: net_upsert_then_delete [OF N])
    show "same_other_tables t db1 db3"
      using h2 h3 by (blast intro: same_other_tables_trans)
    show "tables db' = tables db3"
      using db' by (simp add: run_ignored_tables [OF sound])
  qed (use d in simp_all)
qed

text \<open>The cases with one statement.\<close>

lemma single_statementE:
  assumes "(case prepareArrowView env t a off idx db of
        (Inl e, db', a') \<Rightarrow> (Some e, db', st, a')
      | (Inr v, db', a') \<Rightarrow>
          (case env_exec env db' (oper v a') of
             (Inl e, db'') \<Rightarrow> (Some (Error e), run_ignored env (DropView v) db'', st, a')
           | (Inr k, db'') \<Rightarrow> (None, run_ignored env (DropView v) db'', upd k, a'))) = (None, db', st', a')"
  obtains v db1 k db2 where
    "prepareArrowView env t a off idx db = (Inr v, db1, a')" "env_exec env db1 (oper v a') = (Inr k, db2)"
    "db' = run_ignored env (DropView v) db2"
  using assms by (auto split: prod.splits sum.splits)

lemma handleZeroDelete_ok:
  assumes sound: "sql_sound (env_exec env)" and sch: "schema_ok sch" and a: "app_ok sch a"
    and tab: "holds_table sch False db t T" and nets: "nets sch (app_rows a) E"
    and ins: "\<forall>d\<in>set (app_rows a). action d = InsertRowEvent"
    and res: "handleZeroDelete env t a st db = (None, db', st', a')"
  shows "flushed_to sch False t a db (\<lambda>k. overlay (E k) (T k)) (db', a')"
proof -
  from single_statementE [OF res [unfolded handleZeroDelete_def]] obtain v db1 k db2 where
    prep: "prepareArrowView env t a 0 [] db = (Inr v, db1, a')"
    and ex: "env_exec env db1 (UpsertCondensed t AugmentedColumnList (buildCondenseDeltaSQL env v a')) = (Inr k, db2)"
    and db': "db' = run_ignored env (DropView v) db2" .
  note p = prepareArrowView_ok [OF sound a prep]
  have a': "app_ok sch a'" using a by (simp add: p(1) app_ok_def)
  have view: "views db1 v = Some (delta_batch sch (app_rows a))" by (rule p(3)) simp_all
  have "cd_view (buildCondenseDeltaSQL env v a') = v" by (simp add: buildCondenseDeltaSQL_def)
  with sql_sound_Inr [OF sound ex] view obtain dlt where
    dlt: "condense_result (buildCondenseDeltaSQL env v a') (delta_batch sch (app_rows a)) dlt"
    and step: "upserted_step db1 t (map (exclude_columns AugmentedColumnList (header dlt)) (batch_rows dlt)) k db2"
    by auto
  from condense_result_app_ok [OF sch a' _ dlt] a obtain ds' where
    d: "dlt = delta_batch sch ds'" "condensed_delta sch (app_rows a) ds'"
    by (auto simp: app_ok_def)
  note len = condensed_lengths [OF a d(2)]
  have N: "net_delta sch (app_rows a) ds' E" using nets d(2) by (simp add: net_delta_def)
  have all: "inserts ds' = map vals ds'"
    using ins d(2) by (auto simp: inserts_def condensed_delta_def intro!: arg_cong [of _ _ "map vals"] filter_True)
  have "map (exclude_columns AugmentedColumnList (header dlt)) (batch_rows dlt) = inserts ds'"
    using batch_exclude [OF sch len, of ds'] by (simp add: d(1) all delta_batch_def)
  with step have step': "upserted_step db1 t (inserts ds') k db2" by simp
  have tab1: "holds_table sch False db1 t T" using tab p(2) by (simp add: holds_table_def)
  note h = upsert_holds [OF tab1 step' net_inserts_ok [OF N] net_inserts_distinct [OF N]]
  show ?thesis
  proof (rule flushed_toI)
    show "holds_table sch False db2 t (\<lambda>k. overlay (E k) (T k))"
      using h net_upsert_only [OF N ins, of T] by (simp add: all)
    show "same_other_tables t db1 db2" using h by simp
    show "tables db' = tables db2" using db' by (simp add: run_ignored_tables [OF sound])
  qed (use p in simp_all)
qed

lemma project_self:
  assumes "distinct (map to_lower h)" "length r = length h"
  shows "project h h r = r"
  using project_nth [of h r "[0..<length h]"] assms by (simp add: map_nth) (metis map_nth)

lemma handleInsertOnly_ok:
  assumes sound: "sql_sound (env_exec env)" and sch: "schema_ok sch" and a: "app_ok sch a"
    and tab: "holds_table sch wi db t T"
    and ok: "\<forall>d\<in>set (app_rows a). row_ok sch (vals d) \<and> T (pkey sch (vals d)) = None"
    and dist: "distinct (map (pkey sch) (map vals (app_rows a)))"
    and res: "handleInsertOnly env t a st db = (None, db', st', a')"
  shows "flushed_to sch wi t a db (T ++ put_rows sch (map vals (app_rows a))) (db', a')"
proof -
  from single_statementE [OF res [unfolded handleInsertOnly_def]] obtain v db1 k db2 where
    prep: "prepareArrowView env t a NumAugmentedFields [] db = (Inr v, db1, a')"
    and ex: "env_exec env db1 (InsertSelect t (buildColumnList env (BaseSchema a')) v) = (Inr k, db2)"
    and db': "db' = run_ignored env (DropView v) db2" .
  note p = prepareArrowView_ok [OF sound a prep]
  have view: "views db1 v = Some \<lparr>header = col_names sch, batch_rows = map vals (app_rows a)\<rparr>" by (rule p(4)) simp
  have cols: "map fst (buildColumnList env (BaseSchema a')) = col_names sch"
    using a by (simp add: p(1) BaseSchema_emptied buildColumnList_def col_names_def)
  have "map (project (col_names sch) (col_names sch) \<circ> vals) (app_rows a) = map vals (app_rows a)"
    using ok sch by (auto simp: schema_ok_def row_ok_def col_names_def intro!: project_self)
  then have step: "inserted_step db1 t (map vals (app_rows a)) k db2"
    using sql_sound_Inr [OF sound ex] view cols by (simp del: map_eq_conv)
  have tab1: "holds_table sch wi db1 t T" using tab p(2) by (simp add: holds_table_def)
  have h: "holds_table sch wi db2 t (T ++ put_rows sch (map vals (app_rows a))) \<and> same_other_tables t db1 db2"
    using ok by (intro insert_holds [OF tab1 step _ dist]) auto
  show ?thesis
    by (rule flushed_toI [of _ _ db2 _ _ db1]) (use h p db' in \<open>simp_all add: run_ignored_tables [OF sound]\<close>)
qed

lemma handleDeleteOnly_ok:
  assumes sound: "sql_sound (env_exec env)" and sch: "schema_ok sch" and a: "app_ok sch a"
    and tab: "holds_table sch wi db t T"
    and res: "handleDeleteOnly env t a st db = (None, db', st', a')"
  shows "flushed_to sch wi t a db (T |` (- pkey sch ` vals ` set (app_rows a))) (db', a')"
proof -
  from single_statementE [OF res [unfolded handleDeleteOnly_def]] obtain v db1 k db2 where
    prep: "prepareArrowView env t a 0 (getPrimaryKeyIndices a) db = (Inr v, db1, a')"
    and ex: "env_exec env db1 (DeleteInView t (getPrimaryKeyList (BaseSchema a')) v) = (Inr k, db2)"
    and db': "db' = run_ignored env (DropView v) db2" .
  note p = prepareArrowView_ok [OF sound a prep]
  from sch obtain i where "i < length sch" "col_pk (sch ! i)" by (auto simp: schema_ok_def in_set_conv_nth)
  then have "getPrimaryKeyIndices a \<noteq> []"
    using a by (auto simp: getPrimaryKeyIndices_def pk_positions_def filter_empty_conv)
  then have view: "views db1 v = Some \<lparr>header = getPrimaryKeyList sch, batch_rows = map (pkey sch \<circ> vals) (app_rows a)\<rparr>"
    by (intro p(5)) simp_all
  have base: "BaseSchema a' = sch" using a by (simp add: p(1) BaseSchema_emptied)
  from sql_sound_Inr [OF sound ex] view have step:
    "deleted_step db1 t (getPrimaryKeyList sch) (getPrimaryKeyList sch) (map (pkey sch \<circ> vals) (app_rows a)) k db2"
    by (simp add: base)
  have "distinct (map to_lower (getPrimaryKeyList sch))"
    using sch by (simp add: schema_ok_def getPrimaryKeyList_def col_names_def comp_def distinct_map_filter)
  then have "project (getPrimaryKeyList sch) (getPrimaryKeyList sch) (pkey sch r) = pkey sch r" for r :: "'a drow"
    by (intro project_self) (simp_all add: getPrimaryKeyList_nth pkey_def)
  then have "project (getPrimaryKeyList sch) (getPrimaryKeyList sch) ` set (map (pkey sch \<circ> vals) (app_rows a))
      = pkey sch ` vals ` set (app_rows a)"
    by (simp add: image_image)
  moreover have tab1: "holds_table sch wi db1 t T" using tab p(2) by (simp add: holds_table_def)
  ultimately have h: "holds_table sch wi db2 t (T |` (- pkey sch ` vals ` set (app_rows a))) \<and> same_other_tables t db1 db2"
    using delete_holds [OF sch tab1 step] by simp
  show ?thesis
    by (rule flushed_toI [of _ _ db2 _ _ db1]) (use h p db' in \<open>simp_all add: run_ignored_tables [OF sound]\<close>)
qed

section \<open>From recorded changes to tables\<close>

definition counters_of :: "(stamp \<times> 'v change) list \<Rightarrow> counters" where
  "counters_of scs =
     \<lparr>event_delete = length (filter (\<lambda>sc. ch_kind (snd sc) = DeleteRowEvent) scs),
      event_insert = length (filter (\<lambda>sc. ch_kind (snd sc) = InsertRowEvent) scs),
      event_update = length (filter (\<lambda>sc. ch_kind (snd sc) = UpdateRowEvent) scs),
      action_delete = sum_list (map (\<lambda>sc. length (ch_dels (snd sc))) scs),
      action_insert = sum_list (map (\<lambda>sc. length (ch_inss (snd sc))) scs)\<rparr>"

text \<open>
  An appender that holds the changes \<open>scs\<close>. A flush only asks which counters are zero, and the
  replication from Postgres counts an update twice.
\<close>

definition same_counts :: "counters \<Rightarrow> counters \<Rightarrow> bool" where
  "same_counts c c' \<longleftrightarrow>
     (event_delete c = 0 \<longleftrightarrow> event_delete c' = 0) \<and> (event_insert c = 0 \<longleftrightarrow> event_insert c' = 0) \<and>
     (event_update c = 0 \<longleftrightarrow> event_update c' = 0) \<and> action_delete c = action_delete c' \<and> action_insert c = action_insert c'"

definition recorded :: "schema \<Rightarrow> (stamp \<times> 'v change) list \<Rightarrow> 'v DeltaAppender \<Rightarrow> bool" where
  "recorded sch scs a \<longleftrightarrow>
     app_schema a = augmented_columns @ sch \<and> torn a = 0 \<and> app_rows a = concat (map rows_of scs) \<and>
     same_counts (app_counters a) (counters_of scs)"

lemma recorded_new: "newDeltaAppender sch = Inr a \<Longrightarrow> recorded sch [] a"
  by (auto simp: newDeltaAppender_def Let_def res_simps recorded_def counters_of_def zero_counters_def same_counts_def)

lemma recorded_record_change:
  "recorded sch scs a \<Longrightarrow> recorded sch (scs @ [(st, c)]) (record_change st c a)"
  by (cases "ch_kind c")
    (simp_all add: recorded_def record_change_def ObserveEvents_def UpdateActionStats_def append_rows_def
      rows_of_def counters_of_def same_counts_def)

lemma recorded_counted_twice:
  "recorded sch (scs @ [(st, c)]) a \<Longrightarrow> recorded sch (scs @ [(st, c)]) (ObserveEvents (ch_kind c) n a)"
  by (cases "ch_kind c") (simp_all add: recorded_def ObserveEvents_def counters_of_def same_counts_def)

lemma recorded_record_changes:
  "recorded sch scs a \<Longrightarrow> recorded sch (scs @ scs') (record_changes scs' a)"
proof (induction scs' arbitrary: scs a)
  case Nil
  then show ?case by (simp add: record_changes_def)
next
  case (Cons sc scs')
  from Cons.IH [OF recorded_record_change [OF Cons.prems, of "fst sc" "snd sc"]] show ?case
    by (simp add: record_changes_def case_prod_beta)
qed

lemma recorded_flushed:
  "recorded sch scs a \<Longrightarrow> recorded sch [] (ResetCounters (a\<lparr>app_rows := []\<rparr>))"
  by (simp add: recorded_def ResetCounters_def counters_of_def zero_counters_def same_counts_def)

lemma valid_changes_each:
  "valid_changes sch T cs \<Longrightarrow> c \<in> set cs \<Longrightarrow>
     (\<forall>r\<in>set (ch_dels c) \<union> set (ch_inss c). row_ok sch r) \<and> distinct (map (pkey sch) (ch_inss c)) \<and>
     (ch_kind c = InsertRowEvent \<longrightarrow> ch_dels c = []) \<and> (ch_kind c = DeleteRowEvent \<longrightarrow> ch_inss c = [])"
  by (induction cs arbitrary: T) (auto simp: valid_change_def)

lemma recorded_row_ok:
  assumes "valid_changes sch T (map snd scs)" "d \<in> set (concat (map rows_of scs))"
  shows "row_ok sch (vals d)"
proof -
  from assms(2) obtain sc where "sc \<in> set scs" "d \<in> set (rows_of sc)" by auto
  with valid_changes_each [OF assms(1), of "snd sc"] show ?thesis by (auto simp: rows_of_def)
qed

lemma recorded_app_ok:
  "recorded sch scs a \<Longrightarrow> valid_changes sch T (map snd scs) \<Longrightarrow> app_ok sch a"
  using recorded_row_ok [of sch T scs] by (auto simp: recorded_def app_ok_def row_ok_def)

lemma recorded_nets:
  assumes "in_order scs" "valid_changes sch T (map snd scs)"
  shows "nets sch (concat (map rows_of scs)) (effect sch (map snd scs))"
  unfolding nets_def
proof (intro conjI ballI allI impI)
  fix d assume d: "d \<in> set (concat (map rows_of scs))"
  from recorded_row_ok [OF assms(2) d] show "row_ok sch (vals d)" .
  from d show "action d \<noteq> UpdateRowEvent" by (auto simp: rows_of_def)
next
  show "effect sch (map snd scs) k = None \<longleftrightarrow> k \<notin> pkey sch ` vals ` set (concat (map rows_of scs))" for k
    by (rule effect_None)
next
  fix d assume d: "latest_row sch (concat (map rows_of scs)) d"
  have "distinct (map (pkey sch) (ch_inss (snd sc)))" if "sc \<in> set scs" for sc
    using valid_changes_each [OF assms(2), of "snd sc"] that by simp
  then show "effect sch (map snd scs) (pkey sch (vals d)) =
      Some (if action d = InsertRowEvent then Some (vals d) else None)"
    by (intro effect_latest [OF assms(1) _ d]) simp
qed

lemma put_rows_append:
  assumes "pkey sch ` set xs \<inter> pkey sch ` set ys = {}"
  shows "put_rows sch (xs @ ys) = put_rows sch xs ++ put_rows sch ys"
proof -
  have "put_rows sch (xs @ ys) = put_rows sch ys ++ put_rows sch xs" by (simp add: put_rows_def)
  also have "\<dots> = put_rows sch xs ++ put_rows sch ys"
    using assms by (intro map_add_comm) (force simp: put_rows_def dom_map_of_conv_image_fst)
  finally show ?thesis .
qed

lemma insert_only_changes:
  assumes "valid_changes sch T cs" "\<forall>c\<in>set cs. ch_kind c = InsertRowEvent"
  shows "(\<forall>r\<in>set (concat (map ch_inss cs)). T (pkey sch r) = None) \<and>
         distinct (map (pkey sch) (concat (map ch_inss cs))) \<and>
         apply_changes sch T cs = T ++ put_rows sch (concat (map ch_inss cs))"
  using assms
proof (induction cs arbitrary: T)
  case Nil
  then show ?case by (simp add: apply_changes_def put_rows_def)
next
  case (Cons c cs)
  then have c: "valid_change sch T c" "ch_dels c = []" by (auto simp: valid_change_def)
  then have step: "apply_change sch T c = T ++ put_rows sch (ch_inss c)"
    by (simp add: apply_change_def put_rows_def restrict_map_def)
  have IH: "(\<forall>r\<in>set (concat (map ch_inss cs)). (T ++ put_rows sch (ch_inss c)) (pkey sch r) = None) \<and>
      distinct (map (pkey sch) (concat (map ch_inss cs))) \<and>
      apply_changes sch (T ++ put_rows sch (ch_inss c)) cs =
        T ++ put_rows sch (ch_inss c) ++ put_rows sch (concat (map ch_inss cs))"
    using Cons.IH [of "T ++ put_rows sch (ch_inss c)"] Cons.prems step by simp
  then have disj: "pkey sch ` set (ch_inss c) \<inter> pkey sch ` set (concat (map ch_inss cs)) = {}"
    by (force simp: put_rows_None simp flip: set_map)
  with IH c Cons.prems show ?case
    by (auto simp: put_rows_append [OF disj] apply_changes_def step valid_change_def)
qed

lemma delete_only_changes:
  assumes "\<forall>c\<in>set cs. ch_inss c = []"
  shows "apply_changes sch T cs = T |` (- pkey sch ` set (concat (map ch_dels cs)))"
  using assms
proof (induction cs arbitrary: T)
  case Nil
  then show ?case by (simp add: apply_changes_def restrict_map_def)
next
  case (Cons c cs)
  then show ?case
    by (auto simp: apply_changes_def apply_change_def restrict_map_def image_Un)
qed

lemma counters_none:
  "event_delete (counters_of scs) = 0 \<longleftrightarrow> (\<forall>sc\<in>set scs. ch_kind (snd sc) \<noteq> DeleteRowEvent)"
  "event_insert (counters_of scs) = 0 \<longleftrightarrow> (\<forall>sc\<in>set scs. ch_kind (snd sc) \<noteq> InsertRowEvent)"
  "event_update (counters_of scs) = 0 \<longleftrightarrow> (\<forall>sc\<in>set scs. ch_kind (snd sc) \<noteq> UpdateRowEvent)"
  "action_delete (counters_of scs) = 0 \<longleftrightarrow> (\<forall>c\<in>set (map snd scs). ch_dels c = [])"
  by (simp_all add: counters_of_def filter_empty_conv)

lemma only_kind:
  assumes "\<forall>sc\<in>set scs. ch_kind (snd sc) \<noteq> k1" "\<forall>sc\<in>set scs. ch_kind (snd sc) \<noteq> k2"
    and "{k1, k2, k3} = UNIV"
  shows "\<forall>c\<in>set (map snd scs). ch_kind c = k3"
  using assms by auto

lemma insert_only_rows:
  assumes "\<forall>c\<in>set (map snd scs). ch_dels c = []"
  shows "map vals (concat (map rows_of scs)) = concat (map ch_inss (map snd scs))"
    and "\<forall>d\<in>set (concat (map rows_of scs)). action d = InsertRowEvent"
  using assms by (induction scs) (auto simp: rows_of_def comp_def)

lemma delete_only_rows:
  assumes "\<forall>c\<in>set (map snd scs). ch_inss c = []"
  shows "vals ` set (concat (map rows_of scs)) = set (concat (map ch_dels (map snd scs)))"
  using assms by (induction scs) (auto simp: rows_of_def image_Un image_image)

lemma RowEventType_UNIV:
  "{DeleteRowEvent, UpdateRowEvent, InsertRowEvent} = UNIV" "{InsertRowEvent, UpdateRowEvent, DeleteRowEvent} = UNIV"
  using RowEventType.exhaust by auto

lemma valid_inserts_only:
  assumes "valid_changes sch T cs" "\<forall>c\<in>set cs. ch_kind c = InsertRowEvent"
  shows "\<forall>c\<in>set cs. ch_dels c = []"
proof
  fix c assume c: "c \<in> set cs"
  with assms(2) have "ch_kind c = InsertRowEvent" by blast
  with valid_changes_each [OF assms(1) c] show "ch_dels c = []" by blast
qed

lemma valid_deletes_only:
  assumes "valid_changes sch T cs" "\<forall>c\<in>set cs. ch_kind c = DeleteRowEvent"
  shows "\<forall>c\<in>set cs. ch_inss c = []"
proof
  fix c assume c: "c \<in> set cs"
  with assms(2) have "ch_kind c = DeleteRowEvent" by blast
  with valid_changes_each [OF assms(1) c] show "ch_inss c = []" by blast
qed

lemma if_cascade:
  assumes "(if p then a else if q then b else if z \<and> \<not> w then c else if w then d else e) = x"
  obtains p "a = x" | q "b = x" | z "w = False" "c = x" | "w = True" "d = x" | "w = False" "e = x"
  using assms by (cases p; cases q; cases z; cases w) simp_all

text \<open>What the counters say about the changes of an appender.\<close>

lemma insert_only_app:
  assumes rec: "recorded sch scs a" and val: "valid_changes sch T (map snd scs)"
    and cnt: "event_insert (app_counters a) > 0 \<and> \<not> event_delete (app_counters a) > 0 \<and> \<not> event_update (app_counters a) > 0"
  shows "(\<forall>d\<in>set (app_rows a). row_ok sch (vals d) \<and> T (pkey sch (vals d)) = None) \<and>
         distinct (map (pkey sch) (map vals (app_rows a))) \<and>
         apply_changes sch T (map snd scs) = T ++ put_rows sch (map vals (app_rows a))"
proof -
  have rows: "app_rows a = concat (map rows_of scs)" and c: "same_counts (app_counters a) (counters_of scs)"
    using rec by (simp_all add: recorded_def)
  from cnt have "event_delete (counters_of scs) = 0" "event_update (counters_of scs) = 0" using c by (simp_all add: same_counts_def)
  then have kinds: "\<forall>c\<in>set (map snd scs). ch_kind c = InsertRowEvent"
    unfolding counters_none by (rule only_kind [OF _ _ RowEventType_UNIV(1)])
  note r = insert_only_rows [OF valid_inserts_only [OF val kinds]]
  note io = insert_only_changes [OF val kinds]
  have "row_ok sch (vals d) \<and> T (pkey sch (vals d)) = None" if d: "d \<in> set (app_rows a)" for d
  proof -
    from d have "vals d \<in> set (map vals (concat (map rows_of scs)))" unfolding rows by (simp only: set_map imageI)
    then have "T (pkey sch (vals d)) = None" using io unfolding r(1) by blast
    with d show ?thesis using recorded_row_ok [OF val] unfolding rows by blast
  qed
  with io show ?thesis unfolding rows r(1) by blast
qed

lemma delete_only_app:
  assumes rec: "recorded sch scs a" and val: "valid_changes sch T (map snd scs)"
    and cnt: "event_delete (app_counters a) > 0 \<and> \<not> event_insert (app_counters a) > 0 \<and> \<not> event_update (app_counters a) > 0"
  shows "apply_changes sch T (map snd scs) = T |` (- pkey sch ` vals ` set (app_rows a))"
proof -
  have rows: "app_rows a = concat (map rows_of scs)" and c: "same_counts (app_counters a) (counters_of scs)"
    using rec by (simp_all add: recorded_def)
  from cnt have "event_insert (counters_of scs) = 0" "event_update (counters_of scs) = 0" using c by (simp_all add: same_counts_def)
  then have kinds: "\<forall>c\<in>set (map snd scs). ch_kind c = DeleteRowEvent"
    unfolding counters_none by (rule only_kind [OF _ _ RowEventType_UNIV(2)])
  note none = valid_deletes_only [OF val kinds]
  show ?thesis unfolding rows delete_only_rows [OF none] delete_only_changes [OF none] ..
qed

lemma zero_delete_app:
  assumes "recorded sch scs a" "action_delete (app_counters a) = 0"
  shows "\<forall>d\<in>set (app_rows a). action d = InsertRowEvent"
proof -
  from assms have "\<forall>c\<in>set (map snd scs). ch_dels c = []"
    unfolding recorded_def same_counts_def using counters_none(4) [of scs] by simp
  from insert_only_rows(2) [OF this] assms(1) show ?thesis by (simp add: recorded_def)
qed

lemma update_case_holds:
  assumes sound: "sql_sound (env_exec env)" and sch: "schema_ok sch" and rec: "recorded sch scs a"
    and ord: "in_order scs" and val: "valid_changes sch T (map snd scs)" and tab: "holds_table sch wi db t T"
    and res: "update_case env wi t a st db = (None, db', st', a')"
  shows "flushed_to sch wi t a db (apply_changes sch T (map snd scs)) (db', a')"
proof -
  note a = recorded_app_ok [OF rec val]
  have nets: "nets sch (app_rows a) (effect sch (map snd scs))"
    using recorded_nets [OF ord val] rec by (simp add: recorded_def)
  have eff: "apply_changes sch T (map snd scs) = (\<lambda>k. overlay (effect sch (map snd scs) k) (T k))"
    by (rule ext) (rule apply_changes_effect)
  let ?i = "event_insert (app_counters a) > 0" and ?d = "event_delete (app_counters a) > 0"
    and ?u = "event_update (app_counters a) > 0"
  consider (ins) "?i \<and> \<not> ?d \<and> \<not> ?u" "handleInsertOnly env t a st db = (None, db', st', a')"
    | (del) "?d \<and> \<not> ?i \<and> \<not> ?u" "handleDeleteOnly env t a st db = (None, db', st', a')"
    | (zero) "action_delete (app_counters a) = 0" "wi = False" "handleZeroDelete env t a st db = (None, db', st', a')"
    | (without) "wi = True" "handleWithoutIndex env t a st db = (None, db', st', a')"
    | (general) "wi = False" "handleGeneralCase env t a st db = (None, db', st', a')"
    by (rule if_cascade [OF res [unfolded update_case_def Let_def]])
  then show ?thesis
  proof cases
    case ins
    note io = insert_only_app [OF rec val ins(1)]
    have "flushed_to sch wi t a db (T ++ put_rows sch (map vals (app_rows a))) (db', a')"
      using io ins(2) by (intro handleInsertOnly_ok [OF sound sch a tab]) blast+
    then show ?thesis using io by simp
  next
    case del
    from handleDeleteOnly_ok [OF sound sch a tab del(2)] show ?thesis
      unfolding delete_only_app [OF rec val del(1)] .
  next
    case zero
    note r = zero_delete_app [OF rec zero(1)]
    have tab': "holds_table sch False db t T" using tab unfolding zero(2) .
    from handleZeroDelete_ok [OF sound sch a tab' nets r zero(3)] show ?thesis
      unfolding eff zero(2) .
  next
    case without
    from handleWithoutIndex_ok [OF sound sch a tab nets without(2)] show ?thesis unfolding eff .
  next
    case general
    have tab': "holds_table sch False db t T" using tab unfolding general(1) .
    from handleGeneralCase_ok [OF sound sch a tab' nets general(2)] show ?thesis unfolding eff general(1) .
  qed
qed

lemma updateTable_holds:
  assumes "sql_sound (env_exec env)" "schema_ok sch" "recorded sch scs a"
    and "in_order scs" "valid_changes sch T (map snd scs)" "holds_table sch wi db t T"
    and "updateTable env wi tx t a st db = (None, db', st', a')"
  shows "holds_table sch wi db' t (apply_changes sch T (map snd scs)) \<and> same_other_tables t db db' \<and>
         recorded sch [] a'"
proof -
  from assms(7) obtain st'' a'' where "update_case env wi t a st db = (None, db', st'', a'')" "a' = ResetCounters a''"
    by (auto simp: updateTable_def Let_def split: if_splits prod.splits)
  with update_case_holds [OF assms(1-6)] recorded_flushed [OF assms(3)] show ?thesis
    by (auto simp: flushed_to_def)
qed

section \<open>Flushing all tables\<close>

lemma no_rows_no_effect:
  assumes "concat (map rows_of scs) = []"
  shows "apply_changes sch T (map snd scs) = T"
proof
  fix k
  have "effect sch (map snd scs) k = None" using effect_None [of sch scs k] assms by simp
  then show "apply_changes sch T (map snd scs) k = T k" by (simp add: apply_changes_effect overlay_def)
qed

text \<open>
  The state of a table as the buffer sees it: its schema, the changes recorded for it and not yet
  flushed, and the rows that the database holds.
\<close>

record 'v buffered =
  buf_schema :: schema
  buf_changes :: "(stamp \<times> 'v change) list"
  buf_table :: "'v table_map"

definition buffered_ok :: "bool \<Rightarrow> 'v store \<Rightarrow> tableIdentifier \<Rightarrow> 'v buffered \<Rightarrow> 'v DeltaAppender \<Rightarrow> bool" where
  "buffered_ok wi db t b a \<longleftrightarrow>
     schema_ok (buf_schema b) \<and> recorded (buf_schema b) (buf_changes b) a \<and> in_order (buf_changes b) \<and>
     valid_changes (buf_schema b) (buf_table b) (map snd (buf_changes b)) \<and>
     holds_table (buf_schema b) wi db t (buf_table b)"

definition controller_ok :: "bool \<Rightarrow> 'v store \<Rightarrow> (tableIdentifier \<Rightarrow> 'v buffered) \<Rightarrow> 'v controller \<Rightarrow> bool" where
  "controller_ok wi db buf c \<longleftrightarrow> distinct (map fst c) \<and> (\<forall>(t, a)\<in>set c. buffered_ok wi db t (buf t) a)"

definition buf_result :: "'v buffered \<Rightarrow> 'v table_map" where
  "buf_result b = apply_changes (buf_schema b) (buf_table b) (map snd (buf_changes b))"

lemma buffered_ok_other:
  "tables db' t = tables db t \<Longrightarrow> buffered_ok wi db' t b a = buffered_ok wi db t b a"
  unfolding buffered_ok_def holds_table_def by presburger

lemma flush_one:
  assumes sound: "sql_sound (env_exec env)" and ok: "buffered_ok wi db t b a"
    and res: "(if RowCount a > 0 then updateTable env wi tx t a st db else (None, db, st, a)) = (None, db', st', a')"
  shows "holds_table (buf_schema b) wi db' t (buf_result b) \<and> same_other_tables t db db' \<and> RowCount a' = 0"
proof (cases "RowCount a > 0")
  case True
  with res have upd: "updateTable env wi tx t a st db = (None, db', st', a')" by simp
  from ok have "schema_ok (buf_schema b)" "recorded (buf_schema b) (buf_changes b) a" "in_order (buf_changes b)"
    "valid_changes (buf_schema b) (buf_table b) (map snd (buf_changes b))" "holds_table (buf_schema b) wi db t (buf_table b)"
    by (simp_all add: buffered_ok_def)
  from updateTable_holds [OF sound this upd] show ?thesis
    by (simp add: buf_result_def recorded_def RowCount_def)
next
  case False
  with res have eq: "db' = db" "a' = a" by simp_all
  from False ok have "concat (map rows_of (buf_changes b)) = []"
    by (simp add: RowCount_def buffered_ok_def recorded_def)
  from no_rows_no_effect [OF this] ok False eq show ?thesis
    by (simp add: buf_result_def buffered_ok_def same_other_tables_def)
qed

lemma controller_ok_tail:
  assumes "controller_ok wi db buf ((t, a) # c)" "same_other_tables t db db'"
  shows "controller_ok wi db' buf c"
  unfolding controller_ok_def
proof (intro conjI ballI)
  show "distinct (map fst c)" using assms(1) by (simp add: controller_ok_def)
  fix x assume x: "x \<in> set c"
  obtain t' a' where x': "x = (t', a')" by (cases x)
  have "t \<notin> fst ` set c" using assms(1) by (simp add: controller_ok_def)
  with x x' have "t' \<noteq> t" by force
  with assms(2) have "tables db' t' = tables db t'" by (simp add: same_other_tables_def)
  moreover from assms(1) x x' have "buffered_ok wi db t' (buf t') a'" by (auto simp: controller_ok_def)
  ultimately show "case x of (t, a) \<Rightarrow> buffered_ok wi db' t (buf t) a"
    by (simp add: x' buffered_ok_other [of db' t' db])
qed

lemma flush_tables_holds:
  assumes "sql_sound (env_exec env)" "controller_ok wi db buf c"
    and "flush_tables env wi tx reason c st db = (None, db', st', c')"
  shows "(\<forall>t\<in>fst ` set c. holds_table (buf_schema (buf t)) wi db' t (buf_result (buf t))) \<and>
         (\<forall>t. t \<notin> fst ` set c \<longrightarrow> tables db' t = tables db t) \<and>
         (\<forall>(t, a)\<in>set c'. RowCount a = 0) \<and> (reason = DDLStmtFlushReason \<longrightarrow> c' = []) \<and>
         (reason \<noteq> DDLStmtFlushReason \<longrightarrow> map fst c' = map fst c)"
  using assms(2,3)
proof (induction c arbitrary: db st c')
  case Nil
  then show ?case by auto
next
  case (Cons ta c)
  obtain t a where ta: "ta = (t, a)" by (cases ta)
  obtain e1 db1 st1 a1 where one: "(if RowCount a > 0 then updateTable env wi tx t a st db else (None, db, st, a)) = (e1, db1, st1, a1)"
    by (metis prod_cases4)
  obtain e2 db2 st2 c2 where rest: "flush_tables env wi tx reason c st1 db1 = (e2, db2, st2, c2)"
    by (metis prod_cases4)
  have "(case (e1, db1, st1, a1) of
        (Some e, db', st', a') \<Rightarrow> (Some e, db', st', (t, a') # c)
      | (None, db', st', a') \<Rightarrow>
          (let (e, db'', st'', rest') = flush_tables env wi tx reason c st' db'
           in (e, db'', st'', if reason = DDLStmtFlushReason then rest' else (t, a') # rest'))) = (None, db', st', c')"
    using Cons.prems(2) unfolding ta flush_tables.simps one .
  with rest have e1: "e1 = None"
    and r: "e2 = None" "db2 = db'" "st2 = st'" "c' = (if reason = DDLStmtFlushReason then c2 else (t, a1) # c2)"
    by (cases e1; simp)+
  have "buffered_ok wi db t (buf t) a" using Cons.prems(1) by (simp add: controller_ok_def ta)
  note f = flush_one [OF assms(1) this one [unfolded e1]]
  have fresh: "t \<notin> fst ` set c" using Cons.prems(1) by (simp add: controller_ok_def ta)
  have "same_other_tables t db db1" using f by blast
  from controller_ok_tail [OF Cons.prems(1) [unfolded ta] this] have "controller_ok wi db1 buf c" .
  note IH = Cons.IH [OF this rest [unfolded r(1-3)]]
  have "tables db' t = tables db1 t" using IH fresh by blast
  with f have "holds_table (buf_schema (buf t)) wi db' t (buf_result (buf t))" by (simp add: holds_table_def)
  moreover have "tables db' t' = tables db t'" if "t' \<notin> fst ` set (ta # c)" for t'
  proof -
    from that IH have "tables db' t' = tables db1 t'" by simp
    with f that show ?thesis by (simp add: ta same_other_tables_def)
  qed
  ultimately show ?case using IH f unfolding r(4) by (simp add: ta)
qed

end
