(* ===== verification/DeltaTotal.thy ===== *)
theory DeltaTotal
  imports DeltaFlush
begin

text \<open>
  A flush does not only do the right thing when it succeeds, it succeeds: every statement the five
  cases send has a meaning in the state it is sent in, so a database that runs the statements that
  have a meaning never makes the flush of well-formed changes fail.
\<close>

section \<open>Statements that have a meaning\<close>

lemma exec_ok: "sql_complete exec \<Longrightarrow> sql_ok s oper \<Longrightarrow> \<exists>k s'. exec s oper = (Inr k, s')"
  by (simp add: sql_complete_def)

lemma sql_okI:
  "sql_step s oper k s' \<Longrightarrow> (\<And>t ex q. oper \<noteq> UpsertCondensed t ex q) \<Longrightarrow> sql_ok s oper"
  by (cases oper) (auto simp: sql_ok_def simp del: sql_step.simps)

lemma holds_table_rows:
  assumes "holds_table sch wi s t T" "represents sch rs T'"
  shows "\<exists>s'. rows_become s t rs s'"
proof -
  from assms(1) obtain tab where tab: "tables s t = Some tab" "tindex tab = (if wi then None else Some (pk_positions sch))"
    by (auto simp: holds_table_def split: option.splits)
  have "distinct (map (\<lambda>r. map ((!) r) (pk_positions sch)) rs)"
    using assms(2) by (simp add: represents_def pkey_def [abs_def])
  with tab have "index_ok (tab\<lparr>trows := rs\<rparr>)" by (simp add: index_ok_def)
  with tab(1) show ?thesis unfolding rows_become_def by blast
qed

lemma insert_ok:
  assumes "holds_table sch wi s t T"
    and "\<forall>r\<in>set new. row_ok sch r" "distinct (map (pkey sch) new)" "\<forall>r\<in>set new. T (pkey sch r) = None"
  shows "\<exists>k s'. inserted_step s t new k s'"
proof -
  from assms(1) obtain tab where tab: "tables s t = Some tab" "tcols tab = col_names sch" "represents sch (trows tab) T"
    by (auto simp: holds_table_def split: option.splits)
  from holds_table_rows [OF assms(1) represents_insert [OF tab(3) assms(2-4)]] obtain s' where
    "rows_become s t (trows tab @ new) s'" by blast
  with tab assms(2) show ?thesis by (auto simp: inserted_step_def row_ok_def col_names_def)
qed

lemma upsert_ok:
  assumes "holds_table sch False s t T" "\<forall>r\<in>set new. row_ok sch r" "distinct (map (pkey sch) new)"
  shows "\<exists>k s'. upserted_step s t new k s'"
proof -
  from assms(1) obtain tab where tab: "tables s t = Some tab" "tcols tab = col_names sch"
    "tindex tab = Some (pk_positions sch)" "represents sch (trows tab) T"
    by (auto simp: holds_table_def split: option.splits)
  from holds_table_rows [OF assms(1) represents_put [OF tab(4) assms(2,3)]] obtain s' where
    "rows_become s t (filter (\<lambda>r. pkey sch r \<notin> pkey sch ` set new) (trows tab) @ new) s'" by blast
  with tab assms(2) show ?thesis
    by (auto simp: upserted_step_def upserted_def pkey_def row_ok_def col_names_def)
qed

lemma has_columns_subset: "set cs \<subseteq> set h \<Longrightarrow> has_columns h cs"
  by (auto simp: has_columns_def)

lemma getPrimaryKeyList_subset: "set (getPrimaryKeyList sch) \<subseteq> set (col_names sch)"
  by (auto simp: getPrimaryKeyList_def col_names_def)

lemma getPrimaryKeyList_nonempty: "schema_ok sch \<Longrightarrow> getPrimaryKeyList sch \<noteq> []"
  by (auto simp: schema_ok_def getPrimaryKeyList_def filter_empty_conv)

lemma delete_ok:
  assumes "schema_ok sch" "holds_table sch wi s t T" "has_columns h (getPrimaryKeyList sch)"
  shows "\<exists>k s'. deleted_step s t (getPrimaryKeyList sch) h src k s'"
proof -
  from assms(2) obtain tab where tab: "tables s t = Some tab" "tcols tab = col_names sch" "represents sch (trows tab) T"
    by (auto simp: holds_table_def split: option.splits)
  let ?ks = "project h (getPrimaryKeyList sch) ` set src"
  from holds_table_rows [OF assms(2) represents_delete [OF tab(3), of ?ks]] obtain s' where
    "rows_become s t (filter (\<lambda>r. pkey sch r \<notin> ?ks) (trows tab)) s'" by blast
  moreover have "deleted (tcols tab) (getPrimaryKeyList sch) ?ks (trows tab) = filter (\<lambda>r. pkey sch r \<notin> ?ks) (trows tab)"
    unfolding tab(2) using assms(1) tab(3) by (intro deleted_pk) (auto simp: represents_def)
  moreover have "has_columns (tcols tab) (getPrimaryKeyList sch)"
    unfolding tab(2) by (intro has_columns_subset getPrimaryKeyList_subset)
  ultimately show ?thesis
    using assms(3) getPrimaryKeyList_nonempty [OF assms(1)] tab(1) by (auto simp: deleted_step_def Let_def)
qed

lemma condense_ok_app_ok:
  assumes "schema_ok sch" "app_ok sch a"
  shows "condense_ok (buildCondenseDeltaSQL env v a) (delta_batch sch ds)"
proof -
  let ?q = "buildCondenseDeltaSQL env v a" and ?h = "AugmentedColumnList @ col_names sch"
  have "cd_keys ?q = getPrimaryKeyList sch" using assms(2) by (simp add: buildCondenseDeltaSQL_def)
  then have "cd_keys ?q \<noteq> []" "has_columns ?h (cd_keys ?q)"
    using getPrimaryKeyList_nonempty [OF assms(1)] getPrimaryKeyList_subset [of sch]
    by (auto intro!: has_columns_subset)
  moreover have "has_columns ?h (cd_order ?q)"
    by (rule has_columns_subset) (simp add: buildCondenseDeltaSQL_def AugmentedColumnList_def)
  moreover have "0 < i \<and> i \<le> length ?h" if "(i, c, ts) \<in> set (cd_fields ?q)" for i c ts
  proof -
    from that have "(i, c) \<in> set (map (\<lambda>(i, c, ts). (i, c)) (cd_fields ?q))" by force
    then have "(i, c) \<in> set (enumerate 1 ?h)" unfolding cd_fields_app_ok [OF assms(2)] .
    then show ?thesis by (auto simp: in_set_enumerate_eq)
  qed
  ultimately show ?thesis unfolding condense_ok_def delta_batch_def by fastforce
qed

lemma prepareArrowView_total:
  assumes "sql_complete (env_exec env)" "app_ok sch a"
  shows "\<exists>v db' a'. prepareArrowView env t a off idx db = (Inr v, db', a')"
proof -
  have reg: "\<exists>k s'. env_exec env db (RegisterView v b) = (Inr k, s')" for v b
    by (rule exec_ok [OF assms(1)], rule sql_okI [of _ _ 0 "db\<lparr>views := (views db)(v \<mapsto> b)\<rparr>"]) simp_all
  have "\<exists>v b. prepareArrowView env t a off idx db =
      (case env_exec env db (RegisterView v b) of
         (Inl e, db') \<Rightarrow> (Inl (Error e), db', a\<lparr>app_rows := []\<rparr>)
       | (Inr _, db') \<Rightarrow> (Inr v, db', a\<lparr>app_rows := []\<rparr>))"
    using assms(2) unfolding prepareArrowView_def Let_def by (auto simp: app_ok_def)
  then obtain v b where p: "prepareArrowView env t a off idx db =
      (case env_exec env db (RegisterView v b) of
         (Inl e, db') \<Rightarrow> (Inl (Error e), db', a\<lparr>app_rows := []\<rparr>)
       | (Inr _, db') \<Rightarrow> (Inr v, db', a\<lparr>app_rows := []\<rparr>))" by blast
  with reg [of v b] show ?thesis by auto
qed

section \<open>The handlers succeed\<close>

text \<open>A database that does what the statements mean, and runs every statement that has a meaning.\<close>

definition sql_faithful :: "'v exec \<Rightarrow> bool" where
  "sql_faithful exec \<longleftrightarrow> sql_sound exec \<and> sql_complete exec"

lemma sql_faithfulD: "sql_faithful exec \<Longrightarrow> sql_sound exec" "sql_faithful exec \<Longrightarrow> sql_complete exec"
  by (simp_all add: sql_faithful_def)

lemma materializeCondensedDelta_total:
  assumes faith: "sql_faithful (env_exec env)" and sch: "schema_ok sch" and a: "app_ok sch a"
  shows "\<exists>db' st' a'. materializeCondensedDelta env t a st db = (None, db', st', a')"
proof -
  note sound = sql_faithfulD(1) [OF faith] and comp = sql_faithfulD(2) [OF faith]
  from prepareArrowView_total [OF comp a] obtain v db1 a' where
    prep: "prepareArrowView env t a 0 [] db = (Inr v, db1, a')" by blast
  note p = prepareArrowView_ok [OF sound a prep]
  have a': "app_ok sch a'" using a by (simp add: p(1) app_ok_def)
  have view: "views db1 v = Some (delta_batch sch (app_rows a))" by (rule p(3)) simp_all
  let ?q = "buildCondenseDeltaSQL env v a'" and ?b = "delta_batch sch (app_rows a)"
  let ?d = "condense_batch ?q ?b"
  have "cd_view ?q = v" by (simp add: buildCondenseDeltaSQL_def)
  then have "sql_step db1 (CreateDelta ?q) (length (batch_rows ?d)) (db1\<lparr>temp_delta := Some ?d\<rparr>)"
    using view condense_batch_result [OF condense_ok_app_ok [OF sch a', of env v "app_rows a"]] by auto
  from exec_ok [OF comp sql_okI [OF this]] obtain k db2 where "env_exec env db1 (CreateDelta ?q) = (Inr k, db2)"
    by blast
  with prep show ?thesis by (simp add: materializeCondensedDelta_def)
qed

lemma handleWithoutIndex_total:
  assumes faith: "sql_faithful (env_exec env)" and sch: "schema_ok sch" and a: "app_ok sch a"
    and tab: "holds_table sch wi db t T" and nets: "nets sch (app_rows a) E"
  shows "\<exists>db' st' a'. handleWithoutIndex env t a st db = (None, db', st', a')"
proof -
  note sound = sql_faithfulD(1) [OF faith] and comp = sql_faithfulD(2) [OF faith]
  from materializeCondensedDelta_total [OF faith sch a] obtain db1 st1 a' where
    mat: "materializeCondensedDelta env t a st db = (None, db1, st1, a')" by blast
  from materializeCondensedDelta_ok [OF sound sch a mat] obtain ds' where
    d: "temp_delta db1 = Some (delta_batch sch ds')" "condensed_delta sch (app_rows a) ds'"
      "tables db1 = tables db" "a' = a\<lparr>app_rows := []\<rparr>" by blast
  have N: "net_delta sch (app_rows a) ds' E" using nets d(2) by (simp add: net_delta_def)
  note len = condensed_lengths [OF a d(2)]
  have base: "BaseSchema a' = sch" using a d(4) by (simp add: BaseSchema_emptied)
  have tab1: "holds_table sch wi db1 t T" using tab d(3) by (simp add: holds_table_def)
  let ?h = "header (delta_batch sch ds')"
  have cols: "has_columns ?h (getPrimaryKeyList sch)"
    using getPrimaryKeyList_subset [of sch] by (intro has_columns_subset) (auto simp: delta_batch_def)
  from delete_ok [OF sch tab1 cols, of "map cells ds'"] obtain k s' where
    "deleted_step db1 t (getPrimaryKeyList sch) ?h (map cells ds') k s'" by blast
  then have "sql_step db1 (DeleteInDelta t (getPrimaryKeyList (BaseSchema a')) None) k s'"
    by (simp add: base d(1) delta_batch_def)
  from exec_ok [OF comp sql_okI [OF this]] obtain k1 db2 where
    del: "env_exec env db1 (DeleteInDelta t (getPrimaryKeyList (BaseSchema a')) None) = (Inr k1, db2)" by blast
  have step: "deleted_step db1 t (getPrimaryKeyList sch) ?h (map cells ds') k1 db2"
    using sql_sound_Inr [OF sound del] d(1) by (simp add: base delta_batch_def)
  have h2: "holds_table sch wi db2 t (T |` (- pkey sch ` vals ` set ds'))"
    using delete_holds [OF sch tab1 step] by (simp only: batch_keys [OF sch len])
  from insert_ok [OF h2 net_inserts_ok [OF N] net_inserts_distinct [OF N]] obtain n s' where
    "inserted_step db2 t (inserts ds') n s'"
    by (auto simp: inserts_def restrict_map_def)
  moreover from deleted_step_temp [OF step] d(1) have "temp_delta db2 = Some (delta_batch sch ds')" by simp
  ultimately have "sql_step db2 (InsertDelta t AugmentedColumnList (row_event_code InsertRowEvent)) n s'"
    by (simp add: batch_inserts [OF sch len] del: row_event_code.simps)
  from exec_ok [OF comp sql_okI [OF this]] obtain n' db3 where
    "env_exec env db2 (InsertDelta t AugmentedColumnList (row_event_code InsertRowEvent)) = (Inr n', db3)" by blast
  with mat del show ?thesis by (simp add: handleWithoutIndex_def Let_def del: row_event_code.simps)
qed

lemma handleGeneralCase_total:
  assumes faith: "sql_faithful (env_exec env)" and sch: "schema_ok sch" and a: "app_ok sch a"
    and tab: "holds_table sch False db t T" and nets: "nets sch (app_rows a) E"
  shows "\<exists>db' st' a'. handleGeneralCase env t a st db = (None, db', st', a')"
proof -
  note sound = sql_faithfulD(1) [OF faith] and comp = sql_faithfulD(2) [OF faith]
  from materializeCondensedDelta_total [OF faith sch a] obtain db1 st1 a' where
    mat: "materializeCondensedDelta env t a st db = (None, db1, st1, a')" by blast
  from materializeCondensedDelta_ok [OF sound sch a mat] obtain ds' where
    d: "temp_delta db1 = Some (delta_batch sch ds')" "condensed_delta sch (app_rows a) ds'"
      "tables db1 = tables db" "a' = a\<lparr>app_rows := []\<rparr>" by blast
  have N: "net_delta sch (app_rows a) ds' E" using nets d(2) by (simp add: net_delta_def)
  note len = condensed_lengths [OF a d(2)]
  have base: "BaseSchema a' = sch" using a d(4) by (simp add: BaseSchema_emptied)
  have tab1: "holds_table sch False db1 t T" using tab d(3) by (simp add: holds_table_def)
  let ?h = "header (delta_batch sch ds')"
  have cols: "has_columns ?h (getPrimaryKeyList sch)"
    using getPrimaryKeyList_subset [of sch] by (intro has_columns_subset) (auto simp: delta_batch_def)
  from upsert_ok [OF tab1 net_inserts_ok [OF N] net_inserts_distinct [OF N]] obtain k s' where
    "upserted_step db1 t (inserts ds') k s'" by blast
  then have "sql_step db1 (UpsertDelta t AugmentedColumnList (row_event_code InsertRowEvent)) k s'"
    by (simp add: d(1) batch_inserts [OF sch len] del: row_event_code.simps)
  from exec_ok [OF comp sql_okI [OF this]] obtain k1 db2 where
    ups: "env_exec env db1 (UpsertDelta t AugmentedColumnList (row_event_code InsertRowEvent)) = (Inr k1, db2)" by blast
  have step: "upserted_step db1 t (inserts ds') k1 db2"
    using sql_sound_Inr [OF sound ups] d(1) by (simp add: batch_inserts [OF sch len] del: row_event_code.simps)
  note h2 = upsert_holds [OF tab1 step net_inserts_ok [OF N] net_inserts_distinct [OF N]]
  let ?src = "with_action (delta_batch sch ds') (row_event_code DeleteRowEvent)"
  from delete_ok [OF sch conjunct1 [OF h2] cols, of ?src] obtain n s' where
    "deleted_step db2 t (getPrimaryKeyList sch) ?h ?src n s'" by blast
  moreover from upserted_step_temp [OF step] d(1) have "temp_delta db2 = Some (delta_batch sch ds')" by simp
  ultimately have
    "sql_step db2 (DeleteInDelta t (getPrimaryKeyList (BaseSchema a')) (Some (row_event_code DeleteRowEvent))) n s'"
    by (simp add: base del: row_event_code.simps)
  from exec_ok [OF comp sql_okI [OF this]] obtain n' db3 where
    "env_exec env db2 (DeleteInDelta t (getPrimaryKeyList (BaseSchema a')) (Some (row_event_code DeleteRowEvent))) = (Inr n', db3)"
    by blast
  with mat ups show ?thesis by (simp add: handleGeneralCase_def Let_def del: row_event_code.simps)
qed

lemma single_statement_total:
  assumes "prepareArrowView env t a off idx db = (Inr v, db1, a')" "env_exec env db1 (oper v a') = (Inr k, db2)"
  shows "\<exists>db' st' a'. (case prepareArrowView env t a off idx db of
        (Inl e, db', a') \<Rightarrow> (Some e, db', st, a')
      | (Inr v, db', a') \<Rightarrow>
          (case env_exec env db' (oper v a') of
             (Inl e, db'') \<Rightarrow> (Some (Error e), run_ignored env (DropView v) db'', st, a')
           | (Inr k, db'') \<Rightarrow> (None, run_ignored env (DropView v) db'', upd k, a'))) = (None, db', st', a')"
  using assms by simp

lemma handleZeroDelete_total:
  assumes faith: "sql_faithful (env_exec env)" and sch: "schema_ok sch" and a: "app_ok sch a"
    and tab: "holds_table sch False db t T" and nets: "nets sch (app_rows a) E"
    and ins: "\<forall>d\<in>set (app_rows a). action d = InsertRowEvent"
  shows "\<exists>db' st' a'. handleZeroDelete env t a st db = (None, db', st', a')"
proof -
  note sound = sql_faithfulD(1) [OF faith] and comp = sql_faithfulD(2) [OF faith]
  from prepareArrowView_total [OF comp a] obtain v db1 a' where
    prep: "prepareArrowView env t a 0 [] db = (Inr v, db1, a')" by blast
  note p = prepareArrowView_ok [OF sound a prep]
  have a': "app_ok sch a'" using a by (simp add: p(1) app_ok_def)
  have tab1: "holds_table sch False db1 t T" using tab p(2) by (simp add: holds_table_def)
  have view: "views db1 v = Some (delta_batch sch (app_rows a))" by (rule p(3)) simp_all
  let ?q = "buildCondenseDeltaSQL env v a'" and ?b = "delta_batch sch (app_rows a)"
  have "\<exists>k s'. upserted_step db1 t (map (exclude_columns AugmentedColumnList (header d)) (batch_rows d)) k s'"
    if res: "condense_result ?q ?b d" for d
  proof -
    from condense_result_app_ok [OF sch a' _ res] a obtain ds' where
      d: "d = delta_batch sch ds'" "condensed_delta sch (app_rows a) ds'" by (auto simp: app_ok_def)
    note len = condensed_lengths [OF a d(2)]
    have N: "net_delta sch (app_rows a) ds' E" using nets d(2) by (simp add: net_delta_def)
    have "inserts ds' = map vals ds'"
      using ins d(2) by (auto simp: inserts_def condensed_delta_def intro!: arg_cong [of _ _ "map vals"] filter_True)
    then have "map (exclude_columns AugmentedColumnList (header d)) (batch_rows d) = inserts ds'"
      using batch_exclude [OF sch len, of ds'] by (simp add: d(1) delta_batch_def)
    with upsert_ok [OF tab1 net_inserts_ok [OF N] net_inserts_distinct [OF N]] show ?thesis by simp
  qed
  moreover have "cd_view ?q = v" by (simp add: buildCondenseDeltaSQL_def)
  ultimately have "sql_ok db1 (UpsertCondensed t AugmentedColumnList ?q)"
    using view condense_ok_app_ok [OF sch a'] by (simp add: sql_ok_def)
  from exec_ok [OF comp this] obtain k db2 where
    "env_exec env db1 (UpsertCondensed t AugmentedColumnList ?q) = (Inr k, db2)" by blast
  with prep show ?thesis unfolding handleZeroDelete_def by (rule single_statement_total)
qed

lemma handleInsertOnly_total:
  assumes faith: "sql_faithful (env_exec env)" and sch: "schema_ok sch" and a: "app_ok sch a"
    and tab: "holds_table sch wi db t T"
    and ok: "\<forall>d\<in>set (app_rows a). row_ok sch (vals d) \<and> T (pkey sch (vals d)) = None"
    and dist: "distinct (map (pkey sch) (map vals (app_rows a)))"
  shows "\<exists>db' st' a'. handleInsertOnly env t a st db = (None, db', st', a')"
proof -
  note sound = sql_faithfulD(1) [OF faith] and comp = sql_faithfulD(2) [OF faith]
  from prepareArrowView_total [OF comp a] obtain v db1 a' where
    prep: "prepareArrowView env t a NumAugmentedFields [] db = (Inr v, db1, a')" by blast
  note p = prepareArrowView_ok [OF sound a prep]
  have view: "views db1 v = Some \<lparr>header = col_names sch, batch_rows = map vals (app_rows a)\<rparr>" by (rule p(4)) simp
  have cols: "map fst (buildColumnList env (BaseSchema a')) = col_names sch"
    using a by (simp add: p(1) BaseSchema_emptied buildColumnList_def col_names_def)
  have proj: "map (project (col_names sch) (col_names sch) \<circ> vals) (app_rows a) = map vals (app_rows a)"
    using ok sch by (auto simp: schema_ok_def row_ok_def col_names_def intro!: project_self)
  have tab1: "holds_table sch wi db1 t T" using tab p(2) by (simp add: holds_table_def)
  from ok obtain k s' where "inserted_step db1 t (map vals (app_rows a)) k s'"
    using insert_ok [OF tab1 _ dist] by auto
  then have "sql_step db1 (InsertSelect t (buildColumnList env (BaseSchema a')) v) k s'"
    using view cols proj by (simp add: has_columns_def del: map_eq_conv)
  from exec_ok [OF comp sql_okI [OF this]] obtain k' db2 where
    "env_exec env db1 (InsertSelect t (buildColumnList env (BaseSchema a')) v) = (Inr k', db2)" by blast
  with prep show ?thesis unfolding handleInsertOnly_def by (rule single_statement_total)
qed

lemma handleDeleteOnly_total:
  assumes faith: "sql_faithful (env_exec env)" and sch: "schema_ok sch" and a: "app_ok sch a"
    and tab: "holds_table sch wi db t T"
  shows "\<exists>db' st' a'. handleDeleteOnly env t a st db = (None, db', st', a')"
proof -
  note sound = sql_faithfulD(1) [OF faith] and comp = sql_faithfulD(2) [OF faith]
  from prepareArrowView_total [OF comp a] obtain v db1 a' where
    prep: "prepareArrowView env t a 0 (getPrimaryKeyIndices a) db = (Inr v, db1, a')" by blast
  note p = prepareArrowView_ok [OF sound a prep]
  have "getPrimaryKeyIndices a \<noteq> []"
    using getPrimaryKeyList_nonempty [OF sch] a by (auto simp: getPrimaryKeyIndices_def getPrimaryKeyList_nth)
  then have view: "views db1 v = Some \<lparr>header = getPrimaryKeyList sch, batch_rows = map (pkey sch \<circ> vals) (app_rows a)\<rparr>"
    by (intro p(5)) simp_all
  have base: "BaseSchema a' = sch" using a by (simp add: p(1) BaseSchema_emptied)
  have tab1: "holds_table sch wi db1 t T" using tab p(2) by (simp add: holds_table_def)
  have "has_columns (getPrimaryKeyList sch) (getPrimaryKeyList sch)" by (simp add: has_columns_def)
  from delete_ok [OF sch tab1 this, of "map (pkey sch \<circ> vals) (app_rows a)"] obtain k s' where
    "sql_step db1 (DeleteInView t (getPrimaryKeyList (BaseSchema a')) v) k s'"
    using view by (auto simp: base)
  from exec_ok [OF comp sql_okI [OF this]] obtain k' db2 where
    "env_exec env db1 (DeleteInView t (getPrimaryKeyList (BaseSchema a')) v) = (Inr k', db2)" by blast
  with prep show ?thesis unfolding handleDeleteOnly_def by (rule single_statement_total)
qed

section \<open>A flush succeeds\<close>

lemma update_case_total:
  assumes faith: "sql_faithful (env_exec env)" and sch: "schema_ok sch" and rec: "recorded sch scs a"
    and ord: "in_order scs" and val: "valid_changes sch T (map snd scs)" and tab: "holds_table sch wi db t T"
  shows "\<exists>db' st' a'. update_case env wi t a st db = (None, db', st', a')"
proof -
  note a = recorded_app_ok [OF rec val]
  have nets: "nets sch (app_rows a) (effect sch (map snd scs))"
    using recorded_nets [OF ord val] rec by (simp add: recorded_def)
  show ?thesis
  proof (rule if_cascade [OF update_case_def [of env wi t a st db, unfolded Let_def, THEN sym]], goal_cases)
    case 1
    note io = insert_only_app [OF rec val 1(1)]
    have "\<exists>db' st' a'. handleInsertOnly env t a st db = (None, db', st', a')"
      using io by (intro handleInsertOnly_total [OF faith sch a tab]) blast+
    then show ?case unfolding 1(2) .
  next
    case 2
    from handleDeleteOnly_total [OF faith sch a tab, of st] show ?case unfolding 2(2) .
  next
    case 3
    have tab': "holds_table sch False db t T" using tab unfolding 3(2) .
    from handleZeroDelete_total [OF faith sch a tab' nets zero_delete_app [OF rec 3(1)], of st] show ?case unfolding 3(3) .
  next
    case 4
    from handleWithoutIndex_total [OF faith sch a tab nets, of st] show ?case unfolding 4(2) .
  next
    case 5
    have tab': "holds_table sch False db t T" using tab unfolding 5(1) .
    from handleGeneralCase_total [OF faith sch a tab' nets, of st] show ?case unfolding 5(2) .
  qed
qed

lemma updateTable_total:
  assumes "sql_faithful (env_exec env)" "buffered_ok wi db t b a"
  shows "\<exists>db' st' a'. updateTable env wi True t a st db = (None, db', st', a')"
proof -
  from assms(2) have b: "schema_ok (buf_schema b)" "recorded (buf_schema b) (buf_changes b) a" "in_order (buf_changes b)"
    "valid_changes (buf_schema b) (buf_table b) (map snd (buf_changes b))" "holds_table (buf_schema b) wi db t (buf_table b)"
    by (simp_all add: buffered_ok_def)
  from update_case_total [OF assms(1) b, of st] show ?thesis by (auto simp: updateTable_def)
qed

lemma flush_tables_total:
  assumes "sql_faithful (env_exec env)" "controller_ok wi db buf c"
  shows "\<exists>db' st' c'. flush_tables env wi True reason c st db = (None, db', st', c')"
  using assms(2)
proof (induction c arbitrary: db st)
  case Nil
  then show ?case by simp
next
  case (Cons ta c)
  obtain t a where ta: "ta = (t, a)" by (cases ta)
  have ok: "buffered_ok wi db t (buf t) a" using Cons.prems by (simp add: controller_ok_def ta)
  from updateTable_total [OF assms(1) ok, of st] obtain db1 st1 a1 where
    one: "(if RowCount a > 0 then updateTable env wi True t a st db else (None, db, st, a)) = (None, db1, st1, a1)"
    by (cases "RowCount a > 0") auto
  have "same_other_tables t db db1"
    using flush_one [OF sql_faithfulD(1) [OF assms(1)] ok one] by blast
  from Cons.IH [OF controller_ok_tail [OF Cons.prems [unfolded ta] this]] obtain db2 st2 c2 where
    "flush_tables env wi True reason c st1 db1 = (None, db2, st2, c2)" by blast
  then show ?case unfolding ta flush_tables.simps one by simp
qed

section \<open>Flushes that fail\<close>

lemma flush_tables_no_tx:
  assumes "\<exists>(t, a)\<in>set c. RowCount a > 0"
  shows "\<exists>c'. flush_tables env wi False reason c st db = (Some (Error ''no active transaction''), db, st, c') \<and>
           (\<forall>(t, a)\<in>set c. RowCount a > 0 \<longrightarrow> (t, a) \<in> set c')"
  using assms
proof (induction c)
  case Nil
  then show ?case by simp
next
  case (Cons ta c)
  obtain t a where ta: "ta = (t, a)" by (cases ta)
  show ?case
  proof (cases "RowCount a > 0")
    case True
    then show ?thesis by (auto simp: ta updateTable_def)
  next
    case False
    with Cons obtain c' where
      "flush_tables env wi False reason c st db = (Some (Error ''no active transaction''), db, st, c')"
      "\<forall>(t, a)\<in>set c. RowCount a > 0 \<longrightarrow> (t, a) \<in> set c'"
      by (auto simp: ta)
    with False show ?thesis by (auto simp: ta)
  qed
qed

lemma prepareArrowView_empties:
  "torn a = 0 \<Longrightarrow> app_rows (snd (snd (prepareArrowView env t a off idx db))) = []"
  by (simp add: prepareArrowView_def Let_def split: prod.split sum.split)

lemma single_statement_empties:
  assumes "torn a = 0"
  shows "app_rows (snd (snd (snd (case prepareArrowView env t a off idx db of
        (Inl e, db', a') \<Rightarrow> (Some e, db', st, a')
      | (Inr v, db', a') \<Rightarrow>
          (case env_exec env db' (oper v a') of
             (Inl e, db'') \<Rightarrow> (Some (Error e), run_ignored env (DropView v) db'', st, a')
           | (Inr k, db'') \<Rightarrow> (None, run_ignored env (DropView v) db'', upd k, a')))))) = []"
  using prepareArrowView_empties [OF assms, of env t off idx db] by (auto split: prod.split sum.split)

lemma materialize_empties: "torn a = 0 \<Longrightarrow> app_rows (snd (snd (snd (materializeCondensedDelta env t a st db)))) = []"
  unfolding materializeCondensedDelta_def by (rule single_statement_empties)

lemma update_case_empties:
  assumes "torn a = 0"
  shows "app_rows (snd (snd (snd (update_case env wi t a st db)))) = []"
proof -
  have "app_rows (snd (snd (snd (handleInsertOnly env t a st db)))) = []"
    "app_rows (snd (snd (snd (handleDeleteOnly env t a st db)))) = []"
    "app_rows (snd (snd (snd (handleZeroDelete env t a st db)))) = []"
    unfolding handleInsertOnly_def handleDeleteOnly_def handleZeroDelete_def
    by (rule single_statement_empties [OF assms])+
  moreover have "app_rows (snd (snd (snd (handleGeneralCase env t a st db)))) = []"
    "app_rows (snd (snd (snd (handleWithoutIndex env t a st db)))) = []"
    using materialize_empties [OF assms, of env t st db]
    by (auto simp: handleGeneralCase_def handleWithoutIndex_def Let_def split: prod.split option.split sum.split)
  ultimately show ?thesis by (simp add: update_case_def Let_def)
qed

lemma update_case_torn:
  "torn a > 0 \<Longrightarrow> fst (update_case env wi t a st db) = Some (Panic ''record columns have different lengths'')"
  by (simp add: update_case_def Let_def handleInsertOnly_def handleDeleteOnly_def handleZeroDelete_def
      handleWithoutIndex_def handleGeneralCase_def materializeCondensedDelta_def prepareArrowView_def)

section \<open>Properties\<close>

text \<open>A table with a key and a value column, and two row events on it: an insert and an update that moves a key.\<close>

definition demo_schema :: schema where
  "demo_schema =
     [\<lparr>col_name = ''id'', col_type = gms_simple Type_INT32, col_pk = True, col_nullable = False\<rparr>,
      \<lparr>col_name = ''v'', col_type = gms_simple Type_VARCHAR, col_pk = False, col_nullable = True\<rparr>]"

definition demo_stamp :: "u64 \<Rightarrow> u64 \<Rightarrow> stamp" where
  "demo_stamp seq stmt = \<lparr>st_tag = None, st_server = Some ''s'', st_group = None, st_seq = seq, st_stmt = stmt\<rparr>"

definition demo_changes :: "(stamp \<times> nat change) list" where
  "demo_changes =
     [(demo_stamp 7 1, \<lparr>ch_kind = InsertRowEvent, ch_dels = [], ch_inss = [[Val 1, Null], [Val 2, Text ''b'']]\<rparr>),
      (demo_stamp 8 1, \<lparr>ch_kind = UpdateRowEvent, ch_dels = [[Val 2, Text ''b'']], ch_inss = [[Val 3, Text ''b'']]\<rparr>)]"

definition demo_table :: tableIdentifier where
  "demo_table = \<lparr>dbName = ''db'', tableName = ''t''\<rparr>"

definition demo_store :: "bool \<Rightarrow> nat store" where
  "demo_store wi =
     \<lparr>tables = [demo_table \<mapsto> \<lparr>tcols = [''id'', ''v''], tindex = (if wi then None else Some [0]), trows = []\<rparr>],
      views = Map.empty, temp_delta = None\<rparr>"

definition demo_env :: "nat delta_env" where
  "demo_env = \<lparr>env_exec = ref_exec, env_hash = (\<lambda>_. 0), env_IsTimestampType = (\<lambda>_. False)\<rparr>"

definition demo_appender :: "nat DeltaAppender" where
  "demo_appender =
     (case newDeltaAppender demo_schema of
        Inr a \<Rightarrow> record_changes demo_changes a
      | Inl e \<Rightarrow> \<lparr>app_schema = [], app_rows = [], torn = 0, app_counters = zero_counters\<rparr>)"

lemma demo_recorded:
  "\<exists>a. newDeltaAppender demo_schema = Inr a \<and> demo_appender = record_changes demo_changes a"
proof -
  have "\<not> isl (newDeltaAppender demo_schema :: nat DeltaAppender res)" by code_simp
  then show ?thesis by (auto simp: demo_appender_def isl_def split: sum.splits)
qed

lemma demo_ok:
  "schema_ok demo_schema" "in_order demo_changes" "valid_changes demo_schema Map.empty (map snd demo_changes)"
  "holds_table demo_schema wi (demo_store wi) demo_table Map.empty"
proof -
  show "schema_ok demo_schema" by code_simp
  show "in_order demo_changes" by code_simp
  show "valid_changes demo_schema Map.empty (map snd demo_changes)" by code_simp
  show "holds_table demo_schema wi (demo_store wi) demo_table Map.empty"
    by (simp add: holds_table_def demo_store_def represents_def demo_schema_def col_names_def pk_positions_def)
qed

lemma demo_faithful: "sql_faithful (env_exec demo_env)"
  by (simp add: demo_env_def sql_faithful_def ref_exec_sound ref_exec_complete)

definition demo_buffer :: "nat buffered" where
  "demo_buffer = \<lparr>buf_schema = demo_schema, buf_changes = demo_changes, buf_table = Map.empty\<rparr>"

lemma demo_buffered: "buffered_ok wi (demo_store wi) demo_table demo_buffer demo_appender"
proof -
  from demo_recorded obtain a0 where a0: "newDeltaAppender demo_schema = Inr a0"
    "demo_appender = record_changes demo_changes a0" by blast
  from recorded_record_changes [OF recorded_new [OF a0(1)], of demo_changes]
  have "recorded demo_schema demo_changes demo_appender" by (simp add: a0(2))
  with demo_ok show ?thesis by (simp add: buffered_ok_def demo_buffer_def)
qed

lemma demo_controller:
  "controller_ok wi (demo_store wi) (\<lambda>_. demo_buffer) [(demo_table, demo_appender)]"
  using demo_buffered by (simp add: controller_ok_def)

text \<open>
  (C5) Flushing the buffer of a table leaves in the database the rows obtained by applying the
  recorded row events one after the other, with and without a primary-key index, whichever of the
  five cases is taken; other tables keep their rows, and the buffer is empty afterwards.
\<close>

theorem updateTable_refines:
  assumes "sql_sound (env_exec env)" and "schema_ok sch" and "newDeltaAppender sch = Inr a0"
    and "in_order scs" and "valid_changes sch T (map snd scs)" and "holds_table sch withoutIndex db t T"
    and "updateTable env withoutIndex tx t (record_changes scs a0) st db = (None, db', st', a')"
  shows "holds_table sch withoutIndex db' t (apply_changes sch T (map snd scs)) \<and>
         same_other_tables t db db' \<and> RowCount a' = 0"
proof -
  have "recorded sch scs (record_changes scs a0)"
    using recorded_record_changes [OF recorded_new [OF assms(3)], of scs] by simp
  from updateTable_holds [OF assms(1,2) this assms(4-7)] show ?thesis
    by (simp add: recorded_def RowCount_def)
qed

theorem updateTable_refines_witness:
  "\<exists>a0 db' st' a'. newDeltaAppender demo_schema = Inr a0 \<and>
     updateTable demo_env False True demo_table (record_changes demo_changes a0) zero_stats (demo_store False) = (None, db', st', a') \<and>
     holds_table demo_schema False db' demo_table (apply_changes demo_schema Map.empty (map snd demo_changes))"
proof -
  from demo_recorded obtain a0 where a0: "newDeltaAppender demo_schema = Inr a0"
    "demo_appender = record_changes demo_changes a0" by blast
  from updateTable_total [OF demo_faithful demo_buffered [of False]] obtain db' st' a' where
    u: "updateTable demo_env False True demo_table (record_changes demo_changes a0) zero_stats (demo_store False) = (None, db', st', a')"
    unfolding a0(2) by blast
  from updateTable_refines [OF sql_faithfulD(1) [OF demo_faithful] demo_ok(1) a0(1) demo_ok(2,3,4) u] a0 u
  show ?thesis by blast
qed

text \<open>
  (C6) A flush of all tables that succeeds leaves each table with the rows of its recorded events
  applied in order, leaves the tables without a buffer alone and empties the buffers; after a
  DDL flush no buffer is kept. The order in which the map of buffers is visited does not matter.
\<close>

theorem Flush_refines:
  assumes "sql_sound (env_exec env)" and "controller_ok withoutIndex db buf c"
    and "Flush env withoutIndex tx reason c db = (None, db', st', c')"
  shows "(\<forall>t\<in>fst ` set c. holds_table (buf_schema (buf t)) withoutIndex db' t (buf_result (buf t))) \<and>
         (\<forall>t. t \<notin> fst ` set c \<longrightarrow> tables db' t = tables db t) \<and>
         (\<forall>(t, a)\<in>set c'. RowCount a = 0) \<and> (reason = DDLStmtFlushReason \<longrightarrow> c' = [])"
  using flush_tables_holds [OF assms(1,2) assms(3) [unfolded Flush_def]] by blast

theorem Flush_refines_witness:
  "\<exists>db' st' c'. Flush demo_env True True TimeTickFlushReason [(demo_table, demo_appender)] (demo_store True) = (None, db', st', c') \<and>
     holds_table demo_schema True db' demo_table (apply_changes demo_schema Map.empty (map snd demo_changes))"
proof -
  from flush_tables_total [OF demo_faithful demo_controller [of True]] obtain db' st' c' where
    f: "Flush demo_env True True TimeTickFlushReason [(demo_table, demo_appender)] (demo_store True) = (None, db', st', c')"
    unfolding Flush_def by blast
  from Flush_refines [OF sql_faithfulD(1) [OF demo_faithful] demo_controller f] f show ?thesis
    by (simp add: demo_buffer_def buf_result_def)
qed

text \<open>
  (C7) A flush of well-formed buffers inside a transaction does not fail, when the database runs
  the statements that have a meaning.
\<close>

theorem Flush_succeeds:
  assumes "sql_faithful (env_exec env)" and "controller_ok withoutIndex db buf c"
  shows "fst (Flush env withoutIndex True reason c db) = None"
  using flush_tables_total [OF assms, of reason zero_stats] by (auto simp: Flush_def)

theorem Flush_succeeds_witness:
  "fst (Flush demo_env False True QueryFlushReason [(demo_table, demo_appender)] (demo_store False)) = None"
  by (rule Flush_succeeds [OF demo_faithful demo_controller])

text \<open>
  Without a transaction the flush of a buffer with rows fails, and the database and the buffers
  stay as they are.
\<close>

theorem Flush_without_transaction:
  assumes "\<exists>(t, a)\<in>set c. RowCount a > 0"
  shows "\<exists>st c'. Flush env withoutIndex False reason c db = (Some (Error ''no active transaction''), db, st, c') \<and>
           (\<forall>(t, a)\<in>set c. RowCount a > 0 \<longrightarrow> (t, a) \<in> set c')"
  using flush_tables_no_tx [OF assms, of env withoutIndex reason zero_stats db] by (auto simp: Flush_def)

theorem Flush_without_transaction_witness:
  "fst (Flush demo_env True False DDLStmtFlushReason [(demo_table, demo_appender)] (demo_store True))
     = Some (Error ''no active transaction'')"
proof -
  have "\<exists>(t, a)\<in>set [(demo_table, demo_appender)]. RowCount a > 0" by code_simp
  from Flush_without_transaction [OF this, of demo_env True DDLStmtFlushReason "demo_store True"]
  show ?thesis by auto
qed

text \<open>
  (C16) A flush that fails inside a transaction has nevertheless emptied the buffer of the table
  and reset its counters: the changes are gone, whatever the caller does with the transaction.
\<close>

theorem updateTable_failure_drops_rows:
  assumes "updateTable env withoutIndex True t a st db = (Some e, db', st', a')" and "torn a = 0"
  shows "app_rows a' = [] \<and> app_counters a' = zero_counters"
  using update_case_empties [OF assms(2), of env withoutIndex t st db] assms(1)
  by (auto simp: updateTable_def ResetCounters_def split: prod.splits)

definition failing_exec :: "nat exec" where
  "failing_exec s oper = (case oper of RegisterView v b \<Rightarrow> ref_exec s oper | _ \<Rightarrow> (Inl ''disk full'', s))"

theorem updateTable_failure_drops_rows_witness:
  "app_rows demo_appender \<noteq> [] \<and>
   (\<exists>db' st' a'. updateTable (demo_env\<lparr>env_exec := failing_exec\<rparr>) True True demo_table demo_appender zero_stats (demo_store True)
      = (Some (Error ''disk full''), db', st', a') \<and> app_rows a' = [])"
proof -
  obtain e db' st' a' where u: "updateTable (demo_env\<lparr>env_exec := failing_exec\<rparr>) True True demo_table demo_appender zero_stats (demo_store True) = (e, db', st', a')"
    by (metis prod_cases4)
  have "fst (updateTable (demo_env\<lparr>env_exec := failing_exec\<rparr>) True True demo_table demo_appender zero_stats (demo_store True)) = Some (Error ''disk full'')"
    by code_simp
  with u have e: "e = Some (Error ''disk full'')" by simp
  have "torn demo_appender = 0" by code_simp
  from updateTable_failure_drops_rows [OF u [unfolded e] this] u [unfolded e] have
    "\<exists>db' st' a'. updateTable (demo_env\<lparr>env_exec := failing_exec\<rparr>) True True demo_table demo_appender zero_stats (demo_store True)
      = (Some (Error ''disk full''), db', st', a') \<and> app_rows a' = []" by blast
  moreover have "app_rows demo_appender \<noteq> []" by code_simp
  ultimately show ?thesis by blast
qed

text \<open>
  A row whose append stopped midway makes every later flush of its table panic.
\<close>

theorem updateTable_torn_panics:
  assumes "torn a > 0"
  shows "fst (updateTable env withoutIndex True t a st db) = Some (Panic ''record columns have different lengths'')"
  using assms by (simp add: updateTable_def case_prod_beta update_case_torn)

theorem updateTable_torn_panics_witness:
  "fst (updateTable demo_env True True demo_table (demo_appender\<lparr>torn := 1\<rparr>) zero_stats (demo_store True))
     = Some (Panic ''record columns have different lengths'')"
  by (rule updateTable_torn_panics) simp

end
