(* ===== verification/RowBinlog.thy ===== *)
theory RowBinlog
  imports SqlTypes
begin

unbundle bit_operations_syntax

text \<open>
  Decoding of the cells of row-based binlog events (\<^verbatim>\<open>binlog/rbr.go\<close>): the length of a cell and its
  value, per column type of the source, including packed decimals and the temporal formats.

  An Arrow builder is modelled by its data type and what is appended to it by a value of
  \<open>arrow_value\<close>; a failed type assertion on the builder or on the column type is a panic.
  \<^verbatim>\<open>sqltypes.IsSigned\<close> and \<^verbatim>\<open>IsBinary\<close>, the member tables of ENUM and SET columns, the JSON parsers, the
  text encodings and the size check of Arrow's decimals are third-party code, the fields of
  \<open>row_env\<close>. Metadata with a scale above the precision, which a source never sends for a decimal
  column, makes the model panic.
\<close>

section \<open>Types and values\<close>

datatype binlog_type =
    TypeDecimal | TypeTiny | TypeShort | TypeLong | TypeFloat | TypeDouble | TypeNull | TypeTimestamp
  | TypeLongLong | TypeInt24 | TypeDate | TypeTime | TypeDateTime | TypeYear | TypeNewDate | TypeVarchar
  | TypeBit | TypeTimestamp2 | TypeDateTime2 | TypeTime2 | TypeVector | TypeJSON | TypeNewDecimal
  | TypeEnum | TypeSet | TypeTinyBlob | TypeMediumBlob | TypeLongBlob | TypeBlob | TypeVarString
  | TypeString | TypeGeometry | TypeUnknown nat

text \<open>Codes that occur in the metadata of string columns.\<close>

definition code_TypeEnum :: u16 where "code_TypeEnum = 247"
definition code_TypeSet :: u16 where "code_TypeSet = 248"

text \<open>A \<^verbatim>\<open>time.Time\<close>: seconds since 1970 and nanoseconds.\<close>

type_synonym go_time = "int \<times> int"

definition days_from_civil :: "int \<Rightarrow> int \<Rightarrow> int \<Rightarrow> int" where
  "days_from_civil y m d =
     (let y' = (if m \<le> 2 then y - 1 else y);
          era = y' div 400;
          yoe = y' mod 400;
          doy = (153 * ((m + 9) mod 12) + 2) div 5 + d - 1;
          doe = yoe * 365 + yoe div 4 - yoe div 100 + doy
      in era * 146097 + doe - 719468)"

text \<open>\<^verbatim>\<open>time.Date\<close> in UTC and \<^verbatim>\<open>time.Unix\<close>; months and days outside their range are normalised.\<close>

definition time_Date :: "int \<Rightarrow> int \<Rightarrow> int \<Rightarrow> int \<Rightarrow> int \<Rightarrow> int \<Rightarrow> int \<Rightarrow> go_time" where
  "time_Date y mo d h mi s ns =
     (days_from_civil (y + (mo - 1) div 12) ((mo - 1) mod 12 + 1) d * 86400 + h * 3600 + mi * 60 + s
        + ns div 1000000000, ns mod 1000000000)"

definition time_Unix :: "int \<Rightarrow> int \<Rightarrow> go_time" where
  "time_Unix s ns = (s + ns div 1000000000, ns mod 1000000000)"

datatype arrow_value =
    AInt8 byte | AUint8 byte | AInt16 u16 | AUint16 u16 | AInt32 u32 | AUint32 u32 | AInt64 u64 | AUint64 u64
  | AFloat32 u32 | AFloat64 u64 | ATime go_time | ADate32 go_time | ADuration int | AString bytes | ABinary bytes
  | ADecimal int | ABool bool | ATime64 int | AList "arrow_value option list"

record row_env =
  IsSigned :: "query_type \<Rightarrow> bool"
  IsBinary :: "query_type \<Rightarrow> bool"
  EnumAt :: "gms_type \<Rightarrow> nat \<Rightarrow> bytes option"
  BitsToString :: "gms_type \<Rightarrow> u64 \<Rightarrow> bytes option"
  row_codec :: codec
  ParseBinaryJSON :: "bytes \<Rightarrow> bytes option"
  ParseJSON :: "bytes \<Rightarrow> bytes option"
  decimal_fits :: "arrow_type \<Rightarrow> nat \<Rightarrow> bool"

type_synonym cell = "(nat \<times> arrow_value) res"

definition bad_builder :: "'a res" where
  "bad_builder = Inl (Panic ''interface conversion'')"

definition push :: "bool \<Rightarrow> nat \<Rightarrow> arrow_value \<Rightarrow> cell" where
  "push ok n v = (if ok then Inr (n, v) else bad_builder)"

definition is_timestamp :: "arrow_type \<Rightarrow> bool" where
  "is_timestamp t = (case t of Arrow_Timestamp u z \<Rightarrow> True | _ \<Rightarrow> False)"

text \<open>Types of go-mysql-server that implement \<^verbatim>\<open>sql.StringType\<close>.\<close>

definition is_string_type :: "gms_type \<Rightarrow> bool" where
  "is_string_type g \<longleftrightarrow>
     qtype g \<in> {Type_TEXT, Type_BLOB, Type_VARCHAR, Type_VARBINARY, Type_CHAR, Type_BINARY}"

text \<open>Integers of \<open>n\<close> bytes at a position.\<close>

definition le_read :: "bytes \<Rightarrow> nat \<Rightarrow> nat \<Rightarrow> nat res" where
  "le_read d pos n = bind_res (slice d pos (pos + n)) (\<lambda>s. Inr (le_nat s))"

definition be_read :: "bytes \<Rightarrow> nat \<Rightarrow> nat \<Rightarrow> nat res" where
  "be_read d pos n = bind_res (slice d pos (pos + n)) (\<lambda>s. Inr (be_nat s))"

definition md_hi :: "u16 \<Rightarrow> nat" where "md_hi md = unat (drop_bit 8 md)"
definition md_lo :: "u16 \<Rightarrow> nat" where "md_lo md = unat (md AND 0xFF)"

definition string_max :: "u16 \<Rightarrow> nat" where
  "string_max md = unat ((((drop_bit 4 md) AND 0x300) XOR 0x300) + (md AND 0xFF))"

definition bit_length_bytes :: "u16 \<Rightarrow> nat" where
  "bit_length_bytes md = (unat (drop_bit 8 md * 8 + (md AND 0xFF)) + 7) div 8"

definition dig2bytes :: "nat list" where
  "dig2bytes = [0, 1, 1, 2, 2, 3, 3, 4, 4, 4]"

definition decimal_length :: "nat \<Rightarrow> nat \<Rightarrow> nat" where
  "decimal_length prec scl =
     (let intg = prec - scl
      in intg div 9 * 4 + dig2bytes ! (intg mod 9) + scl div 9 * 4 + dig2bytes ! (scl mod 9))"

definition blob_length :: "bytes \<Rightarrow> nat \<Rightarrow> u16 \<Rightarrow> nat res" where
  "blob_length d pos md =
     (if md \<in> {1, 2, 3, 4} then le_read d pos (unat md)
      else Inl (Error ''unsupported blob metadata value''))"

section \<open>CellLength\<close>

definition CellLength :: "bytes \<Rightarrow> nat \<Rightarrow> binlog_type \<Rightarrow> u16 \<Rightarrow> nat res" where
  "CellLength d pos ty md =
     (if ty = TypeNull then Inr 0
      else if ty \<in> {TypeTiny, TypeYear} then Inr 1
      else if ty = TypeShort then Inr 2
      else if ty = TypeInt24 then Inr 3
      else if ty \<in> {TypeLong, TypeFloat, TypeTimestamp} then Inr 4
      else if ty \<in> {TypeLongLong, TypeDouble} then Inr 8
      else if ty \<in> {TypeDate, TypeTime, TypeNewDate} then Inr 3
      else if ty = TypeDateTime then Inr 8
      else if ty \<in> {TypeVarchar, TypeVarString} then
        (if md > 255 then bind_res (le_read d pos 2) (\<lambda>l. Inr (l + 2))
         else bind_res (le_read d pos 1) (\<lambda>l. Inr (l + 1)))
      else if ty = TypeBit then Inr (bit_length_bytes md)
      else if ty = TypeTimestamp2 then Inr (4 + (unat md + 1) div 2)
      else if ty = TypeDateTime2 then Inr (5 + (unat md + 1) div 2)
      else if ty = TypeTime2 then Inr (3 + (unat md + 1) div 2)
      else if ty = TypeNewDecimal then
        (if md_lo md > md_hi md then Inl (Panic ''index out of range'')
         else Inr (decimal_length (md_hi md) (md_lo md)))
      else if ty \<in> {TypeEnum, TypeSet} then Inr (md_lo md)
      else if ty \<in> {TypeJSON, TypeTinyBlob, TypeMediumBlob, TypeLongBlob, TypeBlob, TypeGeometry, TypeVector} then
        bind_res (blob_length d pos md) (\<lambda>l. Inr (unat md + l))
      else if ty = TypeString then
        (if drop_bit 8 md = code_TypeEnum \<or> drop_bit 8 md = code_TypeSet then Inr (md_lo md)
         else if string_max md > 255 then bind_res (le_read d pos 2) (\<lambda>l. Inr (l + 2))
         else bind_res (le_read d pos 1) (\<lambda>l. Inr (l + 1)))
      else Inl (Error ''unsupported type''))"

section \<open>Numbers\<close>

text \<open>\<^verbatim>\<open>TypeTiny\<close>, \<^verbatim>\<open>TypeYear\<close>, \<^verbatim>\<open>TypeShort\<close>, \<^verbatim>\<open>TypeLong\<close>, \<^verbatim>\<open>TypeLongLong\<close>\<close>

definition cell_tiny :: "row_env \<Rightarrow> bytes \<Rightarrow> nat \<Rightarrow> query_type \<Rightarrow> arrow_type \<Rightarrow> cell" where
  "cell_tiny env d pos ftype b =
     bind_res (byte_at d pos) (\<lambda>v.
       if IsSigned env ftype then push (b = Arrow_Int8) 1 (AInt8 v) else push (b = Arrow_Uint8) 1 (AUint8 v))"

definition cell_year :: "bytes \<Rightarrow> nat \<Rightarrow> arrow_type \<Rightarrow> cell" where
  "cell_year d pos b =
     bind_res (byte_at d pos) (\<lambda>v.
       if v = 0 then push (b = Arrow_Uint16) 1 (AUint16 0)
       else push (b = Arrow_Uint16) 1 (AUint16 (ucast v + 1900)))"

definition cell_short :: "row_env \<Rightarrow> bytes \<Rightarrow> nat \<Rightarrow> query_type \<Rightarrow> arrow_type \<Rightarrow> cell" where
  "cell_short env d pos ftype b =
     bind_res (le_read d pos 2) (\<lambda>v.
       if IsSigned env ftype then push (b = Arrow_Int16) 2 (AInt16 (word_of_nat v))
       else push (b = Arrow_Uint16) 2 (AUint16 (word_of_nat v)))"

definition cell_long :: "row_env \<Rightarrow> bytes \<Rightarrow> nat \<Rightarrow> query_type \<Rightarrow> arrow_type \<Rightarrow> cell" where
  "cell_long env d pos ftype b =
     bind_res (le_read d pos 4) (\<lambda>v.
       if IsSigned env ftype then push (b = Arrow_Int32) 4 (AInt32 (word_of_nat v))
       else push (b = Arrow_Uint32) 4 (AUint32 (word_of_nat v)))"

definition cell_longlong :: "row_env \<Rightarrow> bytes \<Rightarrow> nat \<Rightarrow> query_type \<Rightarrow> arrow_type \<Rightarrow> cell" where
  "cell_longlong env d pos ftype b =
     bind_res (le_read d pos 8) (\<lambda>v.
       if IsSigned env ftype then push (b = Arrow_Int64) 8 (AInt64 (word_of_nat v))
       else push (b = Arrow_Uint64) 8 (AUint64 (word_of_nat v)))"

text \<open>\<^verbatim>\<open>TypeInt24\<close>: a negative number is extended with a fourth byte \<open>255\<close>.\<close>

definition cell_int24 :: "row_env \<Rightarrow> bytes \<Rightarrow> nat \<Rightarrow> query_type \<Rightarrow> arrow_type \<Rightarrow> cell" where
  "cell_int24 env d pos ftype b =
     bind_res (byte_at d (pos + 2)) (\<lambda>top.
     bind_res (le_read d pos 3) (\<lambda>v.
       if IsSigned env ftype \<and> top AND 128 \<noteq> 0
       then push (b = Arrow_Int32) 3 (AInt32 (word_of_nat (v + 255 * 2 ^ 24)))
       else if b = Arrow_Int32 then Inr (3, AInt32 (word_of_nat v))
       else if b = Arrow_Uint32 then Inr (3, AUint32 (word_of_nat v))
       else Inl (Error ''unexpected Arrow builder type'')))"

definition cell_float :: "bytes \<Rightarrow> nat \<Rightarrow> arrow_type \<Rightarrow> cell" where
  "cell_float d pos b =
     bind_res (le_read d pos 4) (\<lambda>v. push (b = Arrow_Float32) 4 (AFloat32 (word_of_nat v)))"

definition cell_double :: "bytes \<Rightarrow> nat \<Rightarrow> arrow_type \<Rightarrow> cell" where
  "cell_double d pos b =
     bind_res (le_read d pos 8) (\<lambda>v. push (b = Arrow_Float64) 8 (AFloat64 (word_of_nat v)))"

definition cell_bit :: "bytes \<Rightarrow> nat \<Rightarrow> u16 \<Rightarrow> arrow_type \<Rightarrow> cell" where
  "cell_bit d pos md b =
     (let l = bit_length_bytes md in
      if l > 8 then Inl (Panic ''slice bounds out of range'')
      else bind_res (be_read d pos l) (\<lambda>v. push (b = Arrow_Uint64) l (AUint64 (word_of_nat v))))"

section \<open>Dates and times\<close>

definition cell_timestamp :: "bytes \<Rightarrow> nat \<Rightarrow> arrow_type \<Rightarrow> cell" where
  "cell_timestamp d pos b =
     bind_res (le_read d pos 4) (\<lambda>v. push (is_timestamp b) 4 (ATime (time_Unix (int v) 0)))"

definition cell_date :: "bytes \<Rightarrow> nat \<Rightarrow> arrow_type \<Rightarrow> cell" where
  "cell_date d pos b =
     bind_res (le_read d pos 3) (\<lambda>v.
       let day = v mod 32; month = v div 2 ^ 5 mod 16; year = v div 2 ^ 9
       in push (b = Arrow_Date32) 3 (ADate32 (time_Date (int year) (int month) (int day) 0 0 0 0)))"

text \<open>Division and remainder of signed integers in Go round towards zero.\<close>

definition go_quot :: "int \<Rightarrow> int \<Rightarrow> int" where
  "go_quot a b = sgn a * sgn b * (\<bar>a\<bar> div \<bar>b\<bar>)"

definition go_rem :: "int \<Rightarrow> int \<Rightarrow> int" where
  "go_rem a b = a - b * go_quot a b"

text \<open>\<^verbatim>\<open>TypeTime\<close>, the format before MySQL 5.6: a signed decimal number \<^verbatim>\<open>hhmmss\<close> of three bytes.\<close>

definition cell_time :: "bytes \<Rightarrow> nat \<Rightarrow> arrow_type \<Rightarrow> cell" where
  "cell_time d pos b =
     bind_res (byte_at d (pos + 2)) (\<lambda>top.
     bind_res (le_read d pos 3) (\<lambda>v.
       let (hour, minute, second) =
         (if top AND 128 \<noteq> 0 then
            (let val = sint (word_of_nat (v + 255 * 2 ^ 24) :: u32)
             in (go_quot val 10000, - go_quot (go_rem val 10000) 100, - go_rem val 100))
          else
            (let val = int v
             in (go_quot val 10000, go_quot (go_rem val 10000) 100, go_rem val 100)))
       in push (b = Arrow_Duration_us) 3 (ADuration ((hour * 3600 + minute * 60 + second) * 1000000))))"

definition cell_datetime :: "bytes \<Rightarrow> nat \<Rightarrow> arrow_type \<Rightarrow> cell" where
  "cell_datetime d pos b =
     bind_res (le_read d pos 8) (\<lambda>v.
       let dt = v div 1000000; t = v mod 1000000;
           year = dt div 10000; month = dt mod 10000 div 100; day = dt mod 100;
           hour = t div 10000; minute = t mod 10000 div 100; second = t mod 100
       in push (is_timestamp b) 8
            (ATime (time_Date (int year) (int month) (int day) (int hour) (int minute) (int second) 0)))"

text \<open>
  The fraction of a \<^verbatim>\<open>TIMESTAMP2\<close> or \<^verbatim>\<open>DATETIME2\<close> value in microseconds, with the number of bytes
  it takes.
\<close>

definition fraction :: "bytes \<Rightarrow> nat \<Rightarrow> u16 \<Rightarrow> (nat \<times> nat) res" where
  "fraction d pos md =
     (if md = 1 then bind_res (be_read d pos 1) (\<lambda>v. Inr (1, v div 10 * 100000))
      else if md = 2 then bind_res (be_read d pos 1) (\<lambda>v. Inr (1, v * 10000))
      else if md = 3 then bind_res (be_read d pos 2) (\<lambda>v. Inr (2, v div 10 * 1000))
      else if md = 4 then bind_res (be_read d pos 2) (\<lambda>v. Inr (2, v * 100))
      else if md = 5 then bind_res (be_read d pos 3) (\<lambda>v. Inr (3, v div 10 * 10))
      else if md = 6 then bind_res (be_read d pos 3) (\<lambda>v. Inr (3, v))
      else Inr (0, 0))"

definition cell_timestamp2 :: "bytes \<Rightarrow> nat \<Rightarrow> u16 \<Rightarrow> arrow_type \<Rightarrow> cell" where
  "cell_timestamp2 d pos md b =
     bind_res (be_read d pos 4) (\<lambda>second.
     bind_res (fraction d (pos + 4) md) (\<lambda>(n, frac).
       push (is_timestamp b) (4 + n) (ATime (time_Unix (int second) (int (frac * 1000))))))"

definition cell_datetime2 :: "bytes \<Rightarrow> nat \<Rightarrow> u16 \<Rightarrow> arrow_type \<Rightarrow> cell" where
  "cell_datetime2 d pos md b =
     bind_res (be_read d pos 5) (\<lambda>v.
     bind_res (fraction d (pos + 5) md) (\<lambda>(n, frac).
       let ymdhms = unat (word_of_nat v - 0x8000000000 :: u64);
           ymd = ymdhms div 2 ^ 17; ym = ymd div 2 ^ 5; hms = ymdhms mod 2 ^ 17;
           day = ymd mod 2 ^ 5; month = ym mod 13; year = ym div 13;
           second = hms mod 2 ^ 6; minute = hms div 2 ^ 6 mod 2 ^ 6; hour = hms div 2 ^ 12
       in push (is_timestamp b) (5 + n)
            (ATime (time_Date (int year) (int month) (int day) (int hour) (int minute) (int second)
                      (int (frac * 1000))))))"

text \<open>
  The fraction of a \<^verbatim>\<open>TIME2\<close> value. The fraction of a negative value is stored as a complement,
  and the whole seconds are then one too many.
\<close>

definition time2_fraction :: "bool \<Rightarrow> nat \<Rightarrow> int \<Rightarrow> nat \<Rightarrow> int \<times> int" where
  "time2_fraction neg n hms v =
     (if neg \<and> v \<noteq> 0 then (hms - 1, 256 ^ n - int v) else (hms, int v))"

definition cell_time2 :: "bytes \<Rightarrow> nat \<Rightarrow> u16 \<Rightarrow> arrow_type \<Rightarrow> cell" where
  "cell_time2 d pos md b =
     bind_res (be_read d pos 3) (\<lambda>x.
     let h0 = int x - 0x800000;
         neg = h0 < 0;
         hms0 = \<bar>h0\<bar>;
         n = (if md \<in> {1, 2} then 1 else if md \<in> {3, 4} then 2 else if md \<in> {5, 6} then 3 else 0)
     in bind_res (be_read d (pos + 3) n) (\<lambda>v.
     let (hms, f) = (if n = 0 then (hms0, 0) else time2_fraction neg n hms0 v);
         frac = (if md = 1 then f div 10 * 100000 else if md = 2 then f * 10000
                 else if md = 3 then f div 10 * 1000 else if md = 4 then f * 100
                 else if md = 5 then f div 10 * 10 else f);
         hour = hms div 2 ^ 12 mod 2 ^ 10; minute = hms div 2 ^ 6 mod 2 ^ 6; second = hms mod 2 ^ 6;
         micros = (if neg then - 1 else 1) * ((hour * 3600 + minute * 60 + second) * 1000000 + frac)
     in push (b = Arrow_Duration_us) (3 + (unat md + 1) div 2) (ADuration micros)))"

section \<open>Decimals\<close>

definition powers_of_10 :: "nat list" where
  "powers_of_10 = map (\<lambda>i. 10 ^ i) [0..<20]"

text \<open>Groups of nine digits, four bytes each.\<close>

fun decimal_groups :: "nat \<Rightarrow> bytes \<Rightarrow> nat \<Rightarrow> nat \<times> bytes" where
  "decimal_groups 0 d coeff = (coeff, d)"
| "decimal_groups (Suc n) d coeff = decimal_groups n (drop 4 d) (coeff * 1000000000 + be_nat (take 4 d))"

text \<open>Padding with zero digits up to the scale of the builder, nineteen at a time.\<close>

function decimal_pad :: "nat \<Rightarrow> nat \<Rightarrow> nat \<Rightarrow> nat" where
  "decimal_pad coeff fp desired =
     (if fp + 19 < desired then decimal_pad (coeff * 10 ^ 19) (fp + 19) desired
      else coeff * powers_of_10 ! (desired - fp))"
  by auto

termination
  by (relation "measure (\<lambda>(coeff, fp, desired). desired - fp)") auto

declare decimal_pad.simps [simp del]

definition decimal_scale :: "arrow_type \<Rightarrow> nat option" where
  "decimal_scale b = (case b of Arrow_Decimal128 p s \<Rightarrow> Some (nat s) | Arrow_Decimal256 p s \<Rightarrow> Some (nat s) | _ \<Rightarrow> None)"

definition push_decimal :: "row_env \<Rightarrow> arrow_type \<Rightarrow> nat \<Rightarrow> bool \<Rightarrow> nat \<Rightarrow> cell" where
  "push_decimal env b l neg coeff =
     (if decimal_scale b = None then Inl (Error ''unexpected Arrow builder type'')
      else if \<not> decimal_fits env b coeff then Inl (Panic ''decimal out of range'')
      else Inr (l, ADecimal (if neg then - int coeff else int coeff)))"

text \<open>The stored bytes with the sign bit and the complement of negative numbers undone.\<close>

definition decimal_bytes :: "bytes \<Rightarrow> bool \<times> bytes" where
  "decimal_bytes raw =
     (case raw of
        [] \<Rightarrow> (False, [])
      | r # rs \<Rightarrow>
          (let neg = (r AND 0x80 = 0); d = (r XOR 0x80) # rs
           in (neg, if neg then map (\<lambda>x. x XOR 0xFF) d else d)))"

definition cell_decimal :: "row_env \<Rightarrow> bytes \<Rightarrow> nat \<Rightarrow> u16 \<Rightarrow> arrow_type \<Rightarrow> cell" where
  "cell_decimal env data pos md b =
     (let prec = md_hi md; scl = md_lo md; intg = prec - scl;
          intg0 = intg div 9; intg0x = intg mod 9; frac0 = scl div 9; frac0x = scl mod 9;
          l = decimal_length prec scl
      in if scl > prec \<or> l > 40 \<or> l = 0 then Inl (Panic ''index out of range'')
      else bind_res (slice data pos (pos + l)) (\<lambda>raw.
        let (neg, d) = decimal_bytes raw;
            first = be_nat (take (dig2bytes ! intg0x) d);
            (whole, d1) = decimal_groups intg0 (drop (dig2bytes ! intg0x) d) first
        in if scl = 0 then push_decimal env b l neg whole
        else
          let (c1, d2) = decimal_groups frac0 d1 whole;
              part = be_nat (take (dig2bytes ! frac0x) d2);
              coeff = (if frac0x = 0 then c1 else c1 * powers_of_10 ! frac0x + part);
              fp = frac0 * 9 + frac0x
          in case decimal_scale b of
               None \<Rightarrow> bad_builder
             | Some desired \<Rightarrow>
                 if fp < desired then push_decimal env b l neg (decimal_pad coeff fp desired)
                 else if fp > desired then Inl (Error ''unexpected fractional digits'')
                 else push_decimal env b l neg coeff))"

section \<open>Strings, enumerations and blobs\<close>

definition decode_text :: "row_env \<Rightarrow> gms_type \<Rightarrow> arrow_type \<Rightarrow> nat \<Rightarrow> bytes \<Rightarrow> cell" where
  "decode_text env g b sz src =
     (if \<not> is_string_type g then bad_builder
      else bind_res (DecodeBytes (row_codec env) (charset g) src) (\<lambda>utf8.
        push (b = Arrow_String) sz (AString utf8)))"

definition cell_varchar :: "row_env \<Rightarrow> bytes \<Rightarrow> nat \<Rightarrow> u16 \<Rightarrow> gms_type \<Rightarrow> arrow_type \<Rightarrow> cell" where
  "cell_varchar env d pos md g b =
     (let n = (if md > 255 then 2 else 1) in
      bind_res (le_read d pos n) (\<lambda>l.
      bind_res (slice d (pos + n) (pos + n + l)) (\<lambda>src.
        if qtype g \<in> {Type_VARBINARY, Type_BINARY, Type_BLOB} then push (b = Arrow_Binary) (l + n) (ABinary src)
        else decode_text env g b (l + n) src)))"

definition enum_value :: "row_env \<Rightarrow> bytes \<Rightarrow> nat \<Rightarrow> u16 \<Rightarrow> gms_type \<Rightarrow> arrow_type \<Rightarrow> cell" where
  "enum_value env d pos md g b =
     (let l = md_lo md in
      if l \<notin> {1, 2} then Inl (Error ''unexpected enum size'')
      else bind_res (le_read d pos l) (\<lambda>idx.
        if qtype g \<noteq> Type_ENUM then bad_builder
        else case EnumAt env g idx of
               None \<Rightarrow> Inl (Error ''enum value not found'')
             | Some v \<Rightarrow> push (b = Arrow_String) l (AString v)))"

text \<open>The bytes of a set are summed in a 64-bit word; a shift by 64 or more gives 0.\<close>

definition set_value :: "row_env \<Rightarrow> bytes \<Rightarrow> nat \<Rightarrow> u16 \<Rightarrow> gms_type \<Rightarrow> arrow_type \<Rightarrow> cell" where
  "set_value env d pos md g b =
     (let l = md_lo md in
      bind_res (le_read d pos l) (\<lambda>v.
        if qtype g \<noteq> Type_SET then bad_builder
        else case BitsToString env g (word_of_nat v) of
               None \<Rightarrow> Inl (Error ''invalid bit value'')
             | Some s \<Rightarrow> push (b = Arrow_String) l (AString s)))"

definition cell_blob :: "row_env \<Rightarrow> bytes \<Rightarrow> nat \<Rightarrow> binlog_type \<Rightarrow> u16 \<Rightarrow> gms_type \<Rightarrow> arrow_type \<Rightarrow> cell" where
  "cell_blob env d pos ty md g b =
     bind_res (blob_length d pos md) (\<lambda>l.
     bind_res (slice d (pos + unat md) (pos + unat md + l)) (\<lambda>src.
       if ty = TypeJSON then
         (case ParseBinaryJSON env src of
            None \<Rightarrow> Inl (Panic ''invalid JSON'')
          | Some t \<Rightarrow> push (b = Arrow_String) (l + unat md) (AString t))
       else if qtype g = Type_JSON then
         (case ParseJSON env src of
            None \<Rightarrow> Inl (Panic ''invalid JSON'')
          | Some t \<Rightarrow> push (b = Arrow_String) (l + unat md) (AString t))
       else if b = Arrow_Binary then Inr (l + unat md, ABinary src)
       else if b = Arrow_String then decode_text env g b (l + unat md) src
       else Inl (Error ''unexpected Arrow builder type'')))"

definition cell_string :: "row_env \<Rightarrow> bytes \<Rightarrow> nat \<Rightarrow> u16 \<Rightarrow> gms_type \<Rightarrow> arrow_type \<Rightarrow> cell" where
  "cell_string env d pos md g b =
     (if drop_bit 8 md = code_TypeEnum then enum_value env d pos md g b
      else if drop_bit 8 md = code_TypeSet then set_value env d pos md g b
      else if string_max md > 255 then
        bind_res (le_read d pos 2) (\<lambda>l.
        bind_res (slice d (pos + 2) (pos + 2 + l)) (\<lambda>src. decode_text env g b (l + 2) src))
      else
        bind_res (le_read d pos 1) (\<lambda>l.
        bind_res (slice d (pos + 1) (pos + 1 + l)) (\<lambda>src.
          let padded = src @ replicate (string_max md - l) 0;
              mdata = (if IsBinary env (qtype g) \<and> l < string_max md \<and> qtype g = Type_BINARY then padded else src)
          in if IsBinary env (qtype g) \<and> b = Arrow_Binary then Inr (l + 1, ABinary mdata)
             else decode_text env g b (l + 1) mdata)))"

definition cell_geometry :: "bytes \<Rightarrow> nat \<Rightarrow> u16 \<Rightarrow> arrow_type \<Rightarrow> cell" where
  "cell_geometry d pos md b =
     bind_res (blob_length d pos md) (\<lambda>l.
     bind_res (slice d (pos + unat md) (pos + unat md + l)) (\<lambda>src.
       push (b = Arrow_Binary) (l + unat md) (ABinary src)))"

section \<open>CellValue\<close>

definition CellValue ::
    "row_env \<Rightarrow> bytes \<Rightarrow> nat \<Rightarrow> binlog_type \<Rightarrow> u16 \<Rightarrow> gms_type \<Rightarrow> arrow_type \<Rightarrow> cell" where
  "CellValue env d pos ty md g b =
     (if ty = TypeTiny then cell_tiny env d pos (qtype g) b
      else if ty = TypeYear then cell_year d pos b
      else if ty = TypeShort then cell_short env d pos (qtype g) b
      else if ty = TypeInt24 then cell_int24 env d pos (qtype g) b
      else if ty = TypeLong then cell_long env d pos (qtype g) b
      else if ty = TypeFloat then cell_float d pos b
      else if ty = TypeDouble then cell_double d pos b
      else if ty = TypeTimestamp then cell_timestamp d pos b
      else if ty = TypeLongLong then cell_longlong env d pos (qtype g) b
      else if ty \<in> {TypeDate, TypeNewDate} then cell_date d pos b
      else if ty = TypeTime then cell_time d pos b
      else if ty = TypeDateTime then cell_datetime d pos b
      else if ty \<in> {TypeVarchar, TypeVarString} then cell_varchar env d pos md g b
      else if ty = TypeBit then cell_bit d pos md b
      else if ty = TypeTimestamp2 then cell_timestamp2 d pos md b
      else if ty = TypeDateTime2 then cell_datetime2 d pos md b
      else if ty = TypeTime2 then cell_time2 d pos md b
      else if ty = TypeNewDecimal then cell_decimal env d pos md b
      else if ty = TypeEnum then enum_value env d pos md g b
      else if ty = TypeSet then set_value env d pos md g b
      else if ty \<in> {TypeJSON, TypeTinyBlob, TypeMediumBlob, TypeLongBlob, TypeBlob, TypeVector} then
        cell_blob env d pos ty md g b
      else if ty = TypeString then cell_string env d pos md g b
      else if ty = TypeGeometry then cell_geometry d pos md b
      else Inl (Error ''unsupported type''))"

end
