(* ===== verification/Filtering.thy ===== *)
theory Filtering
  imports Prelude "HOL-Library.AList"
begin

text \<open>
  Replication filters (\<^verbatim>\<open>binlogreplication/binlog_replica_filtering.go\<close>): the four options that select the
  tables whose changes are applied. A Go set of strings is a list without duplicates and a map of
  sets an association list; the order in which Go iterates over them is not specified, and the
  properties are about the sets. The mutex only serialises the operations and is left out.
\<close>

record filterConfiguration =
  doDatabases :: "string list"
  ignoreDatabases :: "string list"
  doTables :: "(string \<times> string list) list"
  ignoreTables :: "(string \<times> string list) list"

definition newFilterConfiguration :: filterConfiguration where
  "newFilterConfiguration = \<lparr>doDatabases = [], ignoreDatabases = [], doTables = [], ignoreTables = []\<rparr>"

text \<open>An unresolved table of go-mysql-server: the name of its database, possibly empty, and its own.\<close>

type_synonym unresolved_table = "string \<times> string"

fun verifyAllTablesAreQualified :: "unresolved_table list \<Rightarrow> go_error option" where
  "verifyAllTablesAreQualified [] = None"
| "verifyAllTablesAreQualified ((db, t) # urts) =
     (if db = [] then Some (Error (''no database specified for table '' @ t)) else verifyAllTablesAreQualified urts)"

definition name_set :: "string list \<Rightarrow> string list" where
  "name_set names = fold (\<lambda>n s. List.insert (to_lower n) s) names []"

definition setDoDatabases :: "string list \<Rightarrow> filterConfiguration \<Rightarrow> filterConfiguration" where
  "setDoDatabases databases fc = fc\<lparr>doDatabases := name_set databases\<rparr>"

definition setIgnoreDatabases :: "string list \<Rightarrow> filterConfiguration \<Rightarrow> filterConfiguration" where
  "setIgnoreDatabases databases fc = fc\<lparr>ignoreDatabases := name_set databases\<rparr>"

definition add_table :: "unresolved_table \<Rightarrow> (string \<times> string list) list \<Rightarrow> (string \<times> string list) list" where
  "add_table urt m =
     (let db = to_lower (fst urt); table = to_lower (snd urt);
          tables = (case map_of m db of None \<Rightarrow> [] | Some ts \<Rightarrow> ts)
      in AList.update db (List.insert table tables) m)"

definition table_sets :: "unresolved_table list \<Rightarrow> (string \<times> string list) list" where
  "table_sets urts = fold add_table urts []"

definition setDoTables :: "unresolved_table list \<Rightarrow> filterConfiguration \<Rightarrow> filterConfiguration res" where
  "setDoTables urts fc =
     (case verifyAllTablesAreQualified urts of
        Some e \<Rightarrow> Inl e
      | None \<Rightarrow> Inr (fc\<lparr>doTables := table_sets urts\<rparr>))"

definition setIgnoreTables :: "unresolved_table list \<Rightarrow> filterConfiguration \<Rightarrow> filterConfiguration res" where
  "setIgnoreTables urts fc =
     (case verifyAllTablesAreQualified urts of
        Some e \<Rightarrow> Inl e
      | None \<Rightarrow> Inr (fc\<lparr>ignoreTables := table_sets urts\<rparr>))"

definition getDoDatabases :: "filterConfiguration \<Rightarrow> string list" where
  "getDoDatabases fc = doDatabases fc"

definition getIgnoreDatabases :: "filterConfiguration \<Rightarrow> string list" where
  "getIgnoreDatabases fc = ignoreDatabases fc"

definition convertFilterMapToStringSlice :: "(string \<times> string list) list \<Rightarrow> string list" where
  "convertFilterMapToStringSlice m = concat (map (\<lambda>(db, tables). map (\<lambda>t. db @ ''.'' @ t) tables) m)"

definition getDoTables :: "filterConfiguration \<Rightarrow> string list" where
  "getDoTables fc = convertFilterMapToStringSlice (doTables fc)"

definition getIgnoreTables :: "filterConfiguration \<Rightarrow> string list" where
  "getIgnoreTables fc = convertFilterMapToStringSlice (ignoreTables fc)"

text \<open>A nil configuration filters nothing.\<close>

definition isTableFilteredOut :: "filterConfiguration option \<Rightarrow> string \<Rightarrow> string \<Rightarrow> bool" where
  "isTableFilteredOut fco database name =
     (case fco of
        None \<Rightarrow> False
      | Some fc \<Rightarrow>
          (let table = to_lower name; db = to_lower database in
           if doDatabases fc \<noteq> [] \<and> db \<notin> set (doDatabases fc) then True
           else if doDatabases fc = [] \<and> ignoreDatabases fc \<noteq> [] \<and> db \<in> set (ignoreDatabases fc) then True
           else if doTables fc \<noteq> [] \<and> (case map_of (doTables fc) db of None \<Rightarrow> False | Some ts \<Rightarrow> table \<notin> set ts) then True
           else if ignoreTables fc \<noteq> [] \<and> (case map_of (ignoreTables fc) db of None \<Rightarrow> False | Some ts \<Rightarrow> table \<in> set ts) then True
           else False))"

section \<open>What the setters store\<close>

lemma set_name_set: "set (name_set names) = to_lower ` set names"
proof -
  have "set (fold (\<lambda>n s. List.insert (to_lower n) s) names acc) = to_lower ` set names \<union> set acc" for acc
    by (induction names arbitrary: acc) auto
  then show ?thesis by (simp add: name_set_def)
qed

lemma name_set_Nil: "name_set names = [] \<longleftrightarrow> names = []"
  using set_name_set [of names] by (metis image_is_empty set_empty)

definition lower_table :: "unresolved_table \<Rightarrow> string \<times> string" where
  "lower_table urt = (to_lower (fst urt), to_lower (snd urt))"

definition pairs_of :: "(string \<times> string list) list \<Rightarrow> (string \<times> string) set" where
  "pairs_of m = {(db, t). \<exists>ts. map_of m db = Some ts \<and> t \<in> set ts}"

definition no_empty_sets :: "(string \<times> string list) list \<Rightarrow> bool" where
  "no_empty_sets m \<longleftrightarrow> (\<forall>db. map_of m db \<noteq> Some [])"

lemma pairs_of_add_table: "pairs_of (add_table urt m) = insert (lower_table urt) (pairs_of m)"
  by (auto simp: pairs_of_def add_table_def lower_table_def Let_def AList.update_conv' split: option.splits if_splits)

lemma no_empty_add_table: "no_empty_sets m \<Longrightarrow> no_empty_sets (add_table urt m)"
  by (auto simp: no_empty_sets_def add_table_def Let_def AList.update_conv' List.insert_def split: option.splits if_splits)

lemma table_sets_pairs: "pairs_of (table_sets urts) = lower_table ` set urts"
  and table_sets_nonempty: "no_empty_sets (table_sets urts)"
proof -
  have "pairs_of (fold add_table urts m) = lower_table ` set urts \<union> pairs_of m" for m
    by (induction urts arbitrary: m) (auto simp: pairs_of_add_table)
  moreover have "no_empty_sets m \<Longrightarrow> no_empty_sets (fold add_table urts m)" for m
    by (induction urts arbitrary: m) (auto simp: no_empty_add_table)
  ultimately show "pairs_of (table_sets urts) = lower_table ` set urts" "no_empty_sets (table_sets urts)"
    by (simp_all add: table_sets_def pairs_of_def no_empty_sets_def)
qed

lemma listed_in:
  assumes "no_empty_sets m"
  shows "(case map_of m db of None \<Rightarrow> False | Some ts \<Rightarrow> t \<in> set ts) \<longleftrightarrow> (db, t) \<in> pairs_of m"
    and "(case map_of m db of None \<Rightarrow> False | Some ts \<Rightarrow> t \<notin> set ts) \<longleftrightarrow>
      (\<exists>t'. (db, t') \<in> pairs_of m) \<and> (db, t) \<notin> pairs_of m"
proof -
  have "map_of m db = Some ts \<Longrightarrow> \<exists>t'. t' \<in> set ts" for ts
    using assms by (cases ts) (auto simp: no_empty_sets_def)
  then show "(case map_of m db of None \<Rightarrow> False | Some ts \<Rightarrow> t \<notin> set ts) \<longleftrightarrow>
      (\<exists>t'. (db, t') \<in> pairs_of m) \<and> (db, t) \<notin> pairs_of m"
    by (auto simp: pairs_of_def split: option.split)
qed (auto simp: pairs_of_def split: option.split)

section \<open>Properties\<close>

text \<open>
  (C30) With the four options set, a table is filtered out exactly when its database is not among
  the databases to replicate (or, when none are given, is among the ones to ignore), or some table
  of its database is to be replicated but not this one, or it is to be ignored. Names are compared
  without regard to case. The third condition differs from the comment in the code, by which a
  table must be listed as soon as any table is: a table of a database without listed tables is
  replicated.
\<close>

theorem isTableFilteredOut_iff:
  assumes "setDoTables dts (setIgnoreDatabases idbs (setDoDatabases ddbs newFilterConfiguration)) = Inr fc"
    and "setIgnoreTables its fc = Inr fc'"
  shows "isTableFilteredOut (Some fc') database name \<longleftrightarrow>
    (ddbs \<noteq> [] \<and> to_lower database \<notin> to_lower ` set ddbs) \<or>
    (ddbs = [] \<and> to_lower database \<in> to_lower ` set idbs) \<or>
    ((\<exists>t. (to_lower database, t) \<in> lower_table ` set dts) \<and> lower_table (database, name) \<notin> lower_table ` set dts) \<or>
    lower_table (database, name) \<in> lower_table ` set its"
proof -
  have fc': "fc' = \<lparr>doDatabases = name_set ddbs, ignoreDatabases = name_set idbs, doTables = table_sets dts, ignoreTables = table_sets its\<rparr>"
    using assms by (auto simp: setDoTables_def setIgnoreTables_def setIgnoreDatabases_def setDoDatabases_def
        newFilterConfiguration_def split: option.splits)
  have listed: "m \<noteq> [] \<and> (case map_of m db of None \<Rightarrow> False | Some ts \<Rightarrow> P ts) \<longleftrightarrow>
      (case map_of m db of None \<Rightarrow> False | Some ts \<Rightarrow> P ts)" for m :: "(string \<times> string list) list" and db P
    by auto
  have low: "(to_lower database, to_lower name) = lower_table (database, name)" by (simp add: lower_table_def)
  show ?thesis
    unfolding isTableFilteredOut_def fc' option.case Let_def filterConfiguration.simps name_set_Nil set_name_set listed
      listed_in [OF table_sets_nonempty] table_sets_pairs low
    by auto
qed

theorem isTableFilteredOut_iff_witness:
  "\<exists>fc fc'. setDoTables [(''Shop'', ''orders'')] (setIgnoreDatabases [] (setDoDatabases [] newFilterConfiguration)) = Inr fc \<and>
     setIgnoreTables [] fc = Inr fc' \<and>
     isTableFilteredOut (Some fc') ''SHOP'' ''items'' \<and> \<not> isTableFilteredOut (Some fc') ''other'' ''items''"
proof -
  obtain fc where 1: "setDoTables [(''Shop'', ''orders'')] (setIgnoreDatabases [] (setDoDatabases [] newFilterConfiguration)) = Inr fc"
    by (simp add: setDoTables_def)
  obtain fc' where 2: "setIgnoreTables [] fc = Inr fc'" by (simp add: setIgnoreTables_def)
  have "lower_table (''SHOP'', ''items'') \<noteq> lower_table (''Shop'', ''orders'')" "to_lower ''SHOP'' = to_lower ''Shop''"
    "to_lower ''other'' \<noteq> to_lower ''Shop''" by code_simp+
  with 1 2 isTableFilteredOut_iff [OF 1 2, of "''SHOP''" "''items''"] isTableFilteredOut_iff [OF 1 2, of "''other''" "''items''"]
  show ?thesis by (auto simp: lower_table_def)
qed

end
