(* ===== verification/Applier.thy ===== *)
theory Applier
  imports DeltaCorrect RowBinlog Filtering
begin

unbundle bit_operations_syntax

text \<open>
  The binlog applier (\<^verbatim>\<open>binlogreplication/binlog_replica_applier.go\<close>): the state machine that turns the
  events of a MySQL or MariaDB source into changes of the delta buffer, statements, and commits that
  save the replication position in the same transaction as the data.

  The state is the record \<open>applier\<close>. A handler returns an error or a panic together with the state it
  leaves, since the event loop goes on after an error. The session holds the committed database and
  the transaction that the connection pool keeps for it; a transaction whose commit failed stays in
  the pool and answers every statement with an error.

  Not part of the repository, and so fields of \<open>applier_env\<close>: the SQL engine of go-mysql-server, the
  positions and events of Vitess (an event is what its parser returns, with the checksum stripped),
  the clock. The table writers and the delta buffer are reached through the interface
  \<^verbatim>\<open>TableWriterProvider\<close> of \<^verbatim>\<open>writer.go\<close>. Logging and the reporting of errors in the replica status are
  left out.
\<close>

section \<open>Statements\<close>

text \<open>The plan nodes of go-mysql-server that the code distinguishes.\<close>

datatype plan_node =
    StartTransaction | Commit | InsertInto | UpdateNode | DeleteFrom | LoadData | LockTables | UnlockTables
  | CreateDB | DropDB | AlterDB | CreateTable | DropTable | RenameTable | AddColumn | RenameColumn | DropColumn
  | ModifyColumn | AlterDefaultSet | AlterDefaultDrop | Truncate | AnalyzeTable | CreateIndex | DropIndex | AlterIndex
  | CreateView | DropViewNode | DropRole | CreateRole | AlterUser | CreateUser | DropUser | Grant | RenameUser
  | StartReplica | StopReplica | ResetReplica | ChangeReplicationSource | OtherNode

definition CauseImplicitCommitAfter :: "plan_node \<Rightarrow> bool" where
  "CauseImplicitCommitAfter node \<longleftrightarrow>
     node \<in> {CreateDB, DropDB, AlterDB, CreateTable, DropTable, RenameTable, AddColumn, RenameColumn, DropColumn,
       ModifyColumn, AlterDefaultSet, AlterDefaultDrop, Truncate, AnalyzeTable, CreateIndex, DropIndex, AlterIndex,
       CreateView, DropViewNode, DropRole, CreateRole, AlterUser, CreateUser, DropUser, Grant, RenameUser,
       StartReplica, StopReplica, ResetReplica, ChangeReplicationSource}"

definition CauseImplicitCommitBefore :: "plan_node \<Rightarrow> bool" where
  "CauseImplicitCommitBefore node \<longleftrightarrow>
     node \<in> {StartTransaction, LockTables, UnlockTables} \<or> CauseImplicitCommitAfter node"

definition CauseSchemaChange :: "plan_node \<Rightarrow> bool" where
  "CauseSchemaChange node \<longleftrightarrow>
     node \<in> {CreateDB, DropDB, AlterDB, CreateTable, DropTable, RenameTable, AddColumn, RenameColumn, DropColumn,
       ModifyColumn, AlterDefaultSet, AlterDefaultDrop, CreateIndex, DropIndex, AlterIndex, CreateView, DropViewNode}"

record query =
  Database :: string
  SQL :: string

section \<open>Events\<close>

datatype gtid = Mysql56GTID string u64 | FilePosGTID string u32 | MariadbGTID u32 u32 u64

record TableMap =
  tm_Flags :: u16
  tm_Database :: string
  tm_Name :: string
  tm_Types :: "binlog_type list"
  tm_Metadata :: "u16 list"

type_synonym bitmap = "bool list"

definition Bit :: "bitmap \<Rightarrow> nat \<Rightarrow> bool" where
  "Bit bm i \<longleftrightarrow> i < length bm \<and> bm ! i"

definition BitCount :: "bitmap \<Rightarrow> nat" where
  "BitCount bm = length (filter id bm)"

record row_image =
  NullIdentifyColumns :: bitmap
  NullColumns :: bitmap
  Identify :: bytes
  Data :: bytes

record Rows =
  rows_Flags :: u16
  IdentifyColumns :: bitmap
  DataColumns :: bitmap
  row_images :: "row_image list"

text \<open>An event with what the parser of Vitess makes of it; \<open>EvQuery\<close> also has its raw bytes.\<close>

datatype event =
    EvRand
  | EvXID
  | EvQuery bytes "query res"
  | EvRotate
  | EvFormatDescription "nat res"
  | EvPreviousGTIDs "unit res"
  | EvGTID "(gtid \<times> bool) res"
  | EvTableMap nat "TableMap res"
  | EvRows RowEventType nat "Rows res"
  | EvHeartbeat
  | EvStop
  | EvOther byte

section \<open>The session\<close>

record ('s, 'p) database =
  contents :: 's
  position_row :: "'p option"

datatype 'd tx = OpenTx 'd | DoneTx

record 'd session =
  committed :: 'd
  txn :: "'d tx option"

text \<open>What statements of the session see.\<close>

definition view :: "'d session \<Rightarrow> 'd" where
  "view s = (case txn s of Some (OpenTx d) \<Rightarrow> d | _ \<Rightarrow> committed s)"

definition set_view :: "'d \<Rightarrow> 'd session \<Rightarrow> 'd session" where
  "set_view d s = (case txn s of Some (OpenTx _) \<Rightarrow> s\<lparr>txn := Some (OpenTx d)\<rparr> | _ \<Rightarrow> s\<lparr>committed := d\<rparr>)"

definition tx_alive :: "'d session \<Rightarrow> bool" where
  "tx_alive s = (case txn s of Some (OpenTx d) \<Rightarrow> True | _ \<Rightarrow> False)"

section \<open>The interface to the table writers\<close>

type_synonym 'x sql_row = "'x option list"

record 'x write_request =
  wr_table :: tableIdentifier
  wr_schema :: schema
  wr_columnCount :: nat
  wr_identifyColumns :: bitmap
  wr_dataColumns :: bitmap
  wr_event :: RowEventType
  wr_identityRows :: "'x sql_row list"
  wr_dataRows :: "'x sql_row list"

text \<open>
  \<^verbatim>\<open>TableWriterProvider\<close>. The appender a client gets is shared by reference: \<open>PutDeltaAppender\<close> is the
  effect of appending to it. \<open>FlushDeltaBuffer\<close> gets whether its transaction is still open.
  \<open>WriteRows\<close> is \<^verbatim>\<open>GetTableWriter\<close> followed by the call of \<^verbatim>\<open>Insert\<close>, \<^verbatim>\<open>Delete\<close> or \<^verbatim>\<open>Update\<close>.
\<close>

record ('c, 's, 'x) TableWriterProvider =
  ProvideAppender :: "'c \<Rightarrow> tableIdentifier \<Rightarrow> schema \<Rightarrow> (arrow_value DeltaAppender \<times> 'c) res"
  PutDeltaAppender :: "tableIdentifier \<Rightarrow> arrow_value DeltaAppender \<Rightarrow> 'c \<Rightarrow> 'c"
  FlushDeltaBuffer :: "bool \<Rightarrow> FlushReason \<Rightarrow> 'c \<Rightarrow> 's \<Rightarrow> go_error option \<times> 's \<times> 'c"
  DiscardDeltaBuffer :: "'c \<Rightarrow> 'c"
  WriteRows :: "'x write_request \<Rightarrow> 's \<Rightarrow> go_error option \<times> 's"

section \<open>State\<close>

record session_vars =
  sql_auto_is_null :: bool
  autocommit :: bool
  foreign_key_checks :: bool
  unique_checks :: bool

record ('c, 's, 'p) applier =
  format :: "nat option"
  tableMapsById :: "nat \<Rightarrow> TableMap option"
  tablesByName :: "tableIdentifier \<Rightarrow> (schema \<times> string) option"
  currentGtid :: "gtid option"
  previousGtid :: "gtid option"
  replicationSourceUuid :: string
  currentPosition :: 'p
  pendingPosition :: 'p
  ongoingBatchTxn :: bool
  dirtyTxn :: bool
  dirtyStream :: bool
  inTxnStmtID :: u64
  deltaBufSize :: u64
  lastCommitTime :: nat
  buffer :: 'c
  sess :: "('s, 'p) database session"
  sess_vars :: session_vars

text \<open>
  The environment: the provider, the filters, the clock in milliseconds at the moment of a step, the
  engine and the errors of the database driver.
\<close>

record ('c, 's, 'x, 'p, 'w) applier_env =
  provider :: "('c, 's, 'x) TableWriterProvider"
  filters :: "filterConfiguration option"
  cells_env :: row_env
  AppendGTID :: "'p \<Rightarrow> gtid option \<Rightarrow> 'p"
  IsZero :: "'p \<Rightarrow> bool"
  SourceServer :: "gtid \<Rightarrow> string"
  persistSourceUuid :: "string \<Rightarrow> go_error option"
  PrepareQuery :: "query \<Rightarrow> ('s, 'p) database \<Rightarrow> plan_node res"
  EngineQuery :: "query \<Rightarrow> ('s, 'p) database session \<Rightarrow>
    (string option \<times> string option) \<times> ('s, 'p) database session"
  CatalogDatabase :: "string \<Rightarrow> ('s, 'p) database \<Rightarrow> go_error option"
  GetTableInsensitive :: "string \<Rightarrow> string \<Rightarrow> ('s, 'p) database \<Rightarrow> (schema \<times> string) option res"
  ConnError :: "('s, 'p) database session \<Rightarrow> string option"
  BeginError :: "('s, 'p) database session \<Rightarrow> string option"
  CommitError :: "('s, 'p) database session \<Rightarrow> string option"
  SaveError :: "('s, 'p) database session \<Rightarrow> string option"
  VitessCellValue :: "bytes \<Rightarrow> nat \<Rightarrow> binlog_type \<Rightarrow> u16 \<Rightarrow> column \<Rightarrow> ('w \<times> nat) res"
  ConvertValue :: "column \<Rightarrow> 'w \<Rightarrow> 'x res"

type_synonym ('c, 's, 'p) outcome = "go_error option \<times> ('c, 's, 'p) applier"

section \<open>Transactions\<close>

text \<open>\<^verbatim>\<open>ConnectionPool.GetTxn\<close>: the open transaction of the session, or a new one.\<close>

definition GetTxn ::
    "('c, 's, 'x, 'p, 'w) applier_env \<Rightarrow> ('s, 'p) database session \<Rightarrow> go_error option \<times> ('s, 'p) database session" where
  "GetTxn env s =
     (if txn s = None then
        (case BeginError env s of
           Some e \<Rightarrow> (Some (Error e), s)
         | None \<Rightarrow> (None, s\<lparr>txn := Some (OpenTx (committed s))\<rparr>))
      else (None, s))"

text \<open>\<^verbatim>\<open>tx.Commit\<close> on the transaction of the pool, if there is one, and \<^verbatim>\<open>CloseTxn\<close>.\<close>

definition CommitTxn ::
    "('c, 's, 'x, 'p, 'w) applier_env \<Rightarrow> ('s, 'p) database session \<Rightarrow> go_error option \<times> ('s, 'p) database session" where
  "CommitTxn env s =
     (case txn s of
        None \<Rightarrow> (None, s)
      | Some DoneTx \<Rightarrow> (None, s\<lparr>txn := None\<rparr>)
      | Some (OpenTx d) \<Rightarrow>
          (case CommitError env s of
             Some e \<Rightarrow> (Some (Error e), s\<lparr>txn := Some DoneTx\<rparr>)
           | None \<Rightarrow> (None, s\<lparr>committed := d, txn := None\<rparr>)))"

definition flushDeltaBuffer ::
    "('c, 's, 'x, 'p, 'w) applier_env \<Rightarrow> FlushReason \<Rightarrow> ('c, 's, 'p) applier \<Rightarrow> ('c, 's, 'p) outcome" where
  "flushDeltaBuffer env reason a =
     (case ConnError env (sess a) of
        Some e \<Rightarrow> (Some (Error e), a)
      | None \<Rightarrow>
          (case GetTxn env (sess a) of
             (Some e, s) \<Rightarrow> (Some e, a\<lparr>sess := s\<rparr>)
           | (None, s) \<Rightarrow>
               (case FlushDeltaBuffer (provider env) (tx_alive s) reason (buffer a) (contents (view s)) of
                  (e, d, c) \<Rightarrow>
                    (let s' = set_view ((view s)\<lparr>contents := d\<rparr>) s;
                         a' = a\<lparr>buffer := c, deltaBufSize := 0\<rparr>
                     in case e of
                          None \<Rightarrow> (None, a'\<lparr>sess := s'\<rparr>)
                        | Some (Panic m) \<Rightarrow> (Some (Panic m), a'\<lparr>sess := s'\<rparr>)
                        | Some (Error m) \<Rightarrow> (Some (Error m), a'\<lparr>sess := s'\<lparr>txn := None\<rparr>\<rparr>)))))"

text \<open>\<^verbatim>\<open>positionStore.Save\<close>\<close>

definition SavePosition ::
    "('c, 's, 'x, 'p, 'w) applier_env \<Rightarrow> 'p \<Rightarrow> ('s, 'p) database session \<Rightarrow> go_error option \<times> ('s, 'p) database session" where
  "SavePosition env p s =
     (if IsZero env p then (Some (Error ''unable to save binlog position: empty position passed''), s)
      else case GetTxn env s of
        (Some e, s') \<Rightarrow> (Some e, s')
      | (None, s') \<Rightarrow>
          (if \<not> tx_alive s' then (Some (Error ''unable to save binlog position''), s')
           else case SaveError env s' of
             Some e \<Rightarrow> (Some (Error e), s')
           | None \<Rightarrow> (None, set_view ((view s')\<lparr>position_row := Some p\<rparr>) s')))"

text \<open>\<^verbatim>\<open>execute\<close>: run a query and drain its rows.\<close>

definition execute ::
    "('c, 's, 'x, 'p, 'w) applier_env \<Rightarrow> query \<Rightarrow> ('c, 's, 'p) applier \<Rightarrow> ('c, 's, 'p) outcome" where
  "execute env q a =
     (case EngineQuery env q (sess a) of
        ((err, rows), s) \<Rightarrow>
          (case err of
             Some e \<Rightarrow> (if e = ''nothing to commit'' then None else Some (Error e), a\<lparr>sess := s\<rparr>)
           | None \<Rightarrow> (map_option Error rows, a\<lparr>sess := s\<rparr>)))"

datatype CommitKind = NormalCommit | ImplicitCommitBeforeStmt | ImplicitCommitAfterStmt

definition commit_query :: query where
  "commit_query = \<lparr>Database = [], SQL = ''COMMIT''\<rparr>"

definition reset_txn_state :: "nat \<Rightarrow> ('c, 's, 'p) applier \<Rightarrow> ('c, 's, 'p) applier" where
  "reset_txn_state now a =
     a\<lparr>ongoingBatchTxn := False, dirtyTxn := False, dirtyStream := False, inTxnStmtID := 0,
       lastCommitTime := now, currentPosition := pendingPosition a\<rparr>"

definition commitOngoingTxn ::
    "('c, 's, 'x, 'p, 'w) applier_env \<Rightarrow> nat \<Rightarrow> CommitKind \<Rightarrow> FlushReason \<Rightarrow> ('c, 's, 'p) applier \<Rightarrow> ('c, 's, 'p) outcome"
where
  "commitOngoingTxn env now kind reason a =
     (case flushDeltaBuffer env reason a of
        (Some e, a1) \<Rightarrow> (Some e, a1)
      | (None, a1) \<Rightarrow>
          (let a2 = (if kind \<noteq> ImplicitCommitBeforeStmt
                     then a1\<lparr>pendingPosition := AppendGTID env (pendingPosition a1) (currentGtid a1)\<rparr> else a1)
           in case SavePosition env (pendingPosition a2) (sess a2) of
                (Some e, s) \<Rightarrow> (Some e, a2\<lparr>sess := s\<rparr>)
              | (None, s) \<Rightarrow>
                  (case (if kind \<noteq> ImplicitCommitAfterStmt \<or> \<not> autocommit (sess_vars a2)
                         then execute env commit_query (a2\<lparr>sess := s\<rparr>) else (None, a2\<lparr>sess := s\<rparr>)) of
                     (Some e, a3) \<Rightarrow> (Some e, a3)
                   | (None, a3) \<Rightarrow>
                       (case CommitTxn env (sess a3) of
                          (Some e, s') \<Rightarrow> (Some e, a3\<lparr>sess := s'\<rparr>)
                        | (None, s') \<Rightarrow> (None, reset_txn_state now (a3\<lparr>sess := s'\<rparr>))))))"

definition mayExtendBatchTxn :: "nat \<Rightarrow> ('c, 's, 'p) applier \<Rightarrow> bool \<times> FlushReason" where
  "mayExtendBatchTxn now a =
     (if \<not> ongoingBatchTxn a then (False, UnknownFlushReason)
      else if now - lastCommitTime a \<ge> 200 then (False, TimeTickFlushReason)
      else if deltaBufSize a \<ge> 2 ^ 27 then (False, MemoryLimitFlushReason)
      else (True, UnknownFlushReason))"

definition extendOrCommitBatchTxn ::
    "('c, 's, 'x, 'p, 'w) applier_env \<Rightarrow> nat \<Rightarrow> ('c, 's, 'p) applier \<Rightarrow> ('c, 's, 'p) outcome" where
  "extendOrCommitBatchTxn env now a =
     (case mayExtendBatchTxn now a of
        (True, _) \<Rightarrow>
          (None, a\<lparr>pendingPosition := AppendGTID env (pendingPosition a) (currentGtid a), dirtyStream := False\<rparr>)
      | (False, reason) \<Rightarrow> commitOngoingTxn env now NormalCommit reason a)"

section \<open>Statements of the source\<close>

text \<open>
  How \<^verbatim>\<open>executeQueryWithEngine\<close> treats a statement: whether the transaction is committed before it,
  whether the buffer is flushed before it, and the reason it gives for that.
\<close>

definition query_plan :: "plan_node \<Rightarrow> FlushReason \<Rightarrow> bool \<times> bool \<times> FlushReason" where
  "query_plan node txn_reason =
     (if node = StartTransaction then (True, True, txn_reason)
      else if node \<in> {InsertInto, UpdateNode, DeleteFrom, LoadData} then (False, True, DMLStmtFlushReason)
      else
        let before = CauseImplicitCommitBefore node
        in (before, before, if CauseSchemaChange node then DDLStmtFlushReason else UnknownFlushReason))"

definition executeQueryWithEngine ::
    "('c, 's, 'x, 'p, 'w) applier_env \<Rightarrow> nat \<Rightarrow> query \<Rightarrow> ('c, 's, 'p) applier \<Rightarrow> ('c, 's, 'p) outcome" where
  "executeQueryWithEngine env now q a =
     (if Database q = ''mysql'' \<and> has_prefix ''TRUNCATE TABLE time_zone'' (SQL q)
      then commitOngoingTxn env now ImplicitCommitAfterStmt DMLStmtFlushReason a
      else case PrepareQuery env q (view (sess a)) of
        Inl e \<Rightarrow> (Some e, a)
      | Inr node \<Rightarrow>
          (if node = Commit then extendOrCommitBatchTxn env now a
           else if node = StartTransaction \<and> fst (mayExtendBatchTxn now a)
           then (None, a\<lparr>pendingPosition := AppendGTID env (pendingPosition a) (previousGtid a), dirtyStream := True\<rparr>)
           else
             let (implicitCommit, flushChangelog, reason) = query_plan node (snd (mayExtendBatchTxn now a));
                 a0 = (if node \<notin> {StartTransaction, InsertInto, UpdateNode, DeleteFrom, LoadData} \<and> CauseSchemaChange node
                       then a\<lparr>tablesByName := Map.empty\<rparr> else a)
             in case (if flushChangelog then flushDeltaBuffer env reason a0 else (None, a0)) of
                  (Some e, a1) \<Rightarrow> (Some e, a1)
                | (None, a1) \<Rightarrow>
                    (case (if implicitCommit \<and> dirtyTxn a1 then commitOngoingTxn env now ImplicitCommitBeforeStmt reason a1
                           else (None, a1)) of
                       (Some e, a2) \<Rightarrow> (Some e, a2)
                     | (None, a2) \<Rightarrow>
                         (case execute env q a2 of
                            (Some e, a3) \<Rightarrow> (Some e, a3)
                          | (None, a3) \<Rightarrow>
                              (let a4 = a3\<lparr>dirtyTxn := True, dirtyStream := True, ongoingBatchTxn := (node = StartTransaction)\<rparr>
                               in if CauseImplicitCommitAfter node
                                  then commitOngoingTxn env now ImplicitCommitAfterStmt reason a4
                                  else (None, a4))))))"

section \<open>Row events\<close>

definition rowFlag_endOfStatement :: u16 where "rowFlag_endOfStatement = 0x0001"
definition rowFlag_noForeignKeyChecks :: u16 where "rowFlag_noForeignKeyChecks = 0x0002"

text \<open>\<^verbatim>\<open>getTableSchema\<close>: the cached table, or the one of the catalog, which is then cached.\<close>

definition getTableSchema ::
    "('c, 's, 'x, 'p, 'w) applier_env \<Rightarrow> string \<Rightarrow> string \<Rightarrow> ('c, 's, 'p) applier \<Rightarrow>
       (schema \<times> string) res \<times> ('c, 's, 'p) applier" where
  "getTableSchema env tname dname a =
     (let key = \<lparr>dbName = to_lower dname, tableName = to_lower tname\<rparr> in
      case tablesByName a key of
        Some t \<Rightarrow> (Inr t, a)
      | None \<Rightarrow>
          (case CatalogDatabase env dname (view (sess a)) of
             Some e \<Rightarrow> (Inl e, a)
           | None \<Rightarrow>
               (case GetTableInsensitive env dname tname (view (sess a)) of
                  Inl e \<Rightarrow> (Inl e, a)
                | Inr None \<Rightarrow> (Inl (Error ''unable to find table''), a)
                | Inr (Some t) \<Rightarrow> (Inr t, a\<lparr>tablesByName := (tablesByName a)(key \<mapsto> t)\<rparr>))))"

text \<open>The transaction columns of a row, from the current GTID and the number of the statement.\<close>

fun gtid_stamp :: "gtid option \<Rightarrow> u64 \<Rightarrow> stamp" where
  "gtid_stamp (Some (Mysql56GTID server sqn)) n =
     \<lparr>st_tag = None, st_server = Some server, st_group = None, st_seq = sqn, st_stmt = n\<rparr>"
| "gtid_stamp (Some (FilePosGTID file p)) n =
     \<lparr>st_tag = None, st_server = None, st_group = Some file, st_seq = ucast p, st_stmt = n\<rparr>"
| "gtid_stamp (Some (MariadbGTID domain server sqn)) n =
     \<lparr>st_tag = Some (itoa (unat domain)), st_server = Some (itoa (unat server)), st_group = None, st_seq = sqn, st_stmt = n\<rparr>"
| "gtid_stamp None n = \<lparr>st_tag = None, st_server = None, st_group = None, st_seq = 0, st_stmt = n\<rparr>"

text \<open>The value of one cell, appended to the builder of its column.\<close>

definition cell_datum :: "row_env \<Rightarrow> TableMap \<Rightarrow> schema \<Rightarrow> bytes \<Rightarrow> nat \<Rightarrow> nat \<Rightarrow> (nat \<times> arrow_value datum) res" where
  "cell_datum env tm sch d i pos =
     (if length (tm_Types tm) \<le> i \<or> length (tm_Metadata tm) \<le> i then Inl (Panic ''index out of range'')
      else case col_type (sch ! i) of
        Postgres p \<Rightarrow> bad_builder
      | GMS g \<Rightarrow>
          bind_res (toArrowType (GMS g)) (\<lambda>b.
          bind_res (CellValue env d pos (tm_Types tm ! i) (tm_Metadata tm ! i) g b) (\<lambda>(n, v). Inr (n, Val v))))"

fun image_cells ::
    "row_env \<Rightarrow> TableMap \<Rightarrow> schema \<Rightarrow> bitmap \<Rightarrow> bytes \<Rightarrow> nat list \<Rightarrow> nat \<Rightarrow> (arrow_value drow \<times> nat) res" where
  "image_cells env tm sch nulls d [] pos = Inr ([], pos)"
| "image_cells env tm sch nulls d (i # is) pos =
     (if Bit nulls i
      then bind_res (image_cells env tm sch nulls d is pos) (\<lambda>(vs, p). Inr (Null # vs, p))
      else bind_res (cell_datum env tm sch d i pos) (\<lambda>(n, v).
           bind_res (image_cells env tm sch nulls d is (pos + n)) (\<lambda>(vs, p). Inr (v # vs, p))))"

definition row_values :: "row_env \<Rightarrow> TableMap \<Rightarrow> schema \<Rightarrow> bitmap \<Rightarrow> bytes \<Rightarrow> (arrow_value drow \<times> nat) res" where
  "row_values env tm sch nulls d = image_cells env tm sch nulls d [0..<length sch] 0"

text \<open>
  The loop over the images of an event. The columns of the transaction are appended first, so a
  decode error leaves the appender torn.
\<close>

fun append_images ::
    "row_env \<Rightarrow> TableMap \<Rightarrow> schema \<Rightarrow> stamp \<Rightarrow> RowEventType \<Rightarrow> (bitmap \<times> bytes) list \<Rightarrow>
       arrow_value DeltaAppender \<Rightarrow> u64 \<Rightarrow> go_error option \<times> arrow_value DeltaAppender \<times> u64" where
  "append_images env tm sch st act [] app sz = (None, app, sz)"
| "append_images env tm sch st act ((nulls, d) # rest) app sz =
     (case row_values env tm sch nulls d of
        Inl e \<Rightarrow> (Some e, app\<lparr>torn := torn app + 1\<rparr>, sz)
      | Inr (r, pos) \<Rightarrow>
          append_images env tm sch st act rest (append_rows st act [r] app) (sz + word_of_nat pos))"

definition appendRowFormatChanges ::
    "('c, 's, 'x, 'p, 'w) applier_env \<Rightarrow> TableMap \<Rightarrow> string \<Rightarrow> schema \<Rightarrow> RowEventType \<Rightarrow> Rows \<Rightarrow>
       ('c, 's, 'p) applier \<Rightarrow> ('c, 's, 'p) outcome" where
  "appendRowFormatChanges env tm tname sch ev rws a =
     (let t = \<lparr>dbName = tm_Database tm, tableName = tname\<rparr> in
      case ProvideAppender (provider env) (buffer a) t sch of
        Inl e \<Rightarrow> (Some e, a)
      | Inr (app0, c) \<Rightarrow>
          (let st = gtid_stamp (currentGtid a) (inTxnStmtID a);
               finish = (\<lambda>app sz. a\<lparr>buffer := PutDeltaAppender (provider env) t app c, deltaBufSize := sz\<rparr>);
               before = map (\<lambda>r. (NullIdentifyColumns r, Identify r)) (row_images rws);
               after = map (\<lambda>r. (NullColumns r, Data r)) (row_images rws);
               n = length (row_images rws)
           in case (if ev \<in> {DeleteRowEvent, UpdateRowEvent}
                    then append_images (cells_env env) tm sch st DeleteRowEvent before app0 (deltaBufSize a)
                    else (None, app0, deltaBufSize a)) of
                (Some e, app1, sz1) \<Rightarrow> (Some e, finish app1 sz1)
              | (None, app1, sz1) \<Rightarrow>
                  (let app2 = (if ev \<in> {DeleteRowEvent, UpdateRowEvent} then UpdateActionStats DeleteRowEvent n app1 else app1)
                   in case (if ev \<in> {InsertRowEvent, UpdateRowEvent}
                            then append_images (cells_env env) tm sch st InsertRowEvent after app2 sz1
                            else (None, app2, sz1)) of
                        (Some e, app3, sz2) \<Rightarrow> (Some e, finish app3 sz2)
                      | (None, app3, sz2) \<Rightarrow>
                          (let app4 = (if ev \<in> {InsertRowEvent, UpdateRowEvent} then UpdateActionStats InsertRowEvent n app3 else app3)
                           in (None, finish (ObserveEvents ev n app4) sz2)))))"

text \<open>\<^verbatim>\<open>parseRow\<close>: a row for the table writers; a column that is absent or NULL is nil.\<close>

fun parse_columns ::
    "('c, 's, 'x, 'p, 'w) applier_env \<Rightarrow> TableMap \<Rightarrow> schema \<Rightarrow> bitmap \<Rightarrow> bitmap \<Rightarrow> bytes \<Rightarrow> nat list \<Rightarrow> nat \<Rightarrow> 'x sql_row res" where
  "parse_columns env tm sch present nulls d [] pos = Inr []"
| "parse_columns env tm sch present nulls d (i # is) pos =
     (if \<not> Bit present i \<or> Bit nulls i
      then (if length sch \<le> i then Inl (Panic ''index out of range'')
            else bind_res (parse_columns env tm sch present nulls d is pos) (\<lambda>vs. Inr (None # vs)))
      else if length sch \<le> i \<or> length (tm_Metadata tm) \<le> i then Inl (Panic ''index out of range'')
      else
        bind_res (VitessCellValue env d pos (tm_Types tm ! i) (tm_Metadata tm ! i) (sch ! i)) (\<lambda>(w, n).
        bind_res (ConvertValue env (sch ! i) w) (\<lambda>x.
        bind_res (parse_columns env tm sch present nulls d is (pos + n)) (\<lambda>vs. Inr (Some x # vs)))))"

definition parseRow ::
    "('c, 's, 'x, 'p, 'w) applier_env \<Rightarrow> TableMap \<Rightarrow> schema \<Rightarrow> bitmap \<Rightarrow> bitmap \<Rightarrow> bytes \<Rightarrow> 'x sql_row res" where
  "parseRow env tm sch present nulls d = parse_columns env tm sch present nulls d [0..<length (tm_Types tm)] 0"

definition parse_image ::
    "('c, 's, 'x, 'p, 'w) applier_env \<Rightarrow> TableMap \<Rightarrow> schema \<Rightarrow> Rows \<Rightarrow> row_image \<Rightarrow> ('x sql_row \<times> 'x sql_row) res" where
  "parse_image env tm sch rws r =
     bind_res (if Identify r = [] then Inr [] else parseRow env tm sch (IdentifyColumns rws) (NullIdentifyColumns r) (Identify r)) (\<lambda>idr.
     bind_res (if Data r = [] then Inr [] else parseRow env tm sch (DataColumns rws) (NullColumns r) (Data r)) (\<lambda>dr.
     Inr (idr, dr)))"

definition writeChanges ::
    "('c, 's, 'x, 'p, 'w) applier_env \<Rightarrow> TableMap \<Rightarrow> string \<Rightarrow> schema \<Rightarrow> RowEventType \<Rightarrow> Rows \<Rightarrow>
       ('c, 's, 'p) applier \<Rightarrow> ('c, 's, 'p) outcome" where
  "writeChanges env tm tname sch ev rws a =
     (case map_res (parse_image env tm sch rws) (row_images rws) of
        Inl e \<Rightarrow> (Some e, a)
      | Inr images \<Rightarrow>
          (case GetTxn env (sess a) of
             (Some e, s) \<Rightarrow> (Some e, a\<lparr>sess := s\<rparr>)
           | (None, s) \<Rightarrow>
               (if \<not> tx_alive s then (Some (Error ''transaction has already been committed or rolled back''), a\<lparr>sess := s\<rparr>)
                else
                  (case WriteRows (provider env)
                          \<lparr>wr_table = \<lparr>dbName = tm_Database tm, tableName = tname\<rparr>, wr_schema = sch,
                           wr_columnCount = length (tm_Types tm), wr_identifyColumns = IdentifyColumns rws,
                           wr_dataColumns = DataColumns rws, wr_event = ev,
                           wr_identityRows = map fst images, wr_dataRows = map snd images\<rparr> (contents (view s)) of
                     (e, d) \<Rightarrow> (e, a\<lparr>sess := set_view ((view s)\<lparr>contents := d\<rparr>) s\<rparr>)))))"

definition is_row_format :: "RowEventType \<Rightarrow> Rows \<Rightarrow> nat \<Rightarrow> bool" where
  "is_row_format ev rws fieldCount =
     (case ev of
        DeleteRowEvent \<Rightarrow> BitCount (IdentifyColumns rws) = fieldCount
      | UpdateRowEvent \<Rightarrow> BitCount (IdentifyColumns rws) = fieldCount \<and> BitCount (DataColumns rws) = fieldCount
      | InsertRowEvent \<Rightarrow> BitCount (DataColumns rws) = fieldCount)"

definition processRowEvent ::
    "('c, 's, 'x, 'p, 'w) applier_env \<Rightarrow> RowEventType \<Rightarrow> nat \<Rightarrow> Rows res \<Rightarrow> ('c, 's, 'p) applier \<Rightarrow> ('c, 's, 'p) outcome" where
  "processRowEvent env ev tableId parsed a =
     (if format a = None then (Some (Panic ''nil pointer dereference''), a)
      else case tableMapsById a tableId of
        None \<Rightarrow> (Some (Error ''unable to find replication metadata''), a)
      | Some tm \<Rightarrow>
          (if tm_Database tm = ''mysql'' then (None, a)
           else if isTableFilteredOut (filters env) (tm_Database tm) (tm_Name tm) then (None, a)
           else case parsed of
             Inl e \<Rightarrow> (Some e, a)
           | Inr rws \<Rightarrow>
               (case getTableSchema env (tm_Name tm) (tm_Database tm) a of
                  (Inl e, a1) \<Rightarrow> (Some e, a1)
                | (Inr (sch, tname), a1) \<Rightarrow>
                    (if length (tm_Types tm) \<noteq> length sch then (Some (Error ''schema mismatch''), a1)
                     else if is_row_format ev rws (length sch) \<and> pk_positions sch \<noteq> []
                     then appendRowFormatChanges env tm tname sch ev rws a1
                     else writeChanges env tm tname sch ev rws (a1\<lparr>ongoingBatchTxn := False\<rparr>)))))"

section \<open>Query events\<close>

definition QFlags2Code :: byte where "QFlags2Code = 0"
definition QSQLModeCode :: byte where "QSQLModeCode = 1"
definition QCatalog :: byte where "QCatalog = 2"
definition QAutoIncrement :: byte where "QAutoIncrement = 3"
definition QCharsetCode :: byte where "QCharsetCode = 4"
definition QCatalogNZCode :: byte where "QCatalogNZCode = 6"

text \<open>
  The status variables of a query event, the first \<open>lim\<close> bytes of \<open>vs\<close>. Go checks the slices it takes of
  them against the capacity, which reaches to the end of the event. The position is not advanced
  over the SQL mode.
\<close>

function query_vars :: "bytes \<Rightarrow> nat \<Rightarrow> nat \<Rightarrow> u32 \<Rightarrow> u64 \<Rightarrow> (u32 \<times> u64) res" where
  "query_vars vs lim pos flags mode =
     (if lim \<le> pos then Inr (flags, mode)
      else
        let code = vs ! pos; pos = pos + 1 in
        if code = QFlags2Code then
          bind_res (le_read vs pos 4) (\<lambda>v. query_vars vs lim (pos + 4) (word_of_nat v) mode)
        else if code = QSQLModeCode then
          bind_res (le_read vs pos 8) (\<lambda>v. query_vars vs lim pos flags (word_of_nat v))
        else if code = QAutoIncrement then query_vars vs lim (pos + 4) flags mode
        else if code = QCatalog then
          bind_res (byte_at (take lim vs) pos) (\<lambda>n. query_vars vs lim (pos + 1 + unat n + 1) flags mode)
        else if code = QCatalogNZCode then
          bind_res (byte_at (take lim vs) pos) (\<lambda>n. query_vars vs lim (pos + 1 + unat n) flags mode)
        else if code = QCharsetCode then query_vars vs lim (pos + 6) flags mode
        else Inr (flags, mode))"
  by pat_completeness auto

termination
  by (relation "measure (\<lambda>(vs, lim, pos, flags, mode). lim - pos)") auto

declare query_vars.simps [simp del]

definition parseQueryEventVars :: "nat \<Rightarrow> bytes \<Rightarrow> (u32 \<times> u64) res" where
  "parseQueryEventVars headerLength raw =
     bind_res (slice raw headerLength (length raw)) (\<lambda>d.
     bind_res (le_read d 11 2) (\<lambda>varsLen.
     bind_res (slice d 13 (13 + varsLen)) (\<lambda>_. query_vars (drop 13 d) varsLen 0 0 0)))"

definition QFlagOptionAutoIsNull :: u32 where "QFlagOptionAutoIsNull = 0x00004000"
definition QFlagOptionNotAutocommit :: u32 where "QFlagOptionNotAutocommit = 0x00080000"
definition QFlagOptionNoForeignKeyChecks :: u32 where "QFlagOptionNoForeignKeyChecks = 0x04000000"
definition QFlagOptionRelaxedUniqueChecks :: u32 where "QFlagOptionRelaxedUniqueChecks = 0x08000000"

definition set_flag_vars :: "u32 \<Rightarrow> session_vars" where
  "set_flag_vars flags =
     \<lparr>sql_auto_is_null = (flags AND QFlagOptionAutoIsNull > 0), autocommit = \<not> (flags AND QFlagOptionNotAutocommit > 0),
      foreign_key_checks = \<not> (flags AND QFlagOptionNoForeignKeyChecks > 0),
      unique_checks = \<not> (flags AND QFlagOptionRelaxedUniqueChecks > 0)\<rparr>"

section \<open>The event handler\<close>

definition begin_query :: query where
  "begin_query = \<lparr>Database = [], SQL = ''BEGIN''\<rparr>"

definition processQueryEvent ::
    "('c, 's, 'x, 'p, 'w) applier_env \<Rightarrow> nat \<Rightarrow> bytes \<Rightarrow> query res \<Rightarrow> ('c, 's, 'p) applier \<Rightarrow> ('c, 's, 'p) outcome" where
  "processQueryEvent env now raw parsed a =
     (case format a of
        None \<Rightarrow> (Some (Panic ''nil pointer dereference''), a)
      | Some headerLength \<Rightarrow>
          (case parsed of
             Inl e \<Rightarrow> (Some e, a)
           | Inr q \<Rightarrow>
               (case parseQueryEventVars headerLength raw of
                  Inl e \<Rightarrow> (Some e, a)
                | Inr (flags, mode) \<Rightarrow>
                    (case executeQueryWithEngine env now q (a\<lparr>sess_vars := set_flag_vars flags\<rparr>) of
                       (Some (Panic m), a') \<Rightarrow> (Some (Panic m), a')
                     | (_, a') \<Rightarrow> (None, a'\<lparr>inTxnStmtID := inTxnStmtID a' + 1\<rparr>)))))"

definition processGTIDEvent ::
    "('c, 's, 'x, 'p, 'w) applier_env \<Rightarrow> nat \<Rightarrow> gtid \<Rightarrow> bool \<Rightarrow> ('c, 's, 'p) applier \<Rightarrow> ('c, 's, 'p) outcome" where
  "processGTIDEvent env now g isBegin a =
     (let a1 = a\<lparr>previousGtid := currentGtid a, currentGtid := Some g\<rparr> in
      case (if isBegin then executeQueryWithEngine env now begin_query a1 else (None, a1)) of
        (Some e, a2) \<Rightarrow> (Some e, a2)
      | (None, a2) \<Rightarrow>
          (if replicationSourceUuid a2 = [] then
             (case persistSourceUuid env (SourceServer env g) of
                Some e \<Rightarrow> (Some e, a2)
              | None \<Rightarrow> (None, a2\<lparr>replicationSourceUuid := SourceServer env g\<rparr>))
           else (None, a2)))"

definition processTableMapEvent :: "nat \<Rightarrow> TableMap \<Rightarrow> ('c, 's, 'p) applier \<Rightarrow> ('c, 's, 'p) applier" where
  "processTableMapEvent tableId tm a =
     (if tableId = 0xFFFFFF then a\<lparr>tableMapsById := Map.empty\<rparr>
      else a\<lparr>tableMapsById := (tableMapsById a)(tableId \<mapsto> tm)\<rparr>)"

definition processBinlogEvent ::
    "('c, 's, 'x, 'p, 'w) applier_env \<Rightarrow> nat \<Rightarrow> event \<Rightarrow> ('c, 's, 'p) applier \<Rightarrow> ('c, 's, 'p) outcome" where
  "processBinlogEvent env now ev a =
     (case ev of
        EvRand \<Rightarrow> (None, a)
      | EvXID \<Rightarrow> extendOrCommitBatchTxn env now a
      | EvQuery raw parsed \<Rightarrow> processQueryEvent env now raw parsed a
      | EvRotate \<Rightarrow> (if currentGtid a \<noteq> None then extendOrCommitBatchTxn env now a else (None, a))
      | EvFormatDescription (Inl e) \<Rightarrow> (Some e, a)
      | EvFormatDescription (Inr f) \<Rightarrow> (None, a\<lparr>format := Some f\<rparr>)
      | EvPreviousGTIDs r \<Rightarrow>
          (if format a = None then (Some (Panic ''nil pointer dereference''), a)
           else (case r of Inl e \<Rightarrow> (Some e, a) | Inr _ \<Rightarrow> (None, a)))
      | EvGTID r \<Rightarrow>
          (if format a = None then (Some (Panic ''nil pointer dereference''), a)
           else (case r of Inl e \<Rightarrow> (Some e, a) | Inr (g, isBegin) \<Rightarrow> processGTIDEvent env now g isBegin a))
      | EvTableMap tableId r \<Rightarrow>
          (if format a = None then (Some (Panic ''nil pointer dereference''), a)
           else (case r of Inl e \<Rightarrow> (Some e, a) | Inr tm \<Rightarrow> (None, processTableMapEvent tableId tm a)))
      | EvRows kind tableId r \<Rightarrow>
          (case processRowEvent env kind tableId r a of
             (Some e, a') \<Rightarrow> (Some e, a')
           | (None, a') \<Rightarrow> (None, a'\<lparr>dirtyTxn := True, dirtyStream := True, inTxnStmtID := inTxnStmtID a' + 1\<rparr>))
      | EvHeartbeat \<Rightarrow> (None, a)
      | EvStop \<Rightarrow> (None, a)
      | EvOther b \<Rightarrow>
          (if b = 0xa1 \<or> b = 0xa3 then (None, a) else (Some (Error ''received unknown event type''), a)))"

section \<open>The event loop\<close>

text \<open>
  One round of the loop of \<^verbatim>\<open>replicaBinlogEventHandler\<close>: an event, the tick of the 200 ms ticker, or the
  stop signal. Errors are recorded and the loop goes on; a panic ends the process.
\<close>

datatype input = EventInput event | Ticker | StopSignal

definition handle_input ::
    "('c, 's, 'x, 'p, 'w) applier_env \<Rightarrow> nat \<Rightarrow> input \<Rightarrow> ('c, 's, 'p) applier \<Rightarrow> ('c, 's, 'p) outcome" where
  "handle_input env now inp a =
     (case inp of
        EventInput ev \<Rightarrow> processBinlogEvent env now ev a
      | Ticker \<Rightarrow>
          (if ongoingBatchTxn a \<and> \<not> dirtyStream a then extendOrCommitBatchTxn env now a else (None, a))
      | StopSignal \<Rightarrow>
          (if ongoingBatchTxn a \<and> \<not> dirtyStream a then commitOngoingTxn env now NormalCommit OnCloseFlushReason a
           else (None, a)))"

text \<open>The state that \<^verbatim>\<open>startReplicationEventStream\<close> sets up once the starting position is known.\<close>

definition reset_stream ::
    "('c, 's, 'x, 'p, 'w) applier_env \<Rightarrow> nat \<Rightarrow> 'p \<Rightarrow> ('c, 's, 'p) applier \<Rightarrow> ('c, 's, 'p) applier" where
  "reset_stream env now pos a =
     a\<lparr>currentPosition := pos, pendingPosition := pos, format := None, previousGtid := None, currentGtid := None,
       ongoingBatchTxn := False, dirtyTxn := False, dirtyStream := False, inTxnStmtID := 0, lastCommitTime := now,
       buffer := DiscardDeltaBuffer (provider env) (buffer a), deltaBufSize := 0\<rparr>"

text \<open>
  \<^verbatim>\<open>loadGtidPosition\<close> and \<^verbatim>\<open>loadLogFilePosition\<close>: the saved position; if there is none, the position of
  \<^verbatim>\<open>gtid_purged\<close> without a leading plus sign, and if that is empty too, the very beginning; for positions in
  log files, the file and offset the source was configured with.
\<close>

definition loadGtidPosition ::
    "('p \<Rightarrow> bool) \<Rightarrow> (string \<Rightarrow> 'p res) \<Rightarrow> 'p \<Rightarrow> string option \<Rightarrow> 'p res \<Rightarrow> 'p res" where
  "loadGtidPosition zero parse beginning purged saved =
     bind_res saved (\<lambda>p.
     bind_res (if zero p then
                 (case purged of
                    None \<Rightarrow> Inr p
                  | Some s \<Rightarrow> parse (if has_prefix ''+'' s then tl s else s))
               else Inr p) (\<lambda>p'.
     Inr (if zero p' then beginning else p')))"

definition loadLogFilePosition :: "('p \<Rightarrow> bool) \<Rightarrow> 'p res \<Rightarrow> 'p res \<Rightarrow> 'p res" where
  "loadLogFilePosition zero configured saved =
     bind_res saved (\<lambda>p. if zero p then configured else Inr p)"

end
