(* ===== verification/ApplierCorrect.thy ===== *)
theory ApplierCorrect
  imports Applier DeltaTotal
begin

text \<open>
  Correctness of the binlog applier. The interface to the delta buffer is the locale \<open>delta_buffer\<close>; inside
  it, the invariant of a replication stream is proved once for any provider that keeps the
  contract: the committed database holds the effects of exactly the transactions that its saved
  position names, the later transactions are in the buffer, and no event fails. The locale is
  interpreted on the provider of \<^verbatim>\<open>replica/replication.go\<close>, the delta controller.
\<close>

section \<open>Row images and changes\<close>

text \<open>The change a row event makes, when all its images decode.\<close>

definition image_rows :: "row_env \<Rightarrow> TableMap \<Rightarrow> schema \<Rightarrow> (bitmap \<times> bytes) list \<Rightarrow> arrow_value drow list res" where
  "image_rows env tm sch images = map_res (\<lambda>(nulls, d). bind_res (row_values env tm sch nulls d) (\<lambda>(r, p). Inr r)) images"

definition row_change :: "row_env \<Rightarrow> TableMap \<Rightarrow> schema \<Rightarrow> RowEventType \<Rightarrow> Rows \<Rightarrow> arrow_value change res" where
  "row_change env tm sch ev rws =
     bind_res (if ev \<in> {DeleteRowEvent, UpdateRowEvent}
               then image_rows env tm sch (map (\<lambda>r. (NullIdentifyColumns r, Identify r)) (row_images rws)) else Inr []) (\<lambda>dels.
     bind_res (if ev \<in> {InsertRowEvent, UpdateRowEvent}
               then image_rows env tm sch (map (\<lambda>r. (NullColumns r, Data r)) (row_images rws)) else Inr []) (\<lambda>inss.
     Inr \<lparr>ch_kind = ev, ch_dels = dels, ch_inss = inss\<rparr>))"

lemma image_rows_length: "image_rows env tm sch images = Inr rs \<Longrightarrow> length rs = length images"
  unfolding image_rows_def by (rule map_res_length)

lemma row_change_nonempty:
  assumes "row_change env tm sch ev rws = Inr ch" "row_images rws \<noteq> []"
  shows "ch_dels ch \<noteq> [] \<or> ch_inss ch \<noteq> []"
  using assms by (cases ev) (auto simp: row_change_def res_simps dest!: image_rows_length)

lemma append_rows_append_rows: "append_rows st act (r # rs) app = append_rows st act rs (append_rows st act [r] app)"
  by (simp add: append_rows_def)

lemma append_rows_Nil [simp]: "append_rows st act [] app = app"
  by (simp add: append_rows_def)

lemma append_images_ok:
  "image_rows env tm sch images = Inr rs \<Longrightarrow>
     \<exists>sz'. append_images env tm sch st act images app sz = (None, append_rows st act rs app, sz')"
proof (induction env tm sch st act images app sz arbitrary: rs rule: append_images.induct)
  case (1 env tm sch st act app sz)
  then show ?case by (simp add: image_rows_def)
next
  case (2 env tm sch st act nulls d rest app sz)
  obtain r p rs' where r: "row_values env tm sch nulls d = Inr (r, p)" "image_rows env tm sch rest = Inr rs'" "rs = r # rs'"
    using 2(2) by (auto simp: image_rows_def res_simps)
  then obtain sz' where "append_images env tm sch st act rest (append_rows st act [r] app) (sz + word_of_nat p) =
      (None, append_rows st act rs' (append_rows st act [r] app), sz')"
    using 2(1) [OF r(1) refl r(2)] by blast
  with r show ?case by (simp add: append_rows_append_rows [of st act r rs'])
qed

lemma UpdateActionStats_0 [simp]: "UpdateActionStats act 0 app = app"
  by (cases act) (simp_all add: UpdateActionStats_def)

lemma ObserveEvents_count: "ObserveEvents ev n app = ObserveEvents ev m app"
  by (cases ev) (simp_all add: ObserveEvents_def)

lemma appendRowFormatChanges_ok:
  assumes "ProvideAppender (provider env) (buffer a) t sch = Inr (app, c)"
    and "t = \<lparr>dbName = tm_Database tm, tableName = tname\<rparr>"
    and "row_change (cells_env env) tm sch ev rws = Inr ch"
  shows "\<exists>sz. appendRowFormatChanges env tm tname sch ev rws a =
    (None, a\<lparr>buffer := PutDeltaAppender (provider env) t
        (record_change (gtid_stamp (currentGtid a) (inTxnStmtID a)) ch app) c, deltaBufSize := sz\<rparr>)"
proof -
  define st where "st = gtid_stamp (currentGtid a) (inTxnStmtID a)"
  define before where "before = map (\<lambda>r. (NullIdentifyColumns r, Identify r)) (row_images rws)"
  define after where "after = map (\<lambda>r. (NullColumns r, Data r)) (row_images rws)"
  have len: "length before = length (row_images rws)" "length after = length (row_images rws)"
    by (simp_all add: before_def after_def)
  obtain dels inss where ch: "ch = \<lparr>ch_kind = ev, ch_dels = dels, ch_inss = inss\<rparr>"
    and d: "(if ev \<in> {DeleteRowEvent, UpdateRowEvent} then image_rows (cells_env env) tm sch before else Inr []) = Inr dels"
    and i: "(if ev \<in> {InsertRowEvent, UpdateRowEvent} then image_rows (cells_env env) tm sch after else Inr []) = Inr inss"
    using assms(3) unfolding row_change_def before_def [symmetric] after_def [symmetric] by (auto simp: res_simps)
  obtain sz1 where 1: "(if ev \<in> {DeleteRowEvent, UpdateRowEvent}
      then append_images (cells_env env) tm sch st DeleteRowEvent before app (deltaBufSize a)
      else (None, app, deltaBufSize a)) = (None, append_rows st DeleteRowEvent dels app, sz1)"
    using d append_images_ok [of "cells_env env" tm sch before dels st DeleteRowEvent app "deltaBufSize a"] by (auto split: if_splits)
  define app2 where "app2 = UpdateActionStats DeleteRowEvent (length dels) (append_rows st DeleteRowEvent dels app)"
  have 2: "(if ev \<in> {DeleteRowEvent, UpdateRowEvent} then UpdateActionStats DeleteRowEvent (length (row_images rws))
      (append_rows st DeleteRowEvent dels app) else append_rows st DeleteRowEvent dels app) = app2"
    using d image_rows_length [of _ _ _ before dels] len by (auto simp: app2_def split: if_splits)
  obtain sz2 where 3: "(if ev \<in> {InsertRowEvent, UpdateRowEvent}
      then append_images (cells_env env) tm sch st InsertRowEvent after app2 sz1
      else (None, app2, sz1)) = (None, append_rows st InsertRowEvent inss app2, sz2)"
    using i append_images_ok [of "cells_env env" tm sch after inss st InsertRowEvent app2 sz1] by (auto split: if_splits)
  have 4: "(if ev \<in> {InsertRowEvent, UpdateRowEvent} then UpdateActionStats InsertRowEvent (length (row_images rws))
      (append_rows st InsertRowEvent inss app2) else append_rows st InsertRowEvent inss app2) =
      UpdateActionStats InsertRowEvent (length inss) (append_rows st InsertRowEvent inss app2)"
    using i image_rows_length [of _ _ _ after inss] len by (auto split: if_splits)
  have rec: "record_change st ch app = ObserveEvents ev (length (row_images rws))
      (UpdateActionStats InsertRowEvent (length inss) (append_rows st InsertRowEvent inss app2))"
    by (simp add: record_change_def ch app2_def) (rule ObserveEvents_count)
  show ?thesis
    unfolding appendRowFormatChanges_def Let_def assms(2) [symmetric] assms(1) sum.case prod.case
      st_def [symmetric] before_def [symmetric] after_def [symmetric] 1 option.case 2 3 4 rec
    by blast
qed

section \<open>The interface to the delta buffer\<close>

text \<open>
  A row event as the buffer sees it: the table, the stamp of its transaction and statement, and the
  change. The contents of the replicated tables are a map from keys to rows per table.
\<close>

type_synonym row_event = "tableIdentifier \<times> stamp \<times> arrow_value change"
type_synonym table_maps = "tableIdentifier \<Rightarrow> arrow_value table_map"

definition apply_event :: "(tableIdentifier \<Rightarrow> schema) \<Rightarrow> table_maps \<Rightarrow> row_event \<Rightarrow> table_maps" where
  "apply_event sch M e = M(fst e := apply_change (sch (fst e)) (M (fst e)) (snd (snd e)))"

definition apply_events :: "(tableIdentifier \<Rightarrow> schema) \<Rightarrow> table_maps \<Rightarrow> row_event list \<Rightarrow> table_maps" where
  "apply_events sch M es = foldl (apply_event sch) M es"

lemma apply_events_simps [simp]:
  "apply_events sch M [] = M" "apply_events sch M (es @ es') = apply_events sch (apply_events sch M es) es'"
  by (simp_all add: apply_events_def)

text \<open>
  What the source guarantees of the next event: a valid change of at least one row of a replicated
  table, later than all others.
\<close>

definition next_event :: "tableIdentifier set \<Rightarrow> (tableIdentifier \<Rightarrow> schema) \<Rightarrow> table_maps \<Rightarrow> row_event list \<Rightarrow> row_event \<Rightarrow> bool" where
  "next_event tabs sch M es e \<longleftrightarrow>
     fst e \<in> tabs \<and> valid_change (sch (fst e)) (apply_events sch M es (fst e)) (snd (snd e)) \<and>
     (ch_dels (snd (snd e)) \<noteq> [] \<or> ch_inss (snd (snd e)) \<noteq> []) \<and>
     (\<forall>e'\<in>set es. stamp_key (fst (snd e')) < stamp_key (fst (snd e)))"

text \<open>
  The contract of a provider: \<open>holds\<close> relates the database to the contents of the tables, \<open>buffers\<close>
  the provider to the events it has buffered on top of some contents. Recording an event appends
  it, and a flush inside a transaction succeeds and applies the buffered events.
\<close>

locale delta_buffer =
  fixes P :: "('c, 's, 'x) TableWriterProvider"
    and tabs :: "tableIdentifier set"
    and sch :: "tableIdentifier \<Rightarrow> schema"
    and holds :: "'s \<Rightarrow> table_maps \<Rightarrow> bool"
    and buffers :: "table_maps \<Rightarrow> 'c \<Rightarrow> row_event list \<Rightarrow> bool"
  assumes record_event:
      "buffers M c es \<Longrightarrow> next_event tabs sch M es (t, st, ch) \<Longrightarrow>
        \<exists>app c'. ProvideAppender P c t (sch t) = Inr (app, c') \<and>
          buffers M (PutDeltaAppender P t (record_change st ch app) c') (es @ [(t, st, ch)])"
    and flush_events:
      "holds d M \<Longrightarrow> buffers M c es \<Longrightarrow>
        \<exists>d' c'. FlushDeltaBuffer P True reason c d = (None, d', c') \<and>
          holds d' (apply_events sch M es) \<and> buffers (apply_events sch M es) c' []"

section \<open>What the source and the engine guarantee\<close>

text \<open>
  The environment does its part: connections, transactions and the position table work, \<^verbatim>\<open>BEGIN\<close> and
  \<^verbatim>\<open>COMMIT\<close> change no data (they may commit what the session sees), and positions behave like sets
  of GTIDs as far as the applier cares: adding nothing, or the same GTID twice in a row, changes
  nothing.
\<close>

definition engine_txn :: "'d session \<Rightarrow> 'd session \<Rightarrow> bool" where
  "engine_txn s s' \<longleftrightarrow>
     view s' = view s \<and> (committed s' = committed s \<or> committed s' = view s) \<and> (tx_alive s' \<or> txn s' = None)"

definition good_env :: "('c, 's, 'x, 'p, 'w) applier_env \<Rightarrow> (query \<Rightarrow> bool) \<Rightarrow> bool" where
  "good_env env is_begin \<longleftrightarrow>
     (\<forall>s. ConnError env s = None \<and> BeginError env s = None \<and> CommitError env s = None \<and> SaveError env s = None) \<and>
     (\<forall>p g. AppendGTID env p None = p \<and> AppendGTID env (AppendGTID env p (Some g)) (Some g) = AppendGTID env p (Some g) \<and>
        \<not> IsZero env (AppendGTID env p (Some g))) \<and>
     (\<forall>q. is_begin q \<or> q = commit_query \<longrightarrow>
        (\<forall>s. tx_alive s \<or> txn s = None \<longrightarrow> (\<exists>s'. EngineQuery env q s = ((None, None), s') \<and> engine_txn s s'))) \<and>
     (\<forall>q. is_begin q \<longrightarrow> Database q \<noteq> ''mysql'' \<and> (\<forall>d. PrepareQuery env q d = Inr StartTransaction)) \<and>
     is_begin begin_query \<and> (\<forall>u. persistSourceUuid env u = None)"

lemma good_env_engine:
  "good_env env is_begin \<Longrightarrow> is_begin q \<or> q = commit_query \<Longrightarrow> tx_alive s \<or> txn s = None \<Longrightarrow>
     \<exists>s'. EngineQuery env q s = ((None, None), s') \<and> engine_txn s s'"
  unfolding good_env_def by blast

lemma good_env_simps:
  assumes "good_env env is_begin"
  shows "ConnError env s = None" "BeginError env s = None" "CommitError env s = None" "SaveError env s = None"
    "AppendGTID env p None = p" "AppendGTID env (AppendGTID env p (Some g)) (Some g) = AppendGTID env p (Some g)"
    "\<not> IsZero env (AppendGTID env p (Some g))" "persistSourceUuid env u = None" "is_begin begin_query"
    "is_begin q \<Longrightarrow> PrepareQuery env q d = Inr StartTransaction" "is_begin q \<Longrightarrow> Database q \<noteq> ''mysql''"
  using assms by (simp_all add: good_env_def)

text \<open>GTIDs in the order in which the buffer sorts them.\<close>

fun gtid_before :: "gtid \<Rightarrow> gtid \<Rightarrow> bool" where
  "gtid_before (Mysql56GTID s n) (Mysql56GTID s' n') \<longleftrightarrow> n < n'"
| "gtid_before (MariadbGTID d s n) (MariadbGTID d' s' n') \<longleftrightarrow> n < n'"
| "gtid_before (FilePosGTID f p) (FilePosGTID f' p') \<longleftrightarrow> f < f' \<or> f = f' \<and> p < p'"
| "gtid_before _ _ \<longleftrightarrow> False"

lemma unat_pos [simp]: "unat (ucast (p :: u32) :: u64) = unat p"
proof -
  have "unat p < 2 ^ LENGTH(32)" by (rule unsigned_less)
  then have "unat p < 2 ^ 64" by simp
  then show ?thesis by (simp add: unsigned_ucast_eq take_bit_nat_eq_self)
qed

lemma gtid_before_stamp:
  assumes "gtid_before g g'"
  shows "stamp_key (gtid_stamp (Some g) n) < stamp_key (gtid_stamp (Some g') n')"
  using assms
  by (cases "(g, g')" rule: gtid_before.cases)
    (auto simp: stamp_key_def opt_text_def word_less_nat_alt)

lemma stmt_before_stamp: "n < n' \<Longrightarrow> stamp_key (gtid_stamp (Some g) n) < stamp_key (gtid_stamp (Some g) n')"
  by (cases g) (auto simp: stamp_key_def word_less_nat_alt)

section \<open>Streams of transactions\<close>

text \<open>
  \<open>replicates env \<dots> a ts ph ok\<close>: starting from the state \<open>a0\<close> the event loop has been fed the transactions
  \<open>ts\<close>, each with its GTID and row events, and is now in the state \<open>a\<close>; \<open>ph\<close> is the open transaction
  and \<open>ok\<close> says that no event has returned an error. Ticks may come between any two events except
  between a GTID event and its \<^verbatim>\<open>BEGIN\<close>.
\<close>

datatype phase = Idle | InTxn gtid "row_event list"

type_synonym transaction = "gtid \<times> row_event list"

definition history :: "transaction list \<Rightarrow> row_event list" where
  "history ts = concat (map snd ts)"

definition quiet_event :: "event \<Rightarrow> bool" where
  "quiet_event ev \<longleftrightarrow> (case ev of EvRand \<Rightarrow> True | EvHeartbeat \<Rightarrow> True | EvStop \<Rightarrow> True | EvFormatDescription (Inr f) \<Rightarrow> True
     | EvTableMap i (Inr tm) \<Rightarrow> True | _ \<Rightarrow> False)"

definition phase_events :: "phase \<Rightarrow> row_event list" where
  "phase_events ph = (case ph of Idle \<Rightarrow> [] | InTxn g es \<Rightarrow> es)"

definition row_format_event ::
    "('c, 's, 'x, 'p, 'w) applier_env \<Rightarrow> ('c, 's, 'p) applier \<Rightarrow> RowEventType \<Rightarrow> nat \<Rightarrow> Rows \<Rightarrow> tableIdentifier \<Rightarrow> schema \<Rightarrow>
       arrow_value change \<Rightarrow> bool" where
  "row_format_event env a kind i rws t s ch \<longleftrightarrow>
     (\<exists>tm. tableMapsById a i = Some tm \<and> tm_Database tm \<noteq> ''mysql'' \<and> dbName t = tm_Database tm \<and>
       \<not> isTableFilteredOut (filters env) (tm_Database tm) (tm_Name tm) \<and>
       fst (getTableSchema env (tm_Name tm) (tm_Database tm) a) = Inr (s, tableName t) \<and>
       row_images rws \<noteq> [] \<and> length (tm_Types tm) = length s \<and> is_row_format kind rws (length s) \<and> pk_positions s \<noteq> [] \<and>
       row_change (cells_env env) tm s kind rws = Inr ch)"

lemma row_format_event_nonempty:
  "row_format_event env a kind i rws t s ch \<Longrightarrow> ch_dels ch \<noteq> [] \<or> ch_inss ch \<noteq> []"
  using row_change_nonempty by (auto simp: row_format_event_def)

inductive replicates ::
    "('c, 's, 'x, 'p, 'w) applier_env \<Rightarrow> (query \<Rightarrow> bool) \<Rightarrow> tableIdentifier set \<Rightarrow> (tableIdentifier \<Rightarrow> schema) \<Rightarrow> table_maps \<Rightarrow>
       ('c, 's, 'p) applier \<Rightarrow> ('c, 's, 'p) applier \<Rightarrow> transaction list \<Rightarrow> phase \<Rightarrow> bool \<Rightarrow> bool"
  for env is_begin tabs sch M0 a0 where
  start: "replicates env is_begin tabs sch M0 a0 a0 [] Idle True"
| quiet: "replicates env is_begin tabs sch M0 a0 a ts ph ok \<Longrightarrow> quiet_event ev \<Longrightarrow> format a \<noteq> None \<or> (\<exists>f. ev = EvFormatDescription (Inr f)) \<Longrightarrow>
    handle_input env now (EventInput ev) a = (e, a') \<Longrightarrow>
    replicates env is_begin tabs sch M0 a0 a' ts ph (ok \<and> e = None)"
| tick: "replicates env is_begin tabs sch M0 a0 a ts ph ok \<Longrightarrow> handle_input env now Ticker a = (e, a') \<Longrightarrow>
    replicates env is_begin tabs sch M0 a0 a' ts ph (ok \<and> e = None)"
| stop: "replicates env is_begin tabs sch M0 a0 a ts ph ok \<Longrightarrow> handle_input env now StopSignal a = (e, a') \<Longrightarrow>
    replicates env is_begin tabs sch M0 a0 a' ts ph (ok \<and> e = None)"
| rotate: "replicates env is_begin tabs sch M0 a0 a ts Idle ok \<Longrightarrow> handle_input env now (EventInput EvRotate) a = (e, a') \<Longrightarrow>
    replicates env is_begin tabs sch M0 a0 a' ts Idle (ok \<and> e = None)"
| mysql_begin: "replicates env is_begin tabs sch M0 a0 a ts Idle ok \<Longrightarrow> format a = Some h \<Longrightarrow>
    \<forall>t\<in>set ts. gtid_before (fst t) g \<Longrightarrow> is_begin q \<Longrightarrow> parseQueryEventVars h raw = Inr vars \<Longrightarrow>
    handle_input env now (EventInput (EvGTID (Inr (g, False)))) a = (e1, a1) \<Longrightarrow>
    handle_input env now' (EventInput (EvQuery raw (Inr q))) a1 = (e2, a2) \<Longrightarrow>
    replicates env is_begin tabs sch M0 a0 a2 ts (InTxn g []) (ok \<and> e1 = None \<and> e2 = None)"
| mariadb_begin: "replicates env is_begin tabs sch M0 a0 a ts Idle ok \<Longrightarrow> format a = Some h \<Longrightarrow>
    \<forall>t\<in>set ts. gtid_before (fst t) g \<Longrightarrow>
    handle_input env now (EventInput (EvGTID (Inr (g, True)))) a = (e, a') \<Longrightarrow>
    replicates env is_begin tabs sch M0 a0 a' ts (InTxn g []) (ok \<and> e = None)"
| rows: "replicates env is_begin tabs sch M0 a0 a ts (InTxn g es) ok \<Longrightarrow> format a \<noteq> None \<Longrightarrow> inTxnStmtID a < - 1 \<Longrightarrow>
    t \<in> tabs \<Longrightarrow> row_format_event env a kind i rws t (sch t) ch \<Longrightarrow>
    valid_change (sch t) (apply_events sch M0 (history ts @ es) t) ch \<Longrightarrow>
    handle_input env now (EventInput (EvRows kind i (Inr rws))) a = (e, a') \<Longrightarrow>
    replicates env is_begin tabs sch M0 a0 a' ts (InTxn g (es @ [(t, gtid_stamp (Some g) (inTxnStmtID a), ch)])) (ok \<and> e = None)"
| xid: "replicates env is_begin tabs sch M0 a0 a ts (InTxn g es) ok \<Longrightarrow>
    handle_input env now (EventInput EvXID) a = (e, a') \<Longrightarrow>
    replicates env is_begin tabs sch M0 a0 a' (ts @ [(g, es)]) Idle (ok \<and> e = None)"

section \<open>Steps of the applier on a good environment\<close>

text \<open>Positions after some transactions.\<close>

definition position_after :: "('c, 's, 'x, 'p, 'w) applier_env \<Rightarrow> 'p \<Rightarrow> transaction list \<Rightarrow> 'p" where
  "position_after env p ts = foldl (\<lambda>p t. AppendGTID env p (Some (fst t))) p ts"

lemma position_after_snoc [simp]:
  "position_after env p (ts @ [t]) = AppendGTID env (position_after env p ts) (Some (fst t))"
  by (simp add: position_after_def)

lemma session_view_simps [simp]:
  "tx_alive s \<Longrightarrow> view (set_view d s) = d" "committed (set_view d s) = (if tx_alive s then committed s else d)"
  "tx_alive (set_view d s) = tx_alive s" "tx_alive s \<Longrightarrow> txn (set_view d s) \<noteq> None"
  by (auto simp: view_def set_view_def tx_alive_def split: option.splits tx.splits)

lemma GetTxn_good:
  assumes "BeginError env s = None" "tx_alive s \<or> txn s = None"
  shows "\<exists>s'. GetTxn env s = (None, s') \<and> tx_alive s' \<and> view s' = view s \<and> committed s' = committed s"
  using assms by (auto simp: GetTxn_def tx_alive_def view_def split: option.splits tx.splits)

lemma CommitTxn_good:
  assumes "CommitError env s = None" "tx_alive s \<or> txn s = None"
  shows "\<exists>s'. CommitTxn env s = (None, s') \<and> txn s' = None \<and> committed s' = view s"
  using assms by (auto simp: CommitTxn_def tx_alive_def view_def split: option.splits tx.splits)

context delta_buffer
begin

text \<open>A database with the contents \<open>M\<close> and the saved position \<open>r\<close>, in the committed state and in the open transaction.\<close>

definition db_ok :: "table_maps \<Rightarrow> 'p option \<Rightarrow> ('s, 'p) database \<Rightarrow> bool" where
  "db_ok M r d \<longleftrightarrow> holds (contents d) M \<and> position_row d = r"

definition session_ok :: "table_maps \<Rightarrow> 'p option \<Rightarrow> ('s, 'p) database session \<Rightarrow> bool" where
  "session_ok M r s \<longleftrightarrow> db_ok M r (committed s) \<and> db_ok M r (view s) \<and> (tx_alive s \<or> txn s = None)"

lemma engine_txn_ok: "engine_txn s s' \<Longrightarrow> session_ok M r s \<Longrightarrow> session_ok M r s'"
  by (auto simp: engine_txn_def session_ok_def)

lemma flushDeltaBuffer_good:
  assumes "good_env env is_begin" "provider env = P" "tx_alive (sess a) \<or> txn (sess a) = None"
    and "db_ok M r (view (sess a))" "buffers M (buffer a) es"
  shows "\<exists>s c. flushDeltaBuffer env reason a = (None, a\<lparr>buffer := c, deltaBufSize := 0, sess := s\<rparr>) \<and> tx_alive s \<and>
    committed s = committed (sess a) \<and> db_ok (apply_events sch M es) r (view s) \<and> buffers (apply_events sch M es) c []"
proof -
  have errs: "ConnError env (sess a) = None" "BeginError env (sess a) = None" by (rule good_env_simps [OF assms(1)])+
  obtain s where s: "GetTxn env (sess a) = (None, s)" "tx_alive s" "view s = view (sess a)" "committed s = committed (sess a)"
    using GetTxn_good [OF errs(2) assms(3)] by blast
  have "holds (contents (view s)) M" using assms(4) s(3) by (simp add: db_ok_def)
  from flush_events [OF this assms(5), of reason] obtain d c where
    f: "FlushDeltaBuffer P True reason (buffer a) (contents (view s)) = (None, d, c)"
      "holds d (apply_events sch M es)" "buffers (apply_events sch M es) c []" by blast
  have "flushDeltaBuffer env reason a =
      (None, a\<lparr>buffer := c, deltaBufSize := 0, sess := set_view ((view s)\<lparr>contents := d\<rparr>) s\<rparr>)"
    using errs s(2) f(1) by (simp add: flushDeltaBuffer_def s(1) assms(2) Let_def)
  moreover have "db_ok (apply_events sch M es) r (view (set_view ((view s)\<lparr>contents := d\<rparr>) s))"
    using assms(4) f(2) s(2,3) by (simp add: db_ok_def)
  ultimately show ?thesis
    using s(2,4) f(3)
    by (intro exI [of _ "set_view ((view s)\<lparr>contents := d\<rparr>) s"] exI [of _ c]) simp
qed

lemma commitOngoingTxn_good:
  assumes "good_env env is_begin" "provider env = P" "tx_alive (sess a) \<or> txn (sess a) = None"
    and "db_ok M r (view (sess a))" "buffers M (buffer a) es" and "kind \<noteq> ImplicitCommitAfterStmt"
    and "p = (if kind = NormalCommit then AppendGTID env (pendingPosition a) (currentGtid a) else pendingPosition a)" "\<not> IsZero env p"
  shows "\<exists>s c. commitOngoingTxn env now kind reason a =
      (None, reset_txn_state now (a\<lparr>buffer := c, deltaBufSize := 0, pendingPosition := p, sess := s\<rparr>)) \<and>
    session_ok (apply_events sch M es) (Some p) s \<and> buffers (apply_events sch M es) c []"
proof -
  from flushDeltaBuffer_good [OF assms(1-5), of reason] obtain s c where
    f: "flushDeltaBuffer env reason a = (None, a\<lparr>buffer := c, deltaBufSize := 0, sess := s\<rparr>)"
      "tx_alive s" "db_ok (apply_events sch M es) r (view s)" "buffers (apply_events sch M es) c []" by blast
  define s1 where "s1 = set_view ((view s)\<lparr>position_row := Some p\<rparr>) s"
  have s1: "tx_alive s1" "db_ok (apply_events sch M es) (Some p) (view s1)" using f(2,3) by (simp_all add: s1_def db_ok_def)
  have g: "GetTxn env s = (None, s)" using f(2) by (auto simp: GetTxn_def tx_alive_def split: option.splits)
  have save: "SavePosition env p s = (None, s1)"
    using f(2) assms(8) by (simp add: SavePosition_def g s1_def good_env_simps [OF assms(1)])
  obtain s2 where e: "EngineQuery env commit_query s1 = ((None, None), s2)" "engine_txn s1 s2"
    using good_env_engine [OF assms(1), of commit_query s1] s1(1) by blast
  have s2: "tx_alive s2 \<or> txn s2 = None" "view s2 = view s1" using e(2) by (auto simp: engine_txn_def)
  have "CommitError env s2 = None" by (rule good_env_simps [OF assms(1)])
  from CommitTxn_good [OF this s2(1)] obtain s3 where
    c: "CommitTxn env s2 = (None, s3)" "txn s3 = None" "committed s3 = view s2" by blast
  have "session_ok (apply_events sch M es) (Some p) s3"
    using c(2,3) s2(2) s1(2) by (simp add: session_ok_def view_def)
  moreover have "commitOngoingTxn env now kind reason a =
      (None, reset_txn_state now (a\<lparr>buffer := c, deltaBufSize := 0, pendingPosition := p, sess := s3\<rparr>))"
    using assms(6,7) save e(1) c(1) by (cases kind) (simp_all add: commitOngoingTxn_def f(1) execute_def Let_def)
  ultimately show ?thesis using f(4) by blast
qed

text \<open>
  The transactions of the stream fall into those that are committed, \<open>done\<close>, and those of the batch, whose
  events are buffered together with the events \<open>es\<close> of the open transaction.
\<close>

definition saved_position :: "('c, 's, 'x, 'p, 'w) applier_env \<Rightarrow> 'p \<Rightarrow> 'p option \<Rightarrow> transaction list \<Rightarrow> 'p option" where
  "saved_position env p0 r0 ts = (if ts = [] then r0 else Some (position_after env p0 ts))"

definition batch_ok ::
    "('c, 's, 'x, 'p, 'w) applier_env \<Rightarrow> 'p \<Rightarrow> 'p option \<Rightarrow> table_maps \<Rightarrow> ('c, 's, 'p) applier \<Rightarrow>
       transaction list \<Rightarrow> transaction list \<Rightarrow> row_event list \<Rightarrow> bool" where
  "batch_ok env p0 r0 M0 a fin batch es \<longleftrightarrow>
     session_ok (apply_events sch M0 (history fin)) (saved_position env p0 r0 fin) (sess a) \<and>
     buffers (apply_events sch M0 (history fin)) (buffer a) (history batch @ es) \<and>
     pendingPosition a = position_after env p0 (fin @ batch)"

lemma batch_ok_cong:
  "batch_ok env p0 r0 M0 a fin batch es \<Longrightarrow> sess a' = sess a \<Longrightarrow> buffer a' = buffer a \<Longrightarrow>
     pendingPosition a' = pendingPosition a \<Longrightarrow> batch_ok env p0 r0 M0 a' fin batch es"
  by (simp add: batch_ok_def)

lemma batch_ok_alive: "batch_ok env p0 r0 M0 a fin batch es \<Longrightarrow> tx_alive (sess a) \<or> txn (sess a) = None"
  by (simp add: batch_ok_def session_ok_def)

lemma history_append [simp]: "history (ts @ ts') = history ts @ history ts'" "history [] = []" "history [t] = snd t"
  by (simp_all add: history_def)

definition last_gtid :: "transaction list \<Rightarrow> gtid option" where
  "last_gtid ts = (if ts = [] then None else Some (fst (last ts)))"

lemma append_last_gtid:
  assumes "good_env env is_begin"
  shows "AppendGTID env (position_after env p0 ts) (last_gtid ts) = position_after env p0 ts"
  using good_env_simps(5,6) [OF assms] by (cases ts rule: rev_cases) (simp_all add: last_gtid_def position_after_def)

lemma not_zero_position:
  assumes "good_env env is_begin" "ts \<noteq> []"
  shows "\<not> IsZero env (position_after env p0 ts)"
  using assms good_env_simps(7) [OF assms(1)] by (cases ts rule: rev_cases) simp_all

text \<open>A commit moves the batch, and the transaction that ends with it, to the committed ones.\<close>

lemma commit_batch:
  assumes "good_env env is_begin" "provider env = P" "batch_ok env p0 r0 M0 a fin batch es" "kind \<noteq> ImplicitCommitAfterStmt"
    and "(if kind = NormalCommit then AppendGTID env (pendingPosition a) (currentGtid a) else pendingPosition a) = position_after env p0 ts"
    and "history ts = history (fin @ batch) @ es" "ts \<noteq> []"
  shows "\<exists>s c. commitOngoingTxn env now kind reason a =
      (None, reset_txn_state now (a\<lparr>buffer := c, deltaBufSize := 0, pendingPosition := position_after env p0 ts, sess := s\<rparr>)) \<and>
    session_ok (apply_events sch M0 (history ts)) (Some (position_after env p0 ts)) s \<and>
    buffers (apply_events sch M0 (history ts)) c []"
proof -
  define M where "M = apply_events sch M0 (history fin)"
  have "db_ok M (saved_position env p0 r0 fin) (view (sess a))" "buffers M (buffer a) (history batch @ es)"
    using assms(3) by (simp_all add: batch_ok_def session_ok_def M_def)
  from commitOngoingTxn_good [OF assms(1,2) batch_ok_alive [OF assms(3)] this assms(4) assms(5) [symmetric]
      not_zero_position [OF assms(1,7)], of now reason]
  show ?thesis using assms(6) by (simp add: M_def)
qed

lemma batch_ok_committed:
  assumes "session_ok (apply_events sch M0 (history ts)) (Some (position_after env p0 ts)) s"
    and "buffers (apply_events sch M0 (history ts)) c []" "ts \<noteq> []"
  shows "batch_ok env p0 r0 M0 (reset_txn_state now (a\<lparr>buffer := c, deltaBufSize := 0, pendingPosition := position_after env p0 ts, sess := s\<rparr>)) ts [] []"
  using assms by (simp add: batch_ok_def saved_position_def reset_txn_state_def)

text \<open>\<^verbatim>\<open>BEGIN\<close> extends the batch or commits it and opens a new one.\<close>

definition begun ::
    "('c, 's, 'p) applier \<Rightarrow> ('c, 's, 'p) applier \<Rightarrow> bool" where
  "begun a a' \<longleftrightarrow>
     ongoingBatchTxn a' \<and> dirtyTxn a' \<and> dirtyStream a' \<and> currentGtid a' = currentGtid a"

lemma begin_batch:
  assumes env: "good_env env is_begin" "provider env = P" and ok: "batch_ok env p0 r0 M0 a fin batch []" and q: "is_begin q"
    and flags: "ongoingBatchTxn a \<longleftrightarrow> batch \<noteq> []" "dirtyTxn a \<longleftrightarrow> batch \<noteq> []" and prev: "previousGtid a = last_gtid (fin @ batch)"
  shows "\<exists>a' fin' batch'. executeQueryWithEngine env now q a = (None, a') \<and> fin' @ batch' = fin @ batch \<and>
    batch_ok env p0 r0 M0 a' fin' batch' [] \<and> begun a a'"
proof (cases "fst (mayExtendBatchTxn now a)")
  case True
  define a' where "a' = a\<lparr>pendingPosition := AppendGTID env (pendingPosition a) (previousGtid a), dirtyStream := True\<rparr>"
  have "executeQueryWithEngine env now q a = (None, a')"
    using True good_env_simps(10,11) [OF env(1) q] by (simp add: executeQueryWithEngine_def a'_def)
  moreover have "batch_ok env p0 r0 M0 a' fin batch []"
    using ok append_last_gtid [OF env(1), of p0 "fin @ batch"] by (simp add: batch_ok_def a'_def prev)
  moreover have "begun a a'" using True flags by (auto simp: begun_def a'_def mayExtendBatchTxn_def split: if_splits)
  ultimately show ?thesis by blast
next
  case False
  define reason where "reason = snd (mayExtendBatchTxn now a)"
  define M where "M = apply_events sch M0 (history fin)"
  have sess: "db_ok M (saved_position env p0 r0 fin) (view (sess a))" "buffers M (buffer a) (history batch)"
    using ok by (simp_all add: batch_ok_def session_ok_def M_def)
  from flushDeltaBuffer_good [OF env batch_ok_alive [OF ok] sess, of reason] obtain s c where
    f: "flushDeltaBuffer env reason a = (None, a\<lparr>buffer := c, deltaBufSize := 0, sess := s\<rparr>)" "tx_alive s"
      "committed s = committed (sess a)" "db_ok (apply_events sch M (history batch)) (saved_position env p0 r0 fin) (view s)"
      "buffers (apply_events sch M (history batch)) c []" by blast
  define a1 where "a1 = a\<lparr>buffer := c, deltaBufSize := 0, sess := s\<rparr>"
  have "\<exists>a2. (if dirtyTxn a1 then commitOngoingTxn env now ImplicitCommitBeforeStmt reason a1 else (None, a1)) = (None, a2) \<and>
      batch_ok env p0 r0 M0 a2 (fin @ batch) [] [] \<and> currentGtid a2 = currentGtid a"
  proof (cases "batch = []")
    case True
    then have "batch_ok env p0 r0 M0 a1 fin [] []"
      using f ok by (simp add: a1_def M_def batch_ok_def session_ok_def)
    then show ?thesis using True flags(2) by (simp add: a1_def)
  next
    case False
    define p where "p = position_after env p0 (fin @ batch)"
    have p: "\<not> IsZero env p" using not_zero_position [OF env(1)] False by (simp add: p_def)
    have "\<exists>s c'. commitOngoingTxn env now ImplicitCommitBeforeStmt reason a1 =
        (None, reset_txn_state now (a1\<lparr>buffer := c', deltaBufSize := 0, pendingPosition := p, sess := s\<rparr>)) \<and>
        session_ok (apply_events sch (apply_events sch M (history batch)) []) (Some p) s \<and>
        buffers (apply_events sch (apply_events sch M (history batch)) []) c' []"
      by (rule commitOngoingTxn_good [OF env]) (use f p ok in \<open>simp_all add: a1_def p_def batch_ok_def\<close>)
    then obtain s2 c2 where 2: "commitOngoingTxn env now ImplicitCommitBeforeStmt reason a1 =
        (None, reset_txn_state now (a1\<lparr>buffer := c2, deltaBufSize := 0, pendingPosition := p, sess := s2\<rparr>))"
        "session_ok (apply_events sch M0 (history (fin @ batch))) (Some p) s2"
        "buffers (apply_events sch M0 (history (fin @ batch))) c2 []"
      by (auto simp: M_def)
    have "batch_ok env p0 r0 M0 (reset_txn_state now (a1\<lparr>buffer := c2, deltaBufSize := 0, pendingPosition := p, sess := s2\<rparr>)) (fin @ batch) [] []"
      using batch_ok_committed [of M0 "fin @ batch" env p0 s2 c2 r0 now a1] 2(2,3) False by (simp add: p_def)
    then show ?thesis using 2(1) flags(2) False by (simp add: a1_def reset_txn_state_def)
  qed
  then obtain a2 where a2: "(if dirtyTxn a1 then commitOngoingTxn env now ImplicitCommitBeforeStmt reason a1 else (None, a1)) = (None, a2)"
    "batch_ok env p0 r0 M0 a2 (fin @ batch) [] []" "currentGtid a2 = currentGtid a" by blast
  obtain s3 where s3: "EngineQuery env q (sess a2) = ((None, None), s3)" "engine_txn (sess a2) s3"
    using good_env_engine [OF env(1), of q "sess a2"] q batch_ok_alive [OF a2(2)] by blast
  define a' where "a' = a2\<lparr>sess := s3, dirtyTxn := True, dirtyStream := True, ongoingBatchTxn := True\<rparr>"
  have "executeQueryWithEngine env now q a = (None, a')"
    using False good_env_simps(10,11) [OF env(1) q] f(1) a2(1) s3(1)
    by (simp add: executeQueryWithEngine_def query_plan_def reason_def [symmetric] a1_def [symmetric] execute_def
        CauseImplicitCommitAfter_def a'_def Let_def)
  moreover have "batch_ok env p0 r0 M0 a' (fin @ batch) [] []"
    using a2(2) engine_txn_ok [OF s3(2)] by (auto simp: a'_def batch_ok_def)
  ultimately show ?thesis using a2(3) by (intro exI [of _ a'] exI [of _ "fin @ batch"] exI [of _ "[]"]) (simp add: begun_def a'_def)
qed

text \<open>The invariant of a stream.\<close>

definition stamps_ok :: "u64 \<Rightarrow> transaction list \<Rightarrow> phase \<Rightarrow> bool" where
  "stamps_ok n ts ph \<longleftrightarrow>
     (\<forall>t\<in>set ts. \<forall>e\<in>set (snd t). \<exists>k. fst (snd e) = gtid_stamp (Some (fst t)) k) \<and>
     (case ph of Idle \<Rightarrow> True
      | InTxn g es \<Rightarrow> (\<forall>t\<in>set ts. gtid_before (fst t) g) \<and> (\<forall>e\<in>set es. \<exists>k<n. fst (snd e) = gtid_stamp (Some g) k))"

definition flags_ok :: "('c, 's, 'p) applier \<Rightarrow> transaction list \<Rightarrow> transaction list \<Rightarrow> phase \<Rightarrow> bool" where
  "flags_ok a ts batch ph \<longleftrightarrow>
     (case ph of
        Idle \<Rightarrow> currentGtid a = last_gtid ts \<and> (ongoingBatchTxn a \<longleftrightarrow> batch \<noteq> []) \<and> (dirtyTxn a \<longleftrightarrow> batch \<noteq> []) \<and> \<not> dirtyStream a
      | InTxn g es \<Rightarrow> currentGtid a = Some g \<and> ongoingBatchTxn a \<and> dirtyTxn a \<and> dirtyStream a)"

definition stream_ok ::
    "('c, 's, 'x, 'p, 'w) applier_env \<Rightarrow> 'p \<Rightarrow> 'p option \<Rightarrow> table_maps \<Rightarrow> ('c, 's, 'p) applier \<Rightarrow> transaction list \<Rightarrow> phase \<Rightarrow> bool" where
  "stream_ok env p0 r0 M0 a ts ph \<longleftrightarrow>
     (\<exists>fin batch. ts = fin @ batch \<and> batch_ok env p0 r0 M0 a fin batch (phase_events ph) \<and> flags_ok a ts batch ph) \<and>
     stamps_ok (inTxnStmtID a) ts ph"

lemma stream_okI:
  "ts = fin @ batch \<Longrightarrow> batch_ok env p0 r0 M0 a fin batch (phase_events ph) \<Longrightarrow> flags_ok a ts batch ph \<Longrightarrow>
     stamps_ok (inTxnStmtID a) ts ph \<Longrightarrow> stream_ok env p0 r0 M0 a ts ph"
  unfolding stream_ok_def by blast

lemma stream_ok_cong:
  assumes "stream_ok env p0 r0 M0 a ts ph"
    and "sess a' = sess a" "buffer a' = buffer a" "pendingPosition a' = pendingPosition a" "currentGtid a' = currentGtid a"
      "ongoingBatchTxn a' = ongoingBatchTxn a" "dirtyTxn a' = dirtyTxn a" "dirtyStream a' = dirtyStream a" "inTxnStmtID a' = inTxnStmtID a"
  shows "stream_ok env p0 r0 M0 a' ts ph"
proof -
  have "flags_ok a' ts batch ph = flags_ok a ts batch ph" for batch
    using assms(2-) by (cases ph) (simp_all add: flags_ok_def)
  then show ?thesis using assms by (simp add: stream_ok_def batch_ok_def)
qed

lemma stamps_ok_Idle: "stamps_ok n ts Idle \<Longrightarrow> stamps_ok m ts Idle"
  by (simp add: stamps_ok_def)

lemma commit_idle:
  assumes env: "good_env env is_begin" "provider env = P" and ok: "stream_ok env p0 r0 M0 a ts Idle" and ts: "ts \<noteq> []"
  shows "\<exists>a'. commitOngoingTxn env now NormalCommit reason a = (None, a') \<and> stream_ok env p0 r0 M0 a' ts Idle \<and>
    session_ok (apply_events sch M0 (history ts)) (Some (position_after env p0 ts)) (sess a')"
proof -
  from ok obtain fin batch where b: "ts = fin @ batch" "batch_ok env p0 r0 M0 a fin batch []" "flags_ok a ts batch Idle"
    and st: "stamps_ok (inTxnStmtID a) ts Idle" by (auto simp: stream_ok_def phase_events_def)
  have p: "(if NormalCommit = NormalCommit then AppendGTID env (pendingPosition a) (currentGtid a) else pendingPosition a) = position_after env p0 ts"
    using b append_last_gtid [OF env(1), of p0 ts] by (simp add: batch_ok_def flags_ok_def)
  have "history ts = history (fin @ batch) @ []" using b(1) by simp
  from commit_batch [OF env b(2) _ p this ts, of now reason] obtain s c where
    c: "commitOngoingTxn env now NormalCommit reason a =
        (None, reset_txn_state now (a\<lparr>buffer := c, deltaBufSize := 0, pendingPosition := position_after env p0 ts, sess := s\<rparr>))"
      "session_ok (apply_events sch M0 (history ts)) (Some (position_after env p0 ts)) s"
      "buffers (apply_events sch M0 (history ts)) c []" by auto
  from batch_ok_committed [OF c(2,3) ts] b(3) st c(1,2) show ?thesis
    by (auto simp: reset_txn_state_def flags_ok_def phase_events_def intro!: stream_okI [of ts ts "[]"] elim: stamps_ok_Idle)
qed

lemma extendOrCommit_cases:
  "fst (mayExtendBatchTxn now a) \<Longrightarrow> extendOrCommitBatchTxn env now a =
     (None, a\<lparr>pendingPosition := AppendGTID env (pendingPosition a) (currentGtid a), dirtyStream := False\<rparr>)"
  "\<not> fst (mayExtendBatchTxn now a) \<Longrightarrow> extendOrCommitBatchTxn env now a =
     commitOngoingTxn env now NormalCommit (snd (mayExtendBatchTxn now a)) a"
  by (cases "mayExtendBatchTxn now a"; simp add: extendOrCommitBatchTxn_def)+

lemma extend_idle:
  assumes env: "good_env env is_begin" "provider env = P" and ok: "stream_ok env p0 r0 M0 a ts Idle" and ts: "ts \<noteq> []"
  shows "\<exists>a'. extendOrCommitBatchTxn env now a = (None, a') \<and> stream_ok env p0 r0 M0 a' ts Idle"
proof (cases "fst (mayExtendBatchTxn now a)")
  case True
  define a' where "a' = a\<lparr>pendingPosition := AppendGTID env (pendingPosition a) (currentGtid a), dirtyStream := False\<rparr>"
  have "extendOrCommitBatchTxn env now a = (None, a')"
    using extendOrCommit_cases(1) [OF True] by (simp add: a'_def)
  moreover have "pendingPosition a' = pendingPosition a" "\<not> dirtyStream a"
    using ok append_last_gtid [OF env(1), of p0 ts] by (auto simp: a'_def stream_ok_def batch_ok_def flags_ok_def)
  then have "stream_ok env p0 r0 M0 a' ts Idle" by (intro stream_ok_cong [OF ok]) (simp_all add: a'_def)
  ultimately show ?thesis by blast
next
  case False
  from extendOrCommit_cases(2) [OF this] show ?thesis using commit_idle [OF assms] by metis
qed

lemma idle_batch: "stream_ok env p0 r0 M0 a ts Idle \<Longrightarrow> ongoingBatchTxn a \<Longrightarrow> ts \<noteq> []"
  by (auto simp: stream_ok_def flags_ok_def)

lemma in_txn_dirty: "stream_ok env p0 r0 M0 a ts (InTxn g es) \<Longrightarrow> dirtyStream a"
  by (auto simp: stream_ok_def flags_ok_def)

lemma tick_step:
  assumes "good_env env is_begin" "provider env = P" "stream_ok env p0 r0 M0 a ts ph"
  shows "\<exists>a'. handle_input env now Ticker a = (None, a') \<and> stream_ok env p0 r0 M0 a' ts ph"
proof (cases ph)
  case Idle
  then show ?thesis
    using assms extend_idle [OF assms(1,2), of p0 r0 M0 a ts now] idle_batch [of env p0 r0 M0 a ts] by (auto simp: handle_input_def)
next
  case (InTxn g es)
  then show ?thesis using assms in_txn_dirty [of env p0 r0 M0 a ts g es] by (auto simp: handle_input_def)
qed

lemma stop_step:
  assumes "good_env env is_begin" "provider env = P" "stream_ok env p0 r0 M0 a ts ph"
  shows "\<exists>a'. handle_input env now StopSignal a = (None, a') \<and> stream_ok env p0 r0 M0 a' ts ph"
proof (cases ph)
  case Idle
  then show ?thesis
    using assms commit_idle [OF assms(1,2), of p0 r0 M0 a ts now OnCloseFlushReason] idle_batch [of env p0 r0 M0 a ts]
    by (auto simp: handle_input_def)
next
  case (InTxn g es)
  then show ?thesis using assms in_txn_dirty [of env p0 r0 M0 a ts g es] by (auto simp: handle_input_def)
qed

lemma rotate_step:
  assumes "good_env env is_begin" "provider env = P" "stream_ok env p0 r0 M0 a ts Idle"
  shows "\<exists>a'. handle_input env now (EventInput EvRotate) a = (None, a') \<and> stream_ok env p0 r0 M0 a' ts Idle"
proof (cases "ts = []")
  case True
  then show ?thesis using assms(3)
    by (auto simp: handle_input_def processBinlogEvent_def stream_ok_def flags_ok_def last_gtid_def)
next
  case False
  then show ?thesis using extend_idle [OF assms False] assms(3)
    by (auto simp: handle_input_def processBinlogEvent_def)
qed

lemma quiet_step:
  assumes "stream_ok env p0 r0 M0 a ts ph" "quiet_event ev" "format a \<noteq> None \<or> (\<exists>f. ev = EvFormatDescription (Inr f))"
  shows "\<exists>a'. handle_input env now (EventInput ev) a = (None, a') \<and> stream_ok env p0 r0 M0 a' ts ph"
  using assms
  by (auto simp: handle_input_def processBinlogEvent_def quiet_event_def processTableMapEvent_def
      intro!: stream_ok_cong [OF assms(1)] split: event.splits sum.splits)

lemma xid_step:
  assumes env: "good_env env is_begin" "provider env = P" and ok: "stream_ok env p0 r0 M0 a ts (InTxn g es)"
  shows "\<exists>a'. handle_input env now (EventInput EvXID) a = (None, a') \<and> stream_ok env p0 r0 M0 a' (ts @ [(g, es)]) Idle"
proof -
  define ts' where "ts' = ts @ [(g, es)]"
  from ok obtain fin batch where b: "ts = fin @ batch" "batch_ok env p0 r0 M0 a fin batch es"
    and fl: "currentGtid a = Some g" "ongoingBatchTxn a" "dirtyTxn a" and st: "stamps_ok (inTxnStmtID a) ts (InTxn g es)"
    by (auto simp: stream_ok_def phase_events_def flags_ok_def)
  have st': "stamps_ok n ts' Idle" for n using st by (auto simp: stamps_ok_def ts'_def)
  have pend: "pendingPosition a = position_after env p0 ts" using b by (simp add: batch_ok_def)
  have p: "AppendGTID env (pendingPosition a) (currentGtid a) = position_after env p0 ts'"
    using fl(1) pend by (simp add: ts'_def)
  show ?thesis
  proof (cases "fst (mayExtendBatchTxn now a)")
    case True
    define a' where "a' = a\<lparr>pendingPosition := position_after env p0 ts', dirtyStream := False\<rparr>"
    have "handle_input env now (EventInput EvXID) a = (None, a')"
      using extendOrCommit_cases(1) [OF True, of env] p by (simp add: handle_input_def processBinlogEvent_def a'_def)
    moreover have split: "fin @ batch @ [(g, es)] = ts'" using b(1) by (simp add: ts'_def)
    moreover have "batch_ok env p0 r0 M0 a' fin (batch @ [(g, es)]) []" using b(2) unfolding batch_ok_def split by (simp add: a'_def)
    moreover have "flags_ok a' ts' (batch @ [(g, es)]) Idle" using fl by (simp add: flags_ok_def a'_def ts'_def last_gtid_def)
    ultimately have "handle_input env now (EventInput EvXID) a = (None, a')" "stream_ok env p0 r0 M0 a' ts' Idle"
      using st' stream_okI [of ts' fin "batch @ [(g, es)]" env p0 r0 M0 a' Idle] by (simp_all add: phase_events_def)
    then show ?thesis unfolding ts'_def by blast
  next
    case False
    have p': "(if NormalCommit = NormalCommit then AppendGTID env (pendingPosition a) (currentGtid a) else pendingPosition a) = position_after env p0 ts'"
      using p by simp
    have "history ts' = history (fin @ batch) @ es" "ts' \<noteq> []" using b(1) by (simp_all add: ts'_def)
    from commit_batch [OF env b(2) _ p' this, of now "snd (mayExtendBatchTxn now a)"] obtain s c where
      c: "commitOngoingTxn env now NormalCommit (snd (mayExtendBatchTxn now a)) a =
          (None, reset_txn_state now (a\<lparr>buffer := c, deltaBufSize := 0, pendingPosition := position_after env p0 ts', sess := s\<rparr>))"
        "session_ok (apply_events sch M0 (history ts')) (Some (position_after env p0 ts')) s"
        "buffers (apply_events sch M0 (history ts')) c []" by auto
    have "handle_input env now (EventInput EvXID) a = commitOngoingTxn env now NormalCommit (snd (mayExtendBatchTxn now a)) a"
      using extendOrCommit_cases(2) [OF False, of env] by (simp add: handle_input_def processBinlogEvent_def)
    moreover have "flags_ok (reset_txn_state now (a\<lparr>buffer := c, deltaBufSize := 0, pendingPosition := position_after env p0 ts', sess := s\<rparr>)) ts' [] Idle"
      using fl(1) by (simp add: flags_ok_def reset_txn_state_def last_gtid_def ts'_def)
    moreover note stream_okI [of ts' ts' "[]", OF _ _ this st'] batch_ok_committed [OF c(2,3) \<open>ts' \<noteq> []\<close>, of r0 now a]
    ultimately show ?thesis using c(1) unfolding ts'_def [symmetric] by (simp add: phase_events_def)
  qed
qed

lemma gtid_stamps:
  assumes "stamps_ok n ts (InTxn g es)" "e' \<in> set (history ts @ es)"
  shows "stamp_key (fst (snd e')) < stamp_key (gtid_stamp (Some g) n)"
proof -
  consider t where "t \<in> set ts" "e' \<in> set (snd t)" | "e' \<in> set es" using assms(2) by (auto simp: history_def)
  then show ?thesis
  proof cases
    case 1
    with assms(1) have "\<exists>k. fst (snd e') = gtid_stamp (Some (fst t)) k" "gtid_before (fst t) g"
      unfolding stamps_ok_def by auto
    then show ?thesis using gtid_before_stamp by auto
  next
    case 2
    then obtain k where "k < n" "fst (snd e') = gtid_stamp (Some g) k" using assms(1) by (auto simp: stamps_ok_def)
    then show ?thesis using stmt_before_stamp by simp
  qed
qed

lemma stamps_ok_snoc:
  assumes "stamps_ok n ts (InTxn g es)" "n < n'" "fst (snd e) = gtid_stamp (Some g) n"
  shows "stamps_ok n' ts (InTxn g (es @ [e]))"
proof -
  have "\<forall>e\<in>set es. \<exists>k<n. fst (snd e) = gtid_stamp (Some g) k" using assms(1) by (simp add: stamps_ok_def)
  then have "\<forall>e\<in>set es. \<exists>k<n'. fst (snd e) = gtid_stamp (Some g) k" using assms(2) by (meson less_trans)
  then show ?thesis using assms by (auto simp: stamps_ok_def)
qed

lemma getTableSchema_state: "\<exists>m. snd (getTableSchema env tname dname a) = a\<lparr>tablesByName := m\<rparr>"
proof -
  have "\<exists>m. a = a\<lparr>tablesByName := m\<rparr>" by (rule exI [of _ "tablesByName a"]) simp
  then show ?thesis by (auto simp: getTableSchema_def Let_def split: option.split sum.split)
qed

lemma rows_step:
  assumes env: "provider env = P" and ok: "stream_ok env p0 r0 M0 a ts (InTxn g es)" and f: "format a \<noteq> None"
    and n: "inTxnStmtID a < - 1" and t: "t \<in> tabs" and ev: "row_format_event env a kind i rws t (sch t) ch"
    and valid: "valid_change (sch t) (apply_events sch M0 (history ts @ es) t) ch"
  shows "\<exists>a'. handle_input env now (EventInput (EvRows kind i (Inr rws))) a = (None, a') \<and>
    stream_ok env p0 r0 M0 a' ts (InTxn g (es @ [(t, gtid_stamp (Some g) (inTxnStmtID a), ch)]))"
proof -
  define e where "e = (t, gtid_stamp (Some g) (inTxnStmtID a), ch)"
  from ok obtain fin batch where b: "ts = fin @ batch" "batch_ok env p0 r0 M0 a fin batch es"
    and fl: "currentGtid a = Some g" "ongoingBatchTxn a" "dirtyTxn a" "dirtyStream a" and st: "stamps_ok (inTxnStmtID a) ts (InTxn g es)"
    by (auto simp: stream_ok_def phase_events_def flags_ok_def)
  define M where "M = apply_events sch M0 (history fin)"
  have "next_event tabs sch M (history batch @ es) e"
    using t valid gtid_stamps [OF st] row_format_event_nonempty [OF ev] by (auto simp: next_event_def e_def M_def b(1))
  with b(2) obtain app c where app: "ProvideAppender P (buffer a) t (sch t) = Inr (app, c)"
    "buffers M (PutDeltaAppender P t (record_change (gtid_stamp (Some g) (inTxnStmtID a)) ch app) c) (history batch @ es @ [e])"
    using record_event [of M "buffer a" "history batch @ es" t "gtid_stamp (Some g) (inTxnStmtID a)" ch]
    by (auto simp: batch_ok_def M_def e_def)
  from ev obtain tm where tm: "tableMapsById a i = Some tm" "tm_Database tm \<noteq> ''mysql''" "dbName t = tm_Database tm"
    "\<not> isTableFilteredOut (filters env) (tm_Database tm) (tm_Name tm)" "length (tm_Types tm) = length (sch t)"
    "fst (getTableSchema env (tm_Name tm) (tm_Database tm) a) = Inr (sch t, tableName t)"
    "is_row_format kind rws (length (sch t))" "pk_positions (sch t) \<noteq> []" "row_change (cells_env env) tm (sch t) kind rws = Inr ch"
    by (auto simp: row_format_event_def)
  obtain m where "snd (getTableSchema env (tm_Name tm) (tm_Database tm) a) = a\<lparr>tablesByName := m\<rparr>" using getTableSchema_state by blast
  with tm(6) have gs: "getTableSchema env (tm_Name tm) (tm_Database tm) a = (Inr (sch t, tableName t), a\<lparr>tablesByName := m\<rparr>)"
    by (metis prod.collapse)
  have "ProvideAppender (provider env) (buffer (a\<lparr>tablesByName := m\<rparr>)) t (sch t) = Inr (app, c)" using app(1) env by simp
  from appendRowFormatChanges_ok [OF this _ tm(9), of "tableName t"] tm(3) fl(1) env obtain sz where
    ap: "appendRowFormatChanges env tm (tableName t) (sch t) kind rws (a\<lparr>tablesByName := m\<rparr>) =
      (None, a\<lparr>tablesByName := m, buffer := PutDeltaAppender P t (record_change (gtid_stamp (Some g) (inTxnStmtID a)) ch app) c, deltaBufSize := sz\<rparr>)"
    by auto
  define a' where "a' = a\<lparr>tablesByName := m, buffer := PutDeltaAppender P t (record_change (gtid_stamp (Some g) (inTxnStmtID a)) ch app) c,
      deltaBufSize := sz, dirtyTxn := True, dirtyStream := True, inTxnStmtID := inTxnStmtID a + 1\<rparr>"
  have "handle_input env now (EventInput (EvRows kind i (Inr rws))) a = (None, a')"
    using f tm by (simp add: handle_input_def processBinlogEvent_def processRowEvent_def gs ap a'_def)
  moreover have "batch_ok env p0 r0 M0 a' fin batch (es @ [e])" using b(2) app(2) by (simp add: batch_ok_def a'_def M_def)
  moreover have "inTxnStmtID a < inTxnStmtID a + 1" using n by (rule word_less_Suc)
  then have "stamps_ok (inTxnStmtID a') ts (InTxn g (es @ [e]))"
    using stamps_ok_snoc [OF st, of "inTxnStmtID a + 1" e] by (simp add: a'_def e_def)
  ultimately show ?thesis
    using fl b(1) unfolding e_def [symmetric]
    by (intro exI [of _ a'] conjI stream_okI [of ts fin batch]) (simp_all add: phase_events_def flags_ok_def a'_def)
qed

lemma begin_step:
  assumes env: "good_env env is_begin" "provider env = P" and ok: "stream_ok env p0 r0 M0 a ts Idle" and q: "is_begin q"
    and before: "\<forall>t\<in>set ts. gtid_before (fst t) g"
    and a1: "sess a1 = sess a" "buffer a1 = buffer a" "pendingPosition a1 = pendingPosition a" "ongoingBatchTxn a1 = ongoingBatchTxn a"
      "dirtyTxn a1 = dirtyTxn a" "previousGtid a1 = currentGtid a" "currentGtid a1 = Some g"
  shows "\<exists>a2. executeQueryWithEngine env now q a1 = (None, a2) \<and>
    (\<forall>n u. stream_ok env p0 r0 M0 (a2\<lparr>inTxnStmtID := n, replicationSourceUuid := u\<rparr>) ts (InTxn g []))"
proof -
  from ok obtain fin batch where b: "ts = fin @ batch" "batch_ok env p0 r0 M0 a fin batch []"
    and fl: "currentGtid a = last_gtid ts" "ongoingBatchTxn a \<longleftrightarrow> batch \<noteq> []" "dirtyTxn a \<longleftrightarrow> batch \<noteq> []" and st: "stamps_ok (inTxnStmtID a) ts Idle"
    by (auto simp: stream_ok_def phase_events_def flags_ok_def)
  have "batch_ok env p0 r0 M0 a1 fin batch []" by (rule batch_ok_cong [OF b(2) a1(1-3)])
  from begin_batch [OF env this q, of now] a1 fl b(1) obtain a2 fin' batch' where
    a2: "executeQueryWithEngine env now q a1 = (None, a2)" "fin' @ batch' = fin @ batch"
      "batch_ok env p0 r0 M0 a2 fin' batch' []" "begun a1 a2" by auto
  have "stream_ok env p0 r0 M0 (a2\<lparr>inTxnStmtID := n, replicationSourceUuid := u\<rparr>) ts (InTxn g [])" for n u
  proof (rule stream_okI [of ts fin' batch'])
    show "ts = fin' @ batch'" using a2(2) b(1) by simp
    show "batch_ok env p0 r0 M0 (a2\<lparr>inTxnStmtID := n, replicationSourceUuid := u\<rparr>) fin' batch' (phase_events (InTxn g []))"
      using a2(3) by (simp add: batch_ok_def phase_events_def)
    show "flags_ok (a2\<lparr>inTxnStmtID := n, replicationSourceUuid := u\<rparr>) ts batch' (InTxn g [])"
      using a2(4) a1(7) by (simp add: begun_def flags_ok_def)
    show "stamps_ok (inTxnStmtID (a2\<lparr>inTxnStmtID := n, replicationSourceUuid := u\<rparr>)) ts (InTxn g [])"
      using st before by (simp add: stamps_ok_def)
  qed
  then show ?thesis using a2(1) by blast
qed

lemma uuid_step:
  assumes "good_env env is_begin"
  shows "\<exists>u. (if replicationSourceUuid a = [] then
             (case persistSourceUuid env (SourceServer env g) of
                Some e \<Rightarrow> (Some e, a)
              | None \<Rightarrow> (None, a\<lparr>replicationSourceUuid := SourceServer env g\<rparr>))
           else (None, a)) = (None, a\<lparr>replicationSourceUuid := u\<rparr>)"
  using good_env_simps(8) [OF assms] by (cases "replicationSourceUuid a = []") (auto intro: exI [of _ "replicationSourceUuid a"])

lemma mysql_begin_step:
  assumes env: "good_env env is_begin" "provider env = P" and ok: "stream_ok env p0 r0 M0 a ts Idle" and q: "is_begin q"
    and before: "\<forall>t\<in>set ts. gtid_before (fst t) g" and h: "format a = Some h" "parseQueryEventVars h raw = Inr vars"
  shows "\<exists>a1 a2. handle_input env now (EventInput (EvGTID (Inr (g, False)))) a = (None, a1) \<and>
    handle_input env now' (EventInput (EvQuery raw (Inr q))) a1 = (None, a2) \<and> stream_ok env p0 r0 M0 a2 ts (InTxn g [])"
proof -
  obtain u where u: "handle_input env now (EventInput (EvGTID (Inr (g, False)))) a =
      (None, a\<lparr>previousGtid := currentGtid a, currentGtid := Some g, replicationSourceUuid := u\<rparr>)"
    using uuid_step [OF env(1), of "a\<lparr>previousGtid := currentGtid a, currentGtid := Some g\<rparr>" g] h(1)
    by (auto simp: handle_input_def processBinlogEvent_def processGTIDEvent_def Let_def)
  define a1 where "a1 = a\<lparr>previousGtid := currentGtid a, currentGtid := Some g, replicationSourceUuid := u\<rparr>"
  define a1' where "a1' = a1\<lparr>sess_vars := set_flag_vars (fst vars)\<rparr>"
  from begin_step [OF env ok q before, of a1' now'] obtain a2 where
    a2: "executeQueryWithEngine env now' q a1' = (None, a2)"
      "\<forall>n u. stream_ok env p0 r0 M0 (a2\<lparr>inTxnStmtID := n, replicationSourceUuid := u\<rparr>) ts (InTxn g [])"
    by (auto simp: a1'_def a1_def)
  have "handle_input env now' (EventInput (EvQuery raw (Inr q))) a1 = (None, a2\<lparr>inTxnStmtID := inTxnStmtID a2 + 1\<rparr>)"
    using h a2(1) by (cases vars) (simp add: handle_input_def processBinlogEvent_def processQueryEvent_def a1_def a1'_def)
  moreover have "stream_ok env p0 r0 M0 (a2\<lparr>inTxnStmtID := inTxnStmtID a2 + 1\<rparr>) ts (InTxn g [])"
    using a2(2) [rule_format, of "replicationSourceUuid a2" "inTxnStmtID a2 + 1"] by (rule stream_ok_cong) simp_all
  ultimately show ?thesis using u unfolding a1_def by blast
qed

lemma mariadb_begin_step:
  assumes env: "good_env env is_begin" "provider env = P" and ok: "stream_ok env p0 r0 M0 a ts Idle"
    and before: "\<forall>t\<in>set ts. gtid_before (fst t) g" and h: "format a = Some h"
  shows "\<exists>a2. handle_input env now (EventInput (EvGTID (Inr (g, True)))) a = (None, a2) \<and> stream_ok env p0 r0 M0 a2 ts (InTxn g [])"
proof -
  define a1 where "a1 = a\<lparr>previousGtid := currentGtid a, currentGtid := Some g\<rparr>"
  from begin_step [OF env ok good_env_simps(9) [OF env(1)] before, of a1 now] obtain a2 where
    a2: "executeQueryWithEngine env now begin_query a1 = (None, a2)"
      "\<forall>n u. stream_ok env p0 r0 M0 (a2\<lparr>inTxnStmtID := n, replicationSourceUuid := u\<rparr>) ts (InTxn g [])"
    by (auto simp: a1_def)
  obtain u where "handle_input env now (EventInput (EvGTID (Inr (g, True)))) a = (None, a2\<lparr>replicationSourceUuid := u\<rparr>)"
    using uuid_step [OF env(1), of a2 g] h a2(1)
    by (auto simp: handle_input_def processBinlogEvent_def processGTIDEvent_def Let_def a1_def [symmetric])
  moreover have "stream_ok env p0 r0 M0 (a2\<lparr>replicationSourceUuid := u\<rparr>) ts (InTxn g [])"
    using a2(2) [rule_format, of u "inTxnStmtID a2"] by (rule stream_ok_cong) simp_all
  ultimately show ?thesis by blast
qed

text \<open>The invariant holds along every stream, and no event of the stream returns an error.\<close>

theorem replicates_ok:
  assumes env: "good_env env is_begin" "provider env = P"
    and init: "stream_ok env p0 r0 M0 a0 [] Idle"
    and run: "replicates env is_begin tabs sch M0 a0 a ts ph ok"
  shows "stream_ok env p0 r0 M0 a ts ph \<and> ok"
  using run
proof induction
  case start
  show ?case using init by simp
next
  case (quiet a ts ph ok ev now e a')
  then show ?case using quiet_step [of env p0 r0 M0 a ts ph ev now] by auto
next
  case (tick a ts ph ok now e a')
  then show ?case using tick_step [OF env, of p0 r0 M0 a ts ph now] by auto
next
  case (stop a ts ph ok now e a')
  then show ?case using stop_step [OF env, of p0 r0 M0 a ts ph now] by auto
next
  case (rotate a ts ok now e a')
  then show ?case using rotate_step [OF env, of p0 r0 M0 a ts now] by auto
next
  case (mysql_begin a ts ok h g q raw vars now e1 a1 now' e2 a2)
  then show ?case using mysql_begin_step [OF env, of p0 r0 M0 a ts q g h raw vars now now'] by auto
next
  case (mariadb_begin a ts ok h g now e a')
  then show ?case using mariadb_begin_step [OF env, of p0 r0 M0 a ts g h now] by auto
next
  case (rows a ts g es ok t kind i rws ch now e a')
  then show ?case using rows_step [OF env(2), of p0 r0 M0 a ts g es t kind i rws ch now] by auto
next
  case (xid a ts g es ok now e a')
  then show ?case using xid_step [OF env, of p0 r0 M0 a ts g es now] by auto
qed

lemma stream_ok_committed:
  assumes "stream_ok env p0 r0 M0 a ts ph"
  shows "\<exists>k\<le>length ts. holds (contents (committed (sess a))) (apply_events sch M0 (history (take k ts))) \<and>
    position_row (committed (sess a)) = (if k = 0 then r0 else Some (position_after env p0 (take k ts)))"
proof -
  from assms obtain fin batch where "ts = fin @ batch" "batch_ok env p0 r0 M0 a fin batch (phase_events ph)" by (auto simp: stream_ok_def)
  then show ?thesis
    by (intro exI [of _ "length fin"]) (auto simp: batch_ok_def session_ok_def db_ok_def saved_position_def)
qed

lemma initial_stream_ok:
  assumes "holds (contents (committed (sess a))) M0" "txn (sess a) = None" "buffers M0 (buffer a) []"
    and "pendingPosition a = p0" "currentGtid a = None" "\<not> ongoingBatchTxn a" "\<not> dirtyTxn a" "\<not> dirtyStream a"
  shows "stream_ok env p0 (position_row (committed (sess a))) M0 a [] Idle"
  using assms
  by (simp add: stream_ok_def batch_ok_def session_ok_def db_ok_def saved_position_def view_def phase_events_def flags_ok_def
      stamps_ok_def last_gtid_def position_after_def)

text \<open>A tick 200 ms after the last commit leaves nothing uncommitted when no transaction is open.\<close>

lemma tick_commits:
  assumes env: "good_env env is_begin" "provider env = P" and ok: "stream_ok env p0 r0 M0 a ts Idle" and now: "now \<ge> lastCommitTime a + 200"
  shows "\<exists>a'. handle_input env now Ticker a = (None, a') \<and>
    session_ok (apply_events sch M0 (history ts)) (saved_position env p0 r0 ts) (sess a')"
proof (cases "ongoingBatchTxn a")
  case True
  then have "ts \<noteq> []" "\<not> dirtyStream a" using ok by (auto simp: stream_ok_def flags_ok_def)
  moreover have "\<not> fst (mayExtendBatchTxn now a)" using now by (auto simp: mayExtendBatchTxn_def)
  ultimately show ?thesis
    using commit_idle [OF env ok, of now "snd (mayExtendBatchTxn now a)"] extendOrCommit_cases(2) [of now a env] True
    by (auto simp: handle_input_def saved_position_def)
next
  case False
  then show ?thesis using ok
    by (auto simp: handle_input_def stream_ok_def flags_ok_def batch_ok_def)
qed

text \<open>
  A tick between a GTID event and its \<^verbatim>\<open>BEGIN\<close>: the stream does not look dirty yet, so the batch is
  committed, and the position that is saved names the new transaction.
\<close>

lemma gtid_then_tick:
  assumes env: "good_env env is_begin" "provider env = P" and ok: "stream_ok env p0 r0 M0 a ts Idle"
    and a: "ongoingBatchTxn a" "format a \<noteq> None" "now' \<ge> lastCommitTime a + 200"
  shows "\<exists>a1 a2. handle_input env now (EventInput (EvGTID (Inr (g, False)))) a = (None, a1) \<and> handle_input env now' Ticker a1 = (None, a2) \<and>
    session_ok (apply_events sch M0 (history ts)) (Some (position_after env p0 (ts @ [(g, [])]))) (sess a2)"
proof -
  obtain u where u: "handle_input env now (EventInput (EvGTID (Inr (g, False)))) a =
      (None, a\<lparr>previousGtid := currentGtid a, currentGtid := Some g, replicationSourceUuid := u\<rparr>)"
    using uuid_step [OF env(1), of "a\<lparr>previousGtid := currentGtid a, currentGtid := Some g\<rparr>" g] a(2)
    by (auto simp: handle_input_def processBinlogEvent_def processGTIDEvent_def Let_def)
  define a1 where "a1 = a\<lparr>previousGtid := currentGtid a, currentGtid := Some g, replicationSourceUuid := u\<rparr>"
  define ts' where "ts' = ts @ [(g, [] :: row_event list)]"
  from ok obtain fin batch where b: "ts = fin @ batch" "batch_ok env p0 r0 M0 a fin batch []" "\<not> dirtyStream a"
    by (auto simp: stream_ok_def phase_events_def flags_ok_def)
  have b1: "batch_ok env p0 r0 M0 a1 fin batch []" by (rule batch_ok_cong [OF b(2)]) (simp_all add: a1_def)
  have "pendingPosition a = position_after env p0 ts" using b by (simp add: batch_ok_def)
  then have p: "(if NormalCommit = NormalCommit then AppendGTID env (pendingPosition a1) (currentGtid a1) else pendingPosition a1) = position_after env p0 ts'"
    by (simp add: a1_def ts'_def)
  have h: "history ts' = history (fin @ batch) @ []" "ts' \<noteq> []" "history ts' = history ts" using b(1) by (simp_all add: ts'_def)
  have "\<not> fst (mayExtendBatchTxn now' a1)" using a(3) by (auto simp: mayExtendBatchTxn_def a1_def)
  from extendOrCommit_cases(2) [OF this, of env] have "handle_input env now' Ticker a1 =
      commitOngoingTxn env now' NormalCommit (snd (mayExtendBatchTxn now' a1)) a1"
    using a(1) b(3) by (simp add: handle_input_def a1_def)
  with commit_batch [OF env b1 _ p h(1,2), of now' "snd (mayExtendBatchTxn now' a1)"] u h(3) show ?thesis
    unfolding a1_def [symmetric] ts'_def [symmetric] by (auto simp: reset_txn_state_def)
qed

end

section \<open>Events for the table writer\<close>

text \<open>
  An event that goes to the table writer: some image lacks a column or the table has no key. The
  request is what the writer gets.
\<close>

definition direct_event ::
    "('c, 's, 'x, 'p, 'w) applier_env \<Rightarrow> ('c, 's, 'p) applier \<Rightarrow> RowEventType \<Rightarrow> nat \<Rightarrow> Rows \<Rightarrow> 'x write_request \<Rightarrow> bool" where
  "direct_event env a kind i rws req \<longleftrightarrow>
     (\<exists>tm images. tableMapsById a i = Some tm \<and> tm_Database tm \<noteq> ''mysql'' \<and> dbName (wr_table req) = tm_Database tm \<and>
        \<not> isTableFilteredOut (filters env) (tm_Database tm) (tm_Name tm) \<and> length (tm_Types tm) = length (wr_schema req) \<and>
        fst (getTableSchema env (tm_Name tm) (tm_Database tm) a) = Inr (wr_schema req, tableName (wr_table req)) \<and>
        \<not> (is_row_format kind rws (length (wr_schema req)) \<and> pk_positions (wr_schema req) \<noteq> []) \<and>
        map_res (parse_image env tm (wr_schema req) rws) (row_images rws) = Inr images \<and>
        req = \<lparr>wr_table = wr_table req, wr_schema = wr_schema req, wr_columnCount = length (tm_Types tm),
               wr_identifyColumns = IdentifyColumns rws, wr_dataColumns = DataColumns rws, wr_event = kind,
               wr_identityRows = map fst images, wr_dataRows = map snd images\<rparr>)"

context delta_buffer
begin

lemma direct_event_write:
  assumes "direct_event env a kind i rws req" "format a \<noteq> None" "GetTxn env (sess a) = (None, s)" "tx_alive s"
    and "WriteRows (provider env) req (contents (view s)) = (None, d)"
  shows "\<exists>m. handle_input env now (EventInput (EvRows kind i (Inr rws))) a =
    (None, a\<lparr>tablesByName := m, ongoingBatchTxn := False, sess := set_view ((view s)\<lparr>contents := d\<rparr>) s,
             dirtyTxn := True, dirtyStream := True, inTxnStmtID := inTxnStmtID a + 1\<rparr>)"
proof -
  from assms(1) obtain tm images where tm: "tableMapsById a i = Some tm" "tm_Database tm \<noteq> ''mysql''" "dbName (wr_table req) = tm_Database tm"
    "\<not> isTableFilteredOut (filters env) (tm_Database tm) (tm_Name tm)" "length (tm_Types tm) = length (wr_schema req)"
    "fst (getTableSchema env (tm_Name tm) (tm_Database tm) a) = Inr (wr_schema req, tableName (wr_table req))"
    "\<not> (is_row_format kind rws (length (wr_schema req)) \<and> pk_positions (wr_schema req) \<noteq> [])"
    "map_res (parse_image env tm (wr_schema req) rws) (row_images rws) = Inr images"
    "req = \<lparr>wr_table = wr_table req, wr_schema = wr_schema req, wr_columnCount = length (tm_Types tm),
        wr_identifyColumns = IdentifyColumns rws, wr_dataColumns = DataColumns rws, wr_event = kind,
        wr_identityRows = map fst images, wr_dataRows = map snd images\<rparr>"
    unfolding direct_event_def by blast
  obtain m where "snd (getTableSchema env (tm_Name tm) (tm_Database tm) a) = a\<lparr>tablesByName := m\<rparr>" using getTableSchema_state by blast
  with tm(6) have gs: "getTableSchema env (tm_Name tm) (tm_Database tm) a = (Inr (wr_schema req, tableName (wr_table req)), a\<lparr>tablesByName := m\<rparr>)"
    by (metis prod.collapse)
  have t: "\<lparr>dbName = tm_Database tm, tableName = tableName (wr_table req)\<rparr> = wr_table req" using tm(3) by (cases "wr_table req") simp
  have "writeChanges env tm (tableName (wr_table req)) (wr_schema req) kind rws (a\<lparr>tablesByName := m, ongoingBatchTxn := False\<rparr>) =
      (None, a\<lparr>tablesByName := m, ongoingBatchTxn := False, sess := set_view ((view s)\<lparr>contents := d\<rparr>) s\<rparr>)"
    using assms(3-5) by (simp add: writeChanges_def tm(8) t tm(9) [symmetric])
  then show ?thesis
    using assms(2) tm(1,2,4,5,7) by (auto simp: handle_input_def processBinlogEvent_def processRowEvent_def gs)
qed

text \<open>
  A write that finds nothing to change in the database, because the rows it is about are still in the
  buffer, leaves the buffer as it is: the commit puts the buffered rows as if the write had not been
  there.
\<close>

lemma direct_write_lost:
  assumes env: "good_env env is_begin" "provider env = P" and ok: "stream_ok env p0 r0 M0 a ts (InTxn g es)"
    and ev: "format a \<noteq> None" "direct_event env a kind i rws req"
    and noop: "\<And>k d. k \<le> length ts \<Longrightarrow> holds d (apply_events sch M0 (history (take k ts))) \<Longrightarrow>
      \<exists>d'. WriteRows P req d = (None, d') \<and> holds d' (apply_events sch M0 (history (take k ts)))"
  shows "\<exists>a1 a2. handle_input env now (EventInput (EvRows kind i (Inr rws))) a = (None, a1) \<and>
    handle_input env now' (EventInput EvXID) a1 = (None, a2) \<and>
    session_ok (apply_events sch M0 (history ts @ es)) (Some (position_after env p0 (ts @ [(g, es)]))) (sess a2)"
proof -
  define ts' where "ts' = ts @ [(g, es)]"
  from ok obtain fin batch where b: "ts = fin @ batch" "batch_ok env p0 r0 M0 a fin batch es" and fl: "currentGtid a = Some g"
    by (auto simp: stream_ok_def phase_events_def flags_ok_def)
  from GetTxn_good [OF good_env_simps(2) [OF env(1)] batch_ok_alive [OF b(2)]] obtain s where
    s: "GetTxn env (sess a) = (None, s)" "tx_alive s" "view s = view (sess a)" "committed s = committed (sess a)" by blast
  have "holds (contents (view s)) (apply_events sch M0 (history fin))" using b(2) s(3) by (simp add: batch_ok_def session_ok_def db_ok_def)
  with noop [of "length fin"] b(1) obtain d where d: "WriteRows P req (contents (view s)) = (None, d)" "holds d (apply_events sch M0 (history fin))"
    by auto
  from direct_event_write [OF ev(2,1) s(1,2)] d(1) env(2) obtain m where
    w: "handle_input env now (EventInput (EvRows kind i (Inr rws))) a =
      (None, a\<lparr>tablesByName := m, ongoingBatchTxn := False, sess := set_view ((view s)\<lparr>contents := d\<rparr>) s,
             dirtyTxn := True, dirtyStream := True, inTxnStmtID := inTxnStmtID a + 1\<rparr>)" by blast
  define a1 where "a1 = a\<lparr>tablesByName := m, ongoingBatchTxn := False, sess := set_view ((view s)\<lparr>contents := d\<rparr>) s,
             dirtyTxn := True, dirtyStream := True, inTxnStmtID := inTxnStmtID a + 1\<rparr>"
  have b1: "batch_ok env p0 r0 M0 a1 fin batch es"
    using b(2) s d(2) by (simp add: batch_ok_def session_ok_def db_ok_def a1_def)
  have pend: "pendingPosition a = position_after env p0 ts" using b by (simp add: batch_ok_def)
  have p: "(if NormalCommit = NormalCommit then AppendGTID env (pendingPosition a1) (currentGtid a1) else pendingPosition a1) = position_after env p0 ts'"
    using pend fl by (simp add: a1_def ts'_def)
  have h: "history ts' = history (fin @ batch) @ es" "ts' \<noteq> []" "history ts' = history ts @ es" using b(1) by (simp_all add: ts'_def)
  have "\<not> fst (mayExtendBatchTxn now' a1)" by (simp add: mayExtendBatchTxn_def a1_def)
  from extendOrCommit_cases(2) [OF this, of env] have "handle_input env now' (EventInput EvXID) a1 =
      commitOngoingTxn env now' NormalCommit (snd (mayExtendBatchTxn now' a1)) a1"
    by (simp add: handle_input_def processBinlogEvent_def)
  with commit_batch [OF env b1 _ p h(1,2), of now' "snd (mayExtendBatchTxn now' a1)"] w h(3) show ?thesis
    unfolding a1_def [symmetric] ts'_def [symmetric] by (auto simp: reset_txn_state_def)
qed

end

end
