(* ===== verification/ReplicaProvider.thy ===== *)
theory ReplicaProvider
  imports ApplierCorrect
begin

text \<open>
  The provider of table writers that the replica registers (\<^verbatim>\<open>replica/replication.go\<close>): the delta controller
  behind the interface \<^verbatim>\<open>TableWriterProvider\<close>. It keeps the contract \<open>delta_buffer\<close>, whatever the database
  \<open>env\<close>, the replicated tables \<open>tabs\<close> and their schemas are, so the results about the applier hold for it.
\<close>

section \<open>The provider\<close>

text \<open>A transaction that is committed or rolled back answers every statement with an error; the view is made on the connection.\<close>

definition done_env :: "'v delta_env \<Rightarrow> 'v delta_env" where
  "done_env env =
     env\<lparr>env_exec := (\<lambda>s oper. case oper of
         RegisterView v b \<Rightarrow> env_exec env s oper
       | DropView v \<Rightarrow> env_exec env s oper
       | _ \<Rightarrow> (Inl ''sql: transaction has already been committed or rolled back'', s))\<rparr>"

definition FlushDelta ::
    "'v delta_env \<Rightarrow> bool \<Rightarrow> bool \<Rightarrow> FlushReason \<Rightarrow> 'v controller \<Rightarrow> 'v store \<Rightarrow> go_error option \<times> 'v store \<times> 'v controller" where
  "FlushDelta env withoutIndex alive reason c db =
     (case Flush (if alive then env else done_env env) withoutIndex True reason c db of (e, db', st, c') \<Rightarrow> (e, db', c'))"

definition tableWriterProvider ::
    "arrow_value delta_env \<Rightarrow> bool \<Rightarrow> ('x write_request \<Rightarrow> arrow_value store \<Rightarrow> go_error option \<times> arrow_value store) \<Rightarrow>
       (arrow_value controller, arrow_value store, 'x) TableWriterProvider" where
  "tableWriterProvider env withoutIndex writer =
     \<lparr>ProvideAppender = GetDeltaAppender, PutDeltaAppender = put_appender, FlushDeltaBuffer = FlushDelta env withoutIndex,
      DiscardDeltaBuffer = Close, WriteRows = writer\<rparr>"

section \<open>The provider keeps the contract\<close>

definition table_events :: "tableIdentifier \<Rightarrow> row_event list \<Rightarrow> (stamp \<times> arrow_value change) list" where
  "table_events t es = map snd (filter (\<lambda>e. fst e = t) es)"

definition replica_holds ::
    "arrow_value delta_env \<Rightarrow> bool \<Rightarrow> tableIdentifier set \<Rightarrow> (tableIdentifier \<Rightarrow> schema) \<Rightarrow> arrow_value store \<Rightarrow> table_maps \<Rightarrow> bool" where
  "replica_holds env wi tabs sch db M \<longleftrightarrow>
     sql_faithful (env_exec env) \<and>
     (\<forall>t\<in>tabs. schema_ok (sch t) \<and> (\<exists>a. newDeltaAppender (sch t) = Inr (a :: arrow_value DeltaAppender)) \<and> holds_table (sch t) wi db t (M t))"

definition replica_buffers ::
    "tableIdentifier set \<Rightarrow> (tableIdentifier \<Rightarrow> schema) \<Rightarrow> table_maps \<Rightarrow> arrow_value controller \<Rightarrow> row_event list \<Rightarrow> bool" where
  "replica_buffers tabs sch M c es \<longleftrightarrow>
     (\<forall>t\<in>tabs. \<exists>a. newDeltaAppender (sch t) = Inr (a :: arrow_value DeltaAppender)) \<and>
     distinct (map fst c) \<and> fst ` set c \<subseteq> tabs \<and> (\<forall>(t, a)\<in>set c. recorded (sch t) (table_events t es) a) \<and>
     (\<forall>e\<in>set es. fst e \<in> fst ` set c \<and> (ch_dels (snd (snd e)) \<noteq> [] \<or> ch_inss (snd (snd e)) \<noteq> [])) \<and>
     sorted_wrt (\<lambda>x y. stamp_key (fst (snd x)) < stamp_key (fst (snd y))) es \<and>
     (\<forall>t\<in>tabs. valid_changes (sch t) (M t) (map snd (table_events t es)))"

lemma table_events_simps [simp]:
  "table_events t [] = []" "table_events t (es @ es') = table_events t es @ table_events t es'"
  "table_events t [e] = (if fst e = t then [snd e] else [])"
  by (simp_all add: table_events_def)

lemma apply_events_table: "apply_events sch M es t = apply_changes (sch t) (M t) (map snd (table_events t es))"
proof (induction es rule: rev_induct)
  case (snoc e es)
  then show ?case by (auto simp: apply_events_def apply_event_def apply_changes_def)
qed (simp add: apply_changes_def)

lemma table_events_order:
  "sorted_wrt (\<lambda>x y. stamp_key (fst (snd x)) < stamp_key (fst (snd y))) es \<Longrightarrow> in_order (table_events t es)"
  unfolding in_order_def table_events_def sorted_wrt_map by (rule sorted_wrt_filter) simp

lemma valid_changes_snoc:
  "valid_changes sch T (cs @ [c]) \<longleftrightarrow> valid_changes sch T cs \<and> valid_change sch (apply_changes sch T cs) c"
  by (induction cs arbitrary: T) (simp_all add: apply_changes_def)

lemma put_appender_keys [simp]: "map fst (put_appender t a c) = map fst c" "fst ` set (put_appender t a c) = fst ` set c"
  by (force simp: put_appender_def)+

lemma put_appender_entry: "(t', a') \<in> set (put_appender t a c) \<Longrightarrow> (t' = t \<and> a' = a) \<or> (t' \<noteq> t \<and> (t', a') \<in> set c)"
  by (auto simp: put_appender_def split: if_splits)

lemma GetDeltaAppender_recorded:
  assumes "replica_buffers tabs sch M c es" "t \<in> tabs"
  shows "\<exists>app c'. GetDeltaAppender c t (sch t) = Inr (app, c') \<and> recorded (sch t) (table_events t es) app \<and>
    distinct (map fst c') \<and> fst ` set c' = insert t (fst ` set c) \<and> set c \<subseteq> set c' \<and> (\<forall>x\<in>set c'. x \<in> set c \<or> x = (t, app))"
proof (cases "map_of c t")
  case None
  obtain a :: "arrow_value DeltaAppender" where a: "newDeltaAppender (sch t) = Inr a" using assms by (auto simp: replica_buffers_def)
  have "t \<notin> fst ` set c" using None by (simp add: map_of_eq_None_iff)
  moreover from this have "table_events t es = []" using assms(1) by (auto simp: replica_buffers_def table_events_def filter_empty_conv)
  ultimately show ?thesis using None a recorded_new [OF a] assms(1) by (auto simp: GetDeltaAppender_def replica_buffers_def)
next
  case (Some app)
  then have in_c: "(t, app) \<in> set c" by (rule map_of_SomeD)
  then have "recorded (sch t) (table_events t es) app" "distinct (map fst c)" using assms(1) by (auto simp: replica_buffers_def)
  moreover have "fst ` set c = insert t (fst ` set c)" using in_c by (metis fst_conv image_eqI insert_absorb)
  moreover have "GetDeltaAppender c t (sch t) = Inr (app, c)" using Some by (simp add: GetDeltaAppender_def)
  ultimately show ?thesis by blast
qed

lemma replica_record:
  assumes b: "replica_buffers tabs sch M c es" and n: "next_event tabs sch M es (t, st, ch)"
  shows "\<exists>app c'. GetDeltaAppender c t (sch t) = Inr (app, c') \<and>
    replica_buffers tabs sch M (put_appender t (record_change st ch app) c') (es @ [(t, st, ch)])"
proof -
  have t: "t \<in> tabs" using n by (simp add: next_event_def)
  from GetDeltaAppender_recorded [OF b t] obtain app c' where
    g: "GetDeltaAppender c t (sch t) = Inr (app, c')" "recorded (sch t) (table_events t es) app" "distinct (map fst c')"
      "fst ` set c' = insert t (fst ` set c)" "\<forall>x\<in>set c'. x \<in> set c \<or> x = (t, app)" by blast
  have rec: "recorded (sch t') (table_events t' (es @ [(t, st, ch)])) a'"
    if "(t', a') \<in> set (put_appender t (record_change st ch app) c')" for t' a'
    using put_appender_entry [OF that] g(2,5) recorded_record_change [OF g(2)] b by (auto simp: replica_buffers_def)
  have val: "\<forall>t'\<in>tabs. valid_changes (sch t') (M t') (map snd (table_events t' (es @ [(t, st, ch)])))"
    using b n by (auto simp: replica_buffers_def next_event_def valid_changes_snoc apply_events_table)
  have "replica_buffers tabs sch M (put_appender t (record_change st ch app) c') (es @ [(t, st, ch)])"
    unfolding replica_buffers_def
  proof (intro conjI)
    show "fst ` set (put_appender t (record_change st ch app) c') \<subseteq> tabs"
      using b t g(4) by (simp add: replica_buffers_def)
    show "\<forall>e\<in>set (es @ [(t, st, ch)]). fst e \<in> fst ` set (put_appender t (record_change st ch app) c') \<and>
        (ch_dels (snd (snd e)) \<noteq> [] \<or> ch_inss (snd (snd e)) \<noteq> [])"
      using b n g(4) by (auto simp: replica_buffers_def next_event_def)
    show "sorted_wrt (\<lambda>x y. stamp_key (fst (snd x)) < stamp_key (fst (snd y))) (es @ [(t, st, ch)])"
      using b n by (auto simp: replica_buffers_def next_event_def sorted_wrt_append)
  qed (use b rec val g(3) in \<open>auto simp: replica_buffers_def\<close>)
  then show ?thesis using g(1) by blast
qed

lemma recorded_no_rows:
  assumes "recorded sch scs a" "RowCount a = 0" "\<forall>sc\<in>set scs. ch_dels (snd sc) \<noteq> [] \<or> ch_inss (snd sc) \<noteq> []"
  shows "scs = []"
  using assms by (cases scs) (auto simp: recorded_def RowCount_def rows_of_def)

lemma flush_tables_recorded:
  assumes "sql_sound (env_exec env)" "controller_ok wi db buf c" "flush_tables env wi tx reason c st db = (None, db', st', c')"
    and "\<forall>(t, a)\<in>set c. \<forall>sc\<in>set (buf_changes (buf t)). ch_dels (snd sc) \<noteq> [] \<or> ch_inss (snd sc) \<noteq> []"
  shows "\<forall>(t, a)\<in>set c'. recorded (buf_schema (buf t)) [] a"
  using assms(2-4)
proof (induction c arbitrary: db st c')
  case Nil
  then show ?case by simp
next
  case (Cons ta c)
  obtain t a where ta: "ta = (t, a)" by (cases ta)
  obtain e1 db1 st1 a1 where one: "(if RowCount a > 0 then updateTable env wi tx t a st db else (None, db, st, a)) = (e1, db1, st1, a1)"
    by (metis prod_cases4)
  obtain e2 db2 st2 c2 where rest: "flush_tables env wi tx reason c st1 db1 = (e2, db2, st2, c2)" by (metis prod_cases4)
  have r: "e1 = None" "e2 = None" "c' = (if reason = DDLStmtFlushReason then c2 else (t, a1) # c2)" "db2 = db'" "st2 = st'"
    using Cons.prems(2) one rest by (cases e1; simp add: ta)+
  have ok: "buffered_ok wi db t (buf t) a" using Cons.prems(1) by (simp add: controller_ok_def ta)
  have f: "same_other_tables t db db1" using flush_one [OF assms(1) ok one [unfolded r(1)]] by blast
  have "recorded (buf_schema (buf t)) [] a1"
  proof (cases "RowCount a > 0")
    case True
    with one r(1) have upd: "updateTable env wi tx t a st db = (None, db1, st1, a1)" by simp
    from ok have "schema_ok (buf_schema (buf t))" "recorded (buf_schema (buf t)) (buf_changes (buf t)) a" "in_order (buf_changes (buf t))"
      "valid_changes (buf_schema (buf t)) (buf_table (buf t)) (map snd (buf_changes (buf t)))" "holds_table (buf_schema (buf t)) wi db t (buf_table (buf t))"
      by (simp_all add: buffered_ok_def)
    from updateTable_holds [OF assms(1) this upd] show ?thesis by blast
  next
    case False
    moreover have "recorded (buf_schema (buf t)) (buf_changes (buf t)) a" using ok by (simp add: buffered_ok_def)
    ultimately show ?thesis using recorded_no_rows one Cons.prems(3) by (fastforce simp: ta)
  qed
  moreover have "\<forall>(t, a)\<in>set c2. recorded (buf_schema (buf t)) [] a"
    using Cons.IH [OF controller_ok_tail [OF Cons.prems(1) [unfolded ta] f] rest [unfolded r(2,4,5)]] Cons.prems(3) by simp
  ultimately show ?case by (simp add: r(3))
qed

lemma replica_flush:
  assumes h: "replica_holds env wi tabs sch db M" and b: "replica_buffers tabs sch M c es"
  shows "\<exists>db' c'. FlushDelta env wi True reason c db = (None, db', c') \<and>
    replica_holds env wi tabs sch db' (apply_events sch M es) \<and> replica_buffers tabs sch (apply_events sch M es) c' []"
proof -
  define buf where "buf t = \<lparr>buf_schema = sch t, buf_changes = table_events t es, buf_table = M t\<rparr>" for t
  have faith: "sql_faithful (env_exec env)" using h by (simp add: replica_holds_def)
  have ok: "controller_ok wi db buf c"
    using h b table_events_order [of es]
    by (fastforce simp: controller_ok_def buffered_ok_def buf_def replica_holds_def replica_buffers_def)
  from flush_tables_total [OF faith ok, of reason zero_stats] obtain db' st' c' where
    f: "flush_tables env wi True reason c zero_stats db = (None, db', st', c')" by blast
  note res = flush_tables_holds [OF sql_faithfulD(1) [OF faith] ok f]
  have rec: "\<forall>(t, a)\<in>set c'. recorded (sch t) [] a"
    using flush_tables_recorded [OF sql_faithfulD(1) [OF faith] ok f] b
    by (fastforce simp: buf_def replica_buffers_def table_events_def)
  have tab: "holds_table (sch t) wi db' t (apply_events sch M es t)" if t: "t \<in> tabs" for t
  proof (cases "t \<in> fst ` set c")
    case True
    then show ?thesis using res by (auto simp: buf_def buf_result_def apply_events_table)
  next
    case False
    then have "table_events t es = []" using b by (auto simp: replica_buffers_def table_events_def filter_empty_conv)
    moreover have "tables db' t = tables db t" using res False by blast
    ultimately show ?thesis using h t by (simp add: replica_holds_def holds_table_def apply_events_table apply_changes_def)
  qed
  have "distinct (map fst c')" "fst ` set c' \<subseteq> tabs"
    using res b by (cases "reason = DDLStmtFlushReason"; auto simp: replica_buffers_def simp flip: set_map)+
  then have "replica_buffers tabs sch (apply_events sch M es) c' []"
    using rec b by (simp add: replica_buffers_def)
  moreover have "replica_holds env wi tabs sch db' (apply_events sch M es)" using h tab by (simp add: replica_holds_def)
  moreover have "FlushDelta env wi True reason c db = (None, db', c')" using f by (simp add: FlushDelta_def Flush_def)
  ultimately show ?thesis by blast
qed

text \<open>The same, with what is asked of the database, of the schemas and of the stored tables apart.\<close>

definition tables_hold ::
    "bool \<Rightarrow> tableIdentifier set \<Rightarrow> (tableIdentifier \<Rightarrow> schema) \<Rightarrow> arrow_value store \<Rightarrow> table_maps \<Rightarrow> bool" where
  "tables_hold wi tabs sch db M \<longleftrightarrow> (\<forall>t\<in>tabs. holds_table (sch t) wi db t (M t))"

definition schemas_ok :: "tableIdentifier set \<Rightarrow> (tableIdentifier \<Rightarrow> schema) \<Rightarrow> bool" where
  "schemas_ok tabs sch \<longleftrightarrow>
     (\<forall>t\<in>tabs. schema_ok (sch t) \<and> (\<exists>a. newDeltaAppender (sch t) = Inr (a :: arrow_value DeltaAppender)))"

lemma replica_holds_iff:
  "replica_holds env wi tabs sch db M \<longleftrightarrow> sql_faithful (env_exec env) \<and> schemas_ok tabs sch \<and> tables_hold wi tabs sch db M"
  by (auto simp: replica_holds_def schemas_ok_def tables_hold_def)

interpretation replica: delta_buffer "tableWriterProvider env wi writer" tabs sch "replica_holds env wi tabs sch" "replica_buffers tabs sch"
  for env wi writer tabs sch
proof unfold_locales
  fix M c es t st ch
  assume "replica_buffers tabs sch M c es" "next_event tabs sch M es (t, st, ch)"
  from replica_record [OF this] show "\<exists>app c'. ProvideAppender (tableWriterProvider env wi writer) c t (sch t) = Inr (app, c') \<and>
      replica_buffers tabs sch M (PutDeltaAppender (tableWriterProvider env wi writer) t (record_change st ch app) c') (es @ [(t, st, ch)])"
    by (simp add: tableWriterProvider_def)
next
  fix d M c es reason
  assume "replica_holds env wi tabs sch d M" "replica_buffers tabs sch M c es"
  from replica_flush [OF this] show "\<exists>d' c'. FlushDeltaBuffer (tableWriterProvider env wi writer) True reason c d = (None, d', c') \<and>
      replica_holds env wi tabs sch d' (apply_events sch M es) \<and> replica_buffers tabs sch (apply_events sch M es) c' []"
    by (simp add: tableWriterProvider_def)
qed

end
