(* ===== verification/TableUpdater.thy ===== *)
theory TableUpdater
  imports ReplicaProvider
begin

text \<open>
  The table writer of the replica (\<^verbatim>\<open>replica/updater.go\<close>): row events that do not go through the delta
  buffer, because an image lacks columns or the table has no primary key, are written with prepared
  statements. A statement is its parts, \<open>template_text\<close> its SQL; preparing and running it are
  parameters, and \<open>prepared_sound\<close> is what the statements mean.
\<close>

section \<open>Statements\<close>

datatype template =
    InsertTemplate tableIdentifier nat bool
  | DeleteTemplate tableIdentifier "string list"
  | UpdateTemplate tableIdentifier "string list" "string list"

definition quoteIdentifier :: "string \<Rightarrow> string" where
  "quoteIdentifier identifier = dquote # identifier @ [dquote]"

definition full_table_text :: "tableIdentifier \<Rightarrow> string" where
  "full_table_text t = quoteIdentifier (dbName t) @ ''.'' @ quoteIdentifier (tableName t)"

definition bound_text :: "string \<Rightarrow> string" where
  "bound_text c = quoteIdentifier c @ '' = ?''"

fun template_text :: "template \<Rightarrow> string" where
  "template_text (InsertTemplate t n replace) =
     ''INSERT'' @ (if replace then '' OR REPLACE'' else []) @ '' INTO '' @ full_table_text t @
     '' VALUES ('' @ join '', '' (replicate n ''?'') @ '')''"
| "template_text (DeleteTemplate t cs) =
     ''DELETE FROM '' @ full_table_text t @ '' WHERE '' @ join '' AND '' (map bound_text cs)"
| "template_text (UpdateTemplate t ss cs) =
     ''UPDATE '' @ full_table_text t @ '' SET '' @ join '', '' (map bound_text ss) @
     '' WHERE '' @ join '' AND '' (map bound_text cs)"

text \<open>The number of question marks.\<close>

fun placeholders :: "template \<Rightarrow> nat" where
  "placeholders (InsertTemplate t n replace) = n"
| "placeholders (DeleteTemplate t cs) = length cs"
| "placeholders (UpdateTemplate t ss cs) = length ss + length cs"

text \<open>The names of the columns a bitmap has, and of the key columns.\<close>

definition present_names :: "nat \<Rightarrow> schema \<Rightarrow> bitmap \<Rightarrow> string list" where
  "present_names columnCount sch bm = map (\<lambda>i. col_name (sch ! i)) (filter (Bit bm) [0..<columnCount])"

definition key_names :: "schema \<Rightarrow> nat list \<Rightarrow> string list" where
  "key_names sch pks = map (\<lambda>i. col_name (sch ! i)) pks"

definition buildInsertTemplate :: "tableIdentifier \<Rightarrow> nat \<Rightarrow> bool \<Rightarrow> template \<times> nat" where
  "buildInsertTemplate t columnCount replace = (InsertTemplate t columnCount replace, columnCount)"

definition buildDeleteTemplate :: "tableIdentifier \<Rightarrow> nat \<Rightarrow> schema \<Rightarrow> nat list \<Rightarrow> bitmap \<Rightarrow> template \<times> nat" where
  "buildDeleteTemplate t columnCount sch pkColumns identifyColumns =
     (if pkColumns \<noteq> [] then (DeleteTemplate t (key_names sch pkColumns), length pkColumns)
      else
        let cs = present_names columnCount sch identifyColumns in (DeleteTemplate t cs, length cs))"

definition buildUpdateTemplate ::
    "tableIdentifier \<Rightarrow> nat \<Rightarrow> schema \<Rightarrow> nat list \<Rightarrow> bitmap \<Rightarrow> bitmap \<Rightarrow> template \<times> nat" where
  "buildUpdateTemplate t columnCount sch pkColumns identifyColumns dataColumns =
     (let ss = present_names columnCount sch dataColumns in
      if pkColumns \<noteq> []
      then (UpdateTemplate t ss (key_names sch pkColumns), BitCount dataColumns + length pkColumns)
      else (UpdateTemplate t ss (present_names columnCount sch identifyColumns),
            BitCount dataColumns + BitCount identifyColumns))"

section \<open>The updater\<close>

definition isPkUpdate :: "schema \<Rightarrow> bitmap \<Rightarrow> bitmap \<Rightarrow> bool" where
  "isPkUpdate sch identifyColumns dataColumns \<longleftrightarrow>
     list_ex (\<lambda>i. col_pk (sch ! i) \<and> Bit identifyColumns i \<and> Bit dataColumns i) [0..<length sch]"

text \<open>
  The loop of \<^verbatim>\<open>getPrimaryKeyIndices\<close>: the places of the key columns among the columns that the bitmap has.
  A missing key column makes the result nil.
\<close>

fun key_indices :: "column list \<Rightarrow> bitmap \<Rightarrow> nat \<Rightarrow> nat \<Rightarrow> nat list option" where
  "key_indices [] bm i n = Some []"
| "key_indices (c # cs) bm i n =
     (let here = Bit bm i; n' = (if here then n + 1 else n) in
      if col_pk c \<and> \<not> here then None
      else if col_pk c then map_option ((#) n) (key_indices cs bm (i + 1) n')
      else key_indices cs bm (i + 1) n')"

definition keyIndicesIn :: "schema \<Rightarrow> bitmap \<Rightarrow> nat list" where
  "keyIndicesIn sch bm = (case key_indices sch bm 0 0 of None \<Rightarrow> [] | Some is \<Rightarrow> is)"

text \<open>The transaction and the key schema are fields of the updater that its constructor leaves unset.\<close>

record tableUpdater =
  tx_set :: bool
  stmt :: template
  replace :: bool
  cleanup :: "template option"
  paramCount :: nat
  pkSubSchema :: schema
  pkIndicesInIdentify :: "nat list"
  pkIndicesInData :: "nat list"

text \<open>The database driver: preparing and running statements, and \<^verbatim>\<open>Row.Equals\<close> of the SQL engine.\<close>

record ('x, 's) driver =
  PrepareError :: "template \<Rightarrow> 's \<Rightarrow> string option"
  RunStmt :: "template \<Rightarrow> 'x sql_row \<Rightarrow> 's \<Rightarrow> string option \<times> 's"
  RowEquals :: "schema \<Rightarrow> 'x sql_row \<Rightarrow> 'x sql_row \<Rightarrow> bool res"

definition update_statement ::
    "tableIdentifier \<Rightarrow> schema \<Rightarrow> nat list \<Rightarrow> nat \<Rightarrow> bitmap \<Rightarrow> bitmap \<Rightarrow> nat list \<Rightarrow> nat list \<Rightarrow>
       (template \<times> nat \<times> bool \<times> template option) res" where
  "update_statement t sch pkColumns columnCount identifyColumns dataColumns inIdentify inData =
     (if isPkUpdate sch identifyColumns dataColumns then
        (if inIdentify = [] \<or> inData = [] then
           Inl (Error ''primary key columns are (partially) updated but are not fully specified in the binlog'')
         else
           let (ins, n) = buildInsertTemplate t columnCount True;
               (del, _) = buildDeleteTemplate t columnCount sch pkColumns identifyColumns
           in Inr (ins, n, True, Some del))
      else if BitCount identifyColumns < columnCount \<or> BitCount dataColumns < columnCount then
        (let (upd, n) = buildUpdateTemplate t columnCount sch pkColumns identifyColumns dataColumns in Inr (upd, n, False, None))
      else (let (ins, n) = buildInsertTemplate t columnCount True in Inr (ins, n, True, None)))"

definition newTableUpdater ::
    "('x, 's) driver \<Rightarrow> 's \<Rightarrow> tableIdentifier \<Rightarrow> schema \<Rightarrow> nat list \<Rightarrow> nat \<Rightarrow> bitmap \<Rightarrow> bitmap \<Rightarrow> RowEventType \<Rightarrow> tableUpdater res" where
  "newTableUpdater drv s t sch pkOrdinals columnCount identifyColumns dataColumns eventType =
     (let inIdentify = keyIndicesIn sch identifyColumns;
          inData = keyIndicesIn sch dataColumns;
          pkColumns = (if inIdentify = [] \<and> pkOrdinals \<noteq> [] then [] else pkOrdinals)
      in if list_ex (\<lambda>i. length sch \<le> i) pkColumns then Inl (Panic ''index out of range'')
         else bind_res
           (case eventType of
              DeleteRowEvent \<Rightarrow>
                (let (del, n) = buildDeleteTemplate t columnCount sch pkColumns identifyColumns in Inr (del, n, False, None))
            | UpdateRowEvent \<Rightarrow> update_statement t sch pkColumns columnCount identifyColumns dataColumns inIdentify inData
            | InsertRowEvent \<Rightarrow>
                (let (ins, n) = buildInsertTemplate t columnCount False in Inr (ins, n, False, None)))
           (\<lambda>(st, n, repl, clean).
              case PrepareError drv st s of
                Some e \<Rightarrow> Inl (Error e)
              | None \<Rightarrow>
                  Inr \<lparr>tx_set = False, stmt = st, replace = repl, cleanup = clean, paramCount = n, pkSubSchema = [],
                       pkIndicesInIdentify = inIdentify, pkIndicesInData = inData\<rparr>))"

text \<open>\<^verbatim>\<open>stmt.ExecContext\<close> refuses a wrong number of arguments before it asks the driver.\<close>

definition ExecStmt :: "('x, 's) driver \<Rightarrow> template \<Rightarrow> 'x sql_row \<Rightarrow> 's \<Rightarrow> go_error option \<times> 's" where
  "ExecStmt drv st args s =
     (if length args \<noteq> placeholders st then (Some (Error ''sql: wrong number of arguments''), s)
      else case RunStmt drv st args s of (e, s') \<Rightarrow> (map_option Error e, s'))"

fun exec_rows :: "('x, 's) driver \<Rightarrow> template \<Rightarrow> 'x sql_row list \<Rightarrow> 's \<Rightarrow> go_error option \<times> 's" where
  "exec_rows drv st [] s = (None, s)"
| "exec_rows drv st (r # rs) s =
     (case ExecStmt drv st r s of (Some e, s') \<Rightarrow> (Some e, s') | (None, s') \<Rightarrow> exec_rows drv st rs s')"

definition updater_Insert :: "('x, 's) driver \<Rightarrow> tableUpdater \<Rightarrow> 'x sql_row list \<Rightarrow> 's \<Rightarrow> go_error option \<times> 's" where
  "updater_Insert drv tu rows s = exec_rows drv (stmt tu) rows s"

text \<open>The values of a row at some places.\<close>

definition pick :: "nat list \<Rightarrow> 'x sql_row \<Rightarrow> 'x sql_row res" where
  "pick is row = (if list_ex (\<lambda>i. length row \<le> i) is then Inl (Panic ''index out of range'') else Inr (map ((!) row) is))"

fun updater_Delete :: "('x, 's) driver \<Rightarrow> tableUpdater \<Rightarrow> 'x sql_row list \<Rightarrow> 's \<Rightarrow> go_error option \<times> 's" where
  "updater_Delete drv tu [] s = (None, s)"
| "updater_Delete drv tu (row # rows) s =
     (case (if pkIndicesInIdentify tu \<noteq> [] then pick (pkIndicesInIdentify tu) row else Inr row) of
        Inl e \<Rightarrow> (Some e, s)
      | Inr keys \<Rightarrow>
          (case ExecStmt drv (stmt tu) keys s of (Some e, s') \<Rightarrow> (Some e, s') | (None, s') \<Rightarrow> updater_Delete drv tu rows s'))"

text \<open>Go's \<^verbatim>\<open>copy\<close> into a slice from the place \<open>k\<close> on: no more than fits.\<close>

definition copy_at :: "'a list \<Rightarrow> nat \<Rightarrow> 'a list \<Rightarrow> 'a list" where
  "copy_at buf k src = take k buf @ take (length buf - k) src @ drop (k + length src) buf"

text \<open>The assignments of the key values to the argument buffer, from the place \<open>k\<close> on.\<close>

fun put_keys :: "'x sql_row \<Rightarrow> nat \<Rightarrow> nat list \<Rightarrow> 'x sql_row \<Rightarrow> 'x sql_row res" where
  "put_keys buf k [] keys = Inr buf"
| "put_keys buf k (i # is) keys =
     (if length keys \<le> i \<or> length buf \<le> k then Inl (Panic ''index out of range'')
      else put_keys (buf[k := keys ! i]) (k + 1) is keys)"

text \<open>The arguments of one \<^verbatim>\<open>UPDATE\<close>; the buffer, whose length is its capacity, is kept from row to row.\<close>

definition update_args :: "nat list \<Rightarrow> 'x sql_row \<Rightarrow> 'x sql_row \<Rightarrow> 'x sql_row \<Rightarrow> ('x sql_row \<times> 'x sql_row) res" where
  "update_args inIdentify buf values keys =
     (let n = length values; buf1 = copy_at buf 0 values in
      bind_res (if inIdentify \<noteq> [] then put_keys buf1 n inIdentify keys
                else if length buf1 < n then Inl (Panic ''slice bounds out of range'')
                else Inr (copy_at buf1 n keys)) (\<lambda>buf2.
      if length buf2 < n + length keys then Inl (Panic ''slice bounds out of range'')
      else Inr (take (n + length keys) buf2, buf2)))"

fun update_rows ::
    "('x, 's) driver \<Rightarrow> tableUpdater \<Rightarrow> 'x sql_row \<Rightarrow> 'x sql_row list \<Rightarrow> 'x sql_row list \<Rightarrow> 's \<Rightarrow> go_error option \<times> 's" where
  "update_rows drv tu buf keyRows [] s = (None, s)"
| "update_rows drv tu buf [] (values # valueRows) s = (Some (Panic ''index out of range''), s)"
| "update_rows drv tu buf (keys # keyRows) (values # valueRows) s =
     (case update_args (pkIndicesInIdentify tu) buf values keys of
        Inl e \<Rightarrow> (Some e, s)
      | Inr (args, buf') \<Rightarrow>
          (case ExecStmt drv (stmt tu) args s of
             (Some e, s') \<Rightarrow> (Some e, s')
           | (None, s') \<Rightarrow> update_rows drv tu buf' keyRows valueRows s'))"

text \<open>The deletes that follow the inserts of \<^verbatim>\<open>doInsertThenDelete\<close>; a key row has a place per column of the key schema.\<close>

definition key_row :: "schema \<Rightarrow> nat list \<Rightarrow> 'x sql_row \<Rightarrow> 'x sql_row res" where
  "key_row sub is row = put_keys (replicate (length sub) None) 0 is row"

fun cleanup_rows ::
    "('x, 's) driver \<Rightarrow> tableUpdater \<Rightarrow> template \<Rightarrow> 'x sql_row list \<Rightarrow> 'x sql_row list \<Rightarrow> 's \<Rightarrow> go_error option \<times> 's" where
  "cleanup_rows drv tu del [] afterRows s = (None, s)"
| "cleanup_rows drv tu del (before # beforeRows) [] s = (Some (Panic ''index out of range''), s)"
| "cleanup_rows drv tu del (before # beforeRows) (after # afterRows) s =
     (case bind_res (key_row (pkSubSchema tu) (pkIndicesInIdentify tu) before) (\<lambda>bk.
           bind_res (key_row (pkSubSchema tu) (pkIndicesInData tu) after) (\<lambda>ak.
           bind_res (RowEquals drv (pkSubSchema tu) bk ak) (\<lambda>eq. Inr (bk, eq)))) of
        Inl e \<Rightarrow> (Some e, s)
      | Inr (bk, eq) \<Rightarrow>
          (if eq then cleanup_rows drv tu del beforeRows afterRows s
           else case ExecStmt drv del bk s of
             (Some e, s') \<Rightarrow> (Some e, s')
           | (None, s') \<Rightarrow> cleanup_rows drv tu del beforeRows afterRows s'))"

definition doInsertThenDelete ::
    "('x, 's) driver \<Rightarrow> tableUpdater \<Rightarrow> template \<Rightarrow> 'x sql_row list \<Rightarrow> 'x sql_row list \<Rightarrow> 's \<Rightarrow> go_error option \<times> 's" where
  "doInsertThenDelete drv tu del beforeRows afterRows s =
     (case updater_Insert drv tu afterRows s of
        (Some e, s') \<Rightarrow> (Some e, s')
      | (None, s') \<Rightarrow>
          (if \<not> tx_set tu then (Some (Panic ''nil pointer dereference''), s')
           else case PrepareError drv del s' of
             Some e \<Rightarrow> (Some (Error e), s')
           | None \<Rightarrow> cleanup_rows drv tu del beforeRows afterRows s'))"

definition updater_Update ::
    "('x, 's) driver \<Rightarrow> tableUpdater \<Rightarrow> 'x sql_row list \<Rightarrow> 'x sql_row list \<Rightarrow> 's \<Rightarrow> go_error option \<times> 's" where
  "updater_Update drv tu keyRows valueRows s =
     (case cleanup tu of
        Some del \<Rightarrow> doInsertThenDelete drv tu del keyRows valueRows s
      | None \<Rightarrow>
          (if replace tu then updater_Insert drv tu valueRows s
           else update_rows drv tu (replicate (paramCount tu) None) keyRows valueRows s))"

text \<open>
  \<^verbatim>\<open>GetTableWriter\<close> and the call on the writer. The catalog gives the key columns in the order of the schema.
\<close>

definition write_rows :: "('x, 's) driver \<Rightarrow> 'x write_request \<Rightarrow> 's \<Rightarrow> go_error option \<times> 's" where
  "write_rows drv req s =
     (case newTableUpdater drv s (wr_table req) (wr_schema req) (pk_positions (wr_schema req)) (wr_columnCount req)
             (wr_identifyColumns req) (wr_dataColumns req) (wr_event req) of
        Inl e \<Rightarrow> (Some e, s)
      | Inr tu \<Rightarrow>
          (case wr_event req of
             DeleteRowEvent \<Rightarrow> updater_Delete drv tu (wr_identityRows req) s
           | InsertRowEvent \<Rightarrow> updater_Insert drv tu (wr_dataRows req) s
           | UpdateRowEvent \<Rightarrow> updater_Update drv tu (wr_identityRows req) (wr_dataRows req) s))"

end
