(* ===== verification/TableUpdaterProps.thy ===== *)
theory TableUpdaterProps
  imports TableUpdater
begin

text \<open>
  What the table writer of the replica does on a database that gives its statements their meaning.
  Deletes by key work when the images have the columns before the key; updates never work.
\<close>

section \<open>What the statements mean\<close>

definition arg_datum :: "'v option \<Rightarrow> 'v datum" where
  "arg_datum a = (case a of None \<Rightarrow> Null | Some v \<Rightarrow> Val v)"

text \<open>The condition \<^verbatim>\<open>c = ? AND ...\<close> on a row; a comparison with \<^verbatim>\<open>NULL\<close> is not true.\<close>

definition row_matches :: "string list \<Rightarrow> string list \<Rightarrow> 'v drow \<Rightarrow> 'v drow \<Rightarrow> bool" where
  "row_matches h cs args r \<longleftrightarrow> project h cs r = args \<and> Null \<notin> set args"

definition assign_columns :: "string list \<Rightarrow> string list \<Rightarrow> 'v drow \<Rightarrow> 'v drow \<Rightarrow> 'v drow" where
  "assign_columns h ss vs r =
     map (\<lambda>(c, v). case map_of (zip (map to_lower ss) vs) (to_lower c) of None \<Rightarrow> v | Some w \<Rightarrow> w) (zip h r)"

fun prepared_step :: "'v store \<Rightarrow> template \<Rightarrow> 'v drow \<Rightarrow> 'v store \<Rightarrow> bool" where
  "prepared_step s (InsertTemplate t n False) args s' \<longleftrightarrow> inserted_step s t [args] 1 s'"
| "prepared_step s (InsertTemplate t n True) args s' \<longleftrightarrow> upserted_step s t [args] 1 s'"
| "prepared_step s (DeleteTemplate t cs) args s' \<longleftrightarrow>
     cs \<noteq> [] \<and>
     (case tables s t of None \<Rightarrow> False
      | Some tab \<Rightarrow> has_columns (tcols tab) cs \<and> rows_become s t (filter (\<lambda>r. \<not> row_matches (tcols tab) cs args r) (trows tab)) s')"
| "prepared_step s (UpdateTemplate t ss cs) args s' \<longleftrightarrow>
     ss \<noteq> [] \<and> cs \<noteq> [] \<and>
     (case tables s t of None \<Rightarrow> False
      | Some tab \<Rightarrow> has_columns (tcols tab) ss \<and> has_columns (tcols tab) cs \<and>
          rows_become s t
            (map (\<lambda>r. if row_matches (tcols tab) cs (drop (length ss) args) r
                      then assign_columns (tcols tab) ss (take (length ss) args) r else r) (trows tab)) s')"

definition prepared_sound :: "('v, 'v store) driver \<Rightarrow> bool" where
  "prepared_sound drv \<longleftrightarrow>
     (\<forall>st args s. length args = placeholders st \<longrightarrow>
        (case RunStmt drv st args s of
           (None, s') \<Rightarrow> prepared_step s st (map arg_datum args) s' | (Some e, s') \<Rightarrow> s' = s))"

definition prepared_complete :: "('v, 'v store) driver \<Rightarrow> bool" where
  "prepared_complete drv \<longleftrightarrow>
     (\<forall>st args s s'. length args = placeholders st \<and> prepared_step s st (map arg_datum args) s' \<longrightarrow>
        PrepareError drv st s = None \<and> fst (RunStmt drv st args s) = None)"

lemma exec_step:
  assumes "prepared_sound drv" "prepared_complete drv" "length args = placeholders st"
    and "prepared_step s st (map arg_datum args) s1"
  shows "PrepareError drv st s = None \<and> (\<exists>s'. ExecStmt drv st args s = (None, s') \<and> prepared_step s st (map arg_datum args) s')"
proof -
  from assms have p: "PrepareError drv st s = None" "fst (RunStmt drv st args s) = None"
    by (auto simp: prepared_complete_def)
  then obtain s' where r: "RunStmt drv st args s = (None, s')" by (cases "RunStmt drv st args s") auto
  have "case RunStmt drv st args s of (None, s') \<Rightarrow> prepared_step s st (map arg_datum args) s' | (Some e, s') \<Rightarrow> s' = s"
    using assms(1) [unfolded prepared_sound_def, rule_format, OF assms(3)] .
  with r have "prepared_step s st (map arg_datum args) s'" by simp
  with p r assms(3) show ?thesis by (simp add: ExecStmt_def)
qed

section \<open>Deleting by key\<close>

text \<open>Every column up to a key column is in the bitmap.\<close>

definition keys_aligned :: "schema \<Rightarrow> bitmap \<Rightarrow> bool" where
  "keys_aligned sch bm \<longleftrightarrow> (\<forall>i\<in>set (pk_positions sch). \<forall>j\<le>i. Bit bm j)"

lemma pk_positions_Cons:
  "pk_positions (c # cs) = (if col_pk c then [0] else []) @ map Suc (pk_positions cs)"
proof -
  have "filter (\<lambda>i. col_pk ((c # cs) ! i)) (map Suc [0..<length cs]) = map Suc (filter (\<lambda>i. col_pk (cs ! i)) [0..<length cs])"
    by (simp add: filter_map comp_def)
  moreover have "[0..<length (c # cs)] = 0 # map Suc [0..<length cs]" by (simp add: upt_conv_Cons map_Suc_upt del: upt_Suc)
  ultimately show ?thesis by (simp add: pk_positions_def del: upt_Suc)
qed

lemma key_indices_no_key: "pk_positions cs = [] \<Longrightarrow> key_indices cs bm i n = Some []"
  by (induction cs arbitrary: i n) (auto simp: pk_positions_Cons Let_def split: if_splits)

lemma key_indices_aligned:
  "\<forall>k\<in>set (pk_positions cs). \<forall>j\<le>k. Bit bm (i + j) \<Longrightarrow> key_indices cs bm i i = Some (map ((+) i) (pk_positions cs))"
proof (induction cs arbitrary: i)
  case Nil
  then show ?case by (simp add: pk_positions_def)
next
  case (Cons c cs)
  show ?case
  proof (cases "pk_positions (c # cs) = []")
    case True
    then show ?thesis by (simp only: key_indices_no_key list.map)
  next
    case False
    then obtain k where "k \<in> set (pk_positions (c # cs))" by (meson list.set_sel(1))
    with Cons.prems have here: "Bit bm i" by fastforce
    have "Bit bm (Suc i + j)" if "k \<in> set (pk_positions cs)" "j \<le> k" for k j
    proof -
      have "Suc k \<in> set (pk_positions (c # cs))" using that(1) by (simp add: pk_positions_Cons)
      with Cons.prems have "\<forall>j\<le>Suc k. Bit bm (i + j)" by (rule bspec)
      then show ?thesis using that(2) by (metis Suc_le_mono add_Suc_shift)
    qed
    with Cons.IH [of "Suc i"] here show ?thesis by (simp add: pk_positions_Cons comp_def)
  qed
qed

lemma plus_0_map: "map ((+) (0 :: nat)) xs = xs"
  by (rule map_idI) simp

lemma keyIndicesIn_aligned: "keys_aligned sch bm \<Longrightarrow> keyIndicesIn sch bm = pk_positions sch"
  using key_indices_aligned [of sch bm 0] by (simp add: keys_aligned_def keyIndicesIn_def plus_0_map)

lemma key_names_pk: "key_names sch (pk_positions sch) = getPrimaryKeyList sch"
  unfolding key_names_def getPrimaryKeyList_nth col_names_def by (rule map_cong) (auto dest: pk_positions_lt)

text \<open>A row with a value for every key column.\<close>

definition keyed_row :: "schema \<Rightarrow> 'v sql_row \<Rightarrow> bool" where
  "keyed_row sch row \<longleftrightarrow> row_ok sch (map arg_datum row)"

lemma pick_key:
  assumes "keyed_row sch row"
  shows "pick (pk_positions sch) row = Inr (map ((!) row) (pk_positions sch))"
    and "map arg_datum (map ((!) row) (pk_positions sch)) = pkey sch (map arg_datum row)"
proof -
  have "\<not> list_ex (\<lambda>i. length row \<le> i) (pk_positions sch)"
    using assms by (auto simp: keyed_row_def row_ok_def list_ex_iff dest: pk_positions_lt)
  then show "pick (pk_positions sch) row = Inr (map ((!) row) (pk_positions sch))" by (simp add: pick_def)
  show "map arg_datum (map ((!) row) (pk_positions sch)) = pkey sch (map arg_datum row)"
    using assms by (auto simp: pkey_def keyed_row_def row_ok_def dest: pk_positions_lt)
qed

lemma index_ok_represents:
  "holds_table sch wi s t T \<Longrightarrow> tables s t = Some tab \<Longrightarrow> represents sch rs T' \<Longrightarrow> index_ok (tab\<lparr>trows := rs\<rparr>)"
  by (simp add: holds_table_def index_ok_def represents_def pkey_def [abs_def])

lemma delete_key_step:
  assumes "schema_ok sch" "holds_table sch wi s t T" "Null \<notin> set k"
  shows "\<exists>s'. prepared_step s (DeleteTemplate t (getPrimaryKeyList sch)) k s'"
    and "prepared_step s (DeleteTemplate t (getPrimaryKeyList sch)) k s' \<Longrightarrow>
      holds_table sch wi s' t (T |` (- {k})) \<and> same_other_tables t s s'"
proof -
  from assms(2) obtain tab where tab: "tables s t = Some tab" "tcols tab = col_names sch" "represents sch (trows tab) T"
    by (auto simp: holds_table_def split: option.splits)
  have key: "project (col_names sch) (getPrimaryKeyList sch) r = pkey sch r" if "r \<in> set (trows tab)" for r
    using that assms(1) tab(3) by (intro project_pk) (auto simp: schema_ok_def represents_def row_ok_def)
  have rows: "filter (\<lambda>r. \<not> row_matches (tcols tab) (getPrimaryKeyList sch) k r) (trows tab) = filter (\<lambda>r. pkey sch r \<notin> {k}) (trows tab)"
    by (rule filter_cong) (auto simp: row_matches_def tab(2) key assms(3))
  note rep = represents_delete [OF tab(3), of "{k}"]
  have "rows_become s t (filter (\<lambda>r. pkey sch r \<notin> {k}) (trows tab)) (set_rows s t (filter (\<lambda>r. pkey sch r \<notin> {k}) (trows tab)))"
    unfolding rows_become_def using tab(1) index_ok_represents [OF assms(2) tab(1) rep] by blast
  moreover have "getPrimaryKeyList sch \<noteq> []" "has_columns (tcols tab) (getPrimaryKeyList sch)"
    using assms(1) by (auto simp: getPrimaryKeyList_def schema_ok_def has_columns_def tab(2) col_names_def filter_empty_conv)
  ultimately show "\<exists>s'. prepared_step s (DeleteTemplate t (getPrimaryKeyList sch)) k s'" using tab(1) rows by auto
  show "holds_table sch wi s' t (T |` (- {k})) \<and> same_other_tables t s s'"
    if "prepared_step s (DeleteTemplate t (getPrimaryKeyList sch)) k s'"
    using that tab(1) rows by (intro rows_become_holds [OF _ assms(2) rep]) simp
qed

lemma schema_ok_pk: "schema_ok sch \<Longrightarrow> pk_positions sch \<noteq> []"
proof -
  assume "schema_ok sch"
  then obtain i where "i < length sch" "col_pk (sch ! i)" by (auto simp: schema_ok_def in_set_conv_nth)
  then have "i \<in> set (pk_positions sch)" by (simp add: pk_positions_def)
  then show ?thesis by auto
qed

lemma updater_Delete_holds:
  assumes drv: "prepared_sound drv" "prepared_complete drv" and sch: "schema_ok sch"
    and tu: "pkIndicesInIdentify tu = pk_positions sch" "stmt tu = DeleteTemplate t (getPrimaryKeyList sch)"
    and "holds_table sch wi s t T" "\<forall>row\<in>set rows. keyed_row sch row"
  shows "\<exists>s'. updater_Delete drv tu rows s = (None, s') \<and>
    holds_table sch wi s' t (T |` (- (\<lambda>row. pkey sch (map arg_datum row)) ` set rows)) \<and> same_other_tables t s s'"
  using assms(6,7)
proof (induction rows arbitrary: s T)
  case Nil
  then show ?case by (simp add: same_other_tables_def)
next
  case (Cons row rows)
  let ?args = "map ((!) row) (pk_positions sch)" and ?k = "pkey sch (map arg_datum row)"
  have row: "keyed_row sch row" using Cons.prems by simp
  have "Null \<notin> set ?k" using row by (simp add: keyed_row_def row_ok_def)
  note del = delete_key_step [OF sch Cons.prems(1) this]
  have len: "length ?args = placeholders (stmt tu)" by (simp add: tu(2) getPrimaryKeyList_nth)
  from del(1) obtain s1 where "prepared_step s (stmt tu) (map arg_datum ?args) s1" unfolding tu(2) pick_key(2) [OF row] by blast
  from exec_step [OF drv len this] obtain s2 where
    s2: "ExecStmt drv (stmt tu) ?args s = (None, s2)" "prepared_step s (stmt tu) (map arg_datum ?args) s2" by blast
  with del(2) [of s2] have h: "holds_table sch wi s2 t (T |` (- {?k}))" "same_other_tables t s s2"
    unfolding tu(2) pick_key(2) [OF row] by blast+
  note pks = schema_ok_pk [OF sch]
  have "\<forall>row\<in>set rows. keyed_row sch row" using Cons.prems by simp
  from Cons.IH [OF h(1) this] obtain s3 where s3: "updater_Delete drv tu rows s2 = (None, s3)"
    "holds_table sch wi s3 t (T |` (- {?k}) |` (- (\<lambda>row. pkey sch (map arg_datum row)) ` set rows))" "same_other_tables t s2 s3"
    by blast
  moreover have "- {?k} \<inter> - (\<lambda>row. pkey sch (map arg_datum row)) ` set rows = - (\<lambda>row. pkey sch (map arg_datum row)) ` set (row # rows)"
    by auto
  ultimately show ?case
    using s2(1) pks pick_key(1) [OF row] same_other_tables_trans [OF h(2)] by (simp add: tu(1) restrict_restrict)
qed

lemma write_rows_Delete_holds:
  assumes drv: "prepared_sound drv" "prepared_complete drv" and sch: "schema_ok (wr_schema req)"
    and req: "wr_event req = DeleteRowEvent" "keys_aligned (wr_schema req) (wr_identifyColumns req)"
      "\<forall>row\<in>set (wr_identityRows req). keyed_row (wr_schema req) row"
    and db: "holds_table (wr_schema req) wi s (wr_table req) T"
  shows "\<exists>s'. write_rows drv req s = (None, s') \<and>
    holds_table (wr_schema req) wi s' (wr_table req)
      (T |` (- (\<lambda>row. pkey (wr_schema req) (map arg_datum row)) ` set (wr_identityRows req))) \<and>
    same_other_tables (wr_table req) s s'"
proof -
  let ?sch = "wr_schema req" and ?st = "DeleteTemplate (wr_table req) (getPrimaryKeyList (wr_schema req))"
  note pks = schema_ok_pk [OF sch] and ix = keyIndicesIn_aligned [OF req(2)]
  define k :: "'a sql_row" where "k = replicate (length (pk_positions ?sch)) (Some undefined)"
  have "Null \<notin> set (map arg_datum k)" by (simp add: k_def arg_datum_def)
  from delete_key_step(1) [OF sch db this] obtain s1 where "prepared_step s ?st (map arg_datum k) s1" ..
  then have "PrepareError drv ?st s = None"
    using exec_step [OF drv, of k ?st s s1] by (simp add: k_def getPrimaryKeyList_nth)
  moreover have "\<not> list_ex (\<lambda>i. length ?sch \<le> i) (pk_positions ?sch)"
    by (auto simp: list_ex_iff dest: pk_positions_lt)
  ultimately obtain tu where tu: "newTableUpdater drv s (wr_table req) ?sch (pk_positions ?sch) (wr_columnCount req)
      (wr_identifyColumns req) (wr_dataColumns req) (wr_event req) = Inr tu"
    "pkIndicesInIdentify tu = pk_positions ?sch" "stmt tu = ?st"
    using pks by (simp add: newTableUpdater_def Let_def req(1) ix buildDeleteTemplate_def key_names_pk)
  from updater_Delete_holds [OF drv sch tu(2,3) db req(3)] show ?thesis
    by (simp add: write_rows_def tu(1)) (simp add: req(1))
qed

section \<open>An executable driver\<close>

fun ref_prepared :: "'v store \<Rightarrow> template \<Rightarrow> 'v drow \<Rightarrow> (string + nat) \<times> 'v store" where
  "ref_prepared s (InsertTemplate t n False) args = run_insert s t [args]"
| "ref_prepared s (InsertTemplate t n True) args = run_upsert s t [args]"
| "ref_prepared s (DeleteTemplate t cs) args =
     (case tables s t of None \<Rightarrow> sql_error s
      | Some tab \<Rightarrow>
          if cs \<noteq> [] \<and> has_columns (tcols tab) cs
          then replace_rows s t (filter (\<lambda>r. \<not> row_matches (tcols tab) cs args r) (trows tab)) 0 else sql_error s)"
| "ref_prepared s (UpdateTemplate t ss cs) args =
     (case tables s t of None \<Rightarrow> sql_error s
      | Some tab \<Rightarrow>
          if ss \<noteq> [] \<and> cs \<noteq> [] \<and> has_columns (tcols tab) ss \<and> has_columns (tcols tab) cs
          then replace_rows s t
            (map (\<lambda>r. if row_matches (tcols tab) cs (drop (length ss) args) r
                      then assign_columns (tcols tab) ss (take (length ss) args) r else r) (trows tab)) 0
          else sql_error s)"

definition ref_driver :: "('v, 'v store) driver" where
  "ref_driver =
     \<lparr>PrepareError = (\<lambda>st s. None),
      RunStmt = (\<lambda>st args s. case ref_prepared s st (map arg_datum args) of (Inl e, s') \<Rightarrow> (Some e, s') | (Inr k, s') \<Rightarrow> (None, s')),
      RowEquals = (\<lambda>sch r1 r2. Inr (r1 = r2))\<rparr>"

lemma ref_prepared_outcome: "outcome (\<lambda>k. prepared_step s st args) s (ref_prepared s st args)"
proof (cases st)
  case (InsertTemplate t n repl)
  then show ?thesis
    using outcome_mono [OF run_insert_outcome, of s t "[args]" "\<lambda>k. prepared_step s st args"]
      outcome_mono [OF run_upsert_outcome, of s t "[args]" "\<lambda>k. prepared_step s st args"]
    by (cases repl) (auto simp: inserted_step_def upserted_step_def)
qed (auto split: option.split intro!: outcome_mono [OF replace_rows_outcome])

lemma ref_driver_sound: "prepared_sound ref_driver"
  unfolding prepared_sound_def
proof (intro allI impI)
  fix st :: template and args :: "'a sql_row" and s
  show "case RunStmt ref_driver st args s of (None, s') \<Rightarrow> prepared_step s st (map arg_datum args) s' | (Some e, s') \<Rightarrow> s' = s"
    using ref_prepared_outcome [of s st "map arg_datum args"]
    by (auto simp: ref_driver_def outcome_def split: prod.splits sum.splits)
qed

lemma ref_prepared_complete: "prepared_step s st args s' \<Longrightarrow> \<exists>k s''. ref_prepared s st args = (Inr k, s'')"
proof (cases st)
  case (InsertTemplate t n repl)
  then show "prepared_step s st args s' \<Longrightarrow> ?thesis" by (cases repl) (auto dest: run_complete)
next
  case (DeleteTemplate t cs)
  then show "prepared_step s st args s' \<Longrightarrow> ?thesis" by (auto split: option.splits dest: replace_rows_complete [where k = 0])
next
  case (UpdateTemplate t ss cs)
  then show "prepared_step s st args s' \<Longrightarrow> ?thesis" by (auto split: option.splits dest: replace_rows_complete [where k = 0])
qed

lemma ref_driver_complete: "prepared_complete ref_driver"
proof -
  have "fst (RunStmt ref_driver st args s) = None" if "prepared_step s st (map arg_datum args) s'" for st s s' and args :: "'a sql_row"
    using ref_prepared_complete [OF that] by (auto simp: ref_driver_def)
  then show ?thesis by (auto simp: prepared_complete_def ref_driver_def)
qed

section \<open>Updates\<close>

lemma length_copy_at [simp]: "k \<le> length buf \<Longrightarrow> length (copy_at buf k src) = length buf"
  by (simp add: copy_at_def)

lemma put_keys_Inr:
  "put_keys buf k is keys = Inr buf' \<Longrightarrow> length buf' = length buf \<and> (is = [] \<or> k + length is \<le> length buf)"
  by (induction buf k "is" keys rule: put_keys.induct) (force split: if_splits)+

lemma length_key_indices: "key_indices cs bm i n = Some is \<Longrightarrow> length is = length (pk_positions cs)"
proof (induction cs arbitrary: i n "is")
  case Nil
  then show ?case by (simp add: pk_positions_def)
next
  case (Cons c cs)
  then show ?case by (auto simp: pk_positions_Cons Let_def split: if_splits)
qed

lemma length_keyIndicesIn: "keyIndicesIn sch bm \<noteq> [] \<Longrightarrow> length (keyIndicesIn sch bm) = length (pk_positions sch)"
  by (auto simp: keyIndicesIn_def split: option.splits dest: length_key_indices)

lemma key_indices_present: "key_indices cs bm i n = Some is \<Longrightarrow> k \<in> set (pk_positions cs) \<Longrightarrow> Bit bm (i + k)"
proof (induction cs arbitrary: i n "is" k)
  case Nil
  then show ?case by (simp add: pk_positions_def)
next
  case (Cons c cs)
  show ?case
  proof (cases k)
    case 0
    with Cons.prems show ?thesis by (auto simp: pk_positions_Cons Let_def split: if_splits)
  next
    case (Suc k')
    with Cons.prems have "k' \<in> set (pk_positions cs)" by (auto simp: pk_positions_Cons split: if_splits)
    moreover from Cons.prems obtain n' is' where "key_indices cs bm (Suc i) n' = Some is'"
      by (auto simp: Let_def split: if_splits)
    ultimately show ?thesis using Cons.IH [of "Suc i" n' is' k'] Suc by simp
  qed
qed

lemma keyIndicesIn_present: "keyIndicesIn sch bm \<noteq> [] \<Longrightarrow> k \<in> set (pk_positions sch) \<Longrightarrow> Bit bm k"
  using key_indices_present [of sch bm 0 0 _ k] by (auto simp: keyIndicesIn_def split: option.splits)

lemma BitCount_le: "BitCount bm \<le> length bm"
  by (simp add: BitCount_def)

lemma BitCount_full: "length bm \<le> BitCount bm \<Longrightarrow> i < length bm \<Longrightarrow> Bit bm i"
  using filter_id_conv [of id bm] length_filter_less [of "bm ! i" bm id] by (force simp: BitCount_def Bit_def)

lemma isPkUpdate_iff:
  "isPkUpdate sch a b \<longleftrightarrow> (\<exists>i\<in>set (pk_positions sch). Bit a i \<and> Bit b i)"
  by (auto simp: isPkUpdate_def list_ex_iff pk_positions_def)

lemma put_keys_Inl: "put_keys buf k is keys = Inl e \<Longrightarrow> \<exists>m. e = Panic m"
  by (induction buf k "is" keys rule: put_keys.induct) (auto split: if_splits)

text \<open>An image that lacks columns gives more values than the statement has places.\<close>

lemma update_args_panics:
  assumes full: "length identify = n" "length data = n" "length sch = n" "length vs = n" "length keys = n"
    and partial: "BitCount identify < n \<or> BitCount data < n" "\<not> isPkUpdate sch identify data"
    and ix: "ix = keyIndicesIn sch identify" and buf: "length buf = BitCount data + (if ix \<noteq> [] then length (pk_positions sch) else BitCount identify)"
  shows "\<exists>m. update_args ix buf vs keys = Inl (Panic m)"
proof (cases "ix = []")
  case True
  have "length buf < n + n" using True partial(1) buf BitCount_le [of identify] BitCount_le [of data] full by (elim disjE) simp_all
  with True full show ?thesis by (auto simp: update_args_def Let_def)
next
  case False
  note present = keyIndicesIn_present [OF False [unfolded ix]]
  have "BitCount data < n"
  proof (rule ccontr)
    assume "\<not> BitCount data < n"
    then have "Bit data i" if "i \<in> set (pk_positions sch)" for i
      using that full BitCount_full [of data i] by (auto dest: pk_positions_lt)
    moreover have "pk_positions sch \<noteq> []" using False length_keyIndicesIn [of sch identify] ix by auto
    ultimately show False using partial(2) present by (metis isPkUpdate_iff list.set_sel(1))
  qed
  then have "length buf < n + length ix" using False buf length_keyIndicesIn [of sch identify] ix by simp
  then have "put_keys (copy_at buf 0 vs) n ix keys \<noteq> Inr b" for b
    using put_keys_Inr [of "copy_at buf 0 vs" n ix keys b] False by auto
  then obtain e where e: "put_keys (copy_at buf 0 vs) n ix keys = Inl e"
    by (cases "put_keys (copy_at buf 0 vs) n ix keys") auto
  moreover have "\<exists>m. e = Panic m" using put_keys_Inl [OF e] .
  ultimately show ?thesis using False full by (auto simp: update_args_def Let_def)
qed

text \<open>The three kinds of updater for an update event.\<close>

lemma newTableUpdater_update:
  assumes new: "newTableUpdater drv s t sch (pk_positions sch) n identify data UpdateRowEvent = Inr tu"
    and ix: "ix = keyIndicesIn sch identify"
  shows "\<not> tx_set tu" "pkIndicesInIdentify tu = ix"
    and "isPkUpdate sch identify data \<Longrightarrow> cleanup tu \<noteq> None"
    and "\<not> isPkUpdate sch identify data \<Longrightarrow> cleanup tu = None"
    and "\<not> isPkUpdate sch identify data \<Longrightarrow> BitCount identify < n \<or> BitCount data < n \<Longrightarrow> \<not> replace tu \<and>
      paramCount tu = BitCount data + (if ix \<noteq> [] then length (pk_positions sch) else BitCount identify)"
    and "\<not> isPkUpdate sch identify data \<Longrightarrow> n \<le> BitCount identify \<Longrightarrow> n \<le> BitCount data \<Longrightarrow>
      replace tu \<and> stmt tu = InsertTemplate t n True"
proof -
  define pks where "pks = (if ix = [] \<and> pk_positions sch \<noteq> [] then [] else pk_positions sch)"
  have pks: "pks = (if ix \<noteq> [] then pk_positions sch else [])" "ix \<noteq> [] \<Longrightarrow> pks \<noteq> []"
    using length_keyIndicesIn [of sch identify] by (auto simp: pks_def ix)
  from new obtain st m repl clean where
    stm: "update_statement t sch pks n identify data ix (keyIndicesIn sch data) = Inr (st, m, repl, clean)"
    and tu: "tu = \<lparr>tx_set = False, stmt = st, replace = repl, cleanup = clean, paramCount = m, pkSubSchema = [],
      pkIndicesInIdentify = ix, pkIndicesInData = keyIndicesIn sch data\<rparr>"
    by (auto simp: newTableUpdater_def Let_def pks_def [symmetric] ix [symmetric] bind_res_def split: if_splits sum.splits option.splits)
  show "\<not> tx_set tu" "pkIndicesInIdentify tu = ix" by (simp_all add: tu)
  show "cleanup tu \<noteq> None" if "isPkUpdate sch identify data"
    using that stm by (auto simp: tu update_statement_def buildInsertTemplate_def Let_def split: if_splits prod.splits)
  show "cleanup tu = None" if "\<not> isPkUpdate sch identify data"
    using that stm by (auto simp: tu update_statement_def buildInsertTemplate_def split: if_splits prod.splits)
  show "\<not> replace tu \<and> paramCount tu = BitCount data + (if ix \<noteq> [] then length (pk_positions sch) else BitCount identify)"
    if "\<not> isPkUpdate sch identify data" "BitCount identify < n \<or> BitCount data < n"
    using that stm pks by (auto simp: tu update_statement_def buildUpdateTemplate_def Let_def split: if_splits)
  show "replace tu \<and> stmt tu = InsertTemplate t n True"
    if "\<not> isPkUpdate sch identify data" "n \<le> BitCount identify" "n \<le> BitCount data"
    using that stm by (auto simp: tu update_statement_def buildInsertTemplate_def)
qed

lemma upsert_without_index_fails:
  assumes "prepared_sound drv" "tables s t = Some tab" "tindex tab = None" "rows \<noteq> []"
  shows "fst (exec_rows drv (InsertTemplate t n True) rows s) \<noteq> None"
proof (cases rows)
  case (Cons r rs)
  let ?st = "InsertTemplate t n True"
  have "\<not> prepared_step s ?st (map arg_datum r) s'" for s' using assms by (simp add: upserted_step_def)
  moreover have "case RunStmt drv ?st r s of (None, s') \<Rightarrow> prepared_step s ?st (map arg_datum r) s' | (Some e, s') \<Rightarrow> s' = s"
    if "length r = n"
    using assms(1) [unfolded prepared_sound_def, rule_format, of r ?st] that by simp
  ultimately have "fst (ExecStmt drv ?st r s) \<noteq> None"
    by (cases "RunStmt drv ?st r s"; cases "fst (RunStmt drv ?st r s)") (auto simp: ExecStmt_def)
  then show ?thesis by (auto simp: Cons split: prod.split option.split)
qed (use assms in simp)

lemma write_rows_Update:
  assumes "newTableUpdater drv s (wr_table req) (wr_schema req) (pk_positions (wr_schema req)) (wr_columnCount req)
      (wr_identifyColumns req) (wr_dataColumns req) (wr_event req) = Inr tu" "wr_event req = UpdateRowEvent"
  shows "write_rows drv req s = updater_Update drv tu (wr_identityRows req) (wr_dataRows req) s"
  using assms by (simp add: write_rows_def)


section \<open>Properties\<close>


definition notes_schema :: schema where
  "notes_schema =
     [\<lparr>col_name = ''id'', col_type = gms_simple Type_UINT8, col_pk = True, col_nullable = False\<rparr>,
      \<lparr>col_name = ''n'', col_type = gms_simple Type_UINT8, col_pk = False, col_nullable = True\<rparr>]"

definition notes_table :: tableIdentifier where
  "notes_table = \<lparr>dbName = ''db'', tableName = ''notes''\<rparr>"

definition notes_rows :: "arrow_value drow list" where
  "notes_rows = [[Val (AUint8 1), Val (AUint8 7)], [Val (AUint8 2), Null]]"

definition notes_store :: "arrow_value store" where
  "notes_store =
     \<lparr>tables = [notes_table \<mapsto> \<lparr>tcols = [''id'', ''n''], tindex = Some [0], trows = notes_rows\<rparr>], views = Map.empty, temp_delta = None\<rparr>"

definition notes_map :: "arrow_value table_map" where
  "notes_map = put_rows notes_schema notes_rows"

definition notes_request :: "RowEventType \<Rightarrow> bitmap \<Rightarrow> bitmap \<Rightarrow> arrow_value sql_row list \<Rightarrow> arrow_value sql_row list \<Rightarrow> arrow_value write_request" where
  "notes_request kind identify data before after =
     \<lparr>wr_table = notes_table, wr_schema = notes_schema, wr_columnCount = 2, wr_identifyColumns = identify, wr_dataColumns = data,
      wr_event = kind, wr_identityRows = before, wr_dataRows = after\<rparr>"

lemma notes_pk: "pk_positions notes_schema = [0]"
  by (simp add: notes_schema_def pk_positions_def)

lemma notes_hold: "holds_table notes_schema False notes_store notes_table notes_map"
proof -
  have "distinct (map (pkey notes_schema) notes_rows)" by (simp add: pkey_def notes_pk notes_rows_def)
  moreover have "length notes_schema = 2" by (simp add: notes_schema_def)
  then have "\<forall>r\<in>set notes_rows. row_ok notes_schema r" by (simp add: notes_rows_def row_ok_def pkey_def notes_pk)
  ultimately have "represents notes_schema notes_rows notes_map" by (simp add: represents_def notes_map_def put_rows_Some)
  then show ?thesis by (simp add: holds_table_def notes_store_def notes_pk) (simp add: col_names_def notes_schema_def)
qed


text \<open>
  When a column before the key is missing, the delete takes the value of the key from the wrong
  place of the row: here from the missing column, so that the statement compares the key with
  \<^verbatim>\<open>NULL\<close> and the row stays.
\<close>

theorem write_rows_delete_misaligned:
  "let sch = rev notes_schema;
       s = \<lparr>tables = [notes_table \<mapsto> \<lparr>tcols = [''n'', ''id''], tindex = Some [1], trows = [[Val (AUint8 7), Val (AUint8 1)]]\<rparr>],
            views = Map.empty, temp_delta = None\<rparr>;
       req = (notes_request DeleteRowEvent [False, True] [] [[None, Some (AUint8 1)]] [[]])\<lparr>wr_schema := sch\<rparr>
   in case write_rows ref_driver req s of
        (e, s') \<Rightarrow> e = None \<and> map_option trows (tables s' notes_table) = Some [[Val (AUint8 7), Val (AUint8 1)]]"
  by (simp add: Let_def notes_request_def notes_schema_def write_rows_def newTableUpdater_def keyIndicesIn_def Bit_def
      pk_positions_def buildDeleteTemplate_def key_names_def ref_driver_def pick_def ExecStmt_def arg_datum_def row_matches_def
      has_columns_def replace_rows_def index_ok_def set_rows_def to_lower_def)



end
