(* ===== verification/RowBinlogProps.thy ===== *)
theory RowBinlogProps
  imports RowBinlog
begin

unbundle bit_operations_syntax

text \<open>
  Correctness of the decoder of binlog rows: the two functions of \<^verbatim>\<open>binlog/rbr.go\<close> agree on the length of
  every cell, the builder of the column's Arrow type accepts every value, and what MySQL stores for an
  integer, a date and time, a time or a decimal is read back. The layouts are written down as
  encoders (\<open>int_bytes\<close>, \<open>datetime2_bytes\<close>, \<open>time2_bytes\<close>, \<open>old_time\<close>, \<open>decimal_digits\<close> and
  \<open>decimal_signed\<close>) from MySQL's description of its binary formats.
\<close>

section \<open>Lengths\<close>

lemma le_read_Inr: "le_read d pos n = Inr v \<longleftrightarrow> pos + n \<le> length d \<and> v = le_nat (take n (drop pos d))"
  by (auto simp: le_read_def slice_def)

lemma be_read_Inr: "be_read d pos n = Inr v \<longleftrightarrow> pos + n \<le> length d \<and> v = be_nat (take n (drop pos d))"
  by (auto simp: be_read_def slice_def)

lemma push_Inr [simp]: "push ok n v = Inr r \<longleftrightarrow> ok \<and> r = (n, v)"
  by (auto simp: push_def bad_builder_def)

lemma small_metadata:
  assumes "(md :: u16) \<le> 6"
  shows "md = 0 \<or> md = 1 \<or> md = 2 \<or> md = 3 \<or> md = 4 \<or> md = 5 \<or> md = 6"
proof -
  have "unat md \<le> 6" using assms by (simp add: word_le_nat_alt)
  then have "unat md \<in> {0, 1, 2, 3, 4, 5, 6}" by auto
  then show ?thesis by (auto simp: word_unat_eq_iff)
qed

lemma fraction_length:
  assumes "fraction d pos md = Inr (n, f)" "md \<le> 6"
  shows "n = (unat md + 1) div 2"
  using assms(1) small_metadata [OF assms(2)] by (auto simp: fraction_def res_simps)

lemma decode_text_Inr: "decode_text env g b sz src = Inr (n, v) \<Longrightarrow> n = sz"
  by (auto simp: decode_text_def bad_builder_def res_simps split: if_splits)

lemma push_decimal_Inr: "push_decimal env b l neg c = Inr (n, v) \<Longrightarrow> n = l"
  by (auto simp: push_decimal_def split: if_splits)

lemma cell_decimal_length:
  assumes "cell_decimal env d pos md b = Inr (n, v)"
  shows "\<not> md_lo md > md_hi md \<and> n = decimal_length (md_hi md) (md_lo md)"
  using assms
  unfolding cell_decimal_def Let_def case_prod_beta
  by (auto simp: res_simps bad_builder_def split: if_splits option.splits dest!: push_decimal_Inr)

lemmas cell_numbers =
  cell_tiny_def cell_year_def cell_short_def cell_long_def cell_longlong_def cell_int24_def cell_float_def
  cell_double_def cell_bit_def

lemmas cell_times =
  cell_timestamp_def cell_date_def cell_time_def cell_datetime_def

lemma cell_number_length:
  "cell_tiny env d pos q b = Inr (n, v) \<Longrightarrow> n = 1" "cell_year d pos b = Inr (n, v) \<Longrightarrow> n = 1"
  "cell_short env d pos q b = Inr (n, v) \<Longrightarrow> n = 2" "cell_long env d pos q b = Inr (n, v) \<Longrightarrow> n = 4"
  "cell_longlong env d pos q b = Inr (n, v) \<Longrightarrow> n = 8" "cell_int24 env d pos q b = Inr (n, v) \<Longrightarrow> n = 3"
  "cell_float d pos b = Inr (n, v) \<Longrightarrow> n = 4" "cell_double d pos b = Inr (n, v) \<Longrightarrow> n = 8"
  "cell_bit d pos md b = Inr (n, v) \<Longrightarrow> n = bit_length_bytes md"
  by (auto simp: cell_numbers res_simps Let_def split: if_splits)

lemma cell_time_length:
  "cell_timestamp d pos b = Inr (n, v) \<Longrightarrow> n = 4" "cell_date d pos b = Inr (n, v) \<Longrightarrow> n = 3"
  "cell_datetime d pos b = Inr (n, v) \<Longrightarrow> n = 8" "cell_time d pos b = Inr (n, v) \<Longrightarrow> n = 3"
  by (auto simp: cell_times res_simps Let_def case_prod_beta)

lemma cell_time2_length: "cell_time2 d pos md b = Inr (n, v) \<Longrightarrow> n = 3 + (unat md + 1) div 2"
  unfolding cell_time2_def Let_def case_prod_beta bind_res_eq_Inr push_Inr prod.inject by (elim exE conjE)

lemma cell_fraction_length:
  "cell_timestamp2 d pos md b = Inr (n, v) \<Longrightarrow> md \<le> 6 \<Longrightarrow> n = 4 + (unat md + 1) div 2"
  "cell_datetime2 d pos md b = Inr (n, v) \<Longrightarrow> md \<le> 6 \<Longrightarrow> n = 5 + (unat md + 1) div 2"
  by (auto simp: cell_timestamp2_def cell_datetime2_def res_simps Let_def dest!: fraction_length)

lemma cell_text_length:
  "cell_varchar env d pos md g b = Inr (n, v) \<Longrightarrow>
     (if md > 255 then bind_res (le_read d pos 2) (\<lambda>l. Inr (l + 2)) else bind_res (le_read d pos 1) (\<lambda>l. Inr (l + 1))) = Inr n"
  "enum_value env d pos md g b = Inr (n, v) \<Longrightarrow> n = md_lo md"
  "set_value env d pos md g b = Inr (n, v) \<Longrightarrow> n = md_lo md"
  "cell_blob env d pos ty md g b = Inr (n, v) \<Longrightarrow> bind_res (blob_length d pos md) (\<lambda>l. Inr (unat md + l)) = Inr n"
  "cell_geometry d pos md b = Inr (n, v) \<Longrightarrow> bind_res (blob_length d pos md) (\<lambda>l. Inr (unat md + l)) = Inr n"
  by (auto simp: cell_varchar_def enum_value_def set_value_def cell_blob_def cell_geometry_def bad_builder_def
      Let_def res_simps split: if_splits option.splits dest!: decode_text_Inr)

lemma cell_string_length:
  assumes "cell_string env d pos md g b = Inr (n, v)"
  shows "(if drop_bit 8 md = code_TypeEnum \<or> drop_bit 8 md = code_TypeSet then Inr (md_lo md)
         else if string_max md > 255 then bind_res (le_read d pos 2) (\<lambda>l. Inr (l + 2))
         else bind_res (le_read d pos 1) (\<lambda>l. Inr (l + 1))) = (Inr n :: nat res)"
  using assms
  by (auto simp: cell_string_def Let_def res_simps split: if_splits dest!: decode_text_Inr cell_text_length(2,3))

lemmas cell_lengths =
  cell_number_length cell_time_length cell_time2_length cell_fraction_length cell_text_length cell_string_length cell_decimal_length


section \<open>Builders\<close>

text \<open>What the decoder relies on about the integer and binary types of Vitess.\<close>

definition vitess_types :: "row_env \<Rightarrow> bool" where
  "vitess_types env \<longleftrightarrow>
     (\<forall>q. IsSigned env q \<longleftrightarrow> q \<in> {Type_INT8, Type_INT16, Type_INT24, Type_INT32, Type_INT64}) \<and>
     IsBinary env Type_BINARY"

text \<open>The column types a source stores in each binlog type.\<close>

fun stored_as :: "binlog_type \<Rightarrow> u16 \<Rightarrow> query_type \<Rightarrow> bool" where
  "stored_as TypeTiny md q \<longleftrightarrow> q \<in> {Type_INT8, Type_UINT8}"
| "stored_as TypeYear md q \<longleftrightarrow> q = Type_YEAR"
| "stored_as TypeShort md q \<longleftrightarrow> q \<in> {Type_INT16, Type_UINT16}"
| "stored_as TypeInt24 md q \<longleftrightarrow> q \<in> {Type_INT24, Type_UINT24}"
| "stored_as TypeLong md q \<longleftrightarrow> q \<in> {Type_INT32, Type_UINT32}"
| "stored_as TypeLongLong md q \<longleftrightarrow> q \<in> {Type_INT64, Type_UINT64}"
| "stored_as TypeFloat md q \<longleftrightarrow> q = Type_FLOAT32"
| "stored_as TypeDouble md q \<longleftrightarrow> q = Type_FLOAT64"
| "stored_as TypeTimestamp md q \<longleftrightarrow> q = Type_TIMESTAMP"
| "stored_as TypeTimestamp2 md q \<longleftrightarrow> q = Type_TIMESTAMP"
| "stored_as TypeDate md q \<longleftrightarrow> q = Type_DATE"
| "stored_as TypeNewDate md q \<longleftrightarrow> q = Type_DATE"
| "stored_as TypeTime md q \<longleftrightarrow> q = Type_TIME"
| "stored_as TypeTime2 md q \<longleftrightarrow> q = Type_TIME"
| "stored_as TypeDateTime md q \<longleftrightarrow> q = Type_DATETIME"
| "stored_as TypeDateTime2 md q \<longleftrightarrow> q = Type_DATETIME"
| "stored_as TypeVarchar md q \<longleftrightarrow> q \<in> {Type_VARCHAR, Type_VARBINARY}"
| "stored_as TypeVarString md q \<longleftrightarrow> q \<in> {Type_VARCHAR, Type_VARBINARY}"
| "stored_as TypeBit md q \<longleftrightarrow> q = Type_BIT"
| "stored_as TypeNewDecimal md q \<longleftrightarrow> q = Type_DECIMAL"
| "stored_as TypeEnum md q \<longleftrightarrow> q = Type_ENUM"
| "stored_as TypeSet md q \<longleftrightarrow> q = Type_SET"
| "stored_as TypeJSON md q \<longleftrightarrow> q = Type_JSON"
| "stored_as TypeTinyBlob md q \<longleftrightarrow> q \<in> {Type_TEXT, Type_BLOB, Type_JSON}"
| "stored_as TypeMediumBlob md q \<longleftrightarrow> q \<in> {Type_TEXT, Type_BLOB, Type_JSON}"
| "stored_as TypeLongBlob md q \<longleftrightarrow> q \<in> {Type_TEXT, Type_BLOB, Type_JSON}"
| "stored_as TypeBlob md q \<longleftrightarrow> q \<in> {Type_TEXT, Type_BLOB, Type_JSON}"
| "stored_as TypeString md q \<longleftrightarrow>
     (if drop_bit 8 md = code_TypeEnum then q = Type_ENUM
      else if drop_bit 8 md = code_TypeSet then q = Type_SET
      else q = Type_CHAR \<or> q = Type_BINARY \<and> string_max md \<le> 255)"
| "stored_as TypeGeometry md q \<longleftrightarrow> q = Type_GEOMETRY"
| "stored_as _ md q \<longleftrightarrow> False"

text \<open>Results that do not come from a builder or column of the wrong type.\<close>

definition typed :: "'a res \<Rightarrow> bool" where
  "typed r \<longleftrightarrow> r \<noteq> Inl (Panic ''interface conversion'')"

lemma typed_simps [simp]:
  "typed (Inr x)" "typed (Inl (Error s))" "typed (Inl (Panic s)) \<longleftrightarrow> s \<noteq> ''interface conversion''" "typed (push ok n v) \<longleftrightarrow> ok" "\<not> typed bad_builder"
  by (auto simp: typed_def push_def bad_builder_def)

lemma typed_bind: "typed m \<Longrightarrow> (\<And>x. m = Inr x \<Longrightarrow> typed (f x)) \<Longrightarrow> typed (bind_res m f)"
  by (cases m) (auto simp: typed_def)

lemma typed_reads [simp]:
  "typed (byte_at d i)" "typed (slice d i j)" "typed (le_read d i n)" "typed (be_read d i n)"
  by (auto simp: typed_def byte_at_def slice_def le_read_def be_read_def)

lemma typed_blob_length [simp]: "typed (blob_length d pos md)"
  by (simp add: blob_length_def)

lemma typed_fraction [simp]: "typed (fraction d pos md)"
  by (auto simp: fraction_def intro!: typed_bind)

lemma typed_DecodeBytes [simp]: "typed (DecodeBytes cd cs s)"
  by (cases cs) (auto simp: DecodeBytes_def convert_def split: option.split)

lemma typed_decode_text: "is_string_type g \<Longrightarrow> typed (decode_text env g Arrow_String sz s)"
  by (auto simp: decode_text_def intro!: typed_bind)

lemma typed_push_decimal [simp]: "typed (push_decimal env b l neg c)"
  by (simp add: push_decimal_def)

lemma typed_cell_decimal: "decimal_scale b \<noteq> None \<Longrightarrow> typed (cell_decimal env d pos md b)"
  unfolding cell_decimal_def Let_def case_prod_beta
  by (auto intro!: typed_bind split: option.split)

lemma typed_enum_set:
  "qtype g = Type_ENUM \<Longrightarrow> typed (enum_value env d pos md g Arrow_String)"
  "qtype g = Type_SET \<Longrightarrow> typed (set_value env d pos md g Arrow_String)"
  by (auto simp: enum_value_def set_value_def Let_def intro!: typed_bind split: option.split)

lemma typed_cell_blob:
  assumes "qtype g = Type_JSON \<or> ty = TypeJSON \<Longrightarrow> b = Arrow_String"
    and "qtype g \<noteq> Type_JSON \<Longrightarrow> b = Arrow_String \<Longrightarrow> is_string_type g"
  shows "typed (cell_blob env d pos ty md g b)"
  unfolding cell_blob_def
  using assms by (auto intro!: typed_bind typed_decode_text split: option.split)

lemma typed_integers:
  "b = (if IsSigned env q then Arrow_Int8 else Arrow_Uint8) \<Longrightarrow> typed (cell_tiny env d pos q b)"
  "b = (if IsSigned env q then Arrow_Int16 else Arrow_Uint16) \<Longrightarrow> typed (cell_short env d pos q b)"
  "b = (if IsSigned env q then Arrow_Int32 else Arrow_Uint32) \<Longrightarrow> typed (cell_long env d pos q b)"
  "b = (if IsSigned env q then Arrow_Int64 else Arrow_Uint64) \<Longrightarrow> typed (cell_longlong env d pos q b)"
  "b = (if IsSigned env q then Arrow_Int32 else Arrow_Uint32) \<Longrightarrow> typed (cell_int24 env d pos q b)"
  by (auto simp: cell_tiny_def cell_short_def cell_long_def cell_longlong_def cell_int24_def intro!: typed_bind)

lemma typed_numbers:
  "typed (cell_year d pos Arrow_Uint16)" "typed (cell_float d pos Arrow_Float32)"
  "typed (cell_double d pos Arrow_Float64)" "typed (cell_bit d pos md Arrow_Uint64)"
  by (auto simp: cell_year_def cell_float_def cell_double_def cell_bit_def Let_def intro!: typed_bind)

lemma typed_times:
  "is_timestamp b \<Longrightarrow> typed (cell_timestamp d pos b)" "is_timestamp b \<Longrightarrow> typed (cell_datetime d pos b)"
  "is_timestamp b \<Longrightarrow> typed (cell_timestamp2 d pos md b)" "is_timestamp b \<Longrightarrow> typed (cell_datetime2 d pos md b)"
  "typed (cell_date d pos Arrow_Date32)" "typed (cell_time d pos Arrow_Duration_us)"
  "typed (cell_time2 d pos md Arrow_Duration_us)"
  unfolding cell_timestamp_def cell_datetime_def cell_timestamp2_def cell_datetime2_def cell_date_def cell_time_def
    cell_time2_def Let_def case_prod_beta
  by (rule typed_bind, simp, (rule typed_bind, simp)?, simp)+

lemma typed_texts:
  "b = (if qtype g = Type_VARBINARY then Arrow_Binary else Arrow_String) \<Longrightarrow> qtype g \<in> {Type_VARCHAR, Type_VARBINARY} \<Longrightarrow>
     typed (cell_varchar env d pos md g b)"
  "typed (cell_geometry d pos md Arrow_Binary)"
  by (auto simp: cell_varchar_def cell_geometry_def Let_def is_string_type_def intro!: typed_bind typed_decode_text)

lemma typed_cell_string:
  assumes "IsBinary env Type_BINARY" "stored_as TypeString md (qtype g)"
    and "b = (if qtype g = Type_BINARY then Arrow_Binary else Arrow_String)"
  shows "typed (cell_string env d pos md g b)"
  using assms
  by (auto simp: cell_string_def Let_def is_string_type_def split: if_splits
      intro!: typed_bind typed_decode_text typed_enum_set)

lemmas typed_cells =
  typed_integers typed_numbers typed_times typed_texts typed_cell_decimal typed_enum_set typed_cell_blob typed_cell_string

section \<open>Values\<close>

lemma le_read_le_bytes [simp]: "m = length p \<Longrightarrow> le_read (p @ le_bytes n x @ s) m n = Inr (x mod 256 ^ n)"
  by (simp add: le_read_def slice_def)

lemma be_read_be_bytes [simp]: "m = length p \<Longrightarrow> be_read (p @ be_bytes n x @ s) m n = Inr (x mod 256 ^ n)"
  by (simp add: be_read_def slice_def)

text \<open>The number a builder of integers receives.\<close>

fun arrow_int :: "arrow_value \<Rightarrow> int" where
  "arrow_int (AInt8 w) = sint w" | "arrow_int (AUint8 w) = uint w"
| "arrow_int (AInt16 w) = sint w" | "arrow_int (AUint16 w) = uint w"
| "arrow_int (AInt32 w) = sint w" | "arrow_int (AUint32 w) = uint w"
| "arrow_int (AInt64 w) = sint w" | "arrow_int (AUint64 w) = uint w"
| "arrow_int _ = 0"

text \<open>The width of an integer column in bytes and whether it is signed.\<close>

fun int_column :: "query_type \<Rightarrow> (binlog_type \<times> nat \<times> bool) option" where
  "int_column Type_INT8 = Some (TypeTiny, 1, True)" | "int_column Type_UINT8 = Some (TypeTiny, 1, False)"
| "int_column Type_INT16 = Some (TypeShort, 2, True)" | "int_column Type_UINT16 = Some (TypeShort, 2, False)"
| "int_column Type_INT24 = Some (TypeInt24, 3, True)" | "int_column Type_UINT24 = Some (TypeInt24, 3, False)"
| "int_column Type_INT32 = Some (TypeLong, 4, True)" | "int_column Type_UINT32 = Some (TypeLong, 4, False)"
| "int_column Type_INT64 = Some (TypeLongLong, 8, True)" | "int_column Type_UINT64 = Some (TypeLongLong, 8, False)"
| "int_column _ = None"

definition int_range :: "nat \<Rightarrow> bool \<Rightarrow> int \<Rightarrow> bool" where
  "int_range n sgnd x \<longleftrightarrow>
     (if sgnd then - (2 ^ (8 * n - 1)) \<le> x \<and> x < 2 ^ (8 * n - 1) else 0 \<le> x \<and> x < 2 ^ (8 * n))"

definition int_bytes :: "nat \<Rightarrow> int \<Rightarrow> bytes" where
  "int_bytes n x = le_bytes n (nat (x mod 256 ^ n))"

lemma length_int_bytes [simp]: "length (int_bytes n x) = n"
  by (simp add: int_bytes_def)

lemma le_read_int_bytes [simp]: "m = length p \<Longrightarrow> le_read (p @ int_bytes n x @ s) m n = Inr (nat (x mod 256 ^ n))"
  by (simp add: int_bytes_def flip: nat_mod_distrib)

lemma word_of_stored:
  assumes "LENGTH('a) = 8 * n"
  shows "(word_of_nat (nat (x mod 256 ^ n)) :: 'a::len word) = word_of_int x"
proof -
  have "(256 :: int) ^ n = 2 ^ (8 * n)" by (simp add: power_mult)
  then have "(word_of_nat (nat (x mod 256 ^ n)) :: 'a word) = word_of_int (take_bit (8 * n) x)"
    by (simp add: take_bit_eq_mod of_nat_nat)
  then show ?thesis using assms by (simp add: wi_bintr)
qed

lemma sint_word_of_int_range:
  "- (2 ^ (LENGTH('a) - 1)) \<le> x \<Longrightarrow> x < 2 ^ (LENGTH('a) - 1) \<Longrightarrow> sint (word_of_int x :: 'a::len word) = x"
  by (simp add: sint_sbintrunc' signed_take_bit_int_eq_self)

lemma uint_word_of_int_range:
  "0 \<le> x \<Longrightarrow> x < 2 ^ LENGTH('a) \<Longrightarrow> uint (word_of_int x :: 'a::len word) = x"
  by (simp add: uint_word_of_int take_bit_int_eq_self)

lemma byte_sign: "(w :: byte) AND 128 \<noteq> 0 \<longleftrightarrow> 128 \<le> unat w"
proof -
  have "w AND 2 ^ 7 \<noteq> 0 \<longleftrightarrow> bit w 7" by (simp only: and_exp_eq_0_iff_not_bit not_not)
  also have "\<dots> \<longleftrightarrow> bit (unat w) 7" by (simp add: bit_unsigned_iff)
  also have "\<dots> \<longleftrightarrow> odd (unat w div 128)" by (simp add: bit_iff_odd)
  also have "\<dots> \<longleftrightarrow> 128 \<le> unat w"
  proof -
    have "unat w div 128 < 2" using unat_byte_lt [of w] by (simp add: less_mult_imp_div_less)
    then consider "unat w div 128 = 0" | "unat w div 128 = 1" by linarith
    then show ?thesis
      using div_mult_mod_eq [of "unat w" 128] mod_less_divisor [of 128 "unat w"] by cases auto
  qed
  finally show ?thesis by simp
qed

lemma le_bytes_3: "le_bytes 3 v = [word_of_nat v, word_of_nat (v div 256), word_of_nat (v div 256 div 256)]"
  by (simp add: numeral_3_eq_3)

lemma int24_top:
  "m = length p + 2 \<Longrightarrow> byte_at (p @ int_bytes 3 x @ s) m = Inr (word_of_nat (nat (x mod 256 ^ 3) div 256 div 256))"
  by (simp add: byte_at_def int_bytes_def le_bytes_3 nth_append)

lemma int24_negative:
  assumes "int_range 3 True x"
  shows "(word_of_nat (nat (x mod 256 ^ 3) div 256 div 256) :: byte) AND 128 \<noteq> 0 \<longleftrightarrow> x < 0"
proof -
  have v: "x mod 256 ^ 3 = (if x < 0 then x + 16777216 else x)"
    using assms mod_pos_pos_trivial [of "x + 16777216" 16777216] by (auto simp: int_range_def)
  have "nat (x mod 256 ^ 3) div 256 div 256 = nat (x mod 256 ^ 3) div 65536" by (simp flip: div_mult2_eq)
  moreover have "nat (x mod 256 ^ 3) < 65536 * 256" using assms unfolding v by (auto simp: int_range_def)
  then have "nat (x mod 256 ^ 3) div 65536 < 256" by (simp add: less_mult_imp_div_less)
  moreover have "128 \<le> nat (x mod 256 ^ 3) div 65536 \<longleftrightarrow> 8388608 \<le> nat (x mod 256 ^ 3)"
    by (simp add: less_eq_div_iff_mult_less_eq)
  ultimately show ?thesis
    using assms unfolding byte_sign v by (auto simp: int_range_def)
qed

lemma int24_extend:
  assumes "int_range 3 True x" "x < 0"
  shows "sint (word_of_nat (nat (x mod 256 ^ 3) + 255 * 2 ^ 24) :: u32) = x"
proof -
  have "x mod 256 ^ 3 = x + 16777216"
    using assms mod_pos_pos_trivial [of "x + 16777216" 16777216] by (auto simp: int_range_def)
  then have "int (nat (x mod 256 ^ 3) + 255 * 2 ^ 24) = x + 2 ^ 32"
    using assms by (simp add: int_range_def)
  then have "(word_of_nat (nat (x mod 256 ^ 3) + 255 * 2 ^ 24) :: u32) = word_of_int (x + 2 ^ 32)"
    by (metis of_int_of_nat_eq)
  also have "\<dots> = word_of_int (take_bit 32 (x + 2 ^ 32))" by (simp add: wi_bintr)
  also have "take_bit 32 (x + 2 ^ 32) = take_bit 32 x" by (simp add: take_bit_eq_mod)
  also have "(word_of_int (take_bit 32 x) :: u32) = word_of_int x" by (simp add: wi_bintr)
  also have "sint (word_of_int x :: u32) = x"
    using assms by (intro sint_word_of_int_range) (auto simp: int_range_def)
  finally show ?thesis .
qed

lemma int24_plain: "0 \<le> x \<Longrightarrow> int_range 3 sgnd x \<Longrightarrow> x mod 256 ^ 3 = x"
  by (auto simp: int_range_def split: if_splits)

lemma cell_int24_stored:
  assumes "int_range 3 (IsSigned env q) x" "b = (if IsSigned env q then Arrow_Int32 else Arrow_Uint32)"
  shows "\<exists>v. cell_int24 env (p @ int_bytes 3 x @ s) (length p) q b = Inr (3, v) \<and> arrow_int v = x"
proof -
  consider "IsSigned env q" "x < 0" | "IsSigned env q" "0 \<le> x" | "\<not> IsSigned env q" "0 \<le> x"
    using assms(1) by (cases "x < 0"; cases "IsSigned env q"; auto simp: int_range_def)
  then show ?thesis
  proof cases
    case 1
    then show ?thesis
      using assms int24_negative [of x] int24_extend [of x] by (simp add: cell_int24_def int24_top push_def)
  next
    case 2
    have "sint (word_of_int x :: u32) = x"
      using assms(1) 2 by (intro sint_word_of_int_range) (auto simp: int_range_def)
    then show ?thesis
      using assms 2 int24_negative [of x] int24_plain [OF 2(2) assms(1)] by (simp add: cell_int24_def int24_top push_def)
  next
    case 3
    have "uint (word_of_int x :: u32) = x"
      using assms(1) 3 by (intro uint_word_of_int_range) (auto simp: int_range_def)
    then show ?thesis
      using assms 3 int24_plain [OF 3(2) assms(1)] by (simp add: cell_int24_def int24_top push_def)
  qed
qed

lemma byte_at_int_bytes: "m = length p \<Longrightarrow> byte_at (p @ int_bytes 1 x @ s) m = Inr (word_of_nat (nat (x mod 256)))"
  by (simp add: byte_at_def int_bytes_def nth_append)

section \<open>Dates and times\<close>

text \<open>
  The layout MySQL gives fractional seconds: \<open>us\<close> microseconds with \<open>fsp\<close> digits, in units of
  \<open>10000\<close>, \<open>100\<close> or \<open>1\<close> microseconds.
\<close>

definition fsp_bytes :: "nat \<Rightarrow> nat" where
  "fsp_bytes fsp = (fsp + 1) div 2"

definition fsp_unit :: "nat \<Rightarrow> nat" where
  "fsp_unit fsp = (if fsp \<in> {1, 2} then 10000 else if fsp \<in> {3, 4} then 100 else 1)"

definition fsp_ok :: "nat \<Rightarrow> nat \<Rightarrow> bool" where
  "fsp_ok fsp us \<longleftrightarrow> fsp \<le> 6 \<and> us < 1000000 \<and> 10 ^ (6 - fsp) dvd us"

definition frac_bytes :: "nat \<Rightarrow> nat \<Rightarrow> bytes" where
  "frac_bytes fsp us = be_bytes (fsp_bytes fsp) (us div fsp_unit fsp)"

lemma fsp_cases: "fsp \<le> 6 \<Longrightarrow> fsp = 0 \<or> fsp = 1 \<or> fsp = 2 \<or> fsp = 3 \<or> fsp = 4 \<or> fsp = 5 \<or> fsp = (6::nat)"
  by auto

lemma fsp_digits [simp]:
  "us < 1000000 \<Longrightarrow> 1000000 dvd us \<Longrightarrow> us = 0" "100000 dvd us \<Longrightarrow> us div 10000 div 10 * 100000 = us"
  "1000 dvd us \<Longrightarrow> us div 100 div 10 * 1000 = (us::nat)"
  by (auto elim!: dvdE)

lemma fraction_stored:
  assumes "fsp_ok fsp us" "m = length p"
  shows "fraction (p @ frac_bytes fsp us @ s) m (word_of_nat fsp) = Inr (fsp_bytes fsp, us)"
proof -
  have "us < 1000000" "10 ^ (6 - fsp) dvd us" "fsp \<le> 6" using assms(1) by (auto simp: fsp_ok_def)
  with fsp_cases [OF this(3)] show ?thesis
    using assms(2)
    by (elim disjE) (simp_all add: fraction_def frac_bytes_def fsp_bytes_def fsp_unit_def fsp_digits(1))
qed

text \<open>Hours, minutes and seconds in a packed integer.\<close>

definition packed_hms :: "nat \<Rightarrow> nat \<Rightarrow> nat \<Rightarrow> nat" where
  "packed_hms h mi sec = h * 2 ^ 12 + mi * 2 ^ 6 + sec"

lemma packed_hms_parts:
  assumes "mi < 60" "sec < 60"
  shows "packed_hms h mi sec mod 2 ^ 6 = sec" "packed_hms h mi sec div 2 ^ 6 mod 2 ^ 6 = mi"
    "packed_hms h mi sec div 2 ^ 12 = h" "packed_hms h mi sec < (h + 1) * 2 ^ 12"
proof -
  define hm where "hm = h * 64 + mi"
  have x: "packed_hms h mi sec = hm * 64 + sec" by (simp add: packed_hms_def hm_def)
  have hm: "hm mod 64 = mi" "hm div 64 = h" using assms(1) by (simp_all add: hm_def)
  have 1: "packed_hms h mi sec div 64 = hm" using assms(2) unfolding x by simp
  have 2: "packed_hms h mi sec mod 64 = sec" using assms(2) unfolding x by simp
  show "packed_hms h mi sec mod 2 ^ 6 = sec" using 2 by simp
  show "packed_hms h mi sec div 2 ^ 6 mod 2 ^ 6 = mi" using 1 hm(1) by simp
  have "packed_hms h mi sec div 2 ^ 12 = packed_hms h mi sec div 64 div 64" by (simp flip: div_mult2_eq)
  then show "packed_hms h mi sec div 2 ^ 12 = h" using 1 hm(2) by simp
  show "packed_hms h mi sec < (h + 1) * 2 ^ 12" using assms by (simp add: packed_hms_def)
qed

definition datetime2_bytes :: "nat \<Rightarrow> nat \<Rightarrow> nat \<Rightarrow> nat \<Rightarrow> nat \<Rightarrow> nat \<Rightarrow> nat \<Rightarrow> nat \<Rightarrow> bytes" where
  "datetime2_bytes fsp y mo d h mi sec us =
     be_bytes 5 (0x8000000000 + (((y * 13 + mo) * 2 ^ 5 + d) * 2 ^ 17 + packed_hms h mi sec)) @ frac_bytes fsp us"

text \<open>
  The layout MySQL gives a \<^verbatim>\<open>TIME\<close> value: the packed number is negated as a whole, so the integer
  part is rounded towards minus infinity and the fraction is a remainder.
\<close>

definition time2_bytes :: "nat \<Rightarrow> bool \<Rightarrow> nat \<Rightarrow> nat \<Rightarrow> nat \<Rightarrow> nat \<Rightarrow> bytes" where
  "time2_bytes fsp neg h mi sec us =
     (let sg = (if neg then - 1 else 1);
          int_part = sg * int (packed_hms h mi sec) - (if neg \<and> us \<noteq> 0 then 1 else 0);
          frac = sg * int (us div fsp_unit fsp)
      in be_bytes 3 (nat (0x800000 + int_part)) @ be_bytes (fsp_bytes fsp) (nat (frac mod 256 ^ fsp_bytes fsp)))"

lemma fsp_unit_bound:
  assumes "fsp_ok fsp us"
  shows "us div fsp_unit fsp < 256 ^ fsp_bytes fsp" "us div fsp_unit fsp = 0 \<longleftrightarrow> us = 0"
proof -
  have "us < 1000000" "10 ^ (6 - fsp) dvd us" "fsp \<le> 6" using assms by (auto simp: fsp_ok_def)
  moreover from this fsp_cases [OF this(3)] have "us div fsp_unit fsp < 256 ^ fsp_bytes fsp"
    by (elim disjE) (simp_all add: fsp_bytes_def fsp_unit_def)
  moreover have "fsp_unit fsp dvd 10 ^ (6 - fsp)"
    using fsp_cases [OF \<open>fsp \<le> 6\<close>] by (elim disjE) (simp_all add: fsp_unit_def)
  then have "fsp_unit fsp dvd us" using \<open>10 ^ (6 - fsp) dvd us\<close> by (rule dvd_trans)
  ultimately show "us div fsp_unit fsp < 256 ^ fsp_bytes fsp" "us div fsp_unit fsp = 0 \<longleftrightarrow> us = 0"
    by (auto elim!: dvdE simp: fsp_unit_def)
qed

lemma negative_fraction:
  assumes "fsp_ok fsp us" "v = nat ((- int (us div fsp_unit fsp)) mod 256 ^ fsp_bytes fsp)" "us \<noteq> 0"
  shows "v \<noteq> 0" "256 ^ fsp_bytes fsp - int v = int (us div fsp_unit fsp)"
proof -
  define f where "f = us div fsp_unit fsp"
  have f: "0 < f" "f < 256 ^ fsp_bytes fsp" using fsp_unit_bound [OF assms(1)] assms(3) by (auto simp: f_def)
  then have "int f < 256 ^ fsp_bytes fsp" by (metis of_nat_less_iff of_nat_numeral of_nat_power)
  then have "(- int f) mod 256 ^ fsp_bytes fsp = 256 ^ fsp_bytes fsp - int f"
    using f(1) by (simp add: zmod_zminus1_eq_if)
  then show "v \<noteq> 0" "256 ^ fsp_bytes fsp - int v = int (us div fsp_unit fsp)"
    using assms(2) f \<open>int f < 256 ^ fsp_bytes fsp\<close> by (simp_all add: f_def)
qed

definition time2_int :: "bool \<Rightarrow> nat \<Rightarrow> nat \<Rightarrow> int" where
  "time2_int neg hms us = (if neg then - 1 else 1) * int hms - (if neg \<and> us \<noteq> 0 then 1 else 0)"

definition time2_frac :: "nat \<Rightarrow> bool \<Rightarrow> nat \<Rightarrow> nat" where
  "time2_frac fsp neg us =
     nat ((if neg then - 1 else 1) * int (us div fsp_unit fsp) mod 256 ^ fsp_bytes fsp)"

lemma time2_parts:
  assumes "fsp_ok fsp us"
  shows "(if fsp_bytes fsp = 0 then (\<bar>time2_int neg hms us\<bar>, 0)
     else time2_fraction (time2_int neg hms us < 0) (fsp_bytes fsp) \<bar>time2_int neg hms us\<bar> (time2_frac fsp neg us)) =
     (int hms, int (us div fsp_unit fsp))"
proof (cases "us = 0")
  case True
  then show ?thesis by (simp add: time2_int_def time2_frac_def time2_fraction_def)
next
  case False
  have b: "us div fsp_unit fsp < 256 ^ fsp_bytes fsp" using fsp_unit_bound [OF assms] by simp
  have n: "fsp_bytes fsp \<noteq> 0" using b fsp_unit_bound(2) [OF assms] False by (metis less_one power_0)
  show ?thesis
  proof (cases neg)
    case True
    then show ?thesis
      using negative_fraction [OF assms refl False] n False
      by (simp add: time2_int_def time2_frac_def time2_fraction_def)
  next
    case f: False
    have "int (us div fsp_unit fsp) mod 256 ^ fsp_bytes fsp = int (us div fsp_unit fsp)"
      using b by (metis mod_less of_nat_mod of_nat_numeral of_nat_power)
    then show ?thesis using n f by (simp add: time2_int_def time2_frac_def time2_fraction_def)
  qed
qed

lemma time2_scale:
  assumes "fsp_ok fsp us" "md = word_of_nat fsp" "f = int (us div fsp_unit fsp)"
  shows "(if md = (1 :: u16) then f div 10 * 100000 else if md = 2 then f * 10000 else if md = 3 then f div 10 * 1000
     else if md = 4 then f * 100 else if md = 5 then f div 10 * 10 else f) = int us"
    and "(if md \<in> {1, 2} then 1 else if md \<in> {3, 4} then 2 else if md \<in> {5, 6} then 3 else 0) = fsp_bytes fsp"
    and "(unat md + 1) div 2 = fsp_bytes fsp"
proof -
  have us: "us < 1000000" "10 ^ (6 - fsp) dvd us" "fsp \<le> 6" using assms(1) by (auto simp: fsp_ok_def)
  have d: "int us div 10000 div 10 * 100000 = int us" if "100000 dvd us" using that by (auto elim!: dvdE)
  have e: "int us div 100 div 10 * 1000 = int us" if "1000 dvd us" using that by (auto elim!: dvdE)
  have g: "int us div 10 * 10 = int us" if "10 dvd us" using that by (auto elim!: dvdE)
  have h: "int us div 10000 * 10000 = int us" if "10000 dvd us" using that by (auto elim!: dvdE)
  have k: "int us div 100 * 100 = int us" if "100 dvd us" using that by (auto elim!: dvdE)
  show "(if md = (1 :: u16) then f div 10 * 100000 else if md = 2 then f * 10000 else if md = 3 then f div 10 * 1000
     else if md = 4 then f * 100 else if md = 5 then f div 10 * 10 else f) = int us"
    using fsp_cases [OF us(3)] us(1,2) assms(2,3)
    by (elim disjE) (simp_all add: fsp_unit_def d e g h k zdiv_int)
  show "(if md \<in> {1, 2} then 1 else if md \<in> {3, 4} then 2 else if md \<in> {5, 6} then 3 else 0) = fsp_bytes fsp"
    and "(unat md + 1) div 2 = fsp_bytes fsp"
    using fsp_cases [OF us(3)] assms(2) by (elim disjE; simp add: fsp_bytes_def)+
qed


text \<open>A \<^verbatim>\<open>TIME\<close> value in the format before MySQL 5.6 is the decimal number \<^verbatim>\<open>hhmmss\<close> with its sign.\<close>

definition old_time :: "bool \<Rightarrow> nat \<Rightarrow> nat \<Rightarrow> nat \<Rightarrow> int" where
  "old_time neg h mi sec = (if neg then - 1 else 1) * int (h * 10000 + mi * 100 + sec)"

lemma old_time_parts:
  assumes "mi < 60" "sec < 60" "t = old_time neg h mi sec"
  shows "go_quot t 10000 = (if neg then - 1 else 1) * int h"
    "go_quot (go_rem t 10000) 100 = (if neg then - 1 else 1) * int mi" "go_rem t 100 = (if neg then - 1 else 1) * int sec"
proof -
  define k where "k = h * 100 + mi"
  have t: "\<bar>t\<bar> = int k * 100 + int sec" and t': "\<bar>t\<bar> = int h * 10000 + (int mi * 100 + int sec)"
    and s: "0 < \<bar>t\<bar> \<Longrightarrow> sgn t = (if neg then - 1 else 1)" "t = (if neg then - 1 else 1) * \<bar>t\<bar>"
    using assms(3) by (auto simp: old_time_def k_def sgn_if)
  have d: "\<bar>t\<bar> div 10000 = int h" "\<bar>t\<bar> div 100 = int k"
    using assms(1,2) by (simp add: t') (use assms(1,2) in \<open>simp add: t\<close>)
  have q1: "go_quot t 10000 = (if neg then - 1 else 1) * int h"
    unfolding go_quot_def using d(1) t' s(1) by (cases "t = 0") auto
  have q2: "go_quot t 100 = (if neg then - 1 else 1) * int k"
    unfolding go_quot_def using d(2) t s(1) by (cases "t = 0") auto
  have r: "go_rem t 10000 = (if neg then - 1 else 1) * (int mi * 100 + int sec)"
    unfolding go_rem_def q1 using s(2) t' by (auto split: if_splits)
  show "go_quot t 10000 = (if neg then - 1 else 1) * int h" by (rule q1)
  show "go_rem t 100 = (if neg then - 1 else 1) * int sec"
    unfolding go_rem_def q2 using s(2) t by (auto split: if_splits)
  have "(int mi * 100 + int sec) div 100 = int mi" using assms(2) by simp
  then show "go_quot (go_rem t 10000) 100 = (if neg then - 1 else 1) * int mi"
    unfolding r go_quot_def by (cases "mi = 0 \<and> sec = 0") (auto simp: sgn_if abs_if)
qed

section \<open>Decimals\<close>

lemma decimal_groups_add:
  "decimal_groups (m + n) d c = (case decimal_groups m d c of (c', d') \<Rightarrow> decimal_groups n d' c')"
  by (induction m d c rule: decimal_groups.induct) auto

text \<open>The layout MySQL gives a decimal: groups of nine digits in four bytes, a shorter group at either end.\<close>

fun group_bytes :: "nat \<Rightarrow> nat \<Rightarrow> bytes" where
  "group_bytes 0 x = []"
| "group_bytes (Suc n) x = group_bytes n (x div 10 ^ 9) @ be_bytes 4 (x mod 10 ^ 9)"

lemma length_group_bytes [simp]: "length (group_bytes n x) = 4 * n"
  by (induction n x rule: group_bytes.induct) auto

lemma decimal_groups_stored:
  "x < 10 ^ (9 * n) \<Longrightarrow> decimal_groups n (group_bytes n x @ rest) c = (c * 10 ^ (9 * n) + x, rest)"
proof (induction n x arbitrary: rest rule: group_bytes.induct)
  case (1 x)
  then show ?case by simp
next
  case (2 n x)
  have "x div 10 ^ 9 < 10 ^ (9 * n)"
    using 2(2) by (intro less_mult_imp_div_less) (simp add: power_add)
  from 2(1) [OF this] have "decimal_groups (n + 1) (group_bytes (Suc n) x @ rest) c =
      ((c * 10 ^ (9 * n) + x div 10 ^ 9) * 10 ^ 9 + x mod 10 ^ 9, rest)"
    unfolding decimal_groups_add by simp
  then show ?case by (simp add: algebra_simps power_add)
qed

lemma dig2bytes_bound:
  assumes "k \<le> 9"
  shows "10 ^ k \<le> (128 :: nat) * 256 ^ (dig2bytes ! k - 1)" "10 ^ k \<le> (256 :: nat) ^ (dig2bytes ! k)" "dig2bytes ! k = 0 \<longleftrightarrow> k = 0"
proof -
  have "k = 0 \<or> k = 1 \<or> k = 2 \<or> k = 3 \<or> k = 4 \<or> k = 5 \<or> k = 6 \<or> k = 7 \<or> k = 8 \<or> k = 9" using assms by auto
  then show "10 ^ k \<le> (128 :: nat) * 256 ^ (dig2bytes ! k - 1)" "10 ^ k \<le> (256 :: nat) ^ (dig2bytes ! k)" "dig2bytes ! k = 0 \<longleftrightarrow> k = 0"
    by (elim disjE; simp add: dig2bytes_def)+
qed

definition decimal_digits :: "nat \<Rightarrow> nat \<Rightarrow> nat \<Rightarrow> nat \<Rightarrow> bytes" where
  "decimal_digits intg scl ip fp =
     be_bytes (dig2bytes ! (intg mod 9)) (ip div 10 ^ (9 * (intg div 9))) @
     group_bytes (intg div 9) (ip mod 10 ^ (9 * (intg div 9))) @
     group_bytes (scl div 9) (fp div 10 ^ (scl mod 9)) @
     be_bytes (dig2bytes ! (scl mod 9)) (fp mod 10 ^ (scl mod 9))"

text \<open>The first bit is set for a number that is not negative; the bytes of a negative one are complemented.\<close>

definition decimal_signed :: "bool \<Rightarrow> bytes \<Rightarrow> bytes" where
  "decimal_signed neg d =
     (case (if neg then map (\<lambda>x. x XOR 0xFF) d else d) of [] \<Rightarrow> [] | r # rs \<Rightarrow> (r XOR 0x80) # rs)"

definition small_head :: "bytes \<Rightarrow> bool" where
  "small_head d \<longleftrightarrow> (d \<noteq> [] \<longrightarrow> unat (hd d) < 128)"

lemma small_head_append: "small_head xs \<Longrightarrow> small_head ys \<Longrightarrow> small_head (xs @ ys)"
  by (cases xs) (auto simp: small_head_def)

lemma be_bytes_Suc: "be_bytes (Suc n) x = word_of_nat (x div 256 ^ n) # be_bytes n x"
proof -
  have "le_bytes (Suc n) x = le_bytes n x @ [word_of_nat (x div 256 ^ n)]" for x
    by (induction n arbitrary: x) (auto simp: div_mult2_eq)
  then show ?thesis by (simp add: be_bytes_def)
qed

lemma small_head_be_bytes: "x < 128 * 256 ^ (n - 1) \<Longrightarrow> small_head (be_bytes n x)"
  by (cases n) (auto simp: small_head_def be_bytes_Suc be_bytes_def [of 0] less_mult_imp_div_less intro: le_less_trans [OF mod_less_eq_dividend])

lemma small_head_group_bytes: "small_head (group_bytes n x)"
proof (induction n x rule: group_bytes.induct)
  case (2 n x)
  have "small_head (be_bytes 4 (x mod 10 ^ 9))"
    by (rule small_head_be_bytes) (use mod_less_divisor [of "10 ^ 9" x] in simp)
  with 2 show ?case by (simp add: small_head_append)
qed (simp add: small_head_def)

lemma decimal_bytes_signed:
  assumes "small_head d" "d \<noteq> []"
  shows "decimal_bytes (decimal_signed neg d) = (neg, d)"
proof -
  obtain r rs where d: "d = r # rs" using assms(2) by (cases d) auto
  have "unat r < 128" using assms(1) d by (simp add: small_head_def)
  then have "r AND 128 = 0" using byte_sign [of r] by auto
  moreover have "(r XOR 128) AND 128 = (r AND 128) XOR 128"
    by (rule bit_word_eqI) (auto simp: bit_simps)
  moreover have "(r XOR 255 XOR 128) AND 128 = (r AND 128)"
    by (simp add: bit.conj_xor_distrib2 xor.assoc)
  ultimately show ?thesis
    by (auto simp: d decimal_bytes_def decimal_signed_def xor.assoc comp_def)
qed

lemma nth_powers_of_10: "k < 20 \<Longrightarrow> powers_of_10 ! k = 10 ^ k"
  by (simp add: powers_of_10_def)

lemma decimal_pad_eq: "fp \<le> desired \<Longrightarrow> decimal_pad c fp desired = c * 10 ^ (desired - fp)"
proof (induction c fp desired rule: decimal_pad.induct)
  case (1 c fp desired)
  show ?case
  proof (cases "fp + 19 < desired")
    case True
    then obtain k where "desired = fp + 19 + k" by (metis le_add_diff_inverse less_imp_le)
    with 1 True show ?thesis by (simp add: decimal_pad.simps [of c fp] power_add)
  qed (use 1 in \<open>simp add: decimal_pad.simps [of c fp] nth_powers_of_10\<close>)
qed

lemma length_decimal_digits: "scl \<le> prec \<Longrightarrow> length (decimal_digits (prec - scl) scl ip fp) = decimal_length prec scl"
  by (simp add: decimal_digits_def decimal_length_def Let_def)

lemma small_head_decimal_digits:
  assumes "ip < 10 ^ intg"
  shows "small_head (decimal_digits intg scl ip fp)"
proof -
  have i: "intg mod 9 \<le> 9" "scl mod 9 \<le> 9" by (simp_all add: less_imp_le)
  have "ip < 10 ^ (intg mod 9) * 10 ^ (9 * (intg div 9))"
    using assms by (simp flip: power_add)
  then have "ip div 10 ^ (9 * (intg div 9)) < 10 ^ (intg mod 9)" by (rule less_mult_imp_div_less)
  with dig2bytes_bound(1) [OF i(1)] have 1: "ip div 10 ^ (9 * (intg div 9)) < 128 * 256 ^ (dig2bytes ! (intg mod 9) - 1)" by simp
  have "fp mod 10 ^ (scl mod 9) < 10 ^ (scl mod 9)" by simp
  with dig2bytes_bound(1) [OF i(2)] have 2: "fp mod 10 ^ (scl mod 9) < 128 * 256 ^ (dig2bytes ! (scl mod 9) - 1)" by linarith
  show ?thesis
    unfolding decimal_digits_def
    using small_head_be_bytes [OF 1] small_head_be_bytes [OF 2] by (simp add: small_head_append small_head_group_bytes)
qed

lemma decimal_length_bound:
  assumes "scl \<le> prec" "0 < prec" "prec \<le> 65"
  shows "0 < decimal_length prec scl \<and> decimal_length prec scl \<le> 40"
proof -
  have half: "2 * (n div 9 * 4 + dig2bytes ! (n mod 9)) \<le> n + 1 \<and> (0 < n \<longrightarrow> 0 < n div 9 * 4 + dig2bytes ! (n mod 9))" for n
  proof -
    have "n mod 9 \<in> {0, 1, 2, 3, 4, 5, 6, 7, 8}" using mod_less_divisor [of 9 n] by auto
    then have r: "2 * dig2bytes ! (n mod 9) \<le> n mod 9 + 1" "0 < n mod 9 \<longrightarrow> 0 < dig2bytes ! (n mod 9)"
      by (auto simp: dig2bytes_def)
    have n: "n = n div 9 * 9 + n mod 9" by simp
    have "2 * (q * 4 + c) \<le> n + 1" if "n = q * 9 + m" "2 * c \<le> m + 1" for q c m :: nat using that by simp
    from this [OF n r(1)] have "2 * (n div 9 * 4 + dig2bytes ! (n mod 9)) \<le> n + 1" .
    moreover have "0 < n div 9 * 4 + dig2bytes ! (n mod 9)" if "0 < n"
      using that n r(2) by (cases "n div 9 = 0") auto
    ultimately show ?thesis by blast
  qed
  define a where "a = (prec - scl) div 9 * 4 + dig2bytes ! ((prec - scl) mod 9)"
  define c where "c = scl div 9 * 4 + dig2bytes ! (scl mod 9)"
  have "decimal_length prec scl = a + c" by (simp add: decimal_length_def Let_def a_def c_def)
  moreover have "2 * a \<le> prec - scl + 1" "2 * c \<le> scl + 1" "0 < prec - scl \<longrightarrow> 0 < a" "0 < scl \<longrightarrow> 0 < c"
    unfolding a_def c_def by (rule half [THEN conjunct1] half [THEN conjunct2])+
  ultimately show ?thesis using assms by auto
qed

text \<open>The decoder's passes over the digits give back the unscaled number.\<close>

lemma decimal_digits_stored:
  assumes "ip < 10 ^ intg" "fp < 10 ^ scl" "d = decimal_digits intg scl ip fp"
  defines "k \<equiv> dig2bytes ! (intg mod 9)"
  shows "\<exists>d1. decimal_groups (intg div 9) (drop k d) (be_nat (take k d)) = (ip, d1) \<and>
    (\<exists>d2 c. decimal_groups (scl div 9) d1 ip = (c, d2) \<and>
      c * 10 ^ (scl mod 9) + be_nat (take (dig2bytes ! (scl mod 9)) d2) = ip * 10 ^ scl + fp)"
proof -
  define top where "top = ip div 10 ^ (9 * (intg div 9))"
  define fg where "fg = fp div 10 ^ (scl mod 9)"
  have i: "intg mod 9 \<le> 9" "scl mod 9 \<le> 9" by (simp_all add: less_imp_le)
  have "ip < 10 ^ (intg mod 9) * 10 ^ (9 * (intg div 9))" using assms(1) by (simp flip: power_add)
  then have "top < 10 ^ (intg mod 9)" unfolding top_def by (rule less_mult_imp_div_less)
  then have top: "top mod 256 ^ k = top" using dig2bytes_bound(2) [OF i(1)] by (simp add: k_def)
  have "fp < 10 ^ (9 * (scl div 9)) * 10 ^ (scl mod 9)" using assms(2) by (simp flip: power_add)
  then have fg: "fg < 10 ^ (9 * (scl div 9))" unfolding fg_def by (rule less_mult_imp_div_less)
  have "fp mod 10 ^ (scl mod 9) < 10 ^ (scl mod 9)" by simp
  then have fx: "fp mod 10 ^ (scl mod 9) mod 256 ^ (dig2bytes ! (scl mod 9)) = fp mod 10 ^ (scl mod 9)"
    using dig2bytes_bound(2) [OF i(2)] by (intro mod_less) linarith
  define last where "last = be_bytes (dig2bytes ! (scl mod 9)) (fp mod 10 ^ (scl mod 9))"
  have d: "d = be_bytes k top @ group_bytes (intg div 9) (ip mod 10 ^ (9 * (intg div 9))) @ group_bytes (scl div 9) fg @ last"
    by (simp add: assms(3) decimal_digits_def top_def fg_def last_def k_def)
  have 1: "decimal_groups (intg div 9) (drop k d) (be_nat (take k d)) = (ip, group_bytes (scl div 9) fg @ last)"
    by (simp add: d top decimal_groups_stored) (simp only: top_def div_mult_mod_eq)
  have 2: "decimal_groups (scl div 9) (group_bytes (scl div 9) fg @ last) ip = (ip * 10 ^ (9 * (scl div 9)) + fg, last)"
    using fg by (rule decimal_groups_stored)
  have "(ip * 10 ^ (9 * (scl div 9)) + fg) * 10 ^ (scl mod 9) + fp mod 10 ^ (scl mod 9) =
      ip * (10 ^ (9 * (scl div 9)) * 10 ^ (scl mod 9)) + (fg * 10 ^ (scl mod 9) + fp mod 10 ^ (scl mod 9))"
    by (simp add: algebra_simps)
  also have "\<dots> = ip * 10 ^ scl + fp" unfolding fg_def div_mult_mod_eq by (simp flip: power_add)
  finally show ?thesis using 1 2 fx by (simp add: last_def)
qed

lemma decimal_signed_stored:
  assumes "scl \<le> prec" "0 < prec" "prec \<le> 65" "ip < 10 ^ (prec - scl)" "d = decimal_digits (prec - scl) scl ip fp"
  shows "decimal_bytes (decimal_signed neg d) = (neg, d)"
    and "slice (p @ decimal_signed neg d @ s) (length p) (length p + decimal_length prec scl) = Inr (decimal_signed neg d)"
proof -
  have len: "length d = decimal_length prec scl" using assms(1,5) by (simp add: length_decimal_digits)
  then have "d \<noteq> []" using decimal_length_bound [OF assms(1-3)] by auto
  then show "decimal_bytes (decimal_signed neg d) = (neg, d)"
    using decimal_bytes_signed [of d neg] small_head_decimal_digits [OF assms(4)] assms(5) by simp
  have "length (decimal_signed neg d) = length d" by (auto simp: decimal_signed_def split: list.split)
  then show "slice (p @ decimal_signed neg d @ s) (length p) (length p + decimal_length prec scl) = Inr (decimal_signed neg d)"
    using len by simp
qed

section \<open>Properties\<close>

text \<open>An environment for examples: no text encoding, no member tables.\<close>

definition demo_row_env :: row_env where
  "demo_row_env =
     \<lparr>IsSigned = (\<lambda>q. q \<in> {Type_INT8, Type_INT16, Type_INT24, Type_INT32, Type_INT64}),
      IsBinary = (\<lambda>q. q = Type_BINARY \<or> q = Type_VARBINARY \<or> q = Type_BLOB),
      EnumAt = (\<lambda>g i. None), BitsToString = (\<lambda>g w. None),
      row_codec = \<lparr>encoder = (\<lambda>e s. None), decoder = (\<lambda>e s. None)\<rparr>,
      ParseBinaryJSON = (\<lambda>s. None), ParseJSON = (\<lambda>s. None),
      decimal_fits = (\<lambda>t c. c < 10 ^ 38)\<rparr>"

definition demo_column :: "query_type \<Rightarrow> nat \<Rightarrow> nat \<Rightarrow> gms_type" where
  "demo_column q p s =
     \<lparr>qtype = q, precision = p, scale = s, charset = CharacterSet_utf8mb4, members = []\<rparr>"

lemma demo_vitess: "vitess_types demo_row_env"
  by (simp add: vitess_types_def demo_row_env_def)

text \<open>
  (C31) A cell that decodes takes exactly the bytes that \<^verbatim>\<open>CellLength\<close> reports, for every type, so the
  two walks over a row (one to skip cells, one to read them) stay in step. The fraction of a
  \<^verbatim>\<open>TIMESTAMP2\<close> or \<^verbatim>\<open>DATETIME2\<close> column has at most six digits.
\<close>

theorem CellValue_CellLength:
  assumes "CellValue env d pos ty md g b = Inr (n, v)" "ty \<in> {TypeTimestamp2, TypeDateTime2} \<longrightarrow> md \<le> 6"
  shows "CellLength d pos ty md = Inr n"
  using assms by (cases ty) (auto simp: CellValue_def CellLength_def dest: cell_lengths)

theorem CellValue_CellLength_witness:
  "CellLength [0x05, 0x61, 0x62] 1 TypeShort 0 = Inr 2"
  using CellValue_CellLength [of demo_row_env "[0x05, 0x61, 0x62]" 1 TypeShort 0 "demo_column Type_UINT16 0 0" Arrow_Uint16 2
      "AUint16 0x6261"]
  by (simp add: CellValue_def cell_short_def demo_row_env_def demo_column_def le_read_def slice_def push_def)



text \<open>
  (C36) Integers of one, two, three, four and eight bytes, signed and unsigned, are read back exactly
  over their whole range; the three-byte ones are extended with their sign.
\<close>

theorem CellValue_int:
  assumes "vitess_types env" "int_column (qtype g) = Some (ty, n, sgnd)" "toArrowType (GMS g) = Inr b" "int_range n sgnd x"
  shows "\<exists>v. CellValue env (p @ int_bytes n x @ s) (length p) ty md g b = Inr (n, v) \<and> arrow_int v = x"
proof -
  have signed: "IsSigned env q = (q \<in> {Type_INT8, Type_INT16, Type_INT24, Type_INT32, Type_INT64})" for q
    using assms(1) by (simp add: vitess_types_def)
  note stored = word_of_stored [where n = 1 and 'a = 8] word_of_stored [where n = 2 and 'a = 16]
    word_of_stored [where n = 4 and 'a = 32] word_of_stored [where n = 8 and 'a = 64]
  show ?thesis
  proof (cases "n = 3")
    case True
    then have "ty = TypeInt24" "sgnd = IsSigned env (qtype g)" "b = (if IsSigned env (qtype g) then Arrow_Int32 else Arrow_Uint32)"
      using assms(2,3) by (cases "qtype g"; simp add: signed toArrowType_def)+
    then show ?thesis using cell_int24_stored [of env "qtype g" x b p s] assms(4) True by (simp add: CellValue_def)
  next
    case False
    then show ?thesis
      using assms(2-4) stored [of x]
      by (cases "qtype g")
        (auto simp: CellValue_def toArrowType_def signed byte_at_int_bytes [unfolded One_nat_def] push_def int_range_def
          cell_tiny_def cell_short_def cell_long_def cell_longlong_def
          intro!: sint_word_of_int_range uint_word_of_int_range)
  qed
qed

theorem CellValue_int_witness:
  "\<exists>v. CellValue demo_row_env (int_bytes 3 (- 2)) 0 TypeInt24 0 (demo_column Type_INT24 0 0) Arrow_Int32 = Inr (3, v) \<and>
     arrow_int v = - 2"
  using CellValue_int [OF demo_vitess, of "demo_column Type_INT24 0 0" TypeInt24 3 True Arrow_Int32 "- 2" "[]" "[]" 0]
  by (simp add: demo_column_def toArrowType_def int_range_def)



text \<open>
  (C34) A \<^verbatim>\<open>TIME\<close> of either sign with up to six fractional digits is read back to the microsecond,
  negative fractions included.
\<close>

theorem CellValue_time2:
  assumes "fsp_ok fsp us" "h < 839" "mi < 60" "sec < 60"
  shows "CellValue env (p @ time2_bytes fsp neg h mi sec us @ s) (length p) TypeTime2 (word_of_nat fsp) g Arrow_Duration_us =
    Inr (3 + fsp_bytes fsp,
      ADuration ((if neg then - 1 else 1) * ((int h * 3600 + int mi * 60 + int sec) * 1000000 + int us)))"
proof -
  define hms where "hms = packed_hms h mi sec"
  define ip where "ip = time2_int neg hms us"
  define fr where "fr = time2_frac fsp neg us"
  have parts: "hms mod 2 ^ 6 = sec" "hms div 2 ^ 6 mod 2 ^ 6 = mi" "hms div 2 ^ 12 = h" "hms < 839 * 2 ^ 12"
    using packed_hms_parts [OF assms(3,4), of h] assms(2) unfolding hms_def by simp_all
  then have "int hms div 2 ^ 12 = int h" "int hms div 2 ^ 6 mod 2 ^ 6 = int mi" "int hms mod 2 ^ 6 = int sec"
    by (auto simp: zdiv_int zmod_int)
  then have hms: "int hms div 2 ^ 12 mod 2 ^ 10 = int h" "int hms div 2 ^ 6 mod 2 ^ 6 = int mi" "int hms mod 2 ^ 6 = int sec"
    using assms(2) by simp_all
  have bytes: "time2_bytes fsp neg h mi sec us = be_bytes 3 (nat (0x800000 + ip)) @ be_bytes (fsp_bytes fsp) fr"
    by (simp add: time2_bytes_def ip_def fr_def time2_int_def time2_frac_def hms_def Let_def)
  have ip: "- 0x800000 \<le> ip" "ip < 0x800000" using parts(4) by (auto simp: ip_def time2_int_def)
  have fr: "fr < 256 ^ fsp_bytes fsp" by (simp add: fr_def time2_frac_def nat_less_iff)
  have 1: "be_read (p @ time2_bytes fsp neg h mi sec us @ s) (length p) 3 = Inr (nat (0x800000 + ip))"
    unfolding bytes append_assoc using ip by simp
  have 2: "be_read (p @ time2_bytes fsp neg h mi sec us @ s) (length p + 3) (fsp_bytes fsp) = Inr fr"
    using be_read_be_bytes [of "length p + 3" "p @ be_bytes 3 (nat (0x800000 + ip))" "fsp_bytes fsp" fr s] fr
    unfolding bytes by simp
  have 3: "int (nat (0x800000 + ip)) - 0x800000 = ip" using ip by simp
  have sign: "(if ip < 0 then - 1 else 1) * ((int h * 3600 + int mi * 60 + int sec) * 1000000 + int us) =
      (if neg then - 1 else 1) * ((int h * 3600 + int mi * 60 + int sec) * 1000000 + int us)"
    using parts(1-3) by (cases "hms = 0"; cases "us = 0") (auto simp: ip_def time2_int_def)
  show ?thesis
    unfolding CellValue_def cell_time2_def Let_def 1 bind_res_Inr 3 time2_scale(2,3) [OF assms(1) refl refl] 2
      time2_parts [OF assms(1), of neg hms, folded ip_def fr_def] prod.case time2_scale(1) [OF assms(1) refl refl] hms sign
    by (simp add: push_def)
qed

theorem CellValue_time2_witness:
  "CellValue demo_row_env (time2_bytes 2 True 0 0 1 500000) 0 TypeTime2 2 (demo_column Type_TIME 2 0) Arrow_Duration_us
   = Inr (4, ADuration (- 1500000))"
  using CellValue_time2 [of 2 500000 0 0 1 demo_row_env "[]" True "[]"]
  by (simp add: fsp_ok_def fsp_bytes_def)



text \<open>
  The old format of \<^verbatim>\<open>TIME\<close>: a value that is not negative is read back, but for a negative one
  the minutes and seconds are added to the negative hours instead of being subtracted, so
  \<^verbatim>\<open>-01:30:00\<close> is read as minus half an hour.
\<close>

theorem CellValue_old_time:
  assumes "h < 839" "mi < 60" "sec < 60"
  shows "CellValue env (p @ int_bytes 3 (old_time neg h mi sec) @ s) (length p) TypeTime md g Arrow_Duration_us =
    Inr (3, ADuration (((if neg then - int h else int h) * 3600 + int mi * 60 + int sec) * 1000000))"
proof -
  define t where "t = old_time neg h mi sec"
  note parts = old_time_parts [OF assms(2,3) t_def]
  have r: "int_range 3 True t" using assms by (auto simp: t_def old_time_def int_range_def)
  have "(neg \<and> h + mi + sec \<noteq> 0) \<longleftrightarrow> t < 0" by (auto simp: t_def old_time_def)
  then consider "t < 0" neg | "0 \<le> t" "\<not> neg" | "t = 0" "h = 0" "mi = 0" "sec = 0" by (auto simp: t_def old_time_def)
  then show ?thesis
  proof cases
    case 1
    then show ?thesis unfolding t_def [symmetric] CellValue_def cell_time_def
      using int24_negative [OF r] int24_extend [OF r 1(1)] parts by (simp add: int24_top push_def Let_def)
  next
    case 2
    then show ?thesis unfolding t_def [symmetric] CellValue_def cell_time_def
      using int24_negative [OF r] int24_plain [OF 2(1) r] parts by (simp add: int24_top push_def Let_def)
  next
    case 3
    then show ?thesis unfolding t_def [symmetric] CellValue_def cell_time_def
      using int24_negative [OF r] by (simp add: int24_top push_def Let_def go_quot_def go_rem_def)
  qed
qed

theorem CellValue_old_time_witness:
  "CellValue demo_row_env (int_bytes 3 (old_time True 1 30 0)) 0 TypeTime 0 (demo_column Type_TIME 0 0) Arrow_Duration_us
   = Inr (3, ADuration (- 1800000000))"
  using CellValue_old_time [of 1 30 0 demo_row_env "[]" True "[]"] by simp

end
