(* ===== verification/ApplierProps.thy ===== *)
theory ApplierProps
  imports TableUpdaterProps RowBinlogProps
begin

text \<open>
  The properties of the binlog applier. The first group runs the event loop over the delta
  controller: the data the replica has committed are those of the transactions its recorded position
  names. A concrete stream of one transaction shows that the hypotheses can be met. The second group
  is about the status variables of query events.
\<close>

text \<open>The state after the stream has been started at the position \<open>p0\<close>, with no transaction open.\<close>

definition stream_start :: "('c, 's, 'x, 'p, 'w) applier_env \<Rightarrow> 'p \<Rightarrow> ('c, 's, 'p) applier \<Rightarrow> bool" where
  "stream_start env p0 a0 \<longleftrightarrow> (\<exists>now a. a0 = reset_stream env now p0 a \<and> txn (sess a) = None)"

lemma stream_start_ok:
  assumes "provider env = tableWriterProvider denv wi writer" "sql_faithful (env_exec denv)" "schemas_ok tabs sch"
    and "stream_start env p0 a0" "tables_hold wi tabs sch (contents (committed (sess a0))) M0"
  shows "replica.stream_ok sch denv wi tabs env p0 (position_row (committed (sess a0))) M0 a0 [] Idle"
proof (rule replica.initial_stream_ok)
  show "replica_holds denv wi tabs sch (contents (committed (sess a0))) M0" using assms by (simp add: replica_holds_iff)
  show "replica_buffers tabs sch M0 (buffer a0) []"
    using assms(1,3,4)
    by (auto simp: replica_buffers_def stream_start_def reset_stream_def tableWriterProvider_def Close_def schemas_ok_def)
qed (use assms(4) in \<open>auto simp: stream_start_def reset_stream_def\<close>)

section \<open>A stream of one transaction\<close>

definition pair_schema :: schema where
  "pair_schema =
     [\<lparr>col_name = ''id'', col_type = gms_simple Type_UINT8, col_pk = True, col_nullable = False\<rparr>,
      \<lparr>col_name = ''n'', col_type = gms_simple Type_UINT8, col_pk = False, col_nullable = True\<rparr>]"

definition pair_store :: "arrow_value store" where
  "pair_store =
     \<lparr>tables = [demo_table \<mapsto> \<lparr>tcols = [''id'', ''n''], tindex = Some [0], trows = []\<rparr>], views = Map.empty, temp_delta = None\<rparr>"

definition pair_delta_env :: "arrow_value delta_env" where
  "pair_delta_env = \<lparr>env_exec = ref_exec, env_hash = (\<lambda>_. 0), env_IsTimestampType = (\<lambda>_. False)\<rparr>"

definition commit_session :: "'d session \<Rightarrow> 'd session" where
  "commit_session s = (case txn s of Some (OpenTx d) \<Rightarrow> s\<lparr>committed := d, txn := None\<rparr> | _ \<Rightarrow> s)"

type_synonym pair_env = "(arrow_value controller, arrow_value store, arrow_value, gtid list, byte) applier_env"

definition pair_env :: pair_env where
  "pair_env =
     \<lparr>provider = tableWriterProvider pair_delta_env False (write_rows ref_driver), filters = None, cells_env = demo_row_env,
      AppendGTID = (\<lambda>p g. case g of None \<Rightarrow> p | Some g \<Rightarrow> if g \<in> set p then p else p @ [g]), IsZero = (\<lambda>p. p = []),
      SourceServer = (\<lambda>g. ''s''), persistSourceUuid = (\<lambda>u. None),
      PrepareQuery = (\<lambda>q d. Inr (if SQL q = ''COMMIT'' then Commit else StartTransaction)),
      EngineQuery = (\<lambda>q s. ((None, None), if SQL q = ''COMMIT'' then commit_session s else s)),
      CatalogDatabase = (\<lambda>n d. None), GetTableInsensitive = (\<lambda>dn tn d. Inr (Some (pair_schema, ''t''))),
      ConnError = (\<lambda>s. None), BeginError = (\<lambda>s. None), CommitError = (\<lambda>s. None), SaveError = (\<lambda>s. None),
      VitessCellValue = (\<lambda>d p t m c. bind_res (byte_at d p) (\<lambda>b. Inr (b, 1))), ConvertValue = (\<lambda>c b. Inr (AUint8 b))\<rparr>"

definition pair_begin :: "query \<Rightarrow> bool" where
  "pair_begin q \<longleftrightarrow> q = begin_query"

definition pair_map :: TableMap where
  "pair_map = \<lparr>tm_Flags = 0, tm_Database = ''db'', tm_Name = ''t'', tm_Types = [TypeTiny, TypeTiny], tm_Metadata = [0, 0]\<rparr>"

definition pair_rows :: Rows where
  "pair_rows =
     \<lparr>rows_Flags = 1, IdentifyColumns = [], DataColumns = [True, True],
      row_images = [\<lparr>NullIdentifyColumns = [], NullColumns = [False, False], Identify = [], Data = [1, 7]\<rparr>]\<rparr>"

definition pair_change :: "arrow_value change" where
  "pair_change = \<lparr>ch_kind = InsertRowEvent, ch_dels = [], ch_inss = [[Val (AUint8 1), Val (AUint8 7)]]\<rparr>"

definition pair_gtid :: gtid where
  "pair_gtid = Mysql56GTID ''s'' 5"

definition pair_initial :: "(arrow_value controller, arrow_value store, gtid list) applier" where
  "pair_initial =
     reset_stream pair_env 0 []
       \<lparr>format = None, tableMapsById = Map.empty, tablesByName = Map.empty, currentGtid = None, previousGtid = None,
        replicationSourceUuid = [], currentPosition = [], pendingPosition = [], ongoingBatchTxn = False, dirtyTxn = False,
        dirtyStream = False, inTxnStmtID = 0, deltaBufSize = 0, lastCommitTime = 0, buffer = NewController,
        sess = \<lparr>committed = \<lparr>contents = pair_store, position_row = None\<rparr>, txn = None\<rparr>,
        sess_vars = set_flag_vars 0\<rparr>"

definition pair_input :: "nat \<Rightarrow> event \<Rightarrow> (arrow_value controller, arrow_value store, gtid list) applier \<Rightarrow>
    (arrow_value controller, arrow_value store, gtid list) applier" where
  "pair_input now ev a = snd (handle_input pair_env now (EventInput ev) a)"

definition begin_bytes :: bytes where
  "begin_bytes = replicate 32 0"

definition pair_format where "pair_format = pair_input 1 (EvFormatDescription (Inr 19)) pair_initial"
definition pair_gtid_seen where "pair_gtid_seen = pair_input 2 (EvGTID (Inr (pair_gtid, False))) pair_format"
definition pair_begun where "pair_begun = pair_input 3 (EvQuery begin_bytes (Inr begin_query)) pair_gtid_seen"
definition pair_mapped where "pair_mapped = pair_input 4 (EvTableMap 9 (Inr pair_map)) pair_begun"
definition pair_inserted where "pair_inserted = pair_input 5 (EvRows InsertRowEvent 9 (Inr pair_rows)) pair_mapped"
definition pair_done where "pair_done = pair_input 6 EvXID pair_inserted"

definition pair_event :: row_event where
  "pair_event = (demo_table, gtid_stamp (Some pair_gtid) (inTxnStmtID pair_mapped), pair_change)"


lemma pair_good: "good_env pair_env pair_begin"
  by (auto simp: good_env_def pair_env_def pair_begin_def begin_query_def commit_query_def engine_txn_def commit_session_def
      view_def tx_alive_def split: option.split tx.split)

lemma pair_gtid_seen_eq:
  "pair_gtid_seen = pair_initial\<lparr>format := Some 19, previousGtid := None, currentGtid := Some pair_gtid, replicationSourceUuid := ''s''\<rparr>"
  by (simp add: pair_gtid_seen_def pair_format_def pair_input_def handle_input_def processBinlogEvent_def processGTIDEvent_def
      pair_initial_def reset_stream_def pair_env_def)

lemma begin_vars: "parseQueryEventVars 19 begin_bytes = Inr (0, 0)"
  by code_simp

lemma pair_begun_eq:
  "\<exists>s. pair_begun = pair_gtid_seen\<lparr>sess_vars := set_flag_vars 0, buffer := [], deltaBufSize := 0, sess := s, dirtyTxn := True,
     dirtyStream := True, ongoingBatchTxn := True, inTxnStmtID := 1\<rparr>"
proof -
  define a where "a = pair_gtid_seen\<lparr>sess_vars := set_flag_vars 0\<rparr>"
  have a: "format pair_gtid_seen = Some 19" "\<not> ongoingBatchTxn a" "\<not> dirtyTxn a" "buffer a = []" "txn (sess a) = None" "inTxnStmtID a = 0"
    by (simp_all add: a_def pair_gtid_seen_eq pair_initial_def reset_stream_def pair_env_def tableWriterProvider_def Close_def)
  have env: "ConnError pair_env s = None" "BeginError pair_env s = None" "FlushDeltaBuffer (provider pair_env) = FlushDelta pair_delta_env False"
    "PrepareQuery pair_env begin_query d = Inr StartTransaction" "EngineQuery pair_env begin_query s = ((None, None), s)" for s d
    by (simp_all add: pair_env_def tableWriterProvider_def begin_query_def)
  have "\<exists>s. flushDeltaBuffer pair_env UnknownFlushReason a = (None, a\<lparr>buffer := [], deltaBufSize := 0, sess := s\<rparr>)"
    using a by (simp add: flushDeltaBuffer_def env GetTxn_def FlushDelta_def Flush_def Let_def) blast
  then obtain s where f: "flushDeltaBuffer pair_env UnknownFlushReason a = (None, a\<lparr>buffer := [], deltaBufSize := 0, sess := s\<rparr>)" by blast
  have "executeQueryWithEngine pair_env 3 begin_query a =
      (None, a\<lparr>buffer := [], deltaBufSize := 0, sess := s, dirtyTxn := True, dirtyStream := True, ongoingBatchTxn := True\<rparr>)"
    using a f by (simp add: executeQueryWithEngine_def env mayExtendBatchTxn_def query_plan_def execute_def CauseImplicitCommitAfter_def Let_def)
      (simp add: begin_query_def)
  then show ?thesis
    using a unfolding pair_begun_def pair_input_def handle_input_def processBinlogEvent_def
    by (auto simp: processQueryEvent_def begin_vars a_def)
qed

lemma pair_facts:
  "format pair_format = Some 19" "format pair_begun = Some 19" "format pair_mapped = Some 19" "inTxnStmtID pair_mapped = 1"
  "tableMapsById pair_mapped 9 = Some pair_map" "tablesByName pair_mapped = Map.empty"
  "currentGtid pair_mapped = Some pair_gtid" "ongoingBatchTxn pair_mapped" "lastCommitTime pair_mapped = 0"
proof -
  obtain s where b: "pair_begun = pair_gtid_seen\<lparr>sess_vars := set_flag_vars 0, buffer := [], deltaBufSize := 0, sess := s, dirtyTxn := True,
     dirtyStream := True, ongoingBatchTxn := True, inTxnStmtID := 1\<rparr>" using pair_begun_eq by blast
  show "format pair_format = Some 19"
    by (simp add: pair_format_def pair_input_def handle_input_def processBinlogEvent_def)
  show fb: "format pair_begun = Some 19" by (simp add: b pair_gtid_seen_eq)
  have m: "pair_mapped = pair_begun\<lparr>tableMapsById := (tableMapsById pair_begun)(9 \<mapsto> pair_map)\<rparr>"
    using fb by (simp add: pair_mapped_def pair_input_def handle_input_def processBinlogEvent_def processTableMapEvent_def)
  show "format pair_mapped = Some 19" "inTxnStmtID pair_mapped = 1"
  "tableMapsById pair_mapped 9 = Some pair_map" "tablesByName pair_mapped = Map.empty"
  "currentGtid pair_mapped = Some pair_gtid" "ongoingBatchTxn pair_mapped" "lastCommitTime pair_mapped = 0"
    by (simp_all add: m b pair_gtid_seen_eq pair_initial_def reset_stream_def)
qed

lemma pair_row_change: "row_change demo_row_env pair_map pair_schema InsertRowEvent pair_rows = Inr pair_change"
  by (simp add: row_change_def image_rows_def pair_rows_def row_values_def pair_schema_def pair_map_def Bit_def cell_datum_def
      gms_simple_def toArrowType_def CellValue_def cell_tiny_def demo_row_env_def byte_at_def push_def pair_change_def)

lemma pair_row_event: "row_format_event pair_env pair_mapped InsertRowEvent 9 pair_rows demo_table pair_schema pair_change"
  unfolding row_format_event_def
  by (rule exI [of _ pair_map])
    (simp add: pair_facts pair_map_def demo_table_def pair_rows_def is_row_format_def BitCount_def pair_schema_def pk_positions_def
      getTableSchema_def pair_env_def isTableFilteredOut_def Let_def pair_row_change [unfolded pair_map_def pair_rows_def pair_schema_def])

lemma pair_tables: "schemas_ok {demo_table} (\<lambda>t. pair_schema)" "tables_hold False {demo_table} (\<lambda>t. pair_schema) pair_store (\<lambda>t. Map.empty)"
proof -
  have "\<not> isl (newDeltaAppender pair_schema :: arrow_value DeltaAppender res)" by code_simp
  then have "\<exists>a. newDeltaAppender pair_schema = Inr (a :: arrow_value DeltaAppender)" by (metis sum.collapse(2))
  moreover have "schema_ok pair_schema" by code_simp
  ultimately show "schemas_ok {demo_table} (\<lambda>t. pair_schema)" by (simp add: schemas_ok_def)
  show "tables_hold False {demo_table} (\<lambda>t. pair_schema) pair_store (\<lambda>t. Map.empty)"
    by (simp add: tables_hold_def holds_table_def pair_store_def represents_def pair_schema_def col_names_def pk_positions_def)
qed

abbreviation pair_stream :: "(arrow_value controller, arrow_value store, gtid list) applier \<Rightarrow> transaction list \<Rightarrow> phase \<Rightarrow> bool \<Rightarrow> bool" where
  "pair_stream a ts ph ok \<equiv>
     replicates pair_env pair_begin {demo_table} (\<lambda>t. pair_schema) (\<lambda>t. Map.empty) pair_initial a ts ph ok"

lemma pair_run_inserted: "\<exists>ok. pair_stream pair_inserted [] (InTxn pair_gtid [pair_event]) ok"
proof -
  have in_eq: "handle_input pair_env now (EventInput ev) a = (fst (handle_input pair_env now (EventInput ev) a), pair_input now ev a)" for now ev a
    by (simp add: pair_input_def)
  note r0 = replicates.start [of pair_env pair_begin "{demo_table}" "\<lambda>t. pair_schema" "\<lambda>t. Map.empty" pair_initial]
  have quiet: "quiet_event (EvFormatDescription (Inr 19))" "quiet_event (EvTableMap 9 (Inr pair_map))" by (simp_all add: quiet_event_def)
  have 1: "format pair_initial \<noteq> None \<or> (\<exists>f. EvFormatDescription (Inr 19) = EvFormatDescription (Inr f))" by blast
  obtain ok1 where r1: "pair_stream pair_format [] Idle ok1"
    using replicates.quiet [OF r0 quiet(1) 1 in_eq [of 1]] unfolding pair_format_def by blast
  have 2: "\<forall>t\<in>set []. gtid_before (fst t) pair_gtid" "pair_begin begin_query" by (simp_all add: pair_begin_def)
  obtain ok2 where r2: "pair_stream pair_begun [] (InTxn pair_gtid []) ok2"
    using replicates.mysql_begin [OF r1 pair_facts(1) 2 begin_vars in_eq [of 2] in_eq [of 3]]
    unfolding pair_begun_def pair_gtid_seen_def by blast
  have 3: "format pair_begun \<noteq> None \<or> (\<exists>f. EvTableMap 9 (Inr pair_map) = EvFormatDescription (Inr f))" using pair_facts(2) by simp
  obtain ok3 where r3: "pair_stream pair_mapped [] (InTxn pair_gtid []) ok3"
    using replicates.quiet [OF r2 quiet(2) 3 in_eq [of 4]] unfolding pair_mapped_def by blast
  have valid: "valid_change pair_schema (apply_events (\<lambda>t. pair_schema) (\<lambda>t. Map.empty) (history [] @ []) demo_table) pair_change"
    by (simp add: history_def valid_change_def pair_change_def row_ok_def pkey_def pair_schema_def pk_positions_def)
  have "(1 :: u64) < - 1" by code_simp
  then have 4: "format pair_mapped \<noteq> None" "inTxnStmtID pair_mapped < - 1" "demo_table \<in> {demo_table}" using pair_facts(3,4) by simp_all
  obtain ok4 where r4: "pair_stream pair_inserted [] (InTxn pair_gtid ([] @ [pair_event])) ok4"
    using replicates.rows [OF r3 4 pair_row_event valid in_eq [of 5]] unfolding pair_inserted_def pair_event_def by blast
  then show ?thesis by auto
qed

lemma pair_run: "\<exists>ok. pair_stream pair_done [(pair_gtid, [pair_event])] Idle ok"
proof -
  obtain ok where r: "pair_stream pair_inserted [] (InTxn pair_gtid [pair_event]) ok" using pair_run_inserted by blast
  have "handle_input pair_env 6 (EventInput EvXID) pair_inserted = (fst (handle_input pair_env 6 (EventInput EvXID) pair_inserted), pair_done)"
    by (simp add: pair_done_def pair_input_def)
  from replicates.xid [OF r this] show ?thesis by auto
qed

lemma pair_faithful: "sql_faithful (env_exec pair_delta_env)"
  by (simp add: pair_delta_env_def sql_faithful_def ref_exec_sound ref_exec_complete)

lemma pair_provider: "provider pair_env = tableWriterProvider pair_delta_env False (write_rows ref_driver)"
  by (simp add: pair_env_def)

lemma pair_start: "stream_start pair_env [] pair_initial" "contents (committed (sess pair_initial)) = pair_store"
proof -
  show "stream_start pair_env [] pair_initial"
    unfolding stream_start_def pair_initial_def by (intro exI conjI) (rule refl, simp)
  show "contents (committed (sess pair_initial)) = pair_store" by (simp add: pair_initial_def reset_stream_def)
qed

lemma pair_row_values: "row_values demo_row_env pair_map pair_schema [False, False] [1, 7] = Inr ([Val (AUint8 1), Val (AUint8 7)], 2)"
  by (simp add: row_values_def pair_schema_def pair_map_def Bit_def cell_datum_def
      gms_simple_def toArrowType_def CellValue_def cell_tiny_def demo_row_env_def byte_at_def push_def)

definition pair_tablesByName :: "tableIdentifier \<Rightarrow> (schema \<times> string) option" where
  "pair_tablesByName = [\<lparr>dbName = to_lower ''db'', tableName = to_lower ''t''\<rparr> \<mapsto> (pair_schema, ''t'')]"

lemma pair_inserted_eq: "\<exists>B. pair_inserted =
  pair_mapped\<lparr>tablesByName := pair_tablesByName, buffer := B, deltaBufSize := 2, dirtyTxn := True, dirtyStream := True, inTxnStmtID := 2\<rparr>"
proof -
  obtain app where app: "newDeltaAppender pair_schema = Inr (app :: arrow_value DeltaAppender)" using pair_tables(1) by (auto simp: schemas_ok_def)
  have b: "buffer pair_mapped = []" "deltaBufSize pair_mapped = 0"
  proof -
    obtain s where bg: "pair_begun = pair_gtid_seen\<lparr>sess_vars := set_flag_vars 0, buffer := [], deltaBufSize := 0, sess := s, dirtyTxn := True,
      dirtyStream := True, ongoingBatchTxn := True, inTxnStmtID := 1\<rparr>" using pair_begun_eq by blast
    have "buffer pair_begun = []" "deltaBufSize pair_begun = 0" by (simp_all add: bg)
    then show "buffer pair_mapped = []" "deltaBufSize pair_mapped = 0"
      using pair_facts(2) by (simp_all add: pair_mapped_def pair_input_def handle_input_def processBinlogEvent_def processTableMapEvent_def)
  qed
  have schema: "getTableSchema pair_env ''t'' ''db'' pair_mapped = (Inr (pair_schema, ''t''),
      pair_mapped\<lparr>tablesByName := pair_tablesByName\<rparr>)"
    using pair_facts by (simp add: getTableSchema_def Let_def pair_env_def pair_tablesByName_def)
  have row_format: "is_row_format InsertRowEvent pair_rows (length pair_schema) \<and> pk_positions pair_schema \<noteq> []"
    by (simp add: is_row_format_def pair_rows_def BitCount_def pair_schema_def pk_positions_def)
  have cells: "cells_env pair_env = demo_row_env" "filters pair_env = None"
    "ProvideAppender (provider pair_env) c t s = GetDeltaAppender c t s" for c t s
    by (simp_all add: pair_env_def tableWriterProvider_def)
  have "\<exists>B. processRowEvent pair_env InsertRowEvent 9 (Inr pair_rows) pair_mapped =
      (None, pair_mapped\<lparr>tablesByName := pair_tablesByName, buffer := B, deltaBufSize := 2\<rparr>)"
    using pair_facts(3,5) schema row_format
    by (auto simp: processRowEvent_def pair_map_def isTableFilteredOut_def cells pair_schema_def
        appendRowFormatChanges_def b GetDeltaAppender_def app [unfolded pair_schema_def] pair_row_values [unfolded pair_schema_def pair_map_def] pair_rows_def Let_def)
  then obtain B where rows: "processRowEvent pair_env InsertRowEvent 9 (Inr pair_rows) pair_mapped =
      (None, pair_mapped\<lparr>tablesByName := pair_tablesByName, buffer := B, deltaBufSize := 2\<rparr>)" by blast
  then have "pair_inserted =
    pair_mapped\<lparr>tablesByName := pair_tablesByName, buffer := B, deltaBufSize := 2, dirtyTxn := True, dirtyStream := True, inTxnStmtID := 2\<rparr>"
    using pair_facts(4) by (simp add: pair_inserted_def pair_input_def handle_input_def processBinlogEvent_def)
  then show ?thesis by blast
qed

lemma pair_inserted_facts: "format pair_inserted = Some 19" "tableMapsById pair_inserted 9 = Some pair_map"
  "tablesByName pair_inserted = pair_tablesByName" "ongoingBatchTxn pair_inserted" "lastCommitTime pair_inserted = 0"
  "deltaBufSize pair_inserted = 2" "inTxnStmtID pair_inserted = 2"
proof -
  obtain B where ins: "pair_inserted =
    pair_mapped\<lparr>tablesByName := pair_tablesByName, buffer := B, deltaBufSize := 2, dirtyTxn := True, dirtyStream := True, inTxnStmtID := 2\<rparr>"
    using pair_inserted_eq by blast
  show "format pair_inserted = Some 19" "tableMapsById pair_inserted 9 = Some pair_map"
    "tablesByName pair_inserted = pair_tablesByName" "ongoingBatchTxn pair_inserted" "lastCommitTime pair_inserted = 0"
    "deltaBufSize pair_inserted = 2" "inTxnStmtID pair_inserted = 2"
    by (simp_all add: ins pair_facts)
qed

lemma pair_done_facts: "ongoingBatchTxn pair_done" "format pair_done \<noteq> None" "lastCommitTime pair_done = 0"
proof -
  have "(2 :: u64) < 2 ^ 27" by code_simp
  then have "fst (mayExtendBatchTxn 6 pair_inserted)"
    using pair_inserted_facts by (simp add: mayExtendBatchTxn_def)
  then have "extendOrCommitBatchTxn pair_env 6 pair_inserted = (None, pair_inserted\<lparr>pendingPosition := AppendGTID pair_env (pendingPosition pair_inserted) (currentGtid pair_inserted), dirtyStream := False\<rparr>)"
    by (cases "mayExtendBatchTxn 6 pair_inserted") (simp add: extendOrCommitBatchTxn_def)
  then show "ongoingBatchTxn pair_done" "format pair_done \<noteq> None" "lastCommitTime pair_done = 0"
    using pair_inserted_facts by (simp_all add: pair_done_def pair_input_def handle_input_def processBinlogEvent_def)
qed


section \<open>Properties\<close>

text \<open>
  (C1) Exactly-once replication. At every moment of a stream of transactions, with ticks of the
  timer in between, the committed database holds the effects of a prefix of the transactions and the
  saved position names exactly that prefix, so a restart resumes where the data ends; and no event
  of the stream fails.
\<close>

theorem replication_exactly_once:
  assumes env: "good_env env is_begin" "provider env = tableWriterProvider denv wi writer" "sql_faithful (env_exec denv)"
    and start: "schemas_ok tabs sch" "stream_start env p0 a0" "tables_hold wi tabs sch (contents (committed (sess a0))) M0"
    and run: "replicates env is_begin tabs sch M0 a0 a ts ph ok"
  shows "ok \<and> (\<exists>k\<le>length ts. tables_hold wi tabs sch (contents (committed (sess a))) (apply_events sch M0 (history (take k ts))) \<and>
    position_row (committed (sess a)) = (if k = 0 then position_row (committed (sess a0)) else Some (position_after env p0 (take k ts))))"
proof -
  note inv = replica.replicates_ok [OF env(1,2) stream_start_ok [OF env(2,3) start] run]
  have "ok" using inv by (rule conjunct2)
  moreover have "\<exists>k\<le>length ts. tables_hold wi tabs sch (contents (committed (sess a))) (apply_events sch M0 (history (take k ts))) \<and>
    position_row (committed (sess a)) = (if k = 0 then position_row (committed (sess a0)) else Some (position_after env p0 (take k ts)))"
    using replica.stream_ok_committed [OF inv [THEN conjunct1]] unfolding replica_holds_iff by blast
  ultimately show ?thesis by (rule conjI)
qed

theorem replication_exactly_once_witness:
  "\<exists>ok k. pair_stream pair_done [(pair_gtid, [pair_event])] Idle ok \<and> ok \<and> k \<le> 1 \<and>
     tables_hold False {demo_table} (\<lambda>t. pair_schema) (contents (committed (sess pair_done)))
       (apply_events (\<lambda>t. pair_schema) (\<lambda>t. Map.empty) (history (take k [(pair_gtid, [pair_event])])))"
proof -
  obtain ok where run: "pair_stream pair_done [(pair_gtid, [pair_event])] Idle ok" using pair_run by blast
  from replication_exactly_once [OF pair_good pair_provider pair_faithful pair_tables(1) pair_start(1) _ run] pair_tables(2) pair_start(2) run
  show ?thesis by auto
qed

text \<open>
  (C2) When no transaction is open, a tick 200 ms after the last commit leaves everything received
  so far committed, together with its position.
\<close>

theorem quiet_tick_commits_all:
  assumes env: "good_env env is_begin" "provider env = tableWriterProvider denv wi writer" "sql_faithful (env_exec denv)"
    and start: "schemas_ok tabs sch" "stream_start env p0 a0" "tables_hold wi tabs sch (contents (committed (sess a0))) M0"
    and run: "replicates env is_begin tabs sch M0 a0 a ts Idle ok" and now: "now \<ge> lastCommitTime a + 200"
  shows "\<exists>a'. handle_input env now Ticker a = (None, a') \<and>
    tables_hold wi tabs sch (contents (committed (sess a'))) (apply_events sch M0 (history ts)) \<and>
    (ts \<noteq> [] \<longrightarrow> position_row (committed (sess a')) = Some (position_after env p0 ts))"
proof -
  note inv = replica.replicates_ok [OF env(1,2) stream_start_ok [OF env(2,3) start] run]
  from replica.tick_commits [OF env(1,2) inv [THEN conjunct1] now] obtain a' where
    "handle_input env now Ticker a = (None, a')"
    "replica.session_ok denv wi tabs sch (apply_events sch M0 (history ts)) (replica.saved_position env p0 (position_row (committed (sess a0))) ts) (sess a')"
    by blast
  then show ?thesis by (simp add: replica.session_ok_def replica.db_ok_def replica.saved_position_def replica_holds_iff)
qed

theorem quiet_tick_commits_all_witness:
  "\<exists>a'. handle_input pair_env (lastCommitTime pair_done + 200) Ticker pair_done = (None, a') \<and>
     tables_hold False {demo_table} (\<lambda>t. pair_schema) (contents (committed (sess a')))
       (apply_events (\<lambda>t. pair_schema) (\<lambda>t. Map.empty) [pair_event]) \<and>
     position_row (committed (sess a')) = Some [pair_gtid]"
proof -
  obtain ok where run: "pair_stream pair_done [(pair_gtid, [pair_event])] Idle ok" using pair_run by blast
  from quiet_tick_commits_all [OF pair_good pair_provider pair_faithful pair_tables(1) pair_start(1) _ run, of "lastCommitTime pair_done + 200"]
    pair_tables(2) pair_start(2)
  show ?thesis by (simp add: history_def position_after_def pair_env_def)
qed

text \<open>
  (C17) A tick that falls between a GTID event and its \<^verbatim>\<open>BEGIN\<close> breaks this: the batch is committed
  with a position that already names the new transaction, of which nothing has been received. A
  restart at this point skips the transaction.
\<close>

theorem tick_after_gtid_skips_transaction:
  assumes env: "good_env env is_begin" "provider env = tableWriterProvider denv wi writer" "sql_faithful (env_exec denv)"
    and start: "schemas_ok tabs sch" "stream_start env p0 a0" "tables_hold wi tabs sch (contents (committed (sess a0))) M0"
    and run: "replicates env is_begin tabs sch M0 a0 a ts Idle ok"
    and batch: "ongoingBatchTxn a" "format a \<noteq> None" "now' \<ge> lastCommitTime a + 200"
  shows "\<exists>a1 a2. handle_input env now (EventInput (EvGTID (Inr (g, False)))) a = (None, a1) \<and>
    handle_input env now' Ticker a1 = (None, a2) \<and>
    tables_hold wi tabs sch (contents (committed (sess a2))) (apply_events sch M0 (history ts)) \<and>
    position_row (committed (sess a2)) = Some (position_after env p0 (ts @ [(g, [])]))"
proof -
  note inv = replica.replicates_ok [OF env(1,2) stream_start_ok [OF env(2,3) start] run]
  from replica.gtid_then_tick [OF env(1,2) inv [THEN conjunct1] batch, of now g] obtain a1 a2 where
    "handle_input env now (EventInput (EvGTID (Inr (g, False)))) a = (None, a1)" "handle_input env now' Ticker a1 = (None, a2)"
    "replica.session_ok denv wi tabs sch (apply_events sch M0 (history ts)) (Some (position_after env p0 (ts @ [(g, [])]))) (sess a2)"
    by blast
  then show ?thesis by (simp add: replica.session_ok_def replica.db_ok_def replica_holds_iff)
qed

theorem tick_after_gtid_skips_transaction_witness:
  "\<exists>a1 a2. handle_input pair_env 7 (EventInput (EvGTID (Inr (Mysql56GTID ''s'' 6, False)))) pair_done = (None, a1) \<and>
     handle_input pair_env 300 Ticker a1 = (None, a2) \<and>
     tables_hold False {demo_table} (\<lambda>t. pair_schema) (contents (committed (sess a2)))
       (apply_events (\<lambda>t. pair_schema) (\<lambda>t. Map.empty) [pair_event]) \<and>
     position_row (committed (sess a2)) = Some [pair_gtid, Mysql56GTID ''s'' 6]"
proof -
  obtain ok where run: "pair_stream pair_done [(pair_gtid, [pair_event])] Idle ok" using pair_run by blast
  from tick_after_gtid_skips_transaction [OF pair_good pair_provider pair_faithful pair_tables(1) pair_start(1) _ run, of 300 7 "Mysql56GTID ''s'' 6"]
    pair_tables(2) pair_start(2) pair_done_facts
  show ?thesis by (simp add: history_def position_after_def pair_env_def pair_gtid_def)
qed

section \<open>Events that bypass the buffer\<close>

lemma restrict_absent: "\<forall>k\<in>K. T k = None \<Longrightarrow> T |` (- K) = T"
  by (rule ext) (simp add: restrict_map_def)

text \<open>Deleting keys that the database does not have yet changes no table.\<close>

lemma delete_absent_holds:
  assumes drv: "prepared_sound drv" "prepared_complete drv" and db: "replica_holds denv wi tabs sch d M"
    and req: "wr_table req \<in> tabs" "wr_schema req = sch (wr_table req)" "wr_event req = DeleteRowEvent"
      "keys_aligned (wr_schema req) (wr_identifyColumns req)" "\<forall>row\<in>set (wr_identityRows req). keyed_row (wr_schema req) row"
    and absent: "\<forall>row\<in>set (wr_identityRows req). M (wr_table req) (pkey (wr_schema req) (map arg_datum row)) = None"
  shows "\<exists>d'. write_rows drv req d = (None, d') \<and> replica_holds denv wi tabs sch d' M"
proof -
  let ?t = "wr_table req" and ?K = "(\<lambda>row. pkey (wr_schema req) (map arg_datum row)) ` set (wr_identityRows req)"
  from db req(1,2) have "schema_ok (wr_schema req)" "holds_table (wr_schema req) wi d ?t (M ?t)"
    by (simp_all add: replica_holds_iff schemas_ok_def tables_hold_def)
  from write_rows_Delete_holds [OF drv this(1) req(3-5) this(2)] obtain d' where
    d': "write_rows drv req d = (None, d')" "holds_table (wr_schema req) wi d' ?t (M ?t |` (- ?K))" "same_other_tables ?t d d'" by blast
  have "M ?t |` (- ?K) = M ?t" using absent by (intro restrict_absent) simp
  with d'(2,3) db req(2) have "tables_hold wi tabs sch d' M"
    by (auto simp: replica_holds_iff tables_hold_def same_other_tables_def) (metis holds_table_cong)
  with d'(1) db show ?thesis by (simp add: replica_holds_iff)
qed


definition pair_delete_rows :: Rows where
  "pair_delete_rows =
     \<lparr>rows_Flags = 1, IdentifyColumns = [True, False], DataColumns = [],
      row_images = [\<lparr>NullIdentifyColumns = [False, False], NullColumns = [], Identify = [1], Data = []\<rparr>]\<rparr>"

definition pair_delete_request :: "arrow_value write_request" where
  "pair_delete_request =
     \<lparr>wr_table = demo_table, wr_schema = pair_schema, wr_columnCount = 2, wr_identifyColumns = [True, False], wr_dataColumns = [],
      wr_event = DeleteRowEvent, wr_identityRows = [[Some (AUint8 1), None]], wr_dataRows = [[]]\<rparr>"

lemma pair_direct: "direct_event pair_env pair_inserted DeleteRowEvent 9 pair_delete_rows pair_delete_request"
  unfolding direct_event_def
proof (intro exI conjI)
  show "tableMapsById pair_inserted 9 = Some pair_map" by (rule pair_inserted_facts)
  show "fst (getTableSchema pair_env (tm_Name pair_map) (tm_Database pair_map) pair_inserted) = Inr (wr_schema pair_delete_request, tableName (wr_table pair_delete_request))"
    by (simp add: getTableSchema_def Let_def pair_inserted_facts pair_tablesByName_def pair_map_def pair_delete_request_def demo_table_def)
  show "map_res (parse_image pair_env pair_map (wr_schema pair_delete_request) pair_delete_rows) (row_images pair_delete_rows) = Inr [([Some (AUint8 1), None], [])]"
    by (simp add: pair_delete_rows_def parse_image_def parseRow_def pair_map_def pair_delete_request_def pair_schema_def Bit_def pair_env_def byte_at_def)
qed (simp_all add: pair_map_def pair_delete_request_def demo_table_def pair_env_def isTableFilteredOut_def pair_schema_def is_row_format_def
    pair_delete_rows_def BitCount_def)


section \<open>Status variables of query events\<close>

text \<open>
  A query event as a source lays it out: a header, thirteen bytes of which the last two are the length
  of the variables, the flags, the SQL mode, and more variables and the statement.
\<close>

definition mode_vars :: "nat \<Rightarrow> nat \<Rightarrow> bytes" where
  "mode_vars flags mode = [QFlags2Code] @ le_bytes 4 flags @ [QSQLModeCode] @ le_bytes 8 mode"

definition query_bytes :: "nat \<Rightarrow> nat \<Rightarrow> bytes \<Rightarrow> bytes \<Rightarrow> bytes" where
  "query_bytes flags mode more_vars rest =
     replicate 19 0 @ (replicate 11 0 @ le_bytes 2 (14 + length more_vars) @ mode_vars flags mode @ more_vars @ rest)"

lemma parse_query_bytes:
  assumes "flags < 2 ^ 32" "mode < 2 ^ 64" "length more_vars < 60000"
  shows "parseQueryEventVars 19 (query_bytes flags mode more_vars rest) =
    query_vars (mode_vars flags mode @ more_vars @ rest) (14 + length more_vars) 6 (word_of_nat flags) (word_of_nat mode)"
proof -
  define vs where "vs = mode_vars flags mode @ more_vars @ rest"
  define lim where "lim = 14 + length more_vars"
  define d where "d = replicate 11 (0 :: byte) @ le_bytes 2 lim @ vs"
  have raw: "query_bytes flags mode more_vars rest = replicate 19 0 @ d"
    unfolding query_bytes_def d_def vs_def lim_def by (rule refl)
  have len: "length (mode_vars flags mode) = 14" by (simp add: mode_vars_def)
  have d1: "slice (replicate 19 0 @ d) 19 (length (replicate 19 0 @ d)) = Inr d" by (simp add: slice_def)
  have d2: "le_read d 11 2 = Inr lim"
    using le_read_le_bytes [of 11 "replicate 11 0" 2 lim vs] assms(3) by (simp add: d_def lim_def)
  have d3: "slice d 13 (13 + lim) = Inr (take lim vs)" by (simp add: slice_def d_def vs_def lim_def len)
  have d4: "drop 13 d = vs" by (simp add: d_def)
  have f: "le_read vs 1 4 = Inr flags"
    using le_read_le_bytes [of 1 "[QFlags2Code]" 4 flags] assms(1) by (simp add: vs_def mode_vars_def)
  have m: "le_read vs 6 8 = Inr mode"
    using le_read_le_bytes [of 6 "[QFlags2Code] @ le_bytes 4 flags @ [QSQLModeCode]" 8 mode] assms(2)
    by (simp add: vs_def mode_vars_def)
  have c0: "vs ! 0 = QFlags2Code" by (simp add: vs_def mode_vars_def)
  have c5: "vs ! 5 = QSQLModeCode" by (simp add: vs_def mode_vars_def nth_append)
  have "query_vars vs lim 5 (word_of_nat flags) 0 = query_vars vs lim 6 (word_of_nat flags) (word_of_nat mode)"
    by (subst query_vars.simps) (simp add: lim_def Let_def c5 m QFlags2Code_def QSQLModeCode_def)
  moreover have "query_vars vs lim 0 0 0 = query_vars vs lim 5 (word_of_nat flags) 0"
    by (subst query_vars.simps) (simp add: lim_def Let_def c0 f [unfolded One_nat_def])
  ultimately show ?thesis
    unfolding parseQueryEventVars_def raw d1 by (simp add: d2 d3 d4 flip: vs_def lim_def)
qed

lemma le_bytes_numeral: "le_bytes (numeral k) n = word_of_nat n # le_bytes (pred_numeral k) (n div 256)"
  by (simp add: numeral_eq_Suc [of k])

text \<open>
  The flags and the SQL mode of a query event are read back, provided that the lowest byte of
  the SQL mode is not the code of another variable: the reader goes on at the SQL mode instead of
  after it.
\<close>

theorem parseQueryEventVars_reads_flags:
  assumes "flags < 2 ^ 32" "mode < 2 ^ 64" "length more_vars < 60000"
    and "word_of_nat mode \<notin> {QFlags2Code, QSQLModeCode, QCatalog, QAutoIncrement, QCharsetCode, QCatalogNZCode}"
  shows "parseQueryEventVars 19 (query_bytes flags mode more_vars rest) = Inr (word_of_nat flags, word_of_nat mode)"
proof -
  have "(mode_vars flags mode @ more_vars @ rest) ! 6 = word_of_nat mode"
    by (simp add: mode_vars_def nth_append le_bytes_numeral)
  then show ?thesis using assms(4) unfolding parse_query_bytes [OF assms(1-3)]
    by (subst query_vars.simps) (simp add: Let_def)
qed

theorem parseQueryEventVars_reads_flags_witness:
  "parseQueryEventVars 19 (query_bytes 0x04000000 0x45A00020 [6, 3, 0x73, 0x74, 0x64] []) = Inr (0x04000000, 0x45A00020)"
  using parseQueryEventVars_reads_flags [of "0x04000000" "0x45A00020" "[6, 3, 0x73, 0x74, 0x64]" "[]"]
  by (simp add: QFlags2Code_def QSQLModeCode_def QCatalog_def QAutoIncrement_def QCharsetCode_def QCatalogNZCode_def)

text \<open>
  With an empty SQL mode the zero bytes of the mode are taken for the code of the flags, whatever
  the flags of the event were: a statement that the source ran with foreign-key checks off runs
  with the checks on.
\<close>

theorem parseQueryEventVars_empty_mode:
  "parseQueryEventVars 19 (query_bytes 0x04000000 0 [6, 3, 0x73, 0x74, 0x64] []) = Inr (0x03060000, 0) \<and>
   foreign_key_checks (set_flag_vars 0x03060000) \<and> \<not> foreign_key_checks (set_flag_vars 0x04000000)"
proof -
  define vs where "vs = mode_vars 0x04000000 0 @ [6, 3, 0x73, 0x74, 0x64]"
  have vs: "vs = [0, 0, 0, 0, 4, 1, 0, 0, 0, 0, 0, 0, 0, 0, 6, 3, 0x73, 0x74, 0x64]"
    by (simp add: vs_def mode_vars_def QFlags2Code_def QSQLModeCode_def le_bytes_numeral)
  have "query_vars vs 19 16 0x03060000 0 = Inr (0x03060000, 0)"
    by (subst query_vars.simps) (simp add: vs Let_def QFlags2Code_def QSQLModeCode_def QCatalog_def QAutoIncrement_def QCharsetCode_def QCatalogNZCode_def)
  moreover have "query_vars vs 19 11 0 0 = query_vars vs 19 16 0x03060000 0"
    by (subst query_vars.simps) (simp add: vs Let_def QFlags2Code_def le_read_def slice_def)
  moreover have "query_vars vs 19 6 f 0 = query_vars vs 19 11 0 0" for f
    by (subst query_vars.simps) (simp add: vs Let_def QFlags2Code_def le_read_def slice_def)
  ultimately have "parseQueryEventVars 19 (query_bytes 0x04000000 0 [6, 3, 0x73, 0x74, 0x64] []) = Inr (0x03060000, 0)"
    using parse_query_bytes [of "0x04000000" 0 "[6, 3, 0x73, 0x74, 0x64]" "[]"] by (simp add: vs_def)
  moreover have "foreign_key_checks (set_flag_vars 0x03060000)" "\<not> foreign_key_checks (set_flag_vars 0x04000000)"
    by code_simp+
  ultimately show ?thesis by blast
qed

end
