(* ===== verification/PgDecode.thy ===== *)
theory PgDecode
  imports RowBinlog
begin

text \<open>
  Decoding of the columns of Postgres' logical replication into Arrow builders
  (\<^verbatim>\<open>pgserver/logrepl/decode.go\<close>). The codecs of pgtype are third-party code, the fields of \<open>pg_codecs\<close>; a
  builder is its data type, as in \<^verbatim>\<open>binlog/rbr.go\<close>, and what is appended is a value or \<^verbatim>\<open>NULL\<close>. A string
  builder is used through its binary builder. No builder is made for fixed-size binaries, so their
  branches have no counterpart.
\<close>

section \<open>Codecs\<close>

datatype pg_format = TextFormat | BinaryFormat

type_synonym 'a scan = "pg_format \<Rightarrow> bytes \<Rightarrow> 'a res"

record numeric =
  num_int :: int
  num_exp :: int
  num_special :: bool

datatype go_value =
    GoBool bool | GoInt8 byte | GoInt16 u16 | GoInt32 u32 | GoInt64 u64 | GoUint8 byte | GoUint16 u16 | GoUint32 u32
  | GoUint64 u64 | GoFloat32 u32 | GoFloat64 u64 | GoString bytes | GoBytes bytes | GoTimestamp go_time | GoDuration int
  | GoOther nat

record pg_codecs =
  TypeForOID :: "pg_oid \<Rightarrow> pg_type option"
  ScanBool :: "bool scan"
  ScanQChar :: "byte scan"
  ScanInt2 :: "u16 scan"
  ScanInt4 :: "u32 scan"
  ScanInt8 :: "u64 scan"
  ScanFloat4 :: "u32 scan"
  ScanFloat8 :: "u64 scan"
  ScanTimestamp :: "go_time scan"
  ScanTimestamptz :: "go_time scan"
  ScanDate :: "go_time scan"
  ScanTime :: "int scan"
  ScanNumeric :: "numeric scan"
  ScanText :: "bytes scan"
  ScanBytea :: "bytes scan"
  ScanJSON :: "bytes scan"
  ScanJSONB :: "bytes scan"
  ScanUUID :: "bytes scan"
  EncodeNumeric :: "numeric \<Rightarrow> bytes res"
  EncodeUUID :: "bytes \<Rightarrow> bytes"
  DecodeValue :: "pg_oid \<Rightarrow> go_value scan"
  ScanBools :: "bool option list scan"
  ScanInt2s :: "u16 option list scan"
  ScanInt4s :: "u32 option list scan"
  ScanInt8s :: "u64 option list scan"
  ScanFloat4s :: "u32 option list scan"
  ScanFloat8s :: "u64 option list scan"
  ScanDates :: "go_time option list scan"
  ScanTimes :: "int option list scan"
  ScanTimestamps :: "go_time option list scan"
  ScanTimestamptzs :: "go_time option list scan"
  ScanByteses :: "pg_oid \<Rightarrow> bytes option list scan"
  ScanNumerics :: "numeric option list scan"
  ScanUUIDs :: "bytes option list scan"

type_synonym decoded = "(nat \<times> arrow_value option) res"

section \<open>Values for a builder\<close>

definition is_binary_builder :: "arrow_type \<Rightarrow> bool" where
  "is_binary_builder b \<longleftrightarrow> b = Arrow_Binary \<or> b = Arrow_String"

definition bytes_value :: "arrow_type \<Rightarrow> bytes \<Rightarrow> arrow_value" where
  "bytes_value b v = (if b = Arrow_String then AString v else ABinary v)"

text \<open>The builder a column is decoded with, and what a value appended to it is for the column.\<close>

definition binary_builder :: "arrow_type \<Rightarrow> arrow_type" where
  "binary_builder b = (if b = Arrow_String then Arrow_Binary else b)"

definition in_builder :: "arrow_type \<Rightarrow> arrow_value \<Rightarrow> arrow_value" where
  "in_builder b x = (case x of ABinary v \<Rightarrow> bytes_value b v | _ \<Rightarrow> x)"

text \<open>\<^verbatim>\<open>writeValue\<close>: the fallback for the Go values of a codec.\<close>

definition writeValue :: "arrow_type \<Rightarrow> go_value \<Rightarrow> (nat \<times> arrow_value) res" where
  "writeValue b v =
     (case (b, v) of
        (Arrow_Boolean, GoBool x) \<Rightarrow> Inr (1, ABool x)
      | (Arrow_Int8, GoInt8 x) \<Rightarrow> Inr (1, AInt8 x)
      | (Arrow_Int16, GoInt16 x) \<Rightarrow> Inr (2, AInt16 x)
      | (Arrow_Int32, GoInt32 x) \<Rightarrow> Inr (4, AInt32 x)
      | (Arrow_Int64, GoInt64 x) \<Rightarrow> Inr (8, AInt64 x)
      | (Arrow_Uint8, GoUint8 x) \<Rightarrow> Inr (1, AUint8 x)
      | (Arrow_Uint16, GoUint16 x) \<Rightarrow> Inr (2, AUint16 x)
      | (Arrow_Uint32, GoUint32 x) \<Rightarrow> Inr (4, AUint32 x)
      | (Arrow_Uint64, GoUint64 x) \<Rightarrow> Inr (8, AUint64 x)
      | (Arrow_Float32, GoFloat32 x) \<Rightarrow> Inr (4, AFloat32 x)
      | (Arrow_Float64, GoFloat64 x) \<Rightarrow> Inr (8, AFloat64 x)
      | (Arrow_String, GoString x) \<Rightarrow> Inr (length x, AString x)
      | (Arrow_Binary, GoBytes x) \<Rightarrow> Inr (length x, ABinary x)
      | (Arrow_Timestamp u z, GoTimestamp x) \<Rightarrow> Inr (8, ATime x)
      | (Arrow_Duration_us, GoDuration x) \<Rightarrow> Inr (8, ADuration x)
      | _ \<Rightarrow> Inl (Error ''unsupported type conversion''))"

text \<open>
  A decimal, rescaled from its exponent to the scale of the column. \<^verbatim>\<open>big.Int.Div\<close> by a positive number
  rounds down; \<^verbatim>\<open>decimal128.FromBigInt\<close> panics on more than 127 bits. The sum of the exponents is an
  \<^verbatim>\<open>int32\<close>, the time of a day in nanoseconds an \<^verbatim>\<open>int64\<close>.
\<close>

definition int32 :: "int \<Rightarrow> int" where
  "int32 x = sint (word_of_int x :: u32)"

definition int64 :: "int \<Rightarrow> int" where
  "int64 x = sint (word_of_int x :: u64)"

definition decimal128_FromBigInt :: "int \<Rightarrow> int res" where
  "decimal128_FromBigInt x = (if \<bar>x\<bar> < 2 ^ 127 then Inr x else Inl (Panic ''decimal128: cannot represent value larger than 128bits''))"

definition rescale :: "numeric \<Rightarrow> int \<Rightarrow> int res" where
  "rescale v scl =
     (let e = int32 (num_exp v + scl) in
      if e = 0 then decimal128_FromBigInt (num_int v)
      else if e \<ge> 40 \<or> e \<le> - 40 then Inl (Error ''unsupported scale for Decimal128'')
      else if e > 0 then decimal128_FromBigInt (num_int v * 10 ^ nat e)
      else decimal128_FromBigInt (num_int v div 10 ^ nat (- e)))"

definition decode_numeric :: "pg_codecs \<Rightarrow> pg_format \<Rightarrow> bytes \<Rightarrow> int \<Rightarrow> arrow_type \<Rightarrow> decoded option" where
  "decode_numeric cd fmt d scl b =
     (if fmt = TextFormat \<and> is_binary_builder b then Some (Inr (length d, Some (bytes_value b d)))
      else case ScanNumeric cd fmt d of
        Inl e \<Rightarrow> Some (Inl e)
      | Inr v \<Rightarrow>
          (if num_special v then Some (Inr (0, None))
           else case b of
             Arrow_Decimal128 p s \<Rightarrow> Some (bind_res (rescale v scl) (\<lambda>x. Inr (16, Some (ADecimal x))))
           | _ \<Rightarrow>
               (if is_binary_builder b
                then Some (bind_res (EncodeNumeric cd v) (\<lambda>r. Inr (length r, Some (bytes_value b r)))) else None)))"

text \<open>A scan into the one builder it fits; \<open>None\<close> when the builder is another one.\<close>

definition scan_into :: "bool \<Rightarrow> 'a res \<Rightarrow> ('a \<Rightarrow> nat \<times> arrow_value) \<Rightarrow> decoded option" where
  "scan_into fits scanned f = (if fits then Some (bind_res scanned (\<lambda>v. case f v of (n, x) \<Rightarrow> Inr (n, Some x))) else None)"

definition decode_bytes :: "pg_codecs \<Rightarrow> pg_oid \<Rightarrow> pg_format \<Rightarrow> bytes \<Rightarrow> arrow_type \<Rightarrow> decoded option" where
  "decode_bytes cd oid fmt d b =
     (let raw = (\<lambda>v. (length v, bytes_value b v)) in
      case oid of
        TextOID \<Rightarrow> scan_into (is_binary_builder b) (ScanText cd fmt d) raw
      | VarcharOID \<Rightarrow> scan_into (is_binary_builder b) (ScanText cd fmt d) raw
      | BPCharOID \<Rightarrow> scan_into (is_binary_builder b) (ScanText cd fmt d) raw
      | NameOID \<Rightarrow> scan_into (is_binary_builder b) (ScanText cd fmt d) raw
      | ByteaOID \<Rightarrow> scan_into (is_binary_builder b) (ScanBytea cd fmt d) raw
      | UUIDOID \<Rightarrow>
          (case ScanUUID cd fmt d of
             Inl e \<Rightarrow> Some (Inl e)
           | Inr v \<Rightarrow> (if is_binary_builder b then Some (Inr (36, Some (bytes_value b (EncodeUUID cd v)))) else None))
      | JSONOID \<Rightarrow> scan_into (is_binary_builder b) (ScanJSON cd fmt d) raw
      | JSONBOID \<Rightarrow> scan_into (is_binary_builder b) (ScanJSONB cd fmt d) raw
      | _ \<Rightarrow> None)"

definition decode_scalar :: "pg_codecs \<Rightarrow> pg_oid \<Rightarrow> pg_format \<Rightarrow> bytes \<Rightarrow> int \<Rightarrow> arrow_type \<Rightarrow> decoded option" where
  "decode_scalar cd oid fmt d scl b =
     (case oid of
        BoolOID \<Rightarrow> scan_into (b = Arrow_Boolean) (ScanBool cd fmt d) (\<lambda>v. (1, ABool v))
      | QCharOID \<Rightarrow> scan_into (b = Arrow_Uint8) (ScanQChar cd fmt d) (\<lambda>v. (1, AUint8 v))
      | Int2OID \<Rightarrow> scan_into (b = Arrow_Int16) (ScanInt2 cd fmt d) (\<lambda>v. (2, AInt16 v))
      | Int4OID \<Rightarrow> scan_into (b = Arrow_Int32) (ScanInt4 cd fmt d) (\<lambda>v. (4, AInt32 v))
      | Int8OID \<Rightarrow> scan_into (b = Arrow_Int64) (ScanInt8 cd fmt d) (\<lambda>v. (8, AInt64 v))
      | Float4OID \<Rightarrow> scan_into (b = Arrow_Float32) (ScanFloat4 cd fmt d) (\<lambda>v. (4, AFloat32 v))
      | Float8OID \<Rightarrow> scan_into (b = Arrow_Float64) (ScanFloat8 cd fmt d) (\<lambda>v. (8, AFloat64 v))
      | TimestampOID \<Rightarrow> scan_into (is_timestamp b) (ScanTimestamp cd fmt d) (\<lambda>v. (8, ATime v))
      | TimestamptzOID \<Rightarrow> scan_into (is_timestamp b) (ScanTimestamptz cd fmt d) (\<lambda>v. (8, ATime v))
      | DateOID \<Rightarrow> scan_into (b = Arrow_Date32) (ScanDate cd fmt d) (\<lambda>v. (4, ADate32 v))
      | TimeOID \<Rightarrow> scan_into (b = Arrow_Time64ns) (ScanTime cd fmt d) (\<lambda>v. (8, ATime64 (int64 (v * 1000))))
      | TimetzOID \<Rightarrow> scan_into (b = Arrow_Time64ns) (ScanTime cd fmt d) (\<lambda>v. (8, ATime64 (int64 (v * 1000))))
      | NumericOID \<Rightarrow> decode_numeric cd fmt d scl b
      | _ \<Rightarrow> decode_bytes cd oid fmt d b)"

section \<open>Arrays\<close>

definition list_into :: "bool \<Rightarrow> 'a option list res \<Rightarrow> nat \<Rightarrow> ('a \<Rightarrow> arrow_value) \<Rightarrow> decoded option" where
  "list_into fits scanned n f =
     (if fits then Some (bind_res scanned (\<lambda>vs. Inr (length vs * n, Some (AList (map (map_option f) vs))))) else None)"

definition total_length :: "bytes option list \<Rightarrow> nat" where
  "total_length vs = sum_list (map (\<lambda>v. case v of None \<Rightarrow> 0 | Some x \<Rightarrow> length x) vs)"

definition numeric_elements :: "(numeric \<Rightarrow> 'a res) \<Rightarrow> numeric option list \<Rightarrow> 'a option list res" where
  "numeric_elements f vs =
     map_res (\<lambda>v. case v of
                None \<Rightarrow> Inr None
              | Some x \<Rightarrow> (if num_special x then Inr None else bind_res (f x) (\<lambda>y. Inr (Some y)))) vs"

definition decode_numerics :: "pg_codecs \<Rightarrow> numeric option list \<Rightarrow> int \<Rightarrow> arrow_type \<Rightarrow> decoded option" where
  "decode_numerics cd vs scl b =
     (case b of
        Arrow_Decimal128 p s \<Rightarrow>
          Some (bind_res (numeric_elements (\<lambda>v. rescale v scl) vs)
                  (\<lambda>xs. Inr (length vs * 16, Some (AList (map (map_option ADecimal) xs)))))
      | _ \<Rightarrow>
          (if is_binary_builder b
           then Some (bind_res (numeric_elements (EncodeNumeric cd) vs)
                        (\<lambda>xs. Inr (total_length xs, Some (AList (map (map_option (bytes_value b)) xs)))))
           else None))"

definition decode_byte_elements :: "pg_codecs \<Rightarrow> pg_oid \<Rightarrow> pg_format \<Rightarrow> bytes \<Rightarrow> arrow_type \<Rightarrow> decoded option" where
  "decode_byte_elements cd oid fmt d b =
     (if oid = UUIDOID then
        (case ScanUUIDs cd fmt d of
           Inl e \<Rightarrow> Some (Inl e)
         | Inr vs \<Rightarrow> list_into (is_binary_builder b) (Inr vs) 36 (\<lambda>v. bytes_value b (EncodeUUID cd v)))
      else if oid \<in> {ByteaOID, TextOID, VarcharOID, BPCharOID, NameOID, JSONOID, JSONBOID} \<and> is_binary_builder b
      then Some (bind_res (ScanByteses cd oid fmt d) (\<lambda>vs. Inr (total_length vs, Some (AList (map (map_option (bytes_value b)) vs)))))
      else None)"

definition decode_time_elements :: "pg_codecs \<Rightarrow> pg_oid \<Rightarrow> pg_format \<Rightarrow> bytes \<Rightarrow> arrow_type \<Rightarrow> decoded option" where
  "decode_time_elements cd oid fmt d b =
     (case oid of
        DateOID \<Rightarrow> list_into (b = Arrow_Date32) (ScanDates cd fmt d) 4 ADate32
      | TimeOID \<Rightarrow> list_into (b = Arrow_Time64ns) (ScanTimes cd fmt d) 8 (\<lambda>v. ATime64 (int64 (v * 1000)))
      | TimetzOID \<Rightarrow> list_into (b = Arrow_Time64ns) (ScanTimes cd fmt d) 8 (\<lambda>v. ATime64 (int64 (v * 1000)))
      | TimestampOID \<Rightarrow> list_into (is_timestamp b) (ScanTimestamps cd fmt d) 8 ATime
      | TimestamptzOID \<Rightarrow> list_into (is_timestamp b) (ScanTimestamptzs cd fmt d) 8 ATime
      | _ \<Rightarrow> decode_byte_elements cd oid fmt d b)"

definition decode_elements :: "pg_codecs \<Rightarrow> pg_oid \<Rightarrow> pg_format \<Rightarrow> bytes \<Rightarrow> int \<Rightarrow> arrow_type \<Rightarrow> decoded option" where
  "decode_elements cd oid fmt d scl b =
     (case oid of
        BoolOID \<Rightarrow> list_into (b = Arrow_Boolean) (ScanBools cd fmt d) 1 ABool
      | Int2OID \<Rightarrow> list_into (b = Arrow_Int16) (ScanInt2s cd fmt d) 2 AInt16
      | Int4OID \<Rightarrow> list_into (b = Arrow_Int32) (ScanInt4s cd fmt d) 4 AInt32
      | Int8OID \<Rightarrow> list_into (b = Arrow_Int64) (ScanInt8s cd fmt d) 8 AInt64
      | Float4OID \<Rightarrow> list_into (b = Arrow_Float32) (ScanFloat4s cd fmt d) 4 AFloat32
      | Float8OID \<Rightarrow> list_into (b = Arrow_Float64) (ScanFloat8s cd fmt d) 8 AFloat64
      | NumericOID \<Rightarrow>
          (case ScanNumerics cd fmt d of Inl e \<Rightarrow> Some (Inl e) | Inr vs \<Rightarrow> decode_numerics cd vs scl b)
      | _ \<Rightarrow> decode_time_elements cd oid fmt d b)"

definition decodeArrayToArrow :: "pg_codecs \<Rightarrow> pg_type \<Rightarrow> pg_format \<Rightarrow> bytes option \<Rightarrow> int \<Rightarrow> arrow_type \<Rightarrow> decoded" where
  "decodeArrayToArrow cd elem fmt d scl b =
     (case d of
        None \<Rightarrow> Inr (0, None)
      | Some d' \<Rightarrow>
          (case decode_elements cd (pg_oid_of elem) fmt d' scl b of
             Some r \<Rightarrow> r
           | None \<Rightarrow> Inl (Error ''unsupported array type'')))"

section \<open>Columns\<close>

record relation_column =
  rc_flags :: nat
  rc_name :: string
  rc_oid :: pg_oid
  rc_modifier :: int

definition decodeToArrow :: "pg_codecs \<Rightarrow> relation_column \<Rightarrow> bytes option \<Rightarrow> pg_format \<Rightarrow> arrow_type \<Rightarrow> decoded" where
  "decodeToArrow cd col data fmt b =
     (case data of
        None \<Rightarrow> Inr (0, None)
      | Some d \<Rightarrow>
          (case TypeForOID cd (rc_oid col) of
             None \<Rightarrow>
               (if b = Arrow_String \<and> fmt = TextFormat then Inr (length d, Some (AString d))
                else Inl (Error ''unsupported type conversion''))
           | Some (PGType oid elem) \<Rightarrow>
               (let scl = (if oid = NumericOID \<or> oid = NumericArrayOID then fst (snd (DecodePrecisionScale (rc_modifier col))) else 0)
                in case elem of
                     Some et \<Rightarrow>
                       (case b of
                          Arrow_List vb \<Rightarrow> decodeArrayToArrow cd et fmt data scl vb
                        | _ \<Rightarrow> Inl (Error ''unexpected Arrow array builder''))
                   | None \<Rightarrow>
                       (case decode_scalar cd oid fmt d scl b of
                          Some r \<Rightarrow> r
                        | None \<Rightarrow>
                            bind_res (DecodeValue cd oid fmt d) (\<lambda>v.
                            bind_res (writeValue (binary_builder b) v) (\<lambda>(n, x). Inr (n, Some (in_builder b x))))))))"

section \<open>What is decoded\<close>

text \<open>The values the builder of a type can hold.\<close>

fun has_type :: "arrow_type \<Rightarrow> arrow_value \<Rightarrow> bool" where
  "has_type b (AInt8 _) = (b = Arrow_Int8)"
| "has_type b (AInt16 _) = (b = Arrow_Int16)"
| "has_type b (AInt32 _) = (b = Arrow_Int32)"
| "has_type b (AInt64 _) = (b = Arrow_Int64)"
| "has_type b (AUint8 _) = (b = Arrow_Uint8)"
| "has_type b (AUint16 _) = (b = Arrow_Uint16)"
| "has_type b (AUint32 _) = (b = Arrow_Uint32)"
| "has_type b (AUint64 _) = (b = Arrow_Uint64)"
| "has_type b (AFloat32 _) = (b = Arrow_Float32)"
| "has_type b (AFloat64 _) = (b = Arrow_Float64)"
| "has_type b (ADate32 _) = (b = Arrow_Date32)"
| "has_type b (ATime _) = is_timestamp b"
| "has_type b (ADuration _) = (b = Arrow_Duration_us)"
| "has_type b (AString _) = (b = Arrow_String)"
| "has_type b (ABinary _) = (b = Arrow_Binary)"
| "has_type b (ADecimal x) = ((\<exists>p s. b = Arrow_Decimal128 p s) \<and> \<bar>x\<bar> < 2 ^ 127)"
| "has_type b (ABool _) = (b = Arrow_Boolean)"
| "has_type b (ATime64 _) = (b = Arrow_Time64ns)"
| "has_type b (AList xs) =
     (case b of Arrow_List e \<Rightarrow> (\<forall>x \<in> set xs. case x of None \<Rightarrow> True | Some v \<Rightarrow> has_type e v) | _ \<Rightarrow> False)"

section \<open>Properties\<close>

definition decoded_ok :: "arrow_type \<Rightarrow> decoded option \<Rightarrow> bool" where
  "decoded_ok b r \<longleftrightarrow> (\<forall>n x. r = Some (Inr (n, Some x)) \<longrightarrow> has_type b x)"

lemma decoded_okI [intro]: "(\<And>n x. r = Some (Inr (n, Some x)) \<Longrightarrow> has_type b x) \<Longrightarrow> decoded_ok b r"
  by (simp add: decoded_ok_def)

lemma has_type_bytes_value [simp]: "is_binary_builder b \<Longrightarrow> has_type b (bytes_value b v)"
  by (auto simp: is_binary_builder_def bytes_value_def)

lemma rescale_bound: "rescale v s = Inr x \<Longrightarrow> \<bar>x\<bar> < 2 ^ 127"
  by (auto simp: rescale_def decimal128_FromBigInt_def Let_def split: if_splits)

lemma scan_into_ok: "(\<And>v n x. fits \<Longrightarrow> f v = (n, x) \<Longrightarrow> has_type b x) \<Longrightarrow> decoded_ok b (scan_into fits sc f)"
  by (rule decoded_okI) (auto simp: scan_into_def bind_res_def split: if_splits prod.splits sum.splits)

lemma decode_numeric_ok: "decoded_ok b (decode_numeric cd fmt d s b)"
  by (rule decoded_okI)
    (auto simp: decode_numeric_def res_simps dest: rescale_bound split: if_splits sum.splits arrow_type.splits)

lemma decode_scalar_ok: "decoded_ok b (decode_scalar cd oid fmt d s b)"
  by (cases oid) (auto simp: decode_scalar_def decode_bytes_def Let_def res_simps decode_numeric_ok intro!: scan_into_ok
     split: sum.splits if_splits)

lemma writeValue_ok: "writeValue (binary_builder b) v = Inr (n, x) \<Longrightarrow> has_type b (in_builder b x)"
  by (cases v)
    (auto simp: writeValue_def binary_builder_def in_builder_def bytes_value_def is_timestamp_def split: arrow_type.splits if_splits)

lemma list_into_ok: "(\<And>v. fits \<Longrightarrow> has_type b (f v)) \<Longrightarrow> decoded_ok (Arrow_List b) (list_into fits sc n f)"
  by (rule decoded_okI) (auto simp: list_into_def res_simps split: if_splits option.splits)

lemma numeric_elements_all:
  "numeric_elements f vs = Inr xs \<Longrightarrow> Some x \<in> set xs \<Longrightarrow> \<exists>v. f v = Inr x"
  by (induction vs arbitrary: xs) (auto simp: numeric_elements_def res_simps split: option.splits if_splits)

lemma decimal_elements:
  "numeric_elements (\<lambda>v. rescale v s) vs = Inr xs \<Longrightarrow> Some x \<in> set xs \<Longrightarrow> \<bar>x\<bar> < 2 ^ 127"
  by (drule (1) numeric_elements_all) (auto dest: rescale_bound)

lemma byte_lists_ok:
  "is_binary_builder b \<Longrightarrow>
     decoded_ok (Arrow_List b) (Some (bind_res sc (\<lambda>vs. Inr (total_length vs, Some (AList (map (map_option (bytes_value b)) vs))))))"
  by (rule decoded_okI) (auto simp: res_simps split: option.splits)

lemma decimal_list_ok:
  "decoded_ok (Arrow_List (Arrow_Decimal128 p sc))
     (Some (bind_res (numeric_elements (\<lambda>v. rescale v s) vs) (\<lambda>xs. Inr (n, Some (AList (map (map_option ADecimal) xs))))))"
proof (rule decoded_okI)
  fix m x
  assume "Some (bind_res (numeric_elements (\<lambda>v. rescale v s) vs) (\<lambda>xs. Inr (n, Some (AList (map (map_option ADecimal) xs)))))
            = Some (Inr (m, Some x))"
  then obtain xs where xs: "numeric_elements (\<lambda>v. rescale v s) vs = Inr xs" and x: "x = AList (map (map_option ADecimal) xs)"
    by (auto simp: res_simps)
  show "has_type (Arrow_List (Arrow_Decimal128 p sc)) x"
    using decimal_elements [OF xs] by (auto simp: x split: option.splits)
qed

lemma decode_numerics_ok: "decoded_ok (Arrow_List b) (decode_numerics cd vs s b)"
  by (cases b) (auto simp: decode_numerics_def decimal_list_ok intro: byte_lists_ok)

lemma decode_elements_ok: "decoded_ok (Arrow_List b) (decode_elements cd oid fmt d s b)"
  by (cases oid) (auto simp: decode_elements_def decode_time_elements_def decode_byte_elements_def res_simps decode_numerics_ok intro!: list_into_ok byte_lists_ok
     split: sum.splits if_splits option.splits)


definition unused_scan :: "'a scan" where
  "unused_scan fmt d = Inl (Error ''unexpected scan'')"

definition demo_codecs :: pg_codecs where
  "demo_codecs = \<lparr>
     TypeForOID = (\<lambda>oid. Some (PGType oid (if oid = OtherOID 1007 then Some (PGType Int4OID None) else None))),
     ScanBool = unused_scan, ScanQChar = unused_scan, ScanInt2 = unused_scan, ScanInt4 = unused_scan,
     ScanInt8 = unused_scan, ScanFloat4 = unused_scan, ScanFloat8 = unused_scan,
     ScanTimestamp = unused_scan, ScanTimestamptz = unused_scan, ScanDate = unused_scan,
     ScanTime = unused_scan,
     ScanNumeric = (\<lambda>_ _. Inr \<lparr>num_int = - 123, num_exp = - 1, num_special = False\<rparr>),
     ScanText = unused_scan, ScanBytea = unused_scan, ScanJSON = unused_scan, ScanJSONB = unused_scan,
     ScanUUID = unused_scan, EncodeNumeric = (\<lambda>_. Inr []), EncodeUUID = id,
     DecodeValue = (\<lambda>_. unused_scan), ScanBools = unused_scan, ScanInt2s = unused_scan,
     ScanInt4s = (\<lambda>_ _. Inr [Some 7, None]), ScanInt8s = unused_scan, ScanFloat4s = unused_scan,
     ScanFloat8s = unused_scan, ScanDates = unused_scan, ScanTimes = unused_scan,
     ScanTimestamps = unused_scan, ScanTimestamptzs = unused_scan,
     ScanByteses = (\<lambda>_. unused_scan), ScanNumerics = unused_scan, ScanUUIDs = unused_scan\<rparr>"


section \<open>Decimals\<close>

lemma int32_id: "- (2 ^ 31) \<le> x \<Longrightarrow> x < 2 ^ 31 \<Longrightarrow> int32 x = x"
  by (simp add: int32_def sint_sbintrunc' signed_take_bit_int_eq_self)

lemma small_exponent:
  fixes i :: int
  assumes "i \<noteq> 0" "\<bar>i\<bar> * 10 ^ e < 10 ^ p"
  shows "e < p"
proof -
  have "(10::int) ^ e \<le> \<bar>i\<bar> * 10 ^ e" using assms(1) by (simp add: mult_le_cancel_right1)
  then have "(10::int) ^ e < 10 ^ p" using assms(2) by linarith
  then show ?thesis by (simp add: power_strict_increasing_iff)
qed

lemma rescale_exact:
  assumes "0 \<le> num_exp v + s" "\<bar>num_int v\<bar> * 10 ^ nat (num_exp v + s) < 10 ^ 38" "num_int v = 0 \<longrightarrow> num_exp v + s < 40"
  shows "rescale v s = Inr (num_int v * 10 ^ nat (num_exp v + s))"
proof -
  let ?e = "num_exp v + s"
  have "nat ?e < 40" using assms(3) small_exponent [OF _ assms(2)] by (cases "num_int v = 0") auto
  then have e: "?e < 40" by linarith
  then have "int32 ?e = ?e" using assms(1) by (intro int32_id) auto
  moreover have "decimal128_FromBigInt (num_int v * 10 ^ nat ?e) = Inr (num_int v * 10 ^ nat ?e)"
    using assms(2) by (simp add: decimal128_FromBigInt_def abs_mult)
  ultimately show ?thesis using e assms(1) by (auto simp: rescale_def Let_def)
qed

text \<open>
  (C38) A value of a column \<^verbatim>\<open>numeric(p, s)\<close> that the server stores as a decimal is decoded exactly, whatever
  exponent the codec gives it: the value scaled by \<open>10 ^ s\<close>, without an error and without an overflow
  of the 128 bits. The builder is the one of the type of the column.
\<close>

theorem decode_numeric_column_exact:
  assumes "TypeForOID cd NumericOID = Some (PGType NumericOID None)"
    and "rc_oid col = NumericOID" "rc_modifier col = p * 65536 + s + 4"
    and "0 < p" "p \<le> 38" "0 \<le> s" "s \<le> p"
    and "ScanNumeric cd fmt d = Inr v" "\<not> num_special v"
    and "- s \<le> num_exp v" "\<bar>num_int v\<bar> * 10 ^ nat (num_exp v + s) < 10 ^ nat p" "num_int v = 0 \<longrightarrow> num_exp v \<le> 0"
  shows "decodeToArrow cd col (Some d) fmt (pgTypeToArrowType (PGType NumericOID None) p s)
           = Inr (16, Some (ADecimal (num_int v * 10 ^ nat (num_exp v + s))))"
proof -
  have "(10::int) ^ nat p \<le> 10 ^ 38" using assms(4,5) by (intro power_increasing) auto
  then have "rescale v s = Inr (num_int v * 10 ^ nat (num_exp v + s))"
    using assms(5,7,10-12) by (intro rescale_exact) linarith+
  then show ?thesis
    using assms by (simp add: decodeToArrow_def decode_scalar_def decode_numeric_def is_binary_builder_def DecodePrecisionScale_arith)
qed

theorem decode_numeric_column_exact_witness:
  "decodeToArrow demo_codecs \<lparr>rc_flags = 0, rc_name = ''a'', rc_oid = NumericOID, rc_modifier = 10 * 65536 + 2 + 4\<rparr>
     (Some [45, 49, 50, 46, 51]) TextFormat (pgTypeToArrowType (PGType NumericOID None) 10 2) = Inr (16, Some (ADecimal (- 1230)))"
  using decode_numeric_column_exact [where p = 10 and s = 2 and v = "\<lparr>num_int = - 123, num_exp = - 1, num_special = False\<rparr>"
     and fmt = TextFormat and d = "[45, 49, 50, 46, 51]" and cd = demo_codecs
     and col = "\<lparr>rc_flags = 0, rc_name = ''a'', rc_oid = NumericOID, rc_modifier = 10 * 65536 + 2 + 4\<rparr>"]
  by (simp add: demo_codecs_def)

end
