(* ===== verification/Logrepl.thy ===== *)
theory Logrepl
  imports ReplicaProvider PgDecode Identifiers
begin

text \<open>
  The replicator of a Postgres subscription (\<^verbatim>\<open>pgserver/logrepl/replication.go\<close>, \<^verbatim>\<open>ddl.go\<close>, \<^verbatim>\<open>subscription.go\<close>): it
  reads the logical replication stream of a Postgres server, collects row changes in a delta
  controller, and commits them together with the position of the last transaction, the LSN of the
  subscription.

  The state of a connection is the record \<open>replicationState\<close>, with the session of the replica beside
  it; that of the loop is \<open>replicator\<close>. As in the applier of the binlog, a handler returns an error
  together with the state it leaves. The fields of \<open>logrepl_env\<close> stand for third-party code: the parser of
  pglogrepl, the codecs of pgtype, the driver and DuckDB. The subscription's row of
  \<^verbatim>\<open>pg_subscription\<close> is \<open>position_row\<close>; the replicated tables are \<open>contents\<close>. Logging, locks and sleeps are left
  out; the stop channel is an input.
\<close>

section \<open>Messages\<close>

type_synonym lsn = u64

record relation =
  rel_id :: u32
  rel_namespace :: string
  rel_name :: string
  rel_columns :: "relation_column list"

datatype tuple_column = TupleNull | TupleText bytes | TupleBinary bytes | TupleOther nat

datatype old_tuple = OldNone | OldKey "tuple_column list" | OldFull "tuple_column list"

datatype pg_message =
    RelationMessage relation
  | BeginMessage lsn
  | CommitMessage lsn
  | InsertMessage u32 "tuple_column list"
  | UpdateMessage u32 old_tuple "tuple_column list"
  | DeleteMessage u32 old_tuple
  | TruncateMessage "u32 list"
  | StreamStartMessage
  | StreamStopMessage
  | OtherMessage

section \<open>State\<close>

type_synonym pg_session = "(arrow_value store, string) database session"

record replicationState =
  rs_lastWrittenLSN :: lsn
  rs_lastReceivedLSN :: lsn
  rs_currentTransactionLSN :: lsn
  rs_lastCommitLSN :: lsn
  rs_inStream :: bool
  rs_processMessages :: bool
  rs_relations :: "u32 \<Rightarrow> relation option"
  rs_schemas :: "u32 \<Rightarrow> schema option"
  rs_keys :: "u32 \<Rightarrow> nat list option"
  rs_deltas :: "arrow_value controller"
  rs_deltaBufSize :: u64
  rs_lastCommitTime :: nat
  rs_commitCount :: u64
  rs_ongoingBatchTxn :: bool
  rs_dirtyTxn :: bool
  rs_dirtyStream :: bool
  rs_inTxnStmtID :: u64
  rs_sess :: pg_session

record status_update =
  WALWritePosition :: lsn
  WALFlushPosition :: lsn
  WALApplyPosition :: lsn

record replication_start =
  start_dns :: string
  start_slot :: string
  start_lsn :: lsn
  start_args :: "string list"

record logrepl_env =
  codecs :: pg_codecs
  delta_db :: "arrow_value delta_env"
  without_index :: bool
  ParseV2 :: "bytes \<Rightarrow> bool \<Rightarrow> pg_message res"
  LSN_String :: "lsn \<Rightarrow> string"
  ParseLSN :: "string \<Rightarrow> lsn res"
  ConnErr :: "pg_session \<Rightarrow> string option"
  BeginErr :: "pg_session \<Rightarrow> string option"
  CommitErr :: "pg_session \<Rightarrow> string option"
  RollbackErr :: "pg_session \<Rightarrow> string option"
  UpdateErr :: "pg_session \<Rightarrow> string option"
  SelectErr :: "pg_session \<Rightarrow> string option"
  ExecSQL :: "string \<Rightarrow> arrow_value store \<Rightarrow> string option \<times> arrow_value store"
  Connect :: "replication_start \<Rightarrow> string option"
  SendErr :: "status_update \<Rightarrow> string option"

text \<open>\<^verbatim>\<open>reset\<close>: only the session survives it.\<close>

definition reset :: "nat \<Rightarrow> lsn \<Rightarrow> pg_session \<Rightarrow> replicationState" where
  "reset now l s =
     \<lparr>rs_lastWrittenLSN = l, rs_lastReceivedLSN = 0, rs_currentTransactionLSN = 0, rs_lastCommitLSN = l, rs_inStream = False,
      rs_processMessages = False, rs_relations = Map.empty, rs_schemas = Map.empty, rs_keys = Map.empty, rs_deltas = NewController,
      rs_deltaBufSize = 0, rs_lastCommitTime = now, rs_commitCount = 0, rs_ongoingBatchTxn = False, rs_dirtyTxn = False,
      rs_dirtyStream = False, rs_inTxnStmtID = 0, rs_sess = s\<rparr>"

section \<open>Statements of the session\<close>

text \<open>\<^verbatim>\<open>adapter.GetCatalogTxn\<close>, \<^verbatim>\<open>adapter.ExecCatalog\<close> and \<^verbatim>\<open>adapter.ExecInTxn\<close>\<close>

definition GetCatalogTxn :: "logrepl_env \<Rightarrow> pg_session \<Rightarrow> go_error option \<times> pg_session" where
  "GetCatalogTxn env s =
     (if txn s = None then
        (case BeginErr env s of
           Some e \<Rightarrow> (Some (Error e), s)
         | None \<Rightarrow> (None, s\<lparr>txn := Some (OpenTx (committed s))\<rparr>))
      else (None, s))"

definition exec_text :: "logrepl_env \<Rightarrow> string \<Rightarrow> pg_session \<Rightarrow> go_error option \<times> pg_session" where
  "exec_text env q s =
     (case ExecSQL env q (contents (view s)) of (e, d) \<Rightarrow> (map_option Error e, set_view ((view s)\<lparr>contents := d\<rparr>) s))"

definition ExecCatalog :: "logrepl_env \<Rightarrow> string \<Rightarrow> pg_session \<Rightarrow> go_error option \<times> pg_session" where
  "ExecCatalog env q s =
     (case ConnErr env s of
        Some e \<Rightarrow> (Some (Error e), s)
      | None \<Rightarrow> exec_text env q s)"

definition ExecInTxn :: "logrepl_env \<Rightarrow> string \<Rightarrow> pg_session \<Rightarrow> go_error option \<times> pg_session" where
  "ExecInTxn env q s =
     (case GetCatalogTxn env s of
        (Some e, s') \<Rightarrow> (Some e, s')
      | (None, s') \<Rightarrow>
          (if tx_alive s' then exec_text env q s'
           else (Some (Error ''transaction has already been committed or rolled back''), s')))"

text \<open>\<^verbatim>\<open>UpdateSubscriptionLsn\<close>, an \<^verbatim>\<open>UPDATE\<close> of the row of the subscription, and \<^verbatim>\<open>SelectSubscriptionLsn\<close>\<close>

definition UpdateSubscriptionLsn :: "logrepl_env \<Rightarrow> string \<Rightarrow> pg_session \<Rightarrow> go_error option \<times> pg_session" where
  "UpdateSubscriptionLsn env l s =
     (case GetCatalogTxn env s of
        (Some e, s') \<Rightarrow> (Some e, s')
      | (None, s') \<Rightarrow>
          (if \<not> tx_alive s' then (Some (Error ''transaction has already been committed or rolled back''), s')
           else case UpdateErr env s' of
             Some e \<Rightarrow> (Some (Error e), s')
           | None \<Rightarrow> (None, set_view ((view s')\<lparr>position_row := map_option (\<lambda>_. l) (position_row (view s'))\<rparr>) s')))"

definition SelectSubscriptionLsn :: "logrepl_env \<Rightarrow> pg_session \<Rightarrow> lsn res" where
  "SelectSubscriptionLsn env s =
     (case ConnErr env s of
        Some e \<Rightarrow> Inl (Panic ''nil pointer dereference'')
      | None \<Rightarrow>
          (case SelectErr env s of
             Some e \<Rightarrow> Inl (Error e)
           | None \<Rightarrow>
               (case position_row (view s) of
                  None \<Rightarrow> Inr 0
                | Some l \<Rightarrow> ParseLSN env l)))"

section \<open>Transactions\<close>

definition mayExtendBatchTxn_pg :: "nat \<Rightarrow> replicationState \<Rightarrow> bool \<times> FlushReason" where
  "mayExtendBatchTxn_pg now st =
     (if \<not> rs_ongoingBatchTxn st then (False, UnknownFlushReason)
      else if rs_commitCount st = 1 then (False, InitFlushReason)
      else if now - rs_lastCommitTime st \<ge> 200 then (False, TimeTickFlushReason)
      else if rs_deltaBufSize st \<ge> 2 ^ 27 then (False, MemoryLimitFlushReason)
      else (True, UnknownFlushReason))"

text \<open>\<^verbatim>\<open>flushDeltaBuffer\<close>, given whether it gets a transaction.\<close>

definition flushDeltaBuffer_pg ::
    "logrepl_env \<Rightarrow> bool \<Rightarrow> FlushReason \<Rightarrow> replicationState \<Rightarrow> go_error option \<times> replicationState" where
  "flushDeltaBuffer_pg env tx reason st =
     (let s = rs_sess st in
      case (if tx then FlushDelta (delta_db env) (without_index env) (tx_alive s) reason (rs_deltas st) (contents (view s))
            else case Flush (delta_db env) (without_index env) False reason (rs_deltas st) (contents (view s)) of
              (e, d, stats, c) \<Rightarrow> (e, d, c)) of
        (e, d, c) \<Rightarrow> (e, st\<lparr>rs_deltas := c, rs_deltaBufSize := 0, rs_sess := set_view ((view s)\<lparr>contents := d\<rparr>) s\<rparr>))"

text \<open>
  \<^verbatim>\<open>commitOngoingTxn\<close>. The deferred calls forget the transaction and roll back what was not committed,
  on every way out once there is a transaction.
\<close>

definition CloseTxn :: "replicationState \<Rightarrow> replicationState" where
  "CloseTxn st = st\<lparr>rs_sess := (rs_sess st)\<lparr>txn := None\<rparr>\<rparr>"

definition commitOngoingTxn_pg ::
    "logrepl_env \<Rightarrow> nat \<Rightarrow> FlushReason \<Rightarrow> replicationState \<Rightarrow> go_error option \<times> replicationState" where
  "commitOngoingTxn_pg env now reason st =
     (case ConnErr env (rs_sess st) of
        Some e \<Rightarrow> (Some (Error e), st)
      | None \<Rightarrow>
          (if txn (rs_sess st) = None then (None, st)
           else case flushDeltaBuffer_pg env True reason st of
             (Some e, st1) \<Rightarrow> (Some e, CloseTxn st1)
           | (None, st1) \<Rightarrow>
               (case UpdateSubscriptionLsn env (LSN_String env (rs_lastCommitLSN st1)) (rs_sess st1) of
                  (Some e, s) \<Rightarrow> (Some e, CloseTxn (st1\<lparr>rs_sess := s\<rparr>))
                | (None, s) \<Rightarrow>
                    (case CommitErr env s of
                       Some e \<Rightarrow> (Some (Error e), CloseTxn (st1\<lparr>rs_sess := s\<rparr>))
                     | None \<Rightarrow>
                         (None, CloseTxn (st1\<lparr>rs_sess := s\<lparr>committed := view s\<rparr>, rs_ongoingBatchTxn := False, rs_dirtyTxn := False,
                            rs_dirtyStream := False, rs_inTxnStmtID := 0, rs_lastCommitTime := now,
                            rs_lastWrittenLSN := rs_lastCommitLSN st1\<rparr>))))))"

definition commitOngoingTxnIfClean ::
    "logrepl_env \<Rightarrow> nat \<Rightarrow> FlushReason \<Rightarrow> replicationState \<Rightarrow> go_error option \<times> replicationState" where
  "commitOngoingTxnIfClean env now reason st =
     (if rs_dirtyTxn st \<and> \<not> rs_dirtyStream st then commitOngoingTxn_pg env now reason st else (None, st))"

definition rollback :: "logrepl_env \<Rightarrow> replicationState \<Rightarrow> go_error option \<times> replicationState" where
  "rollback env st =
     (if txn (rs_sess st) = None then (None, CloseTxn st)
      else case RollbackErr env (rs_sess st) of
        Some e \<Rightarrow> (if contains_text e ''no transaction is active'' then None else Some (Error e), CloseTxn st)
      | None \<Rightarrow> (None, CloseTxn st))"

section \<open>Tables\<close>

text \<open>\<^verbatim>\<open>PostgresOIDToDuckDBTypeName\<close>; the OIDs of array types are those of the Postgres catalog.\<close>

definition PostgresOIDToDuckDBTypeName :: "pg_oid \<Rightarrow> string option" where
  "PostgresOIDToDuckDBTypeName oid = map_of
     [(BoolOID, ''BOOLEAN''), (ByteaOID, ''BLOB''), (QCharOID, ''UTINYINT''), (Int2OID, ''SMALLINT''), (Int4OID, ''INTEGER''),
      (Int8OID, ''BIGINT''), (Float4OID, ''FLOAT''), (Float8OID, ''DOUBLE''), (NumericOID, ''DECIMAL''), (TextOID, ''VARCHAR''),
      (VarcharOID, ''VARCHAR''), (BPCharOID, ''VARCHAR''), (NameOID, ''VARCHAR''), (DateOID, ''DATE''), (TimeOID, ''TIME''),
      (TimetzOID, ''TIMETZ''), (TimestampOID, ''TIMESTAMP''), (TimestamptzOID, ''TIMESTAMPTZ''), (IntervalOID, ''INTERVAL''),
      (UUIDOID, ''UUID''), (BitOID, ''BIT''), (VarbitOID, ''BIT''), (JSONOID, ''JSON''), (JSONBOID, ''JSON''), (OIDOID, ''UINTEGER''),
      (XIDOID, ''UINTEGER''), (CIDOID, ''UINTEGER''), (TIDOID, ''UBIGINT''), (OtherOID 1000, ''BOOLEAN[]''), (OtherOID 1002, ''TINYINT[]''),
      (OtherOID 1005, ''SMALLINT[]''), (OtherOID 1007, ''INTEGER[]''), (OtherOID 1016, ''BIGINT[]''), (OtherOID 1021, ''FLOAT[]''),
      (OtherOID 1022, ''DOUBLE[]''), (NumericArrayOID, ''DECIMAL[]''), (OtherOID 1009, ''VARCHAR[]''), (OtherOID 1015, ''VARCHAR[]''),
      (OtherOID 1014, ''VARCHAR[]''), (OtherOID 1003, ''VARCHAR[]''), (OtherOID 2951, ''UUID[]''), (OtherOID 1182, ''DATE[]''),
      (OtherOID 1183, ''TIME[]''), (OtherOID 1270, ''TIMETZ[]''), (OtherOID 1115, ''TIMESTAMP[]''), (OtherOID 1185, ''TIMESTAMPTZ[]''),
      (OtherOID 1187, ''INTERVAL[]''), (OtherOID 199, ''JSON[]''), (OtherOID 3807, ''JSON[]''), (OtherOID 1561, ''BIT[]'')] oid"

definition pgTypeName :: "relation_column \<Rightarrow> string" where
  "pgTypeName col =
     (case PostgresOIDToDuckDBTypeName (rc_oid col) of
        None \<Rightarrow> ''VARCHAR''
      | Some duck \<Rightarrow>
          (if rc_oid col = NumericOID then
             (case DecodePrecisionScale (rc_modifier col) of
                (p, s, True) \<Rightarrow> ''DECIMAL('' @ itoa (nat p) @ '','' @ itoa (nat s) @ '')''
              | (p, s, False) \<Rightarrow> ''VARCHAR'')
           else duck))"

definition generateCreateTableStmt :: "bool \<Rightarrow> relation \<Rightarrow> string" where
  "generateCreateTableStmt withoutIndex rel =
     (let cols = map (\<lambda>c. QuoteIdentifierANSI (rc_name c) @ '' '' @ pgTypeName c) (rel_columns rel);
          keyColumns = map rc_name (filter (\<lambda>c. rc_flags c = 1) (rel_columns rel))
      in ''CREATE TABLE IF NOT EXISTS '' @ ConnectIdentifiersANSI [rel_namespace rel, rel_name rel] @ '' ('' @
         join '', '' cols @
         (if \<not> withoutIndex \<and> keyColumns \<noteq> [] then '', PRIMARY KEY ('' @ join '', '' keyColumns @ '')'' else []) @ '');'')"

definition relation_schema :: "logrepl_env \<Rightarrow> relation \<Rightarrow> schema res" where
  "relation_schema env rel =
     map_res (\<lambda>c. bind_res (NewPostgresType (TypeForOID (codecs env)) (rc_oid c) (rc_modifier c)) (\<lambda>t.
        Inr \<lparr>col_name = rc_name c, col_type = Postgres t, col_pk = (rc_flags c = 1), col_nullable = False\<rparr>)) (rel_columns rel)"

definition relation_keys :: "relation \<Rightarrow> nat list" where
  "relation_keys rel = filter (\<lambda>i. rc_flags (rel_columns rel ! i) = 1) [0..<length (rel_columns rel)]"

definition relation_table :: "relation \<Rightarrow> tableIdentifier" where
  "relation_table rel = \<lparr>dbName = rel_namespace rel, tableName = rel_name rel\<rparr>"

text \<open>The handler of a relation message; a relation that is already known ends the batch.\<close>

definition processRelation :: "logrepl_env \<Rightarrow> nat \<Rightarrow> relation \<Rightarrow> replicationState \<Rightarrow> go_error option \<times> replicationState" where
  "processRelation env now rel st =
     (case (if rs_relations st (rel_id rel) \<noteq> None then commitOngoingTxn_pg env now DDLStmtFlushReason st else (None, st)) of
        (Some e, st1) \<Rightarrow> (Some e, st1)
      | (None, st1) \<Rightarrow>
          (let st2 = st1\<lparr>rs_relations := (rs_relations st1)(rel_id rel \<mapsto> rel)\<rparr> in
           case relation_schema env rel of
             Inl e \<Rightarrow> (Some e, st2)
           | Inr sch \<Rightarrow>
               (let st3 = st2\<lparr>rs_schemas := (rs_schemas st2)(rel_id rel \<mapsto> sch), rs_keys := (rs_keys st2)(rel_id rel \<mapsto> relation_keys rel)\<rparr>
                in case ExecCatalog env (generateCreateTableStmt (without_index env) rel) (rs_sess st3) of
                     (e, s) \<Rightarrow> (e, st3\<lparr>rs_sess := s\<rparr>))))"

section \<open>Rows\<close>

definition tupleDataFormat :: "tuple_column \<Rightarrow> pg_format" where
  "tupleDataFormat c = (case c of TupleBinary _ \<Rightarrow> BinaryFormat | _ \<Rightarrow> TextFormat)"

definition tuple_datum :: "pg_codecs \<Rightarrow> relation_column \<Rightarrow> tuple_column \<Rightarrow> arrow_type \<Rightarrow> (nat \<times> arrow_value datum) res" where
  "tuple_datum cd col c b =
     (let decode = (\<lambda>d. bind_res (decodeToArrow cd col (Some d) (tupleDataFormat c) b) (\<lambda>(n, v).
            Inr (n, case v of None \<Rightarrow> Null | Some x \<Rightarrow> Val x)))
      in case c of
           TupleNull \<Rightarrow> Inr (0, Null)
         | TupleText d \<Rightarrow> decode d
         | TupleBinary d \<Rightarrow> decode d
         | TupleOther k \<Rightarrow> Inl (Error ''unsupported replication data format''))"

text \<open>
  The loop over the columns of the relation: \<open>i\<close> is the column and its builder, \<open>idx\<close> the number of key
  columns before it.
\<close>

fun append_columns ::
    "pg_codecs \<Rightarrow> schema \<Rightarrow> tuple_column list \<Rightarrow> bool \<Rightarrow> relation_column list \<Rightarrow> nat \<Rightarrow> nat \<Rightarrow> (nat \<times> arrow_value drow) res" where
  "append_columns cd flds tuple onlyKeys [] i idx = Inr (0, [])"
| "append_columns cd flds tuple onlyKeys (m # ms) i idx =
     (if length flds \<le> i then Inl (Panic ''index out of range'')
      else if onlyKeys \<and> rc_flags m \<noteq> 1
      then bind_res (append_columns cd flds tuple onlyKeys ms (i + 1) idx) (\<lambda>(n, r). Inr (n, Null # r))
      else
        let j = (if onlyKeys then idx else i) in
        if length tuple \<le> j then Inl (Panic ''index out of range'')
        else
          bind_res (ToArrowType (col_type (flds ! i))) (\<lambda>b.
          bind_res (tuple_datum cd m (tuple ! j) b) (\<lambda>(k, v).
          bind_res (append_columns cd flds tuple onlyKeys ms (i + 1) (idx + 1)) (\<lambda>(n, r). Inr (k + n, v # r)))))"

definition lsn_stamp :: "replicationState \<Rightarrow> stamp" where
  "lsn_stamp st =
     \<lparr>st_tag = None, st_server = Some [], st_group = None, st_seq = rs_currentTransactionLSN st, st_stmt = rs_inTxnStmtID st\<rparr>"

text \<open>
  \<^verbatim>\<open>append\<close>. The transaction columns are appended first, so a column that cannot be decoded, or a tuple
  with fewer columns than the record, leaves the appender torn.
\<close>

definition append_pg ::
    "logrepl_env \<Rightarrow> u32 \<Rightarrow> tuple_column list \<Rightarrow> RowEventType \<Rightarrow> RowEventType \<Rightarrow> bool \<Rightarrow> replicationState \<Rightarrow>
       go_error option \<times> replicationState" where
  "append_pg env relationID tuple act ev onlyKeys st =
     (case rs_relations st relationID of
        None \<Rightarrow> (Some (Error ''unknown relation ID''), st)
      | Some rel \<Rightarrow>
          (let t = relation_table rel in
           case GetDeltaAppender (rs_deltas st) t (case rs_schemas st relationID of None \<Rightarrow> [] | Some sch \<Rightarrow> sch) of
             Inl e \<Rightarrow> (Some e, st)
           | Inr (app, c) \<Rightarrow>
               (let put = (\<lambda>app'. st\<lparr>rs_deltas := put_appender t app' c\<rparr>) in
                if tuple = [] then
                  (if ev = UpdateRowEvent \<and> act = DeleteRowEvent then (None, put (ObserveEvents UpdateRowEvent 1 app))
                   else (Some (Error ''empty tuple data''), put app))
                else
                  (case append_columns (codecs env) (BaseSchema app) tuple onlyKeys (rel_columns rel) 0 0 of
                     Inl e \<Rightarrow> (Some e, put (app\<lparr>torn := torn app + 1\<rparr>))
                   | Inr (n, r) \<Rightarrow>
                       (let app' = (if length r = length (BaseSchema app) then append_rows (lsn_stamp st) act [r] app
                                    else app\<lparr>torn := torn app + 1\<rparr>)
                        in (None, (put (ObserveEvents ev 1 (UpdateActionStats act 1 app')))
                              \<lparr>rs_deltaBufSize := rs_deltaBufSize st + word_of_nat n\<rparr>))))))"

definition truncate_pg :: "logrepl_env \<Rightarrow> u32 \<Rightarrow> replicationState \<Rightarrow> go_error option \<times> replicationState" where
  "truncate_pg env relationID st =
     (case rs_relations st relationID of
        None \<Rightarrow> (Some (Error ''unknown relation ID''), st)
      | Some rel \<Rightarrow>
          (case ExecInTxn env (''TRUNCATE '' @ ConnectIdentifiersANSI [rel_namespace rel, rel_name rel]) (rs_sess st) of
             (e, s) \<Rightarrow> (e, st\<lparr>rs_sess := s\<rparr>)))"

fun truncate_all :: "logrepl_env \<Rightarrow> u32 list \<Rightarrow> replicationState \<Rightarrow> go_error option \<times> replicationState" where
  "truncate_all env [] st = (None, st)"
| "truncate_all env (i # is) st =
     (case truncate_pg env i st of
        (Some e, st') \<Rightarrow> (Some e, st')
      | (None, st') \<Rightarrow> truncate_all env is st')"

section \<open>The message handler\<close>

text \<open>What every row message does once its rows are in the buffer.\<close>

definition mark_dirty :: "go_error option \<times> replicationState \<Rightarrow> (go_error option \<times> bool) \<times> replicationState" where
  "mark_dirty r =
     (case r of
        (Some e, st) \<Rightarrow> ((Some e, False), st)
      | (None, st) \<Rightarrow>
          ((None, False), st\<lparr>rs_dirtyTxn := True, rs_dirtyStream := True, rs_inTxnStmtID := rs_inTxnStmtID st + 1\<rparr>))"

definition processUpdate ::
    "logrepl_env \<Rightarrow> u32 \<Rightarrow> old_tuple \<Rightarrow> tuple_column list \<Rightarrow> replicationState \<Rightarrow> go_error option \<times> replicationState" where
  "processUpdate env i old new st =
     (case (case old of
              OldKey tuple \<Rightarrow> append_pg env i tuple DeleteRowEvent UpdateRowEvent True st
            | OldFull tuple \<Rightarrow> append_pg env i tuple DeleteRowEvent UpdateRowEvent False st
            | OldNone \<Rightarrow> append_pg env i [] DeleteRowEvent UpdateRowEvent True st) of
        (Some e, st1) \<Rightarrow> (Some e, st1)
      | (None, st1) \<Rightarrow> append_pg env i new InsertRowEvent UpdateRowEvent False st1)"

definition processDelete :: "logrepl_env \<Rightarrow> u32 \<Rightarrow> old_tuple \<Rightarrow> replicationState \<Rightarrow> go_error option \<times> replicationState" where
  "processDelete env i old st =
     (case old of
        OldKey tuple \<Rightarrow> append_pg env i tuple DeleteRowEvent DeleteRowEvent True st
      | OldFull tuple \<Rightarrow> append_pg env i tuple DeleteRowEvent DeleteRowEvent False st
      | OldNone \<Rightarrow> (Some (Error ''DeleteMessage without OldTuple''), st))"

definition processBegin :: "logrepl_env \<Rightarrow> nat \<Rightarrow> lsn \<Rightarrow> replicationState \<Rightarrow> go_error option \<times> replicationState" where
  "processBegin env now final st =
     (if rs_lastWrittenLSN st > final then (None, st\<lparr>rs_processMessages := False\<rparr>)
      else
        (let st1 = st\<lparr>rs_processMessages := True, rs_currentTransactionLSN := final\<rparr> in
         case mayExtendBatchTxn_pg now st1 of
           (True, _) \<Rightarrow> (None, st1)
         | (False, reason) \<Rightarrow>
             (case commitOngoingTxn_pg env now reason st1 of
                (Some e, st2) \<Rightarrow> (Some e, st2)
              | (None, st2) \<Rightarrow>
                  (case GetCatalogTxn env (rs_sess st2) of
                     (Some e, s) \<Rightarrow> (Some e, st2\<lparr>rs_sess := s\<rparr>)
                   | (None, s) \<Rightarrow> (None, st2\<lparr>rs_sess := s, rs_ongoingBatchTxn := True\<rparr>)))))"

definition processCommit :: "logrepl_env \<Rightarrow> nat \<Rightarrow> lsn \<Rightarrow> replicationState \<Rightarrow> go_error option \<times> replicationState" where
  "processCommit env now l st =
     (let st1 = st\<lparr>rs_lastCommitLSN := l, rs_commitCount := rs_commitCount st + 1\<rparr> in
      case (case mayExtendBatchTxn_pg now st1 of
              (True, _) \<Rightarrow> (None, st1)
            | (False, reason) \<Rightarrow> commitOngoingTxn_pg env now reason st1) of
        (Some e, st2) \<Rightarrow> (Some e, st2)
      | (None, st2) \<Rightarrow> (None, st2\<lparr>rs_dirtyStream := False, rs_inTxnStmtID := 0, rs_processMessages := False\<rparr>))"

text \<open>\<^verbatim>\<open>processMessage\<close>: the error, whether the message is a commit to acknowledge, and the state.\<close>

definition processMessage ::
    "logrepl_env \<Rightarrow> nat \<Rightarrow> lsn \<Rightarrow> bytes \<Rightarrow> replicationState \<Rightarrow> (go_error option \<times> bool) \<times> replicationState" where
  "processMessage env now walEnd walData st0 =
     (case ParseV2 env walData (rs_inStream st0) of
        Inl e \<Rightarrow> ((Some e, False), st0)
      | Inr msg \<Rightarrow>
          (let st = (if walEnd > rs_lastReceivedLSN st0 then st0\<lparr>rs_lastReceivedLSN := walEnd\<rparr> else st0);
               quiet = (\<lambda>(e, st'). ((e, False), st'));
               skip = ((None, False), st)
           in case msg of
                RelationMessage rel \<Rightarrow> quiet (processRelation env now rel st)
              | BeginMessage final \<Rightarrow> quiet (processBegin env now final st)
              | CommitMessage l \<Rightarrow> (case processCommit env now l st of (e, st') \<Rightarrow> ((e, e = None), st'))
              | InsertMessage i tuple \<Rightarrow>
                  (if rs_processMessages st then mark_dirty (append_pg env i tuple InsertRowEvent InsertRowEvent False st) else skip)
              | UpdateMessage i old new \<Rightarrow>
                  (if rs_processMessages st then mark_dirty (processUpdate env i old new st) else skip)
              | DeleteMessage i old \<Rightarrow>
                  (if rs_processMessages st then mark_dirty (processDelete env i old st) else skip)
              | TruncateMessage ids \<Rightarrow>
                  (if rs_processMessages st
                   then mark_dirty (truncate_all env ids (snd (flushDeltaBuffer_pg env False DMLStmtFlushReason st))) else skip)
              | StreamStartMessage \<Rightarrow> ((None, False), st\<lparr>rs_inStream := True\<rparr>)
              | StreamStopMessage \<Rightarrow> ((None, False), st\<lparr>rs_inStream := False\<rparr>)
              | OtherMessage \<Rightarrow> skip))"

section \<open>The replication loop\<close>

text \<open>
  The variables of \<^verbatim>\<open>StartReplication\<close>: \<open>rp_conn\<close> says whether there is a connection to the primary, \<open>rp_receiving\<close>
  whether the loop waits for a message.
\<close>

record replicator =
  rp_state :: replicationState
  rp_dns :: string
  rp_slot :: string
  rp_conn :: bool
  rp_errs :: nat
  rp_deadline :: nat
  rp_receiving :: bool
  rp_running :: bool

definition maxConsecutiveFailures :: nat where
  "maxConsecutiveFailures = 10"

definition ReplicationDns :: "string \<Rightarrow> string" where
  "ReplicationDns dns =
     (if contains_text dns ''?'' then dns @ ''&replication=database'' else dns @ ''?replication=database'')"

definition beginReplication :: "logrepl_env \<Rightarrow> string \<Rightarrow> string \<Rightarrow> lsn \<Rightarrow> string option" where
  "beginReplication env dns slot lastFlushLsn =
     Connect env \<lparr>start_dns = ReplicationDns dns, start_slot = slot, start_lsn = lastFlushLsn + 1,
       start_args = [''proto_version '' @ [CHR 39] @ ''2'' @ [CHR 39], ''publication_names '' @ [CHR 39] @ slot @ [CHR 39],
                     ''messages '' @ [CHR 39] @ ''true'' @ [CHR 39], ''streaming '' @ [CHR 39] @ ''true'' @ [CHR 39]]\<rparr>"

text \<open>\<^verbatim>\<open>handleErrWithRetry\<close>\<close>

definition handleErrWithRetry :: "go_error option \<Rightarrow> bool \<Rightarrow> replicator \<Rightarrow> go_error option \<times> replicator" where
  "handleErrWithRetry err incrementErrorCount rp =
     (case err of
        Some e \<Rightarrow>
          (let n = (if incrementErrorCount then rp_errs rp + 1 else rp_errs rp) in
           if n < maxConsecutiveFailures then (None, rp\<lparr>rp_errs := n, rp_conn := False\<rparr>) else (Some e, rp\<lparr>rp_errs := n\<rparr>))
      | None \<Rightarrow> (None, rp\<lparr>rp_errs := 0\<rparr>))"

definition standby_status :: "replicationState \<Rightarrow> status_update" where
  "standby_status st =
     \<lparr>WALWritePosition = rs_lastReceivedLSN st + 1, WALFlushPosition = rs_lastWrittenLSN st + 1,
      WALApplyPosition = rs_lastWrittenLSN st + 1\<rparr>"

definition sendStandbyStatusUpdate ::
    "logrepl_env \<Rightarrow> nat \<Rightarrow> replicator \<Rightarrow> go_error option \<times> status_update list \<times> replicator" where
  "sendStandbyStatusUpdate env now rp =
     (let u = standby_status (rp_state rp) in
      case SendErr env u of
        Some e \<Rightarrow> (case handleErrWithRetry (Some (Error e)) False rp of (err, rp') \<Rightarrow> (err, [], rp'))
      | None \<Rightarrow> (None, [u], rp\<lparr>rp_deadline := now + 10000\<rparr>))"

text \<open>A round connects if there is no connection, and then rolls back and resets.\<close>

definition ensure_connection :: "logrepl_env \<Rightarrow> nat \<Rightarrow> replicator \<Rightarrow> go_error option \<times> replicator" where
  "ensure_connection env now rp =
     (if rp_conn rp then (None, rp)
      else case beginReplication env (rp_dns rp) (rp_slot rp) (rs_lastWrittenLSN (rp_state rp)) of
        Some e \<Rightarrow> handleErrWithRetry (Some (Error e)) True rp
      | None \<Rightarrow>
          (case rollback env (rp_state rp) of
             (Some e, st) \<Rightarrow> (Some e, rp\<lparr>rp_conn := True, rp_state := st\<rparr>)
           | (None, st) \<Rightarrow> (None, rp\<lparr>rp_conn := True, rp_state := reset now (rs_lastWrittenLSN st) (rs_sess st)\<rparr>)))"

text \<open>The first half of a round, which also sends the status when it is due.\<close>

definition start_round ::
    "logrepl_env \<Rightarrow> nat \<Rightarrow> replicator \<Rightarrow> go_error option \<times> status_update list \<times> replicator" where
  "start_round env now rp =
     (case ensure_connection env now rp of
        (Some e, rp1) \<Rightarrow> (Some e, [], rp1)
      | (None, rp1) \<Rightarrow>
          (if \<not> rp_conn rp1 then (None, [], rp1)
           else case (if now > rp_deadline rp1 \<and> rs_lastReceivedLSN (rp_state rp1) > 0
                      then sendStandbyStatusUpdate env now rp1 else (None, [], rp1)) of
             (Some e, us, rp2) \<Rightarrow> (Some e, us, rp2)
           | (None, us, rp2) \<Rightarrow> (None, us, rp2\<lparr>rp_receiving := rp_conn rp2\<rparr>)))"

text \<open>
  What the select of a round receives: the deadline, the ticker, an error of the connection with
  whether it is a timeout or \<^verbatim>\<open>conn busy\<close>, or a message. \<open>CopyData\<close> is empty, a keepalive, data of the WAL, or of
  another kind; keepalives and WAL data may fail to parse.
\<close>

datatype received =
    RcvDeadline
  | RcvTick
  | RcvError string bool bool
  | RcvErrorResponse
  | RcvUnexpected
  | RcvEmpty
  | RcvKeepalive "(lsn \<times> bool) res"
  | RcvXLogData "(lsn \<times> bytes) res"
  | RcvOther

definition receive ::
    "logrepl_env \<Rightarrow> nat \<Rightarrow> received \<Rightarrow> replicator \<Rightarrow> go_error option \<times> status_update list \<times> replicator" where
  "receive env now msg rp =
     (let none = (\<lambda>(e, rp'). (e, [], rp')) in
      case msg of
        RcvDeadline \<Rightarrow> (None, [], rp)
      | RcvTick \<Rightarrow>
          (if now - rs_lastCommitTime (rp_state rp) > 200 then
             (case commitOngoingTxnIfClean env now TimeTickFlushReason (rp_state rp) of
                (Some e, st) \<Rightarrow> (Some e, [], rp\<lparr>rp_state := st\<rparr>)
              | (None, st) \<Rightarrow> sendStandbyStatusUpdate env now (rp\<lparr>rp_state := st\<rparr>))
           else (None, [], rp))
      | RcvError e timeout busy \<Rightarrow>
          (if timeout \<or> busy then (None, [], rp) else none (handleErrWithRetry (Some (Error e)) True rp))
      | RcvErrorResponse \<Rightarrow> (Some (Error ''received Postgres WAL error''), [], rp)
      | RcvUnexpected \<Rightarrow> (None, [], rp)
      | RcvEmpty \<Rightarrow> (Some (Panic ''index out of range''), [], rp)
      | RcvKeepalive (Inl e) \<Rightarrow> (Some e, [], rp)
      | RcvKeepalive (Inr (walEnd, replyRequested)) \<Rightarrow>
          (let rp1 = rp\<lparr>rp_state := (rp_state rp)\<lparr>rs_lastReceivedLSN := walEnd\<rparr>\<rparr>
           in if replyRequested then sendStandbyStatusUpdate env now rp1 else (None, [], rp1))
      | RcvXLogData (Inl e) \<Rightarrow> (Some e, [], rp)
      | RcvXLogData (Inr (walEnd, walData)) \<Rightarrow>
          (case processMessage env now walEnd walData (rp_state rp) of
             ((Some (Panic m), commit), st) \<Rightarrow> (Some (Panic m), [], rp\<lparr>rp_state := st\<rparr>)
           | ((Some (Error m), commit), st) \<Rightarrow> none (handleErrWithRetry (Some (Error m)) True (rp\<lparr>rp_state := st\<rparr>))
           | ((None, commit), st) \<Rightarrow>
               (if commit then sendStandbyStatusUpdate env now (rp\<lparr>rp_state := st\<rparr>) else (None, [], rp\<lparr>rp_state := st\<rparr>)))
      | RcvOther \<Rightarrow> (None, [], rp))"

text \<open>\<^verbatim>\<open>shutdown\<close> runs whenever the loop is left, also by a panic; its errors are ignored.\<close>

definition shutdown :: "logrepl_env \<Rightarrow> nat \<Rightarrow> replicator \<Rightarrow> replicator" where
  "shutdown env now rp =
     rp\<lparr>rp_state := snd (rollback env (snd (commitOngoingTxnIfClean env now OnCloseFlushReason (rp_state rp)))), rp_running := False\<rparr>"

datatype loop_input = StartRound | Receive received | StopRequest

definition loop_step ::
    "logrepl_env \<Rightarrow> nat \<Rightarrow> loop_input \<Rightarrow> replicator \<Rightarrow> go_error option \<times> status_update list \<times> replicator" where
  "loop_step env now inp rp =
     (if \<not> rp_running rp then (None, [], rp)
      else case inp of
        StopRequest \<Rightarrow> (None, [], shutdown env now rp)
      | StartRound \<Rightarrow>
          (if rp_receiving rp then (None, [], rp)
           else case start_round env now rp of
             (None, us, rp') \<Rightarrow> (None, us, rp')
           | (Some e, us, rp') \<Rightarrow> (Some e, us, shutdown env now rp'))
      | Receive msg \<Rightarrow>
          (if \<not> rp_receiving rp then (None, [], rp)
           else case receive env now msg (rp\<lparr>rp_receiving := False\<rparr>) of
             (None, us, rp') \<Rightarrow> (None, us, rp')
           | (Some e, us, rp') \<Rightarrow> (Some e, us, shutdown env now rp')))"

text \<open>\<^verbatim>\<open>StartReplication\<close> up to its loop.\<close>

definition start_replication :: "logrepl_env \<Rightarrow> nat \<Rightarrow> string \<Rightarrow> string \<Rightarrow> pg_session \<Rightarrow> replicator res" where
  "start_replication env now dns slot s =
     bind_res (SelectSubscriptionLsn env s) (\<lambda>l.
     case ExecCatalog env ''USE public'' s of
       (Some e, s') \<Rightarrow> Inl e
     | (None, s') \<Rightarrow>
         Inr \<lparr>rp_state = reset now l s', rp_dns = dns, rp_slot = slot, rp_conn = False, rp_errs = 0, rp_deadline = now + 10000,
              rp_receiving = False, rp_running = True\<rparr>)"

end
