(* ===== verification/LogreplSafety.thy ===== *)
theory LogreplSafety
  imports Logrepl
begin

text \<open>
  The position of a Postgres subscription, for any source and any failure of the database or of the
  connection: the committed row of the subscription is always the position the replicator
  continues from and reports. Each operation of the replicator keeps the invariant \<open>saved\<close>.
\<close>

section \<open>The saved position\<close>

text \<open>
  The committed row of the subscription is the position \<open>l\<close>; an open transaction still has the row.
\<close>

definition saved :: "(string \<Rightarrow> lsn res) \<Rightarrow> lsn \<Rightarrow> pg_session \<Rightarrow> bool" where
  "saved parse l s \<longleftrightarrow>
     (\<exists>t. position_row (committed s) = Some t \<and> parse t = Inr l) \<and> (\<forall>d. txn s = Some (OpenTx d) \<longrightarrow> position_row d \<noteq> None)"

abbreviation state_saved :: "(string \<Rightarrow> lsn res) \<Rightarrow> replicationState \<Rightarrow> bool" where
  "state_saved parse st \<equiv> saved parse (rs_lastWrittenLSN st) (rs_sess st)"

lemma saved_contents: "saved parse l s \<Longrightarrow> saved parse l (set_view ((view s)\<lparr>contents := d\<rparr>) s)"
  by (auto simp: saved_def set_view_def view_def split: option.splits tx.splits)

lemma saved_closed: "saved parse l s \<Longrightarrow> saved parse l (s\<lparr>txn := None\<rparr>)"
  by (auto simp: saved_def)

lemma saved_GetCatalogTxn: "saved parse l s \<Longrightarrow> saved parse l (snd (GetCatalogTxn env s))"
  by (auto simp: saved_def GetCatalogTxn_def split: option.splits)

lemma saved_exec_text: "saved parse l s \<Longrightarrow> saved parse l (snd (exec_text env q s))"
  by (simp add: exec_text_def saved_contents split: prod.splits)

lemma saved_ExecCatalog: "saved parse l s \<Longrightarrow> saved parse l (snd (ExecCatalog env q s))"
  by (simp add: ExecCatalog_def saved_exec_text split: option.splits)

lemma saved_ExecInTxn:
  assumes "saved parse l s"
  shows "saved parse l (snd (ExecInTxn env q s))"
  using saved_GetCatalogTxn [OF assms, of env] saved_exec_text
  by (auto simp: ExecInTxn_def split: prod.splits option.splits)

lemma UpdateSubscriptionLsn_saved:
  assumes "saved parse l s"
  shows "saved parse l (snd (UpdateSubscriptionLsn env t s))"
  using saved_GetCatalogTxn [OF assms, of env]
  by (auto simp: UpdateSubscriptionLsn_def saved_def set_view_def view_def tx_alive_def split: prod.splits option.splits tx.splits)

lemma UpdateSubscriptionLsn_row:
  assumes "saved parse l s" "UpdateSubscriptionLsn env t s = (None, s')"
  shows "position_row (view s') = Some t"
  using assms(2) saved_GetCatalogTxn [OF assms(1), of env]
  by (auto simp: UpdateSubscriptionLsn_def saved_def set_view_def view_def tx_alive_def split: prod.splits option.splits tx.splits if_splits)

lemma flushDeltaBuffer_pg_saved:
  assumes "state_saved parse st" "flushDeltaBuffer_pg env tx reason st = (e, st')"
  shows "state_saved parse st'" "rs_lastCommitLSN st' = rs_lastCommitLSN st" "rs_lastWrittenLSN st' = rs_lastWrittenLSN st"
  using assms by (auto simp: flushDeltaBuffer_pg_def Let_def saved_contents split: prod.splits if_splits)

text \<open>What is asked of an environment: positions are read back as they were written.\<close>

definition reads_back :: "(string \<Rightarrow> lsn res) \<Rightarrow> logrepl_env \<Rightarrow> bool" where
  "reads_back parse env \<longleftrightarrow> ParseLSN env = parse \<and> (\<forall>l. parse (LSN_String env l) = Inr l)"

lemma commitOngoingTxn_pg_saved:
  assumes rb: "reads_back parse env" and st: "state_saved parse st" and c: "commitOngoingTxn_pg env now reason st = (e, st')"
  shows "state_saved parse st'"
proof (cases "ConnErr env (rs_sess st) \<noteq> None \<or> txn (rs_sess st) = None")
  case True
  then show ?thesis using st c by (auto simp: commitOngoingTxn_pg_def split: option.splits)
next
  case False
  obtain e1 st1 where f: "flushDeltaBuffer_pg env True reason st = (e1, st1)" by (metis surj_pair)
  note s1 = flushDeltaBuffer_pg_saved [OF st f]
  obtain e2 s where u: "UpdateSubscriptionLsn env (LSN_String env (rs_lastCommitLSN st1)) (rs_sess st1) = (e2, s)" by (metis surj_pair)
  have s2: "saved parse (rs_lastWrittenLSN st1) s" using UpdateSubscriptionLsn_saved [OF s1(1)] u by (metis snd_conv)
  show ?thesis
  proof (cases "e1 = None \<and> e2 = None \<and> CommitErr env s = None")
    case True
    then have "position_row (view s) = Some (LSN_String env (rs_lastCommitLSN st1))"
      using UpdateSubscriptionLsn_row [OF s1(1)] u by blast
    then show ?thesis
      using True False c f u rb by (auto simp: commitOngoingTxn_pg_def CloseTxn_def saved_def reads_back_def)
  next
    case False
    then show ?thesis
      using \<open>\<not> (ConnErr env (rs_sess st) \<noteq> None \<or> txn (rs_sess st) = None)\<close> c f u s1(1) s2
      by (auto simp: commitOngoingTxn_pg_def CloseTxn_def saved_closed split: option.splits)
  qed
qed

lemma commitOngoingTxnIfClean_saved:
  "reads_back parse env \<Longrightarrow> state_saved parse st \<Longrightarrow> state_saved parse (snd (commitOngoingTxnIfClean env now reason st))"
  using commitOngoingTxn_pg_saved [of parse env st now reason]
  by (cases "commitOngoingTxn_pg env now reason st") (auto simp: commitOngoingTxnIfClean_def)

lemma rollback_saved: "state_saved parse st \<Longrightarrow> state_saved parse (snd (rollback env st))"
  by (auto simp: rollback_def CloseTxn_def saved_closed split: option.splits)

lemma append_pg_session:
  "append_pg env i tuple act ev ok st = (e, st') \<Longrightarrow>
     rs_sess st' = rs_sess st \<and> rs_lastWrittenLSN st' = rs_lastWrittenLSN st \<and> rs_lastCommitLSN st' = rs_lastCommitLSN st"
  by (auto simp: append_pg_def Let_def split: option.splits sum.splits prod.splits if_splits)

lemma processUpdate_session:
  "processUpdate env i old new st = (e, st') \<Longrightarrow> rs_sess st' = rs_sess st \<and> rs_lastWrittenLSN st' = rs_lastWrittenLSN st"
  by (auto simp: processUpdate_def dest!: append_pg_session split: prod.splits option.splits old_tuple.splits)

lemma processDelete_session:
  "processDelete env i old st = (e, st') \<Longrightarrow> rs_sess st' = rs_sess st \<and> rs_lastWrittenLSN st' = rs_lastWrittenLSN st"
  by (auto simp: processDelete_def dest!: append_pg_session split: old_tuple.splits)

lemma truncate_pg_saved: "state_saved parse st \<Longrightarrow> state_saved parse (snd (truncate_pg env i st))"
  using saved_ExecInTxn [of parse "rs_lastWrittenLSN st" "rs_sess st" env]
  by (cases "rs_relations st i") (simp_all add: truncate_pg_def case_prod_beta)

lemma truncate_all_saved: "state_saved parse st \<Longrightarrow> state_saved parse (snd (truncate_all env is st))"
proof (induction env "is" st rule: truncate_all.induct)
  case (2 env i "is" st)
  then show ?case
    using truncate_pg_saved [of parse st env i] by (cases "truncate_pg env i st") (auto split: option.splits)
qed simp

lemma processRelation_saved:
  assumes "reads_back parse env" "state_saved parse st"
  shows "state_saved parse (snd (processRelation env now rel st))"
proof -
  obtain e1 st1 where c: "(if rs_relations st (rel_id rel) \<noteq> None then commitOngoingTxn_pg env now DDLStmtFlushReason st else (None, st)) = (e1, st1)"
    by (metis surj_pair)
  then have "state_saved parse st1" using commitOngoingTxn_pg_saved [OF assms] assms(2) by (auto split: if_splits)
  then show ?thesis
    using saved_ExecCatalog [of parse "rs_lastWrittenLSN st1" "rs_sess st1" env "generateCreateTableStmt (without_index env) rel"] c
    by (auto simp: processRelation_def Let_def split: option.splits sum.splits prod.splits)
qed

lemma processBegin_saved:
  assumes "reads_back parse env" "state_saved parse st"
  shows "state_saved parse (snd (processBegin env now final st))"
proof -
  let ?st1 = "st\<lparr>rs_processMessages := True, rs_currentTransactionLSN := final\<rparr>"
  have "state_saved parse ?st1" using assms(2) by simp
  note c = commitOngoingTxn_pg_saved [OF assms(1) this]
  obtain x reason where x: "mayExtendBatchTxn_pg now ?st1 = (x, reason)" by (metis surj_pair)
  obtain e2 st2 where 2: "commitOngoingTxn_pg env now reason ?st1 = (e2, st2)" by (metis surj_pair)
  from saved_GetCatalogTxn [OF c [OF 2], of env] c [OF 2] assms(2) x 2 show ?thesis
    by (auto simp: processBegin_def Let_def split: option.splits prod.splits bool.splits)
qed

lemma processCommit_saved:
  assumes "reads_back parse env" "state_saved parse st"
  shows "state_saved parse (snd (processCommit env now l st))"
proof -
  let ?st1 = "st\<lparr>rs_lastCommitLSN := l, rs_commitCount := rs_commitCount st + 1\<rparr>"
  have "state_saved parse ?st1" using assms(2) by simp
  note c = commitOngoingTxn_pg_saved [OF assms(1) this]
  obtain x reason where x: "mayExtendBatchTxn_pg now ?st1 = (x, reason)" by (metis surj_pair)
  obtain e2 st2 where 2: "commitOngoingTxn_pg env now reason ?st1 = (e2, st2)" by (metis surj_pair)
  from c [OF 2] assms(2) x 2 show ?thesis
    by (auto simp: processCommit_def Let_def split: option.splits prod.splits bool.splits)
qed

lemma mark_dirty_saved: "state_saved parse (snd r) \<Longrightarrow> state_saved parse (snd (mark_dirty r))"
  by (auto simp: mark_dirty_def split: prod.splits option.splits)

lemma processMessage_saved:
  assumes rb: "reads_back parse env" and st0: "state_saved parse st0"
  shows "state_saved parse (snd (processMessage env now walEnd walData st0))"
proof (cases "ParseV2 env walData (rs_inStream st0)")
  case (Inl e)
  then show ?thesis using st0 by (simp add: processMessage_def)
next
  case (Inr msg)
  let ?st = "if walEnd > rs_lastReceivedLSN st0 then st0\<lparr>rs_lastReceivedLSN := walEnd\<rparr> else st0"
  have st: "state_saved parse ?st" using st0 by simp
  have trunc: "state_saved parse (snd (truncate_all env ids (snd (flushDeltaBuffer_pg env False DMLStmtFlushReason ?st))))" for ids
    using truncate_all_saved flushDeltaBuffer_pg_saved(1) [OF st] by (metis surjective_pairing)
  have rows: "state_saved parse (snd (append_pg env i tuple act ev ok ?st))" "state_saved parse (snd (processUpdate env i old new ?st))"
    "state_saved parse (snd (processDelete env i old ?st))" for i tuple act ev ok old new
    using append_pg_session [of env i tuple act ev ok ?st] processUpdate_session [of env i old new ?st]
      processDelete_session [of env i old ?st] st by (metis surjective_pairing)+
  show ?thesis
    using Inr st rows trunc processRelation_saved [OF rb st, of now] processBegin_saved [OF rb st, of now] processCommit_saved [OF rb st, of now]
    by (cases msg) (simp_all add: processMessage_def Let_def case_prod_beta mark_dirty_saved)
qed

subsection \<open>The loop\<close>

definition reports :: "(string \<Rightarrow> lsn res) \<Rightarrow> status_update list \<Rightarrow> replicator \<Rightarrow> bool" where
  "reports parse us rp \<longleftrightarrow> state_saved parse (rp_state rp) \<and>
     (\<forall>u\<in>set us. WALFlushPosition u = rs_lastWrittenLSN (rp_state rp) + 1 \<and> WALApplyPosition u = rs_lastWrittenLSN (rp_state rp) + 1)"

lemma handleErrWithRetry_state [simp]: "rp_state (snd (handleErrWithRetry err inc rp)) = rp_state rp"
  by (auto simp: handleErrWithRetry_def Let_def split: option.splits)

lemma sendStandbyStatusUpdate_reports:
  assumes "state_saved parse (rp_state rp)" "sendStandbyStatusUpdate env now rp = (e, us, rp')"
  shows "reports parse us rp' \<and> (e \<noteq> None \<longrightarrow> us = [])"
  using assms by (auto simp: sendStandbyStatusUpdate_def Let_def reports_def standby_status_def handleErrWithRetry_def split: option.splits prod.splits if_splits)

lemma ensure_connection_saved:
  "state_saved parse (rp_state rp) \<Longrightarrow> state_saved parse (rp_state (snd (ensure_connection env now rp)))"
  using rollback_saved [of parse "rp_state rp" env]
  by (auto simp: ensure_connection_def reset_def split: option.splits prod.splits)

lemma start_round_reports:
  assumes "state_saved parse (rp_state rp)" "start_round env now rp = (e, us, rp')"
  shows "reports parse us rp' \<and> (e \<noteq> None \<longrightarrow> us = [])"
proof -
  obtain e1 rp1 where c: "ensure_connection env now rp = (e1, rp1)" by (metis surj_pair)
  then have s: "state_saved parse (rp_state rp1)" using ensure_connection_saved [OF assms(1), of env now] by simp
  obtain e2 us2 rp2 where 2: "sendStandbyStatusUpdate env now rp1 = (e2, us2, rp2)" by (metis prod_cases3)
  show ?thesis
    using assms(2) s sendStandbyStatusUpdate_reports [OF s 2]
    by (auto simp: start_round_def c 2 reports_def split: option.splits if_splits)
qed

lemma receive_reports:
  assumes rb: "reads_back parse env" and s: "state_saved parse (rp_state rp)" and r: "receive env now msg rp = (e, us, rp')"
  shows "reports parse us rp' \<and> (e \<noteq> None \<longrightarrow> us = [])"
proof -
  have send: "reports parse us rp' \<and> (e \<noteq> None \<longrightarrow> us = [])"
    if "sendStandbyStatusUpdate env now (rp\<lparr>rp_state := st\<rparr>) = (e, us, rp')" "state_saved parse st" for st
    using sendStandbyStatusUpdate_reports [of parse "rp\<lparr>rp_state := st\<rparr>" env now] that by simp
  have err: "reports parse [] (snd (handleErrWithRetry x True (rp\<lparr>rp_state := st\<rparr>)))" if "state_saved parse st" for x st
    using that by (simp add: reports_def)
  have same: "reports parse [] (rp\<lparr>rp_state := st\<rparr>)" if "state_saved parse st" for st using that by (simp add: reports_def)
  have keep: "rp\<lparr>rp_state := rp_state rp\<rparr> = rp" by simp
  show ?thesis
  proof (cases msg)
    case RcvTick
    obtain e1 st1 where c: "commitOngoingTxnIfClean env now TimeTickFlushReason (rp_state rp) = (e1, st1)" by (metis surj_pair)
    then have "state_saved parse st1" using commitOngoingTxnIfClean_saved [OF rb s, of now TimeTickFlushReason] by simp
    then show ?thesis using r s send [of st1] same [of st1] same [of "rp_state rp"] by (auto simp: receive_def RcvTick c split: if_splits option.splits)
  next
    case (RcvKeepalive x)
    let ?st = "\<lambda>w. (rp_state rp)\<lparr>rs_lastReceivedLSN := w\<rparr>"
    have "state_saved parse (?st w)" for w using s by simp
    then show ?thesis
      using r s send [of "?st _"] same [of "?st _"] same [of "rp_state rp"] by (auto simp: receive_def RcvKeepalive Let_def split: if_splits sum.splits)
  next
    case (RcvXLogData x)
    show ?thesis
    proof (cases x)
      case (Inr wd)
      obtain w d where wd: "wd = (w, d)" by (cases wd)
      obtain e1 c1 st1 where p: "processMessage env now w d (rp_state rp) = ((e1, c1), st1)" by (metis surj_pair)
      then have "state_saved parse st1" using processMessage_saved [OF rb s, of now w d] by simp
      then show ?thesis
        using r send [of st1] same [of st1] err [of st1]
        by (cases e1 rule: option.exhaust [case_names None Some])
          (auto simp: receive_def RcvXLogData Inr wd p case_prod_beta split: if_splits go_error.splits)
    qed (use r same [OF s] in \<open>auto simp: receive_def RcvXLogData\<close>)
  qed (use r same [OF s] err [OF s] in \<open>auto simp: receive_def case_prod_beta split: if_splits\<close>)
qed

lemma shutdown_saved:
  "reads_back parse env \<Longrightarrow> state_saved parse (rp_state rp) \<Longrightarrow> state_saved parse (rp_state (shutdown env now rp))"
  by (simp add: shutdown_def commitOngoingTxnIfClean_saved rollback_saved)

lemma loop_step_reports:
  assumes rb: "reads_back parse env" and s: "state_saved parse (rp_state rp)" and l: "loop_step env now inp rp = (e, us, rp')"
  shows "reports parse us rp'"
proof -
  have stop: "reports parse [] (shutdown env now rp1)" if "state_saved parse (rp_state rp1)" for rp1
    using shutdown_saved [OF rb that] by (simp add: reports_def)
  obtain e1 us1 rp1 where 1: "start_round env now rp = (e1, us1, rp1)" by (metis prod_cases3)
  obtain e2 us2 rp2 where 2: "receive env now msg (rp\<lparr>rp_receiving := False\<rparr>) = (e2, us2, rp2)" if "inp = Receive msg" for msg
    by (metis prod_cases3 loop_input.inject)
  have "reports parse us1 rp1 \<and> (e1 \<noteq> None \<longrightarrow> us1 = [])" using start_round_reports [OF s 1] .
  moreover have "reports parse us2 rp2 \<and> (e2 \<noteq> None \<longrightarrow> us2 = [])" if "inp = Receive msg" for msg
    using receive_reports [OF rb _ 2 [OF that]] s by simp
  moreover have "reports parse [] rp" using s by (simp add: reports_def)
  ultimately show ?thesis
    using l stop [OF s] stop [of rp1] stop [of rp2] 1 2
    by (cases inp) (auto simp: loop_step_def reports_def split: if_splits option.splits)
qed

text \<open>
  The states of a replicator that was started on a session with a row for its subscription. The
  environment may change with every step, so any call of the driver may fail at any time.
\<close>

inductive replicator_reaches :: "(string \<Rightarrow> lsn res) \<Rightarrow> replicator \<Rightarrow> bool" for parse where
  start: "reads_back parse env \<Longrightarrow> txn s = None \<Longrightarrow> position_row (committed s) \<noteq> None \<Longrightarrow>
    start_replication env now dns slot s = Inr rp \<Longrightarrow> replicator_reaches parse rp"
| step: "replicator_reaches parse rp \<Longrightarrow> reads_back parse env \<Longrightarrow> loop_step env now inp rp = (e, us, rp') \<Longrightarrow>
    replicator_reaches parse rp'"

lemma start_replication_saved:
  assumes "reads_back parse env" "txn s = None" "position_row (committed s) \<noteq> None" "start_replication env now dns slot s = Inr rp"
  shows "state_saved parse (rp_state rp)"
proof -
  obtain l s' where l: "SelectSubscriptionLsn env s = Inr l" "ExecCatalog env ''USE public'' s = (None, s')"
    and rp: "rp_state rp = reset now l s'"
    using assms(4) by (cases "ExecCatalog env ''USE public'' s") (auto simp: start_replication_def res_simps split: option.splits)
  have "saved parse l s"
    using l(1) assms(1-3) by (auto simp: SelectSubscriptionLsn_def saved_def view_def reads_back_def split: option.splits)
  from saved_ExecCatalog [OF this, of env "''USE public''"] l(2) show ?thesis by (simp add: rp reset_def)
qed

lemma replicator_reaches_saved: "replicator_reaches parse rp \<Longrightarrow> state_saved parse (rp_state rp)"
proof (induction rule: replicator_reaches.induct)
  case (start env s now dns slot rp)
  then show ?case by (rule start_replication_saved)
next
  case (step rp env now inp e us rp')
  from loop_step_reports [OF step(2) step.IH step(3)] show ?case by (simp add: reports_def)
qed

end
