(* ===== verification/LogreplStream.thy ===== *)
theory LogreplStream
  imports LogreplSafety
begin

text \<open>
  The replication of a Postgres log. \<open>pg_stream\<close> is a run of the replicator against a source with a given
  log, with ticks, lost connections, reconnections and stops; \<open>pg_ok\<close> is its invariant: the committed
  tables hold the effect of a prefix of the log, the saved position is that prefix, and the rest of
  what was received is in the delta buffer. Each message and each half of a round keeps it.
\<close>

section \<open>Messages and changes\<close>

text \<open>The row that \<^verbatim>\<open>append\<close> makes of a tuple, when it can, and the change a message makes.\<close>

definition tuple_row :: "logrepl_env \<Rightarrow> schema \<Rightarrow> relation \<Rightarrow> bool \<Rightarrow> tuple_column list \<Rightarrow> arrow_value drow option" where
  "tuple_row env sch rel onlyKeys tuple =
     (case append_columns (codecs env) sch tuple onlyKeys (rel_columns rel) 0 0 of
        Inr (n, r) \<Rightarrow> (if tuple \<noteq> [] \<and> length r = length sch then Some r else None)
      | Inl e \<Rightarrow> None)"

definition old_rows :: "logrepl_env \<Rightarrow> schema \<Rightarrow> relation \<Rightarrow> old_tuple \<Rightarrow> arrow_value drow list option" where
  "old_rows env sch rel old =
     (case old of
        OldNone \<Rightarrow> Some []
      | OldKey tuple \<Rightarrow> map_option (\<lambda>r. [r]) (tuple_row env sch rel True tuple)
      | OldFull tuple \<Rightarrow> map_option (\<lambda>r. [r]) (tuple_row env sch rel False tuple))"

definition relation_change :: "logrepl_env \<Rightarrow> schema \<Rightarrow> relation \<Rightarrow> pg_message \<Rightarrow> arrow_value change option" where
  "relation_change env sch rel msg =
     (case msg of
        InsertMessage i tuple \<Rightarrow>
          map_option (\<lambda>r. \<lparr>ch_kind = InsertRowEvent, ch_dels = [], ch_inss = [r]\<rparr>) (tuple_row env sch rel False tuple)
      | UpdateMessage i old new \<Rightarrow>
          (case (old_rows env sch rel old, tuple_row env sch rel False new) of
             (Some ds, Some r) \<Rightarrow> Some \<lparr>ch_kind = UpdateRowEvent, ch_dels = ds, ch_inss = [r]\<rparr>
           | _ \<Rightarrow> None)
      | DeleteMessage i old \<Rightarrow>
          (case old_rows env sch rel old of
             Some [d] \<Rightarrow> Some \<lparr>ch_kind = DeleteRowEvent, ch_dels = [d], ch_inss = []\<rparr>
           | _ \<Rightarrow> None)
      | _ \<Rightarrow> None)"

definition message_relation :: "pg_message \<Rightarrow> u32 option" where
  "message_relation msg =
     (case msg of InsertMessage i t \<Rightarrow> Some i | UpdateMessage i old new \<Rightarrow> Some i | DeleteMessage i old \<Rightarrow> Some i | _ \<Rightarrow> None)"

lemma tuple_row_Some:
  "tuple_row env sch rel onlyKeys tuple = Some r \<longleftrightarrow>
     tuple \<noteq> [] \<and> length r = length sch \<and> (\<exists>n. append_columns (codecs env) sch tuple onlyKeys (rel_columns rel) 0 0 = Inr (n, r))"
  by (auto simp: tuple_row_def split: sum.splits if_splits)

section \<open>Appending\<close>

lemma append_pg_ok:
  assumes "rs_relations st i = Some rel" "rs_schemas st i = Some sch" "relation_table rel = t"
    and "GetDeltaAppender (rs_deltas st) t sch = Inr (app, c)" "BaseSchema app = sch" "tuple_row env sch rel onlyKeys tuple = Some r"
  shows "\<exists>sz. append_pg env i tuple act ev onlyKeys st = (None, st\<lparr>rs_deltas :=
      put_appender t (ObserveEvents ev 1 (UpdateActionStats act 1 (append_rows (lsn_stamp st) act [r] app))) c, rs_deltaBufSize := sz\<rparr>)"
  using assms by (auto simp: append_pg_def tuple_row_Some)

lemma append_pg_nothing:
  assumes "rs_relations st i = Some rel" "rs_schemas st i = Some sch" "relation_table rel = t"
    and "GetDeltaAppender (rs_deltas st) t sch = Inr (app, c)"
  shows "append_pg env i [] DeleteRowEvent UpdateRowEvent True st = (None, st\<lparr>rs_deltas := put_appender t (ObserveEvents UpdateRowEvent 1 app) c\<rparr>)"
  using assms by (simp add: append_pg_def)

lemma map_of_put_appender: "t \<in> fst ` set c \<Longrightarrow> map_of (put_appender t a c) t = Some a"
  by (induction c) (auto simp: put_appender_def)

lemma put_put_appender [simp]: "put_appender t a (put_appender t a' c) = put_appender t a c"
  by (auto simp: put_appender_def)

lemma GetDeltaAppender_again:
  assumes "GetDeltaAppender c t sch = Inr (app, c')"
  shows "GetDeltaAppender (put_appender t a c') t sch' = Inr (a, put_appender t a c')"
proof -
  have "t \<in> fst ` set c'"
    using assms map_of_SomeD [of c t app] by (force simp: GetDeltaAppender_def res_simps split: option.splits)
  then show ?thesis by (simp add: GetDeltaAppender_def map_of_put_appender)
qed

lemma recorded_BaseSchema: "recorded sch scs a \<Longrightarrow> BaseSchema a = sch"
  by (simp add: recorded_def BaseSchema_def augmented_columns_def NumAugmentedFields_def)

lemma BaseSchema_simps [simp]:
  "BaseSchema (ObserveEvents ev n a) = BaseSchema a" "BaseSchema (UpdateActionStats act n a) = BaseSchema a"
  "BaseSchema (append_rows st act rs a) = BaseSchema a"
  by (auto simp: BaseSchema_def ObserveEvents_def UpdateActionStats_def append_rows_def split: RowEventType.splits)

lemma replica_record_twice:
  assumes b: "replica_buffers tabs sch M c es" and n: "next_event tabs sch M es (t, st, ch)"
  shows "\<exists>app c'. GetDeltaAppender c t (sch t) = Inr (app, c') \<and> BaseSchema app = sch t \<and>
    replica_buffers tabs sch M (put_appender t (record_change st ch app) c') (es @ [(t, st, ch)]) \<and>
    replica_buffers tabs sch M (put_appender t (ObserveEvents (ch_kind ch) 1 (record_change st ch app)) c') (es @ [(t, st, ch)])"
proof -
  obtain app c' where g: "GetDeltaAppender c t (sch t) = Inr (app, c')"
    "replica_buffers tabs sch M (put_appender t (record_change st ch app) c') (es @ [(t, st, ch)])"
    using replica_record [OF b n] by blast
  have "t \<in> tabs" using n by (simp add: next_event_def)
  then have base: "BaseSchema app = sch t" using GetDeltaAppender_recorded [OF b, of t] g(1) recorded_BaseSchema by fastforce
  let ?a = "record_change st ch app"
  have "(t, ?a) \<in> set (put_appender t ?a c')"
    using GetDeltaAppender_again [OF g(1), of ?a "sch t"] map_of_SomeD [of "put_appender t ?a c'" t ?a]
    by (auto simp: GetDeltaAppender_def res_simps split: option.splits)
  then have "recorded (sch t) (table_events t es @ [(st, ch)]) ?a" using g(2) by (auto simp: replica_buffers_def)
  then have "recorded (sch t) (table_events t (es @ [(t, st, ch)])) (ObserveEvents (ch_kind ch) 1 ?a)"
    using recorded_counted_twice by auto
  moreover have "(t', a') \<in> set (put_appender t ?a c')" if "(t', a') \<in> set (put_appender t x c')" "t' \<noteq> t" for t' a' x
    using that by (force simp: put_appender_def split: if_splits)
  moreover have "\<forall>(t', a')\<in>set (put_appender t ?a c'). recorded (sch t') (table_events t' (es @ [(t, st, ch)])) a'"
    using g(2) unfolding replica_buffers_def by blast
  ultimately have "recorded (sch t') (table_events t' (es @ [(t, st, ch)])) a'"
    if "(t', a') \<in> set (put_appender t (ObserveEvents (ch_kind ch) 1 ?a) c')" for t' a'
    using that put_appender_entry [OF that] by blast
  then have "replica_buffers tabs sch M (put_appender t (ObserveEvents (ch_kind ch) 1 ?a) c') (es @ [(t, st, ch)])"
    using g(2) unfolding replica_buffers_def put_appender_keys by blast
  with g base show ?thesis by blast
qed

text \<open>A row message in a transaction that is processed records the change it makes.\<close>

definition row_update :: "pg_message \<Rightarrow> logrepl_env \<Rightarrow> replicationState \<Rightarrow> go_error option \<times> replicationState" where
  "row_update msg env st =
     (case msg of
        InsertMessage i tuple \<Rightarrow> append_pg env i tuple InsertRowEvent InsertRowEvent False st
      | UpdateMessage i old new \<Rightarrow> processUpdate env i old new st
      | DeleteMessage i old \<Rightarrow> processDelete env i old st
      | _ \<Rightarrow> (None, st))"

lemma UpdateActionStats_append_rows:
  "UpdateActionStats act n (append_rows st act' rs a) = append_rows st act' rs (UpdateActionStats act n a)"
  by (cases act) (simp_all add: UpdateActionStats_def append_rows_def)

lemma ObserveEvents_commute:
  "ObserveEvents ev n (append_rows st act rs a) = append_rows st act rs (ObserveEvents ev n a)"
  "ObserveEvents ev n (UpdateActionStats act m a) = UpdateActionStats act m (ObserveEvents ev n a)"
  by (cases ev; cases act; simp add: ObserveEvents_def UpdateActionStats_def append_rows_def)+

lemma ObserveEvents_1: "n \<noteq> 1 \<Longrightarrow> ObserveEvents ev n a = ObserveEvents ev 1 a"
  by (rule ObserveEvents_count)

lemma record_insert:
  "record_change st \<lparr>ch_kind = ev, ch_dels = [], ch_inss = [r]\<rparr> a =
     ObserveEvents ev 1 (UpdateActionStats InsertRowEvent 1 (append_rows st InsertRowEvent [r] a))"
  by (simp add: record_change_def)

lemma record_delete:
  "record_change st \<lparr>ch_kind = ev, ch_dels = [r], ch_inss = []\<rparr> a =
     ObserveEvents ev 1 (UpdateActionStats DeleteRowEvent 1 (append_rows st DeleteRowEvent [r] a))"
  by (simp add: record_change_def)

lemma record_update:
  "ObserveEvents ev 1 (record_change st \<lparr>ch_kind = ev, ch_dels = [d], ch_inss = [r]\<rparr> a) =
     ObserveEvents ev 1 (UpdateActionStats InsertRowEvent 1 (append_rows st InsertRowEvent [r]
       (ObserveEvents ev 1 (UpdateActionStats DeleteRowEvent 1 (append_rows st DeleteRowEvent [d] a)))))"
  by (simp add: record_change_def ObserveEvents_commute ObserveEvents_1)

lemma record_upsert:
  "ObserveEvents ev 1 (record_change st \<lparr>ch_kind = ev, ch_dels = [], ch_inss = [r]\<rparr> a) =
     ObserveEvents ev 1 (UpdateActionStats InsertRowEvent 1 (append_rows st InsertRowEvent [r] (ObserveEvents ev 1 a)))"
  by (simp add: record_change_def ObserveEvents_commute ObserveEvents_1)

lemma lsn_stamp_simps [simp]:
  "lsn_stamp (st\<lparr>rs_deltas := c\<rparr>) = lsn_stamp st" "lsn_stamp (st\<lparr>rs_deltaBufSize := sz\<rparr>) = lsn_stamp st"
  by (simp_all add: lsn_stamp_def)

lemma old_rows_append:
  assumes "rs_relations st i = Some rel" "rs_schemas st i = Some sch" "relation_table rel = t"
    and "GetDeltaAppender (rs_deltas st) t sch = Inr (app, c)" "BaseSchema app = sch" "old_rows env sch rel old = Some ds"
  shows "\<exists>sz. (case old of
        OldKey tuple \<Rightarrow> append_pg env i tuple DeleteRowEvent UpdateRowEvent True st
      | OldFull tuple \<Rightarrow> append_pg env i tuple DeleteRowEvent UpdateRowEvent False st
      | OldNone \<Rightarrow> append_pg env i [] DeleteRowEvent UpdateRowEvent True st) =
    (None, st\<lparr>rs_deltas := put_appender t (ObserveEvents UpdateRowEvent 1 (UpdateActionStats DeleteRowEvent (length ds)
        (append_rows (lsn_stamp st) DeleteRowEvent ds app))) c, rs_deltaBufSize := sz\<rparr>)"
proof (cases old)
  case OldNone
  then have "ds = []" using assms(6) by (simp add: old_rows_def)
  with append_pg_nothing [OF assms(1-4), of env] show ?thesis
    by (intro exI [of _ "rs_deltaBufSize st"]) (simp add: OldNone)
next
  case (OldKey tuple)
  then obtain r where "tuple_row env sch rel True tuple = Some r" "ds = [r]" using assms(6) by (auto simp: old_rows_def)
  then show ?thesis using append_pg_ok [OF assms(1-5), of env True tuple r DeleteRowEvent UpdateRowEvent] by (simp add: OldKey)
next
  case (OldFull tuple)
  then obtain r where "tuple_row env sch rel False tuple = Some r" "ds = [r]" using assms(6) by (auto simp: old_rows_def)
  then show ?thesis using append_pg_ok [OF assms(1-5), of env False tuple r DeleteRowEvent UpdateRowEvent] by (simp add: OldFull)
qed

lemma row_update_records:
  assumes rel: "rs_relations st i = Some rel" "rs_schemas st i = Some (sch t)" "relation_table rel = t" "message_relation msg = Some i"
    and ch: "relation_change env (sch t) rel msg = Some ch"
    and b: "replica_buffers tabs sch M (rs_deltas st) es" and n: "next_event tabs sch M es (t, lsn_stamp st, ch)"
  shows "\<exists>c sz. row_update msg env st = (None, st\<lparr>rs_deltas := c, rs_deltaBufSize := sz\<rparr>) \<and>
    replica_buffers tabs sch M c (es @ [(t, lsn_stamp st, ch)])"
proof -
  obtain app c where g: "GetDeltaAppender (rs_deltas st) t (sch t) = Inr (app, c)" "BaseSchema app = sch t"
    and once: "replica_buffers tabs sch M (put_appender t (record_change (lsn_stamp st) ch app) c) (es @ [(t, lsn_stamp st, ch)])"
    and twice: "replica_buffers tabs sch M (put_appender t (ObserveEvents (ch_kind ch) 1 (record_change (lsn_stamp st) ch app)) c)
      (es @ [(t, lsn_stamp st, ch)])"
    using replica_record_twice [OF b n] by blast
  note ap = append_pg_ok [OF rel(1-3) g, of env]
  show ?thesis
  proof (cases msg)
    case (InsertMessage j tuple)
    with ch obtain r where "tuple_row env (sch t) rel False tuple = Some r" "ch = \<lparr>ch_kind = InsertRowEvent, ch_dels = [], ch_inss = [r]\<rparr>"
      by (auto simp: relation_change_def)
    with ap [of False tuple r InsertRowEvent InsertRowEvent] once rel(4) show ?thesis
      by (auto simp: row_update_def InsertMessage message_relation_def record_insert)
  next
    case (DeleteMessage j old)
    with ch obtain d where d: "old_rows env (sch t) rel old = Some [d]" "ch = \<lparr>ch_kind = DeleteRowEvent, ch_dels = [d], ch_inss = []\<rparr>"
      by (auto simp: relation_change_def split: option.splits list.splits)
    then obtain ks tuple where "tuple_row env (sch t) rel ks tuple = Some d" "old = (if ks then OldKey tuple else OldFull tuple)"
      by (cases old) (auto simp: old_rows_def)
    with ap [of ks tuple d DeleteRowEvent DeleteRowEvent] once rel(4) d(2) show ?thesis
      by (auto simp: row_update_def DeleteMessage message_relation_def record_delete processDelete_def split: if_splits)
  next
    case (UpdateMessage j old new)
    with ch obtain ds r where r: "old_rows env (sch t) rel old = Some ds" "tuple_row env (sch t) rel False new = Some r"
      "ch = \<lparr>ch_kind = UpdateRowEvent, ch_dels = ds, ch_inss = [r]\<rparr>"
      by (auto simp: relation_change_def split: option.splits)
    define app1 where "app1 = ObserveEvents UpdateRowEvent 1 (UpdateActionStats DeleteRowEvent (length ds)
      (append_rows (lsn_stamp st) DeleteRowEvent ds app))"
    from old_rows_append [OF rel(1-3) g r(1)] obtain sz where
      old: "(case old of
        OldKey tuple \<Rightarrow> append_pg env i tuple DeleteRowEvent UpdateRowEvent True st
      | OldFull tuple \<Rightarrow> append_pg env i tuple DeleteRowEvent UpdateRowEvent False st
      | OldNone \<Rightarrow> append_pg env i [] DeleteRowEvent UpdateRowEvent True st) =
        (None, st\<lparr>rs_deltas := put_appender t app1 c, rs_deltaBufSize := sz\<rparr>)" unfolding app1_def by blast
    let ?st1 = "st\<lparr>rs_deltas := put_appender t app1 c, rs_deltaBufSize := sz\<rparr>"
    let ?app2 = "ObserveEvents UpdateRowEvent 1 (UpdateActionStats InsertRowEvent 1 (append_rows (lsn_stamp st) InsertRowEvent [r] app1))"
    have "\<exists>sz. append_pg env i new InsertRowEvent UpdateRowEvent False ?st1 = (None, ?st1\<lparr>rs_deltas := put_appender t
        (ObserveEvents UpdateRowEvent 1 (UpdateActionStats InsertRowEvent 1 (append_rows (lsn_stamp ?st1) InsertRowEvent [r] app1)))
        (put_appender t app1 c), rs_deltaBufSize := sz\<rparr>)"
      using rel(1-3) g(2) r(2) GetDeltaAppender_again [OF g(1)] by (intro append_pg_ok) (simp_all add: app1_def)
    then obtain sz2 where "append_pg env i new InsertRowEvent UpdateRowEvent False ?st1 =
        (None, st\<lparr>rs_deltas := put_appender t ?app2 c, rs_deltaBufSize := sz2\<rparr>)" by auto
    then have "row_update msg env st = (None, st\<lparr>rs_deltas := put_appender t ?app2 c, rs_deltaBufSize := sz2\<rparr>)"
      using old rel(4) by (simp add: row_update_def UpdateMessage message_relation_def processUpdate_def)
    moreover have "ds = [] \<or> (\<exists>d. ds = [d])" using r(1) by (cases old) (auto simp: old_rows_def)
    then have "?app2 = ObserveEvents (ch_kind ch) 1 (record_change (lsn_stamp st) ch app)"
      by (auto simp: r(3) app1_def record_update [simplified] record_upsert [simplified])
    ultimately show ?thesis using twice by metis
  qed (use ch in \<open>simp_all add: relation_change_def\<close>)
qed

section \<open>What the source sends\<close>

text \<open>
  The log of the source: the transactions after the position \<open>l0\<close> with their LSNs and row events. A
  connection that asks for \<open>l + 1\<close> gets the transactions after \<open>l\<close> in this order, each as a begin
  message, its row messages and a commit message; the relation of a row is sent before its first use
  on the connection.
\<close>

type_synonym pg_transaction = "lsn \<times> row_event list"

datatype pg_phase = Between | Within "row_event list"

definition pg_history :: "pg_transaction list \<Rightarrow> row_event list" where
  "pg_history ts = concat (map snd ts)"

definition pg_events :: "pg_phase \<Rightarrow> row_event list" where
  "pg_events ph = (case ph of Between \<Rightarrow> [] | Within es \<Rightarrow> es)"

definition lsn_at :: "lsn \<Rightarrow> pg_transaction list \<Rightarrow> nat \<Rightarrow> lsn" where
  "lsn_at l0 log k = (if k = 0 then l0 else fst (log ! (k - 1)))"

definition log_ok :: "tableIdentifier set \<Rightarrow> (tableIdentifier \<Rightarrow> schema) \<Rightarrow> table_maps \<Rightarrow> lsn \<Rightarrow> pg_transaction list \<Rightarrow> bool" where
  "log_ok tabs sch M0 l0 log \<longleftrightarrow>
     sorted_wrt (<) (l0 # map fst log) \<and> (\<forall>t\<in>set log. fst t < - 1) \<and> (\<forall>es e rest. pg_history log = es @ e # rest \<longrightarrow> next_event tabs sch M0 es e)"

definition pg_stamp :: "lsn \<Rightarrow> nat \<Rightarrow> stamp" where
  "pg_stamp l n = \<lparr>st_tag = None, st_server = Some [], st_group = None, st_seq = l, st_stmt = word_of_nat n\<rparr>"

inductive sends ::
    "logrepl_env \<Rightarrow> (u32 \<Rightarrow> relation option) \<Rightarrow> (tableIdentifier \<Rightarrow> schema) \<Rightarrow> pg_transaction list \<Rightarrow> (u32 \<Rightarrow> relation option) \<Rightarrow>
       nat \<times> pg_phase \<Rightarrow> pg_message \<Rightarrow> nat \<times> pg_phase \<Rightarrow> bool" for env rels sch log known where
  begin_txn: "k < length log \<Longrightarrow> sends env rels sch log known (k, Between) (BeginMessage (fst (log ! k))) (k, Within [])"
| row: "message_relation msg = Some i \<Longrightarrow> known i = Some rel \<Longrightarrow> relation_table rel = t \<Longrightarrow>
    relation_change env (sch t) rel msg = Some ch \<Longrightarrow> k < length log \<Longrightarrow>
    snd (log ! k) = es @ (t, pg_stamp (fst (log ! k)) (length es), ch) # rest \<Longrightarrow>
    sends env rels sch log known (k, Within es) msg (k, Within (es @ [(t, pg_stamp (fst (log ! k)) (length es), ch)]))"
| commit_txn: "k < length log \<Longrightarrow> snd (log ! k) = es \<Longrightarrow>
    sends env rels sch log known (k, Within es) (CommitMessage (fst (log ! k))) (k + 1, Between)"
| relation: "rels i = Some rel \<Longrightarrow> known i = None \<Longrightarrow> sends env rels sch log known (k, ph) (RelationMessage rel) (k, ph)"
| other: "sends env rels sch log known (k, ph) OtherMessage (k, ph)"

text \<open>
  The replica does its part: the calls of the driver succeed, LSNs are read back as written, and the
  relations are those of existing tables, for which \<^verbatim>\<open>CREATE TABLE IF NOT EXISTS\<close> does nothing.
\<close>

definition good_logrepl ::
    "logrepl_env \<Rightarrow> (u32 \<Rightarrow> relation option) \<Rightarrow> tableIdentifier set \<Rightarrow> (tableIdentifier \<Rightarrow> schema) \<Rightarrow> bool" where
  "good_logrepl env rels tabs sch \<longleftrightarrow>
     (\<forall>s. ConnErr env s = None \<and> BeginErr env s = None \<and> CommitErr env s = None \<and> RollbackErr env s = None \<and> UpdateErr env s = None) \<and>
     (\<forall>l. ParseLSN env (LSN_String env l) = Inr l) \<and>
     (\<forall>i rel. rels i = Some rel \<longrightarrow> rel_id rel = i \<and> relation_table rel \<in> tabs \<and> relation_schema env rel = Inr (sch (relation_table rel)) \<and>
        (\<forall>d M. replica_holds (delta_db env) (without_index env) tabs sch d M \<longrightarrow>
           ExecSQL env (generateCreateTableStmt (without_index env) rel) d = (None, d)))"

text \<open>
  A run: the first half of a round may connect, and then the source goes on after the position it was
  asked for; connections may fail or break and status updates may be lost at any time; the loop may
  be stopped; ticks, keepalives and the messages of the source come in any order, as long as the
  source's own are in the order of its log.
\<close>

inductive pg_stream ::
    "logrepl_env \<Rightarrow> (u32 \<Rightarrow> relation option) \<Rightarrow> (tableIdentifier \<Rightarrow> schema) \<Rightarrow> pg_transaction list \<Rightarrow> replicator \<Rightarrow>
       replicator \<Rightarrow> nat \<Rightarrow> pg_phase \<Rightarrow> bool" for env rels sch log rp0 where
  start: "pg_stream env rels sch log rp0 rp0 0 Between"
| round: "pg_stream env rels sch log rp0 rp k ph \<Longrightarrow>
    loop_step (env\<lparr>Connect := conn, SendErr := send\<rparr>) now StartRound rp = (e, us, rp') \<Longrightarrow>
    connects = (\<not> rp_conn rp \<and> rp_conn rp') \<Longrightarrow>
    pg_stream env rels sch log rp0 rp'
      (if connects then length (takeWhile (\<lambda>t. fst t < rs_lastWrittenLSN (rp_state rp) + 1) log) else k)
      (if connects then Between else ph)"
| stop: "pg_stream env rels sch log rp0 rp k ph \<Longrightarrow>
    loop_step (env\<lparr>Connect := conn, SendErr := send\<rparr>) now StopRequest rp = (e, us, rp') \<Longrightarrow> pg_stream env rels sch log rp0 rp' k ph"
| quiet: "pg_stream env rels sch log rp0 rp k ph \<Longrightarrow> (\<And>x. inp \<noteq> RcvXLogData (Inr x)) \<Longrightarrow>
    loop_step (env\<lparr>Connect := conn, SendErr := send\<rparr>) now (Receive inp) rp = (e, us, rp') \<Longrightarrow> pg_stream env rels sch log rp0 rp' k ph"
| message: "pg_stream env rels sch log rp0 rp k ph \<Longrightarrow> rp_running rp \<Longrightarrow> rp_receiving rp \<Longrightarrow> ParseV2 env d False = Inr msg \<Longrightarrow>
    sends env rels sch log (rs_relations (rp_state rp)) (k, ph) msg (k', ph') \<Longrightarrow>
    loop_step (env\<lparr>Connect := conn, SendErr := send\<rparr>) now (Receive (RcvXLogData (Inr (w, d)))) rp = (e, us, rp') \<Longrightarrow>
    pg_stream env rels sch log rp0 rp' k' ph'"

section \<open>The invariant\<close>

text \<open>
  \<open>m\<close> transactions of the log are committed, with their position, and \<open>k\<close> have been received; the events
  of the others, and of the transaction that is being received, are in the buffer.
\<close>

definition phase_ok :: "pg_transaction list \<Rightarrow> replicationState \<Rightarrow> nat \<Rightarrow> pg_phase \<Rightarrow> bool" where
  "phase_ok log st k ph \<longleftrightarrow>
     (case ph of
        Between \<Rightarrow> \<not> rs_dirtyStream st \<and> rs_inTxnStmtID st = 0
      | Within es \<Rightarrow>
          k < length log \<and> (\<exists>rest. snd (log ! k) = es @ rest) \<and> (rs_dirtyStream st \<longleftrightarrow> es \<noteq> []) \<and>
          rs_inTxnStmtID st = word_of_nat (length es) \<and> rs_currentTransactionLSN st = fst (log ! k) \<and> rs_processMessages st)"

definition relations_ok ::
    "(u32 \<Rightarrow> relation option) \<Rightarrow> (tableIdentifier \<Rightarrow> schema) \<Rightarrow> replicationState \<Rightarrow> bool" where
  "relations_ok rels sch st \<longleftrightarrow>
     (\<forall>i rel. rs_relations st i = Some rel \<longrightarrow> rels i = Some rel \<and> rs_schemas st i = Some (sch (relation_table rel)))"

definition session_clean :: "'d session \<Rightarrow> bool" where
  "session_clean s \<longleftrightarrow> txn s = None \<or> txn s = Some (OpenTx (committed s))"

definition pg_core ::
    "logrepl_env \<Rightarrow> (u32 \<Rightarrow> relation option) \<Rightarrow> tableIdentifier set \<Rightarrow> (tableIdentifier \<Rightarrow> schema) \<Rightarrow> table_maps \<Rightarrow> lsn \<Rightarrow>
       pg_transaction list \<Rightarrow> replicationState \<Rightarrow> nat \<Rightarrow> nat \<Rightarrow> row_event list \<Rightarrow> bool" where
  "pg_core env rels tabs sch M0 l0 log st m k es \<longleftrightarrow>
     m \<le> k \<and> k \<le> length log \<and> rs_lastWrittenLSN st = lsn_at l0 log m \<and> rs_lastCommitLSN st = lsn_at l0 log k \<and>
     (\<exists>t. position_row (committed (rs_sess st)) = Some t \<and> ParseLSN env t = Inr (lsn_at l0 log m)) \<and>
     session_clean (rs_sess st) \<and> \<not> rs_inStream st \<and> relations_ok rels sch st \<and>
     replica_holds (delta_db env) (without_index env) tabs sch (contents (committed (rs_sess st))) (apply_events sch M0 (pg_history (take m log))) \<and>
     replica_buffers tabs sch (apply_events sch M0 (pg_history (take m log))) (rs_deltas st) (pg_history (drop m (take k log)) @ es)"

definition pg_ok ::
    "logrepl_env \<Rightarrow> (u32 \<Rightarrow> relation option) \<Rightarrow> tableIdentifier set \<Rightarrow> (tableIdentifier \<Rightarrow> schema) \<Rightarrow> table_maps \<Rightarrow> lsn \<Rightarrow>
       pg_transaction list \<Rightarrow> replicationState \<Rightarrow> nat \<Rightarrow> nat \<Rightarrow> pg_phase \<Rightarrow> bool" where
  "pg_ok env rels tabs sch M0 l0 log st m k ph \<longleftrightarrow>
     pg_core env rels tabs sch M0 l0 log st m k (pg_events ph) \<and> phase_ok log st k ph"

lemma pg_history_append [simp]: "pg_history (ts @ ts') = pg_history ts @ pg_history ts'" "pg_history [] = []" "pg_history [t] = snd t"
  by (simp_all add: pg_history_def)

lemma pg_events_simps [simp]: "pg_events Between = []" "pg_events (Within es) = es"
  by (simp_all add: pg_events_def)

lemma session_clean_view [simp]: "session_clean s \<Longrightarrow> view s = committed s"
  by (auto simp: session_clean_def view_def)

lemma history_split: "m \<le> k \<Longrightarrow> pg_history (take k log) = pg_history (take m log) @ pg_history (drop m (take k log))"
  using append_take_drop_id [of m "take k log"] by (simp add: min_absorb1 flip: pg_history_append(1))

text \<open>A commit, when no event of the current transaction is in the buffer.\<close>

lemma commit_pg_core:
  assumes good: "good_logrepl env rels tabs sch" and ok: "pg_core env rels tabs sch M0 l0 log st m k []"
    and tx: "txn (rs_sess st) \<noteq> None"
  shows "\<exists>s c. commitOngoingTxn_pg env now reason st = (None, st\<lparr>rs_deltas := c, rs_deltaBufSize := 0, rs_sess := s, rs_ongoingBatchTxn := False,
      rs_dirtyTxn := False, rs_dirtyStream := False, rs_inTxnStmtID := 0, rs_lastCommitTime := now, rs_lastWrittenLSN := rs_lastCommitLSN st\<rparr>) \<and>
    txn s = None \<and> pg_core env rels tabs sch M0 l0 log (st\<lparr>rs_deltas := c, rs_sess := s, rs_lastWrittenLSN := rs_lastCommitLSN st\<rparr>) k k []"
proof -
  let ?s = "rs_sess st" and ?M = "apply_events sch M0 (pg_history (take m log))" and ?M' = "apply_events sch M0 (pg_history (take k log))"
  have s: "txn ?s = Some (OpenTx (committed ?s))" "view ?s = committed ?s" "tx_alive ?s"
    using ok tx by (auto simp: pg_core_def session_clean_def view_def tx_alive_def)
  have "m \<le> k" using ok by (simp add: pg_core_def)
  then have M: "?M' = apply_events sch ?M (pg_history (drop m (take k log)))" by (simp add: history_split [of m k])
  obtain d c where f: "FlushDelta (delta_db env) (without_index env) True reason (rs_deltas st) (contents (committed ?s)) = (None, d, c)"
    "replica_holds (delta_db env) (without_index env) tabs sch d ?M'" "replica_buffers tabs sch ?M' c []"
    using ok replica_flush [of "delta_db env" "without_index env" tabs sch "contents (committed ?s)" ?M "rs_deltas st"
        "pg_history (drop m (take k log))" reason] unfolding M by (auto simp: pg_core_def)
  have e: "ConnErr env x = None" "BeginErr env x = None" "CommitErr env x = None" "UpdateErr env x = None"
    "ParseLSN env (LSN_String env l) = Inr l" for x l using good by (simp_all add: good_logrepl_def)
  obtain t where t: "position_row (committed ?s) = Some t" using ok by (auto simp: pg_core_def)
  define s' where "s' = ?s\<lparr>committed := (committed ?s)\<lparr>contents := d, position_row := Some (LSN_String env (rs_lastCommitLSN st))\<rparr>, txn := None\<rparr>"
  have "commitOngoingTxn_pg env now reason st = (None, st\<lparr>rs_deltas := c, rs_deltaBufSize := 0, rs_sess := s', rs_ongoingBatchTxn := False,
      rs_dirtyTxn := False, rs_dirtyStream := False, rs_inTxnStmtID := 0, rs_lastCommitTime := now, rs_lastWrittenLSN := rs_lastCommitLSN st\<rparr>)"
    using e t f(1) s
    by (simp add: commitOngoingTxn_pg_def flushDeltaBuffer_pg_def Let_def UpdateSubscriptionLsn_def GetCatalogTxn_def set_view_def view_def
        tx_alive_def CloseTxn_def s'_def)
  moreover have "pg_core env rels tabs sch M0 l0 log (st\<lparr>rs_deltas := c, rs_sess := s', rs_lastWrittenLSN := rs_lastCommitLSN st\<rparr>) k k []"
    using ok f(2,3) e(5) by (auto simp: pg_core_def s'_def session_clean_def relations_ok_def)
  ultimately show ?thesis by (intro exI [of _ s'] exI [of _ c]) (simp add: s'_def)
qed

text \<open>The same for \<open>pg_ok\<close>, whether or not there is a transaction to commit.\<close>

lemma pg_core_cong:
  assumes "rs_lastWrittenLSN st' = rs_lastWrittenLSN st" "rs_lastCommitLSN st' = rs_lastCommitLSN st" "rs_sess st' = rs_sess st"
    "rs_inStream st' = rs_inStream st" "rs_relations st' = rs_relations st" "rs_schemas st' = rs_schemas st" "rs_deltas st' = rs_deltas st"
  shows "pg_core env rels tabs sch M0 l0 log st' m k es = pg_core env rels tabs sch M0 l0 log st m k es"
  using assms by (simp add: pg_core_def relations_ok_def)

definition committed_state :: "replicationState \<Rightarrow> replicationState \<Rightarrow> bool" where
  "committed_state st st' \<longleftrightarrow>
     \<not> rs_dirtyStream st' \<and> rs_inTxnStmtID st' = 0 \<and> rs_currentTransactionLSN st' = rs_currentTransactionLSN st \<and>
     rs_processMessages st' = rs_processMessages st \<and> rs_lastWrittenLSN st' = rs_lastCommitLSN st \<and> txn (rs_sess st') = None"

lemma commit_pg:
  assumes good: "good_logrepl env rels tabs sch" and ok: "pg_core env rels tabs sch M0 l0 log st m k []"
  shows "\<exists>st' m'. commitOngoingTxn_pg env now reason st = (None, st') \<and> pg_core env rels tabs sch M0 l0 log st' m' k [] \<and>
    (if txn (rs_sess st) = None then st' = st else m' = k \<and> committed_state st st')"
proof (cases "txn (rs_sess st) = None")
  case True
  then show ?thesis using ok good by (auto simp: commitOngoingTxn_pg_def good_logrepl_def)
next
  case False
  from commit_pg_core [OF good ok this, of now reason] obtain s c where
    r: "commitOngoingTxn_pg env now reason st = (None, st\<lparr>rs_deltas := c, rs_deltaBufSize := 0, rs_sess := s, rs_ongoingBatchTxn := False,
      rs_dirtyTxn := False, rs_dirtyStream := False, rs_inTxnStmtID := 0, rs_lastCommitTime := now, rs_lastWrittenLSN := rs_lastCommitLSN st\<rparr>)"
    "txn s = None" "pg_core env rels tabs sch M0 l0 log (st\<lparr>rs_deltas := c, rs_sess := s, rs_lastWrittenLSN := rs_lastCommitLSN st\<rparr>) k k []" by blast
  let ?st' = "st\<lparr>rs_deltas := c, rs_deltaBufSize := 0, rs_sess := s, rs_ongoingBatchTxn := False,
      rs_dirtyTxn := False, rs_dirtyStream := False, rs_inTxnStmtID := 0, rs_lastCommitTime := now, rs_lastWrittenLSN := rs_lastCommitLSN st\<rparr>"
  have "pg_core env rels tabs sch M0 l0 log ?st' k k []" using r(3) by (subst pg_core_cong [of _ "st\<lparr>rs_deltas := c, rs_sess := s,
      rs_lastWrittenLSN := rs_lastCommitLSN st\<rparr>"]) simp_all
  then show ?thesis using r(1,2) False by (intro exI [of _ ?st'] exI [of _ k]) (auto simp: committed_state_def)
qed

section \<open>Messages\<close>

lemma lsn_at_less:
  assumes "log_ok tabs sch M0 l0 log" "m \<le> k" "k < length log"
  shows "lsn_at l0 log m < fst (log ! k)"
proof -
  have "sorted_wrt (<) (l0 # map fst log)" using assms(1) by (simp add: log_ok_def)
  from sorted_wrt_nth_less [OF this, of m "Suc k"] assms(2,3) show ?thesis
    by (cases m) (simp_all add: lsn_at_def)
qed

lemma drop_take_Suc: "m \<le> k \<Longrightarrow> k < length log \<Longrightarrow> drop m (take (Suc k) log) = drop m (take k log) @ [log ! k]"
  by (simp add: take_Suc_conv_app_nth)

lemma log_next_event:
  assumes "log_ok tabs sch M0 l0 log" "m \<le> k" "k < length log" "snd (log ! k) = es @ e # rest"
  shows "next_event tabs sch (apply_events sch M0 (pg_history (take m log))) (pg_history (drop m (take k log)) @ es) e"
proof -
  have "log = take k log @ log ! k # drop (Suc k) log" using assms(3) by (simp add: id_take_nth_drop)
  then have "pg_history log = pg_history (take k log) @ snd (log ! k) @ pg_history (drop (Suc k) log)"
    by (metis append_Cons append_Nil pg_history_append(1,3))
  then have "pg_history log = (pg_history (take k log) @ es) @ e # rest @ pg_history (drop (Suc k) log)" using assms(4) by simp
  then have "next_event tabs sch M0 (pg_history (take k log) @ es) e" using assms(1) unfolding log_ok_def by blast
  then show ?thesis using history_split [OF assms(2), of log] by (simp add: next_event_def)
qed

lemma begin_pg:
  assumes good: "good_logrepl env rels tabs sch" and log: "log_ok tabs sch M0 l0 log"
    and ok: "pg_ok env rels tabs sch M0 l0 log st m k Between" and k: "k < length log"
  shows "\<exists>st' m'. processBegin env now (fst (log ! k)) st = (None, st') \<and> pg_ok env rels tabs sch M0 l0 log st' m' k (Within [])"
proof -
  have core: "pg_core env rels tabs sch M0 l0 log st m k []" and ph: "\<not> rs_dirtyStream st" "rs_inTxnStmtID st = 0"
    using ok by (simp_all add: pg_ok_def phase_ok_def)
  have new: "\<not> rs_lastWrittenLSN st > fst (log ! k)"
    using lsn_at_less [OF log _ k, of m] core by (simp add: pg_core_def)
  define st1 where "st1 = st\<lparr>rs_processMessages := True, rs_currentTransactionLSN := fst (log ! k)\<rparr>"
  have core1: "pg_core env rels tabs sch M0 l0 log st1 m k []" using core by (subst pg_core_cong [of _ st]) (simp_all add: st1_def)
  obtain x reason where x: "mayExtendBatchTxn_pg now st1 = (x, reason)" by (metis surj_pair)
  show ?thesis
  proof (cases x)
    case True
    then show ?thesis using x core1 new ph k by (auto simp: processBegin_def Let_def st1_def [symmetric] pg_ok_def phase_ok_def) (auto simp: st1_def)
  next
    case False
    from commit_pg [OF good core1, of now reason] obtain st2 m2 where
      c: "commitOngoingTxn_pg env now reason st1 = (None, st2)" "pg_core env rels tabs sch M0 l0 log st2 m2 k []"
      "if txn (rs_sess st1) = None then st2 = st1 else m2 = k \<and> committed_state st1 st2" by blast
    have st2: "\<not> rs_dirtyStream st2" "rs_inTxnStmtID st2 = 0" "rs_currentTransactionLSN st2 = fst (log ! k)" "rs_processMessages st2"
      "txn (rs_sess st2) = None" using c(3) ph by (auto simp: committed_state_def st1_def split: if_splits)
    define s where "s = (rs_sess st2)\<lparr>txn := Some (OpenTx (committed (rs_sess st2)))\<rparr>"
    have "GetCatalogTxn env (rs_sess st2) = (None, s)" using st2(5) good by (simp add: GetCatalogTxn_def good_logrepl_def s_def)
    then have "processBegin env now (fst (log ! k)) st = (None, st2\<lparr>rs_sess := s, rs_ongoingBatchTxn := True\<rparr>)"
      using new x False c(1) by (simp add: processBegin_def st1_def)
    moreover have "pg_core env rels tabs sch M0 l0 log (st2\<lparr>rs_sess := s, rs_ongoingBatchTxn := True\<rparr>) m2 k []"
      using c(2) by (simp add: pg_core_def relations_ok_def s_def session_clean_def)
    moreover have "phase_ok log (st2\<lparr>rs_sess := s, rs_ongoingBatchTxn := True\<rparr>) k (Within [])"
      using st2 k by (simp add: phase_ok_def)
    ultimately show ?thesis by (auto simp: pg_ok_def)
  qed
qed

lemma commit_message_pg:
  assumes good: "good_logrepl env rels tabs sch"
    and ok: "pg_ok env rels tabs sch M0 l0 log st m k (Within es)" and k: "k < length log" "snd (log ! k) = es"
  shows "\<exists>st' m'. processCommit env now (fst (log ! k)) st = (None, st') \<and> pg_ok env rels tabs sch M0 l0 log st' m' (Suc k) Between"
proof -
  define st1 where "st1 = st\<lparr>rs_lastCommitLSN := fst (log ! k), rs_commitCount := rs_commitCount st + 1\<rparr>"
  have "pg_history (drop m (take (Suc k) log)) = pg_history (drop m (take k log)) @ es" if "m \<le> k"
    using drop_take_Suc [OF that k(1)] k(2) by simp
  then have core1: "pg_core env rels tabs sch M0 l0 log st1 m (Suc k) []"
    using ok k by (auto simp: pg_ok_def pg_core_def st1_def lsn_at_def relations_ok_def)
  obtain x reason where x: "mayExtendBatchTxn_pg now st1 = (x, reason)" by (metis surj_pair)
  have "\<exists>st2 m2. (case mayExtendBatchTxn_pg now st1 of (True, _) \<Rightarrow> (None, st1) | (False, reason) \<Rightarrow> commitOngoingTxn_pg env now reason st1) = (None, st2)
      \<and> pg_core env rels tabs sch M0 l0 log st2 m2 (Suc k) []"
    using core1 commit_pg [OF good core1, of now reason] by (cases x) (auto simp: x)
  then obtain st2 m2 where 2: "(case mayExtendBatchTxn_pg now st1 of (True, _) \<Rightarrow> (None, st1) | (False, reason) \<Rightarrow> commitOngoingTxn_pg env now reason st1) = (None, st2)"
    and core2: "pg_core env rels tabs sch M0 l0 log st2 m2 (Suc k) []" by blast
  let ?st' = "st2\<lparr>rs_dirtyStream := False, rs_inTxnStmtID := 0, rs_processMessages := False\<rparr>"
  have "pg_core env rels tabs sch M0 l0 log ?st' m2 (Suc k) []" using core2 by (subst pg_core_cong [of _ st2]) simp_all
  then have "pg_ok env rels tabs sch M0 l0 log ?st' m2 (Suc k) Between" by (simp add: pg_ok_def phase_ok_def)
  moreover have "processCommit env now (fst (log ! k)) st = (None, ?st')"
    using 2 unfolding processCommit_def Let_def st1_def by simp
  ultimately show ?thesis by blast
qed

lemma row_pg:
  assumes log: "log_ok tabs sch M0 l0 log" and ok: "pg_ok env rels tabs sch M0 l0 log st m k (Within es)"
    and msg: "message_relation msg = Some i" "rs_relations st i = Some rel" "relation_table rel = t" "relation_change env (sch t) rel msg = Some ch"
    and k: "k < length log" "snd (log ! k) = es @ (t, pg_stamp (fst (log ! k)) (length es), ch) # rest"
  shows "\<exists>st'. mark_dirty (row_update msg env st) = ((None, False), st') \<and>
    pg_ok env rels tabs sch M0 l0 log st' m k (Within (es @ [(t, pg_stamp (fst (log ! k)) (length es), ch)]))"
proof -
  have core: "pg_core env rels tabs sch M0 l0 log st m k es" and ph: "phase_ok log st k (Within es)" using ok by (simp_all add: pg_ok_def)
  have stamp: "lsn_stamp st = pg_stamp (fst (log ! k)) (length es)" using ph by (simp add: phase_ok_def lsn_stamp_def pg_stamp_def)
  have schema: "rs_schemas st i = Some (sch t)" using core msg(2,3) by (auto simp: pg_core_def relations_ok_def)
  have "m \<le> k" "replica_buffers tabs sch (apply_events sch M0 (pg_history (take m log))) (rs_deltas st) (pg_history (drop m (take k log)) @ es)"
    using core by (simp_all add: pg_core_def)
  from row_update_records [where sch = sch, OF msg(2) schema msg(3,1,4) this(2)] log_next_event [OF log this(1) k]
  obtain c sz where r: "row_update msg env st = (None, st\<lparr>rs_deltas := c, rs_deltaBufSize := sz\<rparr>)"
    "replica_buffers tabs sch (apply_events sch M0 (pg_history (take m log))) c ((pg_history (drop m (take k log)) @ es) @ [(t, lsn_stamp st, ch)])"
    unfolding stamp by blast
  let ?st' = "st\<lparr>rs_deltas := c, rs_deltaBufSize := sz, rs_dirtyTxn := True, rs_dirtyStream := True, rs_inTxnStmtID := rs_inTxnStmtID st + 1\<rparr>"
  have "mark_dirty (row_update msg env st) = ((None, False), ?st')" by (simp add: mark_dirty_def r(1))
  moreover have "pg_core env rels tabs sch M0 l0 log ?st' m k (es @ [(t, pg_stamp (fst (log ! k)) (length es), ch)])"
    using core r(2) by (simp add: pg_core_def relations_ok_def stamp)
  moreover have "phase_ok log ?st' k (Within (es @ [(t, pg_stamp (fst (log ! k)) (length es), ch)]))" using ph k by (simp add: phase_ok_def)
  ultimately show ?thesis by (auto simp: pg_ok_def)
qed

lemma relation_pg:
  assumes good: "good_logrepl env rels tabs sch" and ok: "pg_ok env rels tabs sch M0 l0 log st m k ph"
    and rel: "rels i = Some rel" "rs_relations st i = None"
  shows "\<exists>st'. processRelation env now rel st = (None, st') \<and> pg_ok env rels tabs sch M0 l0 log st' m k ph"
proof -
  have r: "rel_id rel = i" "relation_schema env rel = Inr (sch (relation_table rel))" "ConnErr env s = None"
    "replica_holds (delta_db env) (without_index env) tabs sch d M \<Longrightarrow> ExecSQL env (generateCreateTableStmt (without_index env) rel) d = (None, d)" for d M s
    using good rel(1) unfolding good_logrepl_def by blast+
  let ?s = "rs_sess st"
  have clean: "session_clean ?s" using ok by (simp add: pg_ok_def pg_core_def)
  have "ExecSQL env (generateCreateTableStmt (without_index env) rel) (contents (committed ?s)) = (None, contents (committed ?s))"
    using ok r(4) by (auto simp: pg_ok_def pg_core_def)
  moreover have "set_view (committed ?s) ?s = ?s" using clean by (auto simp: session_clean_def set_view_def)
  ultimately have "ExecCatalog env (generateCreateTableStmt (without_index env) rel) ?s = (None, ?s)"
    using clean by (simp add: ExecCatalog_def exec_text_def r(3))
  then have "processRelation env now rel st = (None, st\<lparr>rs_relations := (rs_relations st)(i \<mapsto> rel),
      rs_schemas := (rs_schemas st)(i \<mapsto> sch (relation_table rel)), rs_keys := (rs_keys st)(i \<mapsto> relation_keys rel)\<rparr>)"
    using r(1,2) rel(2) by (simp add: processRelation_def)
  then show ?thesis using ok rel(1) by (auto simp: pg_ok_def pg_core_def relations_ok_def phase_ok_def split: pg_phase.splits)
qed

lemma pg_ok_received:
  "pg_ok env rels tabs sch M0 l0 log (st\<lparr>rs_lastReceivedLSN := w\<rparr>) m k ph = pg_ok env rels tabs sch M0 l0 log st m k ph"
  using pg_core_cong [of "st\<lparr>rs_lastReceivedLSN := w\<rparr>" st] by (simp add: pg_ok_def phase_ok_def split: pg_phase.splits)

text \<open>Every message of the source is processed without an error and keeps the invariant.\<close>

lemma message_pg:
  assumes good: "good_logrepl env rels tabs sch" and log: "log_ok tabs sch M0 l0 log"
    and ok: "pg_ok env rels tabs sch M0 l0 log st m k ph" and msg: "ParseV2 env d False = Inr msg"
    and sends: "sends env rels sch log (rs_relations st) (k, ph) msg (k', ph')"
  shows "\<exists>b st' m'. processMessage env now w d st = ((None, b), st') \<and> pg_ok env rels tabs sch M0 l0 log st' m' k' ph'"
proof -
  define st1 where "st1 = (if w > rs_lastReceivedLSN st then st\<lparr>rs_lastReceivedLSN := w\<rparr> else st)"
  have ok1: "pg_ok env rels tabs sch M0 l0 log st1 m k ph" using ok by (simp add: st1_def pg_ok_received)
  have rels1: "rs_relations st1 = rs_relations st" "rs_inStream st = False" using ok by (simp_all add: st1_def pg_ok_def pg_core_def)
  note p = processMessage_def [of env now w d st, unfolded rels1(2) msg sum.case Let_def, folded st1_def]
  from sends show ?thesis
  proof cases
    case begin_txn
    with begin_pg [OF good log, of st1 m k now] ok1 show ?thesis by (auto simp: p)
  next
    case (row i rel t ch es rest)
    have "processMessage env now w d st = mark_dirty (row_update msg env st1)"
      using row ok1 by (cases msg) (simp_all add: p message_relation_def row_update_def pg_ok_def phase_ok_def)
    with row_pg [OF log, of env rels st1 m k es msg i rel t ch rest] row ok1 rels1 show ?thesis by auto
  next
    case (commit_txn es)
    with commit_message_pg [OF good, of M0 l0 log st1 m k es now] ok1 show ?thesis by (auto simp: p)
  next
    case (relation i rel)
    with relation_pg [OF good, of M0 l0 log st1 m k ph i rel now] ok1 rels1 show ?thesis by (auto simp: p)
  next
    case other
    then show ?thesis using ok1 by (auto simp: p)
  qed
qed

section \<open>The loop\<close>

lemma clean_pg:
  assumes good: "good_logrepl env rels tabs sch" and ok: "pg_ok env rels tabs sch M0 l0 log st m k ph"
  shows "\<exists>st' m'. commitOngoingTxnIfClean env now reason st = (None, st') \<and> pg_ok env rels tabs sch M0 l0 log st' m' k ph \<and>
    (rs_dirtyTxn st \<and> \<not> rs_dirtyStream st \<and> txn (rs_sess st) \<noteq> None \<longrightarrow> m' = k)"
proof (cases "rs_dirtyTxn st \<and> \<not> rs_dirtyStream st")
  case True
  then have ev: "pg_events ph = []" using ok by (auto simp: pg_ok_def phase_ok_def split: pg_phase.splits)
  then have core: "pg_core env rels tabs sch M0 l0 log st m k []" using ok by (simp add: pg_ok_def)
  from commit_pg [OF good core, of now reason] obtain st' m' where
    c: "commitOngoingTxn_pg env now reason st = (None, st')" "pg_core env rels tabs sch M0 l0 log st' m' k []"
    "if txn (rs_sess st) = None then st' = st else m' = k \<and> committed_state st st'" by blast
  have "phase_ok log st' k ph"
    using ok ev c(3) by (auto simp: pg_ok_def phase_ok_def committed_state_def split: pg_phase.splits if_splits)
  then show ?thesis using c True ev by (auto simp: commitOngoingTxnIfClean_def pg_ok_def split: if_splits)
next
  case False
  then show ?thesis using ok by (auto simp: commitOngoingTxnIfClean_def)
qed

lemma rollback_pg:
  assumes "good_logrepl env rels tabs sch" "pg_ok env rels tabs sch M0 l0 log st m k ph"
  shows "rollback env st = (None, CloseTxn st)" "pg_ok env rels tabs sch M0 l0 log (CloseTxn st) m k ph"
proof -
  show "rollback env st = (None, CloseTxn st)" using assms(1) by (simp add: rollback_def good_logrepl_def)
  show "pg_ok env rels tabs sch M0 l0 log (CloseTxn st) m k ph"
    using assms(2) by (auto simp: pg_ok_def pg_core_def CloseTxn_def session_clean_def relations_ok_def phase_ok_def split: pg_phase.splits)
qed

lemma shutdown_pg:
  assumes "good_logrepl env rels tabs sch" "pg_ok env rels tabs sch M0 l0 log (rp_state rp) m k ph"
  shows "\<exists>m'. pg_ok env rels tabs sch M0 l0 log (rp_state (shutdown env now rp)) m' k ph"
proof -
  from clean_pg [OF assms, of now OnCloseFlushReason] obtain st' m' where
    "commitOngoingTxnIfClean env now OnCloseFlushReason (rp_state rp) = (None, st')" "pg_ok env rels tabs sch M0 l0 log st' m' k ph" by blast
  with rollback_pg [OF assms(1) this(2)] show ?thesis by (auto simp: shutdown_def)
qed

lemma resume_length:
  assumes "log_ok tabs sch M0 l0 log" "m \<le> length log"
  shows "length (takeWhile (\<lambda>t. fst t < lsn_at l0 log m + 1) log) = m"
proof -
  have s: "sorted_wrt (<) (l0 # map fst log)" and top: "\<forall>t\<in>set log. fst t < - 1" using assms(1) by (simp_all add: log_ok_def)
  have nomax: "lsn_at l0 log m < - 1" if "log \<noteq> []"
  proof (cases m)
    case 0
    have "l0 < fst (hd log)" using s that by (cases log) auto
    also have "fst (hd log) < - 1" using top that by simp
    finally show ?thesis by (simp add: lsn_at_def 0)
  next
    case (Suc n)
    then show ?thesis using top assms(2) by (simp add: nth_mem lsn_at_def)
  qed
  have before: "fst (log ! i) \<le> lsn_at l0 log m" if "i < m" for i
    using sorted_wrt_nth_less [OF s, of "Suc i" m] that assms(2) by (cases "Suc i = m") (auto simp: lsn_at_def nth_Cons' split: if_splits)
  have after: "lsn_at l0 log m < fst (log ! m)" if "m < length log" using lsn_at_less [OF assms(1) le_refl that] .
  have plus: "x < lsn_at l0 log m + 1 \<longleftrightarrow> x \<le> lsn_at l0 log m" if "log \<noteq> []" for x
    using word_less_plus_1 [OF nomax [OF that]] .
  show ?thesis
  proof (cases "log = []")
    case False
    note plus = plus [OF this]
    have "m \<le> length (takeWhile (\<lambda>t. fst t < lsn_at l0 log m + 1) log)"
      using before assms(2) by (intro length_takeWhile_less_P_nth) (auto simp: plus)
    moreover have "\<not> m < length (takeWhile (\<lambda>t. fst t < lsn_at l0 log m + 1) log)"
    proof
      assume l: "m < length (takeWhile (\<lambda>t. fst t < lsn_at l0 log m + 1) log)"
      then have "m < length log" using length_takeWhile_le less_le_trans by blast
      moreover have "fst (log ! m) < lsn_at l0 log m + 1" using set_takeWhileD [OF nth_mem [OF l]] takeWhile_nth [OF l] by metis
      ultimately show False using after by (simp add: plus)
    qed
    ultimately show ?thesis by simp
  qed (use assms(2) in simp)
qed

lemma good_logrepl_net [simp]: "good_logrepl (env\<lparr>Connect := conn, SendErr := send\<rparr>) rels tabs sch = good_logrepl env rels tabs sch"
  by (simp add: good_logrepl_def relation_schema_def)

lemma pg_ok_net [simp]: "pg_ok (env\<lparr>Connect := conn, SendErr := send\<rparr>) = pg_ok env"
  by (intro ext) (simp add: pg_ok_def pg_core_def)

lemma sends_net: "sends env rels sch log known kp msg kp' \<Longrightarrow> sends (env\<lparr>Connect := conn, SendErr := send\<rparr>) rels sch log known kp msg kp'"
proof (induction rule: sends.induct)
  case (row msg i rel t ch k es rest)
  moreover have "relation_change (env\<lparr>Connect := conn, SendErr := send\<rparr>) (sch t) rel msg = relation_change env (sch t) rel msg"
    by (simp add: relation_change_def old_rows_def tuple_row_def cong: pg_message.case_cong old_tuple.case_cong)
  ultimately show ?case by (auto intro: sends.row)
qed (auto intro: sends.begin_txn sends.commit_txn [simplified] sends.relation sends.other)

lemma sendStandbyStatusUpdate_state: "rp_state (snd (snd (sendStandbyStatusUpdate env now rp))) = rp_state rp"
  using handleErrWithRetry_state [of _ False rp]
  by (simp add: sendStandbyStatusUpdate_def Let_def case_prod_beta split: option.splits)

lemma sendStandbyStatusUpdate_stateD: "sendStandbyStatusUpdate env now rp = (e, us, rp') \<Longrightarrow> rp_state rp' = rp_state rp"
  using sendStandbyStatusUpdate_state [of env now rp] by simp

lemma handleErrWithRetry_stateD: "handleErrWithRetry err inc rp = (e, rp') \<Longrightarrow> rp_state rp' = rp_state rp"
  using handleErrWithRetry_state [of err inc rp] by simp

lemma connect_pg:
  assumes good: "good_logrepl env rels tabs sch" and log: "log_ok tabs sch M0 l0 log"
    and ok: "pg_ok env rels tabs sch M0 l0 log (rp_state rp) m k ph"
    and r: "start_round env now rp = (e, us, rp')" and k': "k' = (if \<not> rp_conn rp \<and> rp_conn rp' then
      length (takeWhile (\<lambda>t. fst t < rs_lastWrittenLSN (rp_state rp) + 1) log) else k)"
    "ph' = (if \<not> rp_conn rp \<and> rp_conn rp' then Between else ph)"
  shows "pg_ok env rels tabs sch M0 l0 log (rp_state rp') m k' ph'"
proof (cases "rp_conn rp")
  case True
  then have "rp_state rp' = rp_state rp"
    using r by (auto simp: start_round_def ensure_connection_def split: if_splits option.splits prod.splits dest: sendStandbyStatusUpdate_stateD)
  then show ?thesis using ok True k' by simp
next
  case conn: False
  let ?st = "rp_state rp"
  show ?thesis
  proof (cases "beginReplication env (rp_dns rp) (rp_slot rp) (rs_lastWrittenLSN ?st)")
    case (Some x)
    then have "rp_state rp' = ?st \<and> \<not> rp_conn rp'"
      using r conn by (auto simp: start_round_def ensure_connection_def handleErrWithRetry_def Let_def split: if_splits)
    then show ?thesis using ok k' by simp
  next
    case None
    let ?st' = "reset now (rs_lastWrittenLSN ?st) ((rs_sess ?st)\<lparr>txn := None\<rparr>)"
    have rp': "rp_state rp' = ?st'" "rp_conn rp'"
      using r conn None rollback_pg(1) [OF good ok]
      by (auto simp: start_round_def ensure_connection_def reset_def CloseTxn_def split: if_splits)
    have m: "rs_lastWrittenLSN ?st = lsn_at l0 log m" "m \<le> length log" using ok by (auto simp: pg_ok_def pg_core_def)
    have "k' = m" "ph' = Between" using k' conn rp'(2) resume_length [OF log m(2)] m(1) by simp_all
    moreover have "replica_buffers tabs sch (apply_events sch M0 (pg_history (take m log))) [] []"
      using ok by (auto simp: pg_ok_def pg_core_def replica_holds_def replica_buffers_def)
    then have "pg_ok env rels tabs sch M0 l0 log ?st' m m Between"
      using ok by (auto simp: pg_ok_def pg_core_def reset_def session_clean_def relations_ok_def phase_ok_def NewController_def)
    ultimately show ?thesis using rp'(1) by simp
  qed
qed

lemma quiet_pg:
  assumes good: "good_logrepl env rels tabs sch"
    and ok: "pg_ok env rels tabs sch M0 l0 log (rp_state rp) m k ph"
    and r: "receive env now inp rp = (e, us, rp')" and inp: "\<And>x. inp \<noteq> RcvXLogData (Inr x)"
  shows "\<exists>m'. pg_ok env rels tabs sch M0 l0 log (rp_state rp') m' k ph"
proof (cases inp)
  case RcvTick
  obtain st' m' where c: "commitOngoingTxnIfClean env now TimeTickFlushReason (rp_state rp) = (None, st')"
    "pg_ok env rels tabs sch M0 l0 log st' m' k ph" using clean_pg [OF good ok] by blast
  have "rp_state rp' = rp_state rp \<or> rp_state rp' = st'"
    using r c(1) by (auto simp: receive_def RcvTick split: if_splits dest: sendStandbyStatusUpdate_stateD)
  then show ?thesis using ok c(2) by auto
next
  case (RcvKeepalive x)
  have "pg_ok env rels tabs sch M0 l0 log (rp_state rp') m k ph"
  proof (cases x)
    case (Inr y)
    obtain w reply where "y = (w, reply)" by (cases y)
    then have "rp_state rp' = (rp_state rp)\<lparr>rs_lastReceivedLSN := w\<rparr>"
      using r by (auto simp: receive_def RcvKeepalive Inr Let_def split: if_splits dest: sendStandbyStatusUpdate_stateD)
    then show ?thesis using ok by (simp add: pg_ok_received)
  qed (use r ok in \<open>auto simp: receive_def RcvKeepalive\<close>)
  then show ?thesis by blast
next
  case (RcvXLogData x)
  then show ?thesis using r ok inp by (cases x) (auto simp: receive_def)
next
  case (RcvError x t b)
  then have "rp_state rp' = rp_state rp"
    using r by (auto simp: receive_def split: if_splits prod.splits dest: handleErrWithRetry_stateD)
  then show ?thesis using ok by auto
qed (use r ok in \<open>auto simp: receive_def\<close>)

lemma receive_message_pg:
  assumes good: "good_logrepl env rels tabs sch" and log: "log_ok tabs sch M0 l0 log"
    and ok: "pg_ok env rels tabs sch M0 l0 log (rp_state rp) m k ph" and msg: "ParseV2 env d False = Inr msg"
    and sends: "sends env rels sch log (rs_relations (rp_state rp)) (k, ph) msg (k', ph')"
    and r: "receive env now (RcvXLogData (Inr (w, d))) rp = (e, us, rp')"
  shows "\<exists>m'. pg_ok env rels tabs sch M0 l0 log (rp_state rp') m' k' ph'"
    "(\<forall>u. SendErr env u = None) \<Longrightarrow> e = None \<and> rp_errs rp' = rp_errs rp \<and> rp_conn rp' = rp_conn rp \<and> rp_running rp' = rp_running rp"
proof -
  obtain b st' m' where p: "processMessage env now w d (rp_state rp) = ((None, b), st')" "pg_ok env rels tabs sch M0 l0 log st' m' k' ph'"
    using message_pg [OF good log ok msg sends] by blast
  have "rp_state rp' = st'"
    using r p(1) by (auto simp: receive_def split: if_splits dest: sendStandbyStatusUpdate_stateD)
  then show "\<exists>m'. pg_ok env rels tabs sch M0 l0 log (rp_state rp') m' k' ph'" using p(2) by auto
  show "e = None \<and> rp_errs rp' = rp_errs rp \<and> rp_conn rp' = rp_conn rp \<and> rp_running rp' = rp_running rp" if "\<forall>u. SendErr env u = None"
    using r p(1) that by (auto simp: receive_def sendStandbyStatusUpdate_def split: if_splits)
qed

lemma after_step_pg:
  assumes "good_logrepl env rels tabs sch" "pg_ok env rels tabs sch M0 l0 log (rp_state rp) m k ph"
  shows "\<exists>m'. pg_ok env rels tabs sch M0 l0 log (rp_state (if e = None then rp else shutdown env now rp)) m' k ph"
  using shutdown_pg [OF assms, of now] assms(2) by (cases "e = None") auto

lemma round_step_pg:
  assumes good: "good_logrepl env rels tabs sch" and log: "log_ok tabs sch M0 l0 log"
    and ok: "pg_ok env rels tabs sch M0 l0 log (rp_state rp) m k ph"
    and l: "loop_step env now StartRound rp = (e, us, rp')" and c: "connects = (\<not> rp_conn rp \<and> rp_conn rp')"
  shows "\<exists>m'. pg_ok env rels tabs sch M0 l0 log (rp_state rp') m'
    (if connects then length (takeWhile (\<lambda>t. fst t < rs_lastWrittenLSN (rp_state rp) + 1) log) else k) (if connects then Between else ph)"
proof (cases "rp_running rp \<and> \<not> rp_receiving rp")
  case True
  obtain e1 us1 rp1 where s: "start_round env now rp = (e1, us1, rp1)" by (metis prod_cases3)
  have same: "rp_conn (shutdown env now rp1) = rp_conn rp1" by (simp add: shutdown_def)
  have "rp' = (if e1 = None then rp1 else shutdown env now rp1)" using l True s by (auto simp: loop_step_def split: option.splits)
  moreover note after_step_pg [OF good connect_pg [OF good log ok s refl refl], of e1 now]
  moreover have "rp_conn rp' = rp_conn rp1" using calculation(1) same by simp
  ultimately show ?thesis by (simp only: c)
next
  case False
  then have "rp' = rp" using l by (auto simp: loop_step_def split: if_splits)
  with ok c show ?thesis by auto
qed

lemma receive_step:
  assumes "loop_step env now (Receive inp) rp = (e, us, rp')"
  obtains "rp' = rp" "\<not> (rp_running rp \<and> rp_receiving rp)"
  | rp1 e1 where "rp_running rp" "rp_receiving rp" "receive env now inp (rp\<lparr>rp_receiving := False\<rparr>) = (e1, us, rp1)"
      "rp' = (if e1 = None then rp1 else shutdown env now rp1)" "e = e1"
  using assms
  by (cases "receive env now inp (rp\<lparr>rp_receiving := False\<rparr>)") (auto simp: loop_step_def split: if_splits option.splits)

lemma quiet_step_pg:
  assumes good: "good_logrepl env rels tabs sch" and ok: "pg_ok env rels tabs sch M0 l0 log (rp_state rp) m k ph"
    and l: "loop_step env now (Receive inp) rp = (e, us, rp')" and inp: "\<And>x. inp \<noteq> RcvXLogData (Inr x)"
  shows "\<exists>m'. pg_ok env rels tabs sch M0 l0 log (rp_state rp') m' k ph"
  using l
proof (cases rule: receive_step)
  case 1
  then show ?thesis using ok by blast
next
  case (2 rp1 e1)
  have "pg_ok env rels tabs sch M0 l0 log (rp_state (rp\<lparr>rp_receiving := False\<rparr>)) m k ph" using ok by simp
  from quiet_pg [OF good this 2(3) inp] obtain m' where "pg_ok env rels tabs sch M0 l0 log (rp_state rp1) m' k ph" by blast
  from after_step_pg [OF good this] show ?thesis unfolding 2(4) .
qed

lemma message_step_pg:
  assumes good: "good_logrepl env rels tabs sch" and log: "log_ok tabs sch M0 l0 log"
    and ok: "pg_ok env rels tabs sch M0 l0 log (rp_state rp) m k ph" and run: "rp_running rp" "rp_receiving rp"
    and msg: "ParseV2 env d False = Inr msg" and sends: "sends env rels sch log (rs_relations (rp_state rp)) (k, ph) msg (k', ph')"
    and l: "loop_step env now (Receive (RcvXLogData (Inr (w, d)))) rp = (e, us, rp')"
  shows "\<exists>m'. pg_ok env rels tabs sch M0 l0 log (rp_state rp') m' k' ph'"
    "(\<forall>u. SendErr env u = None) \<Longrightarrow> e = None \<and> rp_errs rp' = rp_errs rp \<and> rp_conn rp' = rp_conn rp \<and> rp_running rp'"
proof -
  have ok': "pg_ok env rels tabs sch M0 l0 log (rp_state (rp\<lparr>rp_receiving := False\<rparr>)) m k ph"
    and sends': "sends env rels sch log (rs_relations (rp_state (rp\<lparr>rp_receiving := False\<rparr>))) (k, ph) msg (k', ph')"
    using ok sends by simp_all
  from l obtain rp1 where r: "receive env now (RcvXLogData (Inr (w, d))) (rp\<lparr>rp_receiving := False\<rparr>) = (e, us, rp1)"
    "rp' = (if e = None then rp1 else shutdown env now rp1)"
    using run by (cases rule: receive_step) auto
  note m = receive_message_pg [OF good log ok' msg sends' r(1)]
  from m(1) obtain m' where "pg_ok env rels tabs sch M0 l0 log (rp_state rp1) m' k' ph'" by blast
  from after_step_pg [OF good this] show "\<exists>m'. pg_ok env rels tabs sch M0 l0 log (rp_state rp') m' k' ph'" unfolding r(2) .
  show "e = None \<and> rp_errs rp' = rp_errs rp \<and> rp_conn rp' = rp_conn rp \<and> rp_running rp'" if "\<forall>u. SendErr env u = None"
    using m(2) [OF that] r(2) run by simp
qed

lemma pg_stream_ok:
  assumes good: "good_logrepl env rels tabs sch" and log: "log_ok tabs sch M0 l0 log"
    and start: "pg_ok env rels tabs sch M0 l0 log (rp_state rp0) 0 0 Between"
    and run: "pg_stream env rels sch log rp0 rp k ph"
  shows "\<exists>m. pg_ok env rels tabs sch M0 l0 log (rp_state rp) m k ph"
  using run
proof (induction rule: pg_stream.induct)
  case start
  then show ?case using assms(3) by blast
next
  case (round rp k ph send conn now e us rp' connects)
  from round.IH obtain m where "pg_ok env rels tabs sch M0 l0 log (rp_state rp) m k ph" by blast
  from round_step_pg [of "env\<lparr>Connect := conn, SendErr := send\<rparr>" rels tabs sch, unfolded good_logrepl_net pg_ok_net, OF good log this round(2,3)]
  show ?case .
next
  case (stop rp k ph send conn now e us rp')
  from stop.IH obtain m where m: "pg_ok env rels tabs sch M0 l0 log (rp_state rp) m k ph" by blast
  have "rp' = rp \<or> rp' = shutdown (env\<lparr>Connect := conn, SendErr := send\<rparr>) now rp" using stop(2) by (auto simp: loop_step_def split: if_splits)
  with shutdown_pg [of "env\<lparr>Connect := conn, SendErr := send\<rparr>" rels tabs sch, unfolded good_logrepl_net pg_ok_net, OF good m, of now] m
  show ?case by blast
next
  case (quiet rp k ph inp send conn now e us rp')
  from quiet.IH obtain m where "pg_ok env rels tabs sch M0 l0 log (rp_state rp) m k ph" by blast
  from quiet_step_pg [of "env\<lparr>Connect := conn, SendErr := send\<rparr>" rels tabs sch, unfolded good_logrepl_net pg_ok_net, OF good this quiet(3,2)]
  show ?case .
next
  case (message rp k ph d msg k' ph' send conn now w e us rp')
  have parse: "ParseV2 (env\<lparr>Connect := conn, SendErr := send\<rparr>) d False = Inr msg" using message(4) by simp
  from message.IH obtain m where "pg_ok env rels tabs sch M0 l0 log (rp_state rp) m k ph" by blast
  from message_step_pg(1) [of "env\<lparr>Connect := conn, SendErr := send\<rparr>" rels tabs sch, unfolded good_logrepl_net pg_ok_net,
      OF good log this message(2,3) parse sends_net [OF message(5)] message(6)]
  show ?case .
qed

end
