(* ===== verification/LogreplProps.thy ===== *)
theory LogreplProps
  imports LogreplStream
begin

text \<open>
  The properties of the replicator of a Postgres subscription, with an example of one table and two
  transactions that shows that their hypotheses can be met.
\<close>

section \<open>A subscription with one table\<close>

definition sub_codecs :: pg_codecs where
  "sub_codecs = demo_codecs\<lparr>ScanInt2 := (\<lambda>fmt d. bind_res (byte_at d 0) (\<lambda>b. Inr (ucast b)))\<rparr>"

definition sub_relation :: relation where
  "sub_relation = \<lparr>rel_id = 1, rel_namespace = ''public'', rel_name = ''t'',
     rel_columns = [\<lparr>rc_flags = 1, rc_name = ''id'', rc_oid = Int2OID, rc_modifier = -1\<rparr>,
                    \<lparr>rc_flags = 0, rc_name = ''n'', rc_oid = Int2OID, rc_modifier = -1\<rparr>]\<rparr>"

definition sub_table :: tableIdentifier where
  "sub_table = \<lparr>dbName = ''public'', tableName = ''t''\<rparr>"

definition sub_type :: sql_type where
  "sub_type = Postgres \<lparr>PG = PGType Int2OID None, PgPrecision = 0, PgScale = 0, PgSize = 2, PgFallback = False\<rparr>"

definition sub_schema :: schema where
  "sub_schema = [\<lparr>col_name = ''id'', col_type = sub_type, col_pk = True, col_nullable = False\<rparr>,
                 \<lparr>col_name = ''n'', col_type = sub_type, col_pk = False, col_nullable = False\<rparr>]"

definition sub_store :: "arrow_value store" where
  "sub_store =
     \<lparr>tables = [sub_table \<mapsto> \<lparr>tcols = [''id'', ''n''], tindex = Some [0], trows = []\<rparr>], views = Map.empty, temp_delta = None\<rparr>"

text \<open>The wire format is a tag byte, and positions are written in unary.\<close>

definition sub_parse :: "bytes \<Rightarrow> bool \<Rightarrow> pg_message res" where
  "sub_parse d inStream =
     (if d = [0] then Inr (RelationMessage sub_relation)
      else if d = [1] then Inr (BeginMessage 5)
      else if d = [2] then Inr (InsertMessage 1 [TupleText [1], TupleText [7]])
      else if d = [3] then Inr (CommitMessage 5)
      else if d = [4] then Inr (BeginMessage 9)
      else if d = [5] then Inr (InsertMessage 1 [TupleText [2], TupleText [8]])
      else if d = [6] then Inr (CommitMessage 9)
      else if d = [7] then Inr (TruncateMessage [1]) else Inr OtherMessage)"

definition sub_env :: logrepl_env where
  "sub_env =
     \<lparr>codecs = sub_codecs, delta_db = \<lparr>env_exec = ref_exec, env_hash = (\<lambda>_. 0), env_IsTimestampType = (\<lambda>_. False)\<rparr>, without_index = False,
      ParseV2 = sub_parse, LSN_String = (\<lambda>l. replicate (unat l) CHR ''1''), ParseLSN = (\<lambda>t. Inr (word_of_nat (length t))),
      ConnErr = (\<lambda>s. None), BeginErr = (\<lambda>s. None), CommitErr = (\<lambda>s. None), RollbackErr = (\<lambda>s. None), UpdateErr = (\<lambda>s. None),
      SelectErr = (\<lambda>s. None), ExecSQL = (\<lambda>q d. (None, d)), Connect = (\<lambda>r. None), SendErr = (\<lambda>u. None)\<rparr>"

definition sub_session :: pg_session where
  "sub_session = \<lparr>committed = \<lparr>contents = sub_store, position_row = Some ''11''\<rparr>, txn = None\<rparr>"

definition sub_change :: "byte \<Rightarrow> byte \<Rightarrow> arrow_value change" where
  "sub_change i n = \<lparr>ch_kind = InsertRowEvent, ch_dels = [], ch_inss = [[Val (AInt16 (ucast i)), Val (AInt16 (ucast n))]]\<rparr>"

definition sub_log :: "pg_transaction list" where
  "sub_log = [(5, [(sub_table, pg_stamp 5 0, sub_change 1 7)]), (9, [(sub_table, pg_stamp 9 0, sub_change 2 8)])]"

definition sub_start :: replicator where
  "sub_start = \<lparr>rp_state = reset 0 2 sub_session, rp_dns = ''d'', rp_slot = ''s'', rp_conn = False, rp_errs = 0, rp_deadline = 10000,
     rp_receiving = False, rp_running = True\<rparr>"

lemma sub_starts: "start_replication sub_env 0 ''d'' ''s'' sub_session = Inr sub_start"
  by (simp add: start_replication_def SelectSubscriptionLsn_def sub_env_def sub_session_def view_def ExecCatalog_def exec_text_def
      set_view_def sub_start_def)

lemma sub_reads_back: "reads_back (ParseLSN sub_env) sub_env"
  by (simp add: reads_back_def sub_env_def)

lemma sub_relation_facts [simp]:
  "rel_id sub_relation = 1" "relation_table sub_relation = sub_table" "relation_schema sub_env sub_relation = Inr sub_schema"
  by (simp_all add: sub_relation_def relation_table_def sub_table_def relation_schema_def NewPostgresType_def sub_env_def sub_codecs_def
      demo_codecs_def sub_schema_def sub_type_def PostgresTypeSize_def)

lemma sub_good: "good_logrepl sub_env [1 \<mapsto> sub_relation] {sub_table} (\<lambda>t. sub_schema)"
  by (auto simp: good_logrepl_def split: if_splits) (simp_all add: sub_env_def)

lemma sub_tables: "schemas_ok {sub_table} (\<lambda>t. sub_schema)" "tables_hold False {sub_table} (\<lambda>t. sub_schema) sub_store (\<lambda>t. Map.empty)"
proof -
  have "\<not> isl (newDeltaAppender sub_schema :: arrow_value DeltaAppender res)" by code_simp
  then have "\<exists>a. newDeltaAppender sub_schema = Inr (a :: arrow_value DeltaAppender)" by (metis sum.collapse(2))
  moreover have "schema_ok sub_schema" by code_simp
  ultimately show "schemas_ok {sub_table} (\<lambda>t. sub_schema)" by (simp add: schemas_ok_def)
  show "tables_hold False {sub_table} (\<lambda>t. sub_schema) sub_store (\<lambda>t. Map.empty)"
    by (simp add: tables_hold_def holds_table_def sub_store_def represents_def sub_schema_def col_names_def pk_positions_def)
qed

lemma sub_next:
  "next_event {sub_table} (\<lambda>t. sub_schema) (\<lambda>t. Map.empty) [] (sub_table, pg_stamp 5 0, sub_change 1 7)"
  "next_event {sub_table} (\<lambda>t. sub_schema) (\<lambda>t. Map.empty) [(sub_table, pg_stamp 5 0, sub_change 1 7)] (sub_table, pg_stamp 9 0, sub_change 2 8)"
  by (simp_all add: next_event_def valid_change_def sub_change_def row_ok_def sub_schema_def pkey_def pk_positions_def upt_rec
      apply_events_def apply_event_def apply_change_def stamp_key_def pg_stamp_def opt_text_def)

lemma sub_log_ok: "log_ok {sub_table} (\<lambda>t. sub_schema) (\<lambda>t. Map.empty) 2 sub_log"
proof -
  have "next_event {sub_table} (\<lambda>t. sub_schema) (\<lambda>t. Map.empty) es e" if "pg_history sub_log = es @ e # rest" for es e rest
    using that sub_next by (cases es rule: list.exhaust) (auto simp: sub_log_def pg_history_def Cons_eq_append_conv append_eq_Cons_conv)
  then show ?thesis by (simp add: log_ok_def sub_log_def)
qed

text \<open>
  A replicator that was started on a session without a transaction, whose tables hold \<open>M0\<close> and whose
  subscription is at \<open>l0\<close>.
\<close>

definition pg_start ::
    "logrepl_env \<Rightarrow> tableIdentifier set \<Rightarrow> (tableIdentifier \<Rightarrow> schema) \<Rightarrow> table_maps \<Rightarrow> lsn \<Rightarrow> replicator \<Rightarrow> bool" where
  "pg_start env tabs sch M0 l0 rp0 \<longleftrightarrow>
     sql_faithful (env_exec (delta_db env)) \<and> schemas_ok tabs sch \<and> (\<forall>d. ExecSQL env ''USE public'' d = (None, d)) \<and>
     (\<exists>now dns slot s t. start_replication env now dns slot s = Inr rp0 \<and> txn s = None \<and> position_row (committed s) = Some t \<and>
        ParseLSN env t = Inr l0 \<and> tables_hold (without_index env) tabs sch (contents (committed s)) M0)"

lemma pg_start_ok:
  assumes "pg_start env tabs sch M0 l0 rp0"
  shows "pg_ok env rels tabs sch M0 l0 log (rp_state rp0) 0 0 Between"
proof -
  from assms obtain now dns slot s t where s: "start_replication env now dns slot s = Inr rp0" "txn s = None" "position_row (committed s) = Some t"
    "ParseLSN env t = Inr l0" "tables_hold (without_index env) tabs sch (contents (committed s)) M0"
    by (auto simp: pg_start_def)
  have env: "sql_faithful (env_exec (delta_db env))" "schemas_ok tabs sch" "\<forall>d. ExecSQL env ''USE public'' d = (None, d)"
    using assms by (simp_all add: pg_start_def)
  have "set_view (view s) s = s" using s(2) by (simp add: set_view_def view_def)
  then have "rp_state rp0 = reset now l0 s"
    using s(1-4) env(3)
    by (auto simp: start_replication_def res_simps SelectSubscriptionLsn_def ExecCatalog_def exec_text_def view_def split: option.splits)
  moreover have "replica_holds (delta_db env) (without_index env) tabs sch (contents (committed s)) M0" using env s(5) by (simp add: replica_holds_iff)
  moreover have "replica_buffers tabs sch M0 [] []" using env(2) by (simp add: replica_buffers_def schemas_ok_def)
  ultimately show ?thesis
    using s by (simp add: pg_ok_def pg_core_def reset_def session_clean_def relations_ok_def phase_ok_def NewController_def lsn_at_def)
qed

lemma sub_pg_start: "pg_start sub_env {sub_table} (\<lambda>t. sub_schema) (\<lambda>t. Map.empty) 2 sub_start"
  unfolding pg_start_def
proof (intro conjI exI)
  show "start_replication sub_env 0 ''d'' ''s'' sub_session = Inr sub_start" by (rule sub_starts)
  show "ParseLSN sub_env ''11'' = Inr 2" by (simp add: sub_env_def)
qed (use sub_tables in \<open>simp_all add: sub_env_def sub_session_def sql_faithful_def ref_exec_sound ref_exec_complete\<close>)

subsection \<open>Feeding messages\<close>

lemma feed_message:
  assumes good: "good_logrepl env rels tabs sch" and log: "log_ok tabs sch M0 l0 log" and start: "pg_start env tabs sch M0 l0 rp0"
    and run: "pg_stream env rels sch log rp0 rp k ph" and rp: "rp_running rp" "rp_conn rp" "\<not> rp_receiving rp"
    and msg: "ParseV2 env d False = Inr msg" and sends: "sends env rels sch log (rs_relations (rp_state rp)) (k, ph) msg (k', ph')"
    and send: "\<forall>u. SendErr env u = None"
  shows "\<exists>us rp'. pg_stream env rels sch log rp0 (rp\<lparr>rp_receiving := True\<rparr>) k ph \<and>
    loop_step env 0 (Receive (RcvXLogData (Inr (w, d)))) (rp\<lparr>rp_receiving := True\<rparr>) = (None, us, rp') \<and> pg_stream env rels sch log rp0 rp' k' ph' \<and>
    rp_running rp' \<and> rp_conn rp' \<and> \<not> rp_receiving rp' \<and> rp_state rp' = snd (processMessage env 0 w d (rp_state rp))"
proof -
  let ?rp1 = "rp\<lparr>rp_receiving := True\<rparr>"
  have 1: "loop_step env 0 StartRound rp = (None, [], ?rp1)"
    using rp by (simp add: loop_step_def start_round_def ensure_connection_def)
  have env: "env\<lparr>Connect := Connect env, SendErr := SendErr env\<rparr> = env" by simp
  have run1: "pg_stream env rels sch log rp0 ?rp1 k ph"
    using pg_stream.round [OF run, where conn = "Connect env" and send = "SendErr env", unfolded env, OF 1 refl] rp by simp
  from pg_stream_ok [OF good log pg_start_ok [OF start] run] obtain m where
    ok: "pg_ok env rels tabs sch M0 l0 log (rp_state ?rp1) m k ph" by auto
  have sends1: "sends env rels sch log (rs_relations (rp_state ?rp1)) (k, ph) msg (k', ph')" using sends by simp
  obtain e us rp' where 2: "loop_step env 0 (Receive (RcvXLogData (Inr (w, d)))) ?rp1 = (e, us, rp')" by (metis prod_cases3)
  have e: "e = None" "rp_running rp'" "rp_conn rp'"
    using message_step_pg(2) [OF good log ok _ _ msg sends1 2 send] rp by simp_all
  have run2: "pg_stream env rels sch log rp0 rp' k' ph'"
    using pg_stream.message [OF run1 _ _ msg sends1, where conn = "Connect env" and send = "SendErr env", unfolded env, OF _ _ 2] rp by simp
  obtain b st' m' where p: "processMessage env 0 w d (rp_state rp) = ((None, b), st')"
    using message_pg [OF good log ok [simplified] msg sends] by blast
  have "\<not> rp_receiving rp' \<and> rp_state rp' = st'"
    using 2 p send rp by (auto simp: loop_step_def receive_def sendStandbyStatusUpdate_def split: if_splits)
  then show ?thesis using run1 run2 e 2 p rp by (intro exI [of _ us] exI [of _ rp']) simp
qed

definition feed :: "logrepl_env \<Rightarrow> bytes \<Rightarrow> replicator \<Rightarrow> replicator" where
  "feed env d rp = snd (snd (loop_step env 0 (Receive (RcvXLogData (Inr (0, d)))) (snd (snd (loop_step env 0 StartRound rp)))))"

lemma feed_stream:
  assumes "good_logrepl env rels tabs sch" "log_ok tabs sch M0 l0 log" "pg_start env tabs sch M0 l0 rp0"
    and "pg_stream env rels sch log rp0 rp k ph" and rp: "rp_running rp" "rp_conn rp" "\<not> rp_receiving rp"
    and "ParseV2 env d False = Inr msg" "sends env rels sch log (rs_relations (rp_state rp)) (k, ph) msg (k', ph')"
    and "\<forall>u. SendErr env u = None"
  shows "pg_stream env rels sch log rp0 (feed env d rp) k' ph'" "rp_running (feed env d rp)" "rp_conn (feed env d rp)"
    "\<not> rp_receiving (feed env d rp)" "rp_state (feed env d rp) = snd (processMessage env 0 0 d (rp_state rp))"
proof -
  have 1: "snd (snd (loop_step env 0 StartRound rp)) = rp\<lparr>rp_receiving := True\<rparr>"
    using rp by (simp add: loop_step_def start_round_def ensure_connection_def)
  obtain us rp' where "loop_step env 0 (Receive (RcvXLogData (Inr (0, d)))) (rp\<lparr>rp_receiving := True\<rparr>) = (None, us, rp')"
    "pg_stream env rels sch log rp0 rp' k' ph'" "rp_running rp'" "rp_conn rp'" "\<not> rp_receiving rp'"
    "rp_state rp' = snd (processMessage env 0 0 d (rp_state rp))"
    using feed_message [OF assms, of 0] by blast
  then show "pg_stream env rels sch log rp0 (feed env d rp) k' ph'" "rp_running (feed env d rp)" "rp_conn (feed env d rp)"
    "\<not> rp_receiving (feed env d rp)" "rp_state (feed env d rp) = snd (processMessage env 0 0 d (rp_state rp))"
    by (simp_all add: feed_def 1)
qed

text \<open>The states of the example: connected, and after each message of the first transaction.\<close>

definition sub_connected :: replicator where
  "sub_connected = sub_start\<lparr>rp_conn := True\<rparr>"

abbreviation sub_stream :: "replicator \<Rightarrow> nat \<Rightarrow> pg_phase \<Rightarrow> bool" where
  "sub_stream \<equiv> pg_stream sub_env [1 \<mapsto> sub_relation] (\<lambda>t. sub_schema) sub_log sub_start"

lemma sub_connects: "loop_step sub_env 0 StartRound sub_start = (None, [], sub_connected\<lparr>rp_receiving := True\<rparr>)"
  by (simp add: loop_step_def start_round_def ensure_connection_def sub_start_def beginReplication_def sub_env_def rollback_def reset_def
      sub_session_def CloseTxn_def sub_connected_def)

lemma sub_connected_run: "sub_stream sub_connected 0 Between"
proof -
  have env: "sub_env\<lparr>Connect := Connect sub_env, SendErr := SendErr sub_env\<rparr> = sub_env" by simp
  have "rs_lastWrittenLSN (rp_state sub_start) = 2" by (simp add: sub_start_def reset_def)
  then have "sub_stream (sub_connected\<lparr>rp_receiving := True\<rparr>) 0 Between"
    using pg_stream.round [OF pg_stream.start, where conn = "Connect sub_env" and send = "SendErr sub_env" and env = sub_env, unfolded env,
        OF sub_connects refl, where rels = "[1 \<mapsto> sub_relation]" and sch = "\<lambda>t. sub_schema" and log = sub_log]
    by (simp add: sub_start_def sub_connected_def sub_log_def)
  moreover have "loop_step sub_env 0 (Receive RcvDeadline) (sub_connected\<lparr>rp_receiving := True\<rparr>) = (None, [], sub_connected)"
    by (simp add: loop_step_def receive_def sub_connected_def sub_start_def)
  ultimately show ?thesis
    using pg_stream.quiet [where inp = RcvDeadline and conn = "Connect sub_env" and send = "SendErr sub_env" and env = sub_env, unfolded env] by blast
qed

lemma sub_wire: "ParseV2 sub_env d False = sub_parse d False" "\<forall>u. SendErr sub_env u = None"
  by (simp_all add: sub_env_def)

text \<open>The run of the example in which the messages \<open>ds\<close> have come, all at the time 0.\<close>

definition sub_st :: "bytes list \<Rightarrow> replicationState" where
  "sub_st ds = fold (\<lambda>d st. snd (processMessage sub_env 0 0 d st)) ds (reset 0 2 sub_session)"

definition sub_rp :: "bytes list \<Rightarrow> replicator" where
  "sub_rp ds = fold (feed sub_env) ds sub_connected"

definition sub_at :: "bytes list \<Rightarrow> nat \<Rightarrow> pg_phase \<Rightarrow> bool" where
  "sub_at ds k ph \<longleftrightarrow> sub_stream (sub_rp ds) k ph \<and> rp_running (sub_rp ds) \<and> rp_conn (sub_rp ds) \<and> \<not> rp_receiving (sub_rp ds) \<and>
     rp_state (sub_rp ds) = sub_st ds"

lemma sub_at_start: "sub_at [] 0 Between"
  using sub_connected_run by (simp add: sub_at_def sub_rp_def sub_st_def sub_connected_def sub_start_def)

lemma sub_at_feed:
  assumes "sub_at ds k ph" "sub_parse d False = Inr msg"
    and "sends sub_env [1 \<mapsto> sub_relation] (\<lambda>t. sub_schema) sub_log (rs_relations (sub_st ds)) (k, ph) msg (k', ph')"
  shows "sub_at (ds @ [d]) k' ph'"
proof -
  have "sub_rp (ds @ [d]) = feed sub_env d (sub_rp ds)" by (simp add: sub_rp_def)
  moreover have "sub_st (ds @ [d]) = snd (processMessage sub_env 0 0 d (sub_st ds))" by (simp add: sub_st_def)
  ultimately show ?thesis
    using assms feed_stream [OF sub_good sub_log_ok sub_pg_start, of "sub_rp ds" k ph d msg k' ph'] by (simp add: sub_at_def sub_wire)
qed

lemma sub_sends_row:
  assumes "known 1 = Some sub_relation" "k < length sub_log" "snd (sub_log ! k) = [(sub_table, pg_stamp (fst (sub_log ! k)) 0, sub_change i n)]"
  shows "sends sub_env [1 \<mapsto> sub_relation] (\<lambda>t. sub_schema) sub_log known (k, Within []) (InsertMessage 1 [TupleText [i], TupleText [n]])
    (k, Within (snd (sub_log ! k)))"
proof -
  let ?msg = "InsertMessage 1 [TupleText [i], TupleText [n]]"
  have "relation_change sub_env sub_schema sub_relation ?msg = Some (sub_change i n)"
    by (simp add: relation_change_def tuple_row_def sub_relation_def sub_schema_def sub_type_def ToArrowType_def toArrowType_def
        PostgresTypeToArrowType_def tuple_datum_def decodeToArrow_def tupleDataFormat_def decode_scalar_def scan_into_def sub_env_def sub_codecs_def
        demo_codecs_def byte_at_def sub_change_def)
  from sends.row [where known = known and sch = "\<lambda>t. sub_schema" and t = sub_table and es = "[]" and rest = "[]" and msg = ?msg and i = 1,
      OF _ assms(1) sub_relation_facts(2) this assms(2)] assms(3)
  show ?thesis by (simp add: message_relation_def)
qed

lemma sub_relations: "rs_relations (sub_st [[1]]) 1 = None" "rs_relations (sub_st [[1], [0]]) 1 = Some sub_relation"
  "rs_relations (sub_st [[1], [0], [2], [3], [4]]) 1 = Some sub_relation"
  by code_simp+

lemma sub_log_simps [simp]: "length sub_log = 2" "sub_log ! 0 = (5, [(sub_table, pg_stamp 5 0, sub_change 1 7)])"
  "sub_log ! 1 = (9, [(sub_table, pg_stamp 9 0, sub_change 2 8)])" "sub_log ! Suc 0 = (9, [(sub_table, pg_stamp 9 0, sub_change 2 8)])"
  by (simp_all add: sub_log_def)

lemma sub_at_begun: "sub_at [[1]] 0 (Within [])"
  using sub_at_feed [OF sub_at_start, of "[1]" "BeginMessage 5"]
    sends.begin_txn [of 0 sub_log sub_env "[1 \<mapsto> sub_relation]" "\<lambda>t. sub_schema" "rs_relations (sub_st [])"] by (simp add: sub_parse_def)

lemma sub_at_related: "sub_at [[1], [0]] 0 (Within [])"
  using sub_at_feed [OF sub_at_begun, of "[0]" "RelationMessage sub_relation"]
    sends.relation [of "[1 \<mapsto> sub_relation]" 1 sub_relation "rs_relations (sub_st [[1]])" sub_env "\<lambda>t. sub_schema" sub_log 0 "Within []"]
  by (simp add: sub_parse_def sub_relations)

lemma sub_at_inserted: "sub_at [[1], [0], [2]] 0 (Within (snd (sub_log ! 0)))"
  using sub_at_feed [OF sub_at_related, of "[2]"] sub_sends_row [of "rs_relations (sub_st [[1], [0]])" 0 1 7, OF sub_relations(2)] by (simp add: sub_parse_def)

lemma sub_at_committed: "sub_at [[1], [0], [2], [3]] 1 Between"
  using sub_at_feed [OF sub_at_inserted, of "[3]" "CommitMessage 5"]
    sends.commit_txn [of 0 sub_log "snd (sub_log ! 0)" sub_env "[1 \<mapsto> sub_relation]" "\<lambda>t. sub_schema" "rs_relations (sub_st [[1], [0], [2]])"]
  by (simp add: sub_parse_def)

lemma sub_at_begun2: "sub_at [[1], [0], [2], [3], [4]] 1 (Within [])"
  using sub_at_feed [OF sub_at_committed, of "[4]" "BeginMessage 9"]
    sends.begin_txn [of 1 sub_log sub_env "[1 \<mapsto> sub_relation]" "\<lambda>t. sub_schema" "rs_relations (sub_st [[1], [0], [2], [3]])"] by (simp add: sub_parse_def)

lemma sub_at_committed2: "sub_at [[1], [0], [2], [3], [4], [5], [6]] 2 Between"
proof -
  have "sub_at [[1], [0], [2], [3], [4], [5]] 1 (Within (snd (sub_log ! 1)))"
    using sub_at_feed [OF sub_at_begun2, of "[5]"] sub_sends_row [of "rs_relations (sub_st [[1], [0], [2], [3], [4]])" 1 2 8, OF sub_relations(3)] by (simp add: sub_parse_def)
  from sub_at_feed [OF this, of "[6]" "CommitMessage 9"]
    sends.commit_txn [of 1 sub_log "snd (sub_log ! 1)" sub_env "[1 \<mapsto> sub_relation]" "\<lambda>t. sub_schema" "rs_relations (sub_st [[1], [0], [2], [3], [4], [5]])"]
  have "sub_at [[1], [0], [2], [3], [4], [5], [6]] (Suc 1) Between" by (simp add: sub_parse_def)
  then show ?thesis by (simp only: Suc_1)
qed

lemma sub_receiving: "sub_at ds k ph \<Longrightarrow> sub_stream ((sub_rp ds)\<lparr>rp_receiving := True\<rparr>) k ph"
proof -
  assume at: "sub_at ds k ph"
  have env: "sub_env\<lparr>Connect := Connect sub_env, SendErr := SendErr sub_env\<rparr> = sub_env" by simp
  have "loop_step sub_env 0 StartRound (sub_rp ds) = (None, [], (sub_rp ds)\<lparr>rp_receiving := True\<rparr>)"
    using at by (simp add: sub_at_def loop_step_def start_round_def ensure_connection_def)
  from pg_stream.round [where rp = "sub_rp ds" and conn = "Connect sub_env" and send = "SendErr sub_env" and env = sub_env, unfolded env, OF _ this refl] at
  show ?thesis by (simp add: sub_at_def)
qed

section \<open>Properties\<close>

text \<open>
  (C4) Whatever the source sends and whichever call fails, the committed row of the subscription is the
  position the replicator continues from, and every status it sends to the primary reports as
  flushed and applied exactly that position plus one: the primary never discards what a restart
  would still need.
\<close>

theorem reported_position_is_saved:
  assumes "replicator_reaches parse rp" "reads_back parse env" "loop_step env now inp rp = (e, us, rp')"
  shows "\<exists>t l. position_row (committed (rs_sess (rp_state rp'))) = Some t \<and> parse t = Inr l \<and> rs_lastWrittenLSN (rp_state rp') = l \<and>
    (\<forall>u\<in>set us. WALFlushPosition u = l + 1 \<and> WALApplyPosition u = l + 1)"
  using loop_step_reports [OF assms(2) replicator_reaches_saved [OF assms(1)] assms(3)]
  by (simp add: reports_def saved_def)

theorem reported_position_is_saved_witness:
  "let rp = sub_connected\<lparr>rp_receiving := True\<rparr>; (e, us, rp') = loop_step sub_env 0 (Receive (RcvKeepalive (Inr (9, True)))) rp in
     us \<noteq> [] \<and> (\<exists>t l. position_row (committed (rs_sess (rp_state rp'))) = Some t \<and> ParseLSN sub_env t = Inr l \<and>
       rs_lastWrittenLSN (rp_state rp') = l \<and> (\<forall>u\<in>set us. WALFlushPosition u = l + 1 \<and> WALApplyPosition u = l + 1))"
proof -
  let ?rp = "sub_connected\<lparr>rp_receiving := True\<rparr>"
  have "replicator_reaches (ParseLSN sub_env) sub_start"
    by (rule replicator_reaches.start [OF sub_reads_back _ _ sub_starts]) (simp_all add: sub_session_def)
  from replicator_reaches.step [OF this sub_reads_back sub_connects] have r: "replicator_reaches (ParseLSN sub_env) ?rp" .
  obtain e us rp' where l: "loop_step sub_env 0 (Receive (RcvKeepalive (Inr (9, True)))) ?rp = (e, us, rp')" by (metis prod_cases3)
  moreover from this have "us \<noteq> []"
    by (auto simp: loop_step_def receive_def sub_connected_def sub_start_def sendStandbyStatusUpdate_def sub_env_def Let_def)
  ultimately show ?thesis using reported_position_is_saved [OF r sub_reads_back l] by (simp add: Let_def)
qed

text \<open>
  (C3) At every moment of a run against a log, with ticks, lost connections, reconnections and stops in
  between, the committed tables are those of a prefix of the log, and the saved position of the
  subscription is exactly that prefix: no transaction is lost, applied twice or applied in part.
\<close>

theorem pg_replication_exactly_once:
  assumes "good_logrepl env rels tabs sch" "log_ok tabs sch M0 l0 log" "pg_start env tabs sch M0 l0 rp0"
    and "pg_stream env rels sch log rp0 rp k ph"
  shows "\<exists>m\<le>length log. \<exists>t. position_row (committed (rs_sess (rp_state rp))) = Some t \<and> ParseLSN env t = Inr (lsn_at l0 log m) \<and>
    tables_hold (without_index env) tabs sch (contents (committed (rs_sess (rp_state rp)))) (apply_events sch M0 (pg_history (take m log)))"
proof -
  from pg_stream_ok [OF assms(1,2) pg_start_ok [OF assms(3)] assms(4)] obtain m where
    "pg_ok env rels tabs sch M0 l0 log (rp_state rp) m k ph" by blast
  then show ?thesis by (intro exI [of _ m]) (auto simp: pg_ok_def pg_core_def replica_holds_iff)
qed

theorem pg_replication_exactly_once_witness:
  "let rp = sub_rp [[1], [0], [2], [3]] in sub_stream rp 1 Between \<and>
   (\<exists>m\<le>length sub_log. \<exists>t. position_row (committed (rs_sess (rp_state rp))) = Some t \<and> ParseLSN sub_env t = Inr (lsn_at 2 sub_log m) \<and>
      tables_hold (without_index sub_env) {sub_table} (\<lambda>t. sub_schema) (contents (committed (rs_sess (rp_state rp))))
        (apply_events (\<lambda>t. sub_schema) (\<lambda>t. Map.empty) (pg_history (take m sub_log))))"
proof -
  have run: "sub_stream (sub_rp [[1], [0], [2], [3]]) 1 Between" using sub_at_committed by (simp add: sub_at_def)
  from pg_replication_exactly_once [OF sub_good sub_log_ok sub_pg_start run] run show ?thesis unfolding Let_def by blast
qed

text \<open>
  (C18) No message of the source is refused: on a connection that works, the next message of the log is
  processed without an error, the connection is kept and no failure is counted.
\<close>

theorem pg_messages_accepted:
  assumes "good_logrepl env rels tabs sch" "log_ok tabs sch M0 l0 log" "pg_start env tabs sch M0 l0 rp0"
    and "pg_stream env rels sch log rp0 rp k ph" "rp_running rp" "rp_receiving rp" "\<forall>u. SendErr env u = None"
    and "ParseV2 env d False = Inr msg" "sends env rels sch log (rs_relations (rp_state rp)) (k, ph) msg (k', ph')"
    and "loop_step env now (Receive (RcvXLogData (Inr (w, d)))) rp = (e, us, rp')"
  shows "e = None \<and> rp_errs rp' = rp_errs rp \<and> rp_conn rp' = rp_conn rp \<and> rp_running rp'"
proof -
  from pg_stream_ok [OF assms(1,2) pg_start_ok [OF assms(3)] assms(4)] obtain m where
    "pg_ok env rels tabs sch M0 l0 log (rp_state rp) m k ph" by blast
  from message_step_pg(2) [OF assms(1,2) this assms(5,6,8,9,10,7)] show ?thesis .
qed

theorem pg_messages_accepted_witness:
  "let rp = (sub_rp [[1], [0], [2]])\<lparr>rp_receiving := True\<rparr>; (e, us, rp') = loop_step sub_env 0 (Receive (RcvXLogData (Inr (0, [3])))) rp in
     e = None \<and> rp_errs rp' = rp_errs rp \<and> rp_conn rp' = rp_conn rp \<and> rp_running rp'"
proof -
  let ?rp = "(sub_rp [[1], [0], [2]])\<lparr>rp_receiving := True\<rparr>"
  have parse: "ParseV2 sub_env [3] False = Inr (CommitMessage (fst (sub_log ! 0)))" by (simp add: sub_wire sub_parse_def)
  note s = sends.commit_txn [of 0 sub_log "snd (sub_log ! 0)" sub_env "[1 \<mapsto> sub_relation]" "\<lambda>t. sub_schema" "rs_relations (rp_state ?rp)", OF _ refl]
  obtain e us rp' where l: "loop_step sub_env 0 (Receive (RcvXLogData (Inr (0, [3])))) ?rp = (e, us, rp')" by (metis prod_cases3)
  have "rp_running ?rp" "rp_receiving ?rp" using sub_at_inserted by (simp_all add: sub_at_def)
  from pg_messages_accepted [OF sub_good sub_log_ok sub_pg_start sub_receiving [OF sub_at_inserted] this sub_wire(2) parse s l] l
  show ?thesis by simp
qed


lemma sub_open: "let st = sub_st [[1], [0], [2], [3], [4], [5], [6]] in
    rs_dirtyTxn st \<and> (case txn (rs_sess st) of None \<Rightarrow> False | Some _ \<Rightarrow> True) \<and> rs_lastCommitTime st = 0"
  by code_simp


subsection \<open>Ticks after a begin message\<close>

fun run_loop :: "logrepl_env \<Rightarrow> (nat \<times> loop_input) list \<Rightarrow> replicator \<Rightarrow> replicator" where
  "run_loop env [] rp = rp"
| "run_loop env ((now, inp) # ins) rp = run_loop env ins (snd (snd (loop_step env now inp rp)))"

text \<open>Inputs other than begin, relation and truncate messages.\<close>

definition opens_nothing :: "logrepl_env \<Rightarrow> loop_input \<Rightarrow> bool" where
  "opens_nothing env inp \<longleftrightarrow>
     (\<forall>w d b msg. inp = Receive (RcvXLogData (Inr (w, d))) \<longrightarrow> ParseV2 env d b = Inr msg \<longrightarrow>
        (case msg of BeginMessage l \<Rightarrow> False | RelationMessage rel \<Rightarrow> False | TruncateMessage ids \<Rightarrow> False | _ \<Rightarrow> True))"

definition idle :: "(arrow_value store, string) database \<Rightarrow> replicationState \<Rightarrow> bool" where
  "idle d st \<longleftrightarrow> txn (rs_sess st) = None \<and> \<not> rs_ongoingBatchTxn st \<and> committed (rs_sess st) = d"

lemma append_pg_frame:
  "append_pg env i tuple act ev ok st = (e, st') \<Longrightarrow> rs_sess st' = rs_sess st \<and> rs_ongoingBatchTxn st' = rs_ongoingBatchTxn st"
  by (auto simp: append_pg_def Let_def split: option.splits sum.splits prod.splits if_splits)

lemma row_update_frame:
  "row_update msg env st = (e, st') \<Longrightarrow> rs_sess st' = rs_sess st \<and> rs_ongoingBatchTxn st' = rs_ongoingBatchTxn st"
  by (cases msg) (auto simp: row_update_def processUpdate_def processDelete_def dest!: append_pg_frame
      split: prod.splits option.splits old_tuple.splits)

lemma commit_pg_idle: "txn (rs_sess st) = None \<Longrightarrow> snd (commitOngoingTxn_pg env now reason st) = st"
  by (simp add: commitOngoingTxn_pg_def split: option.splits)

lemma commitIfClean_idle: "txn (rs_sess st) = None \<Longrightarrow> snd (commitOngoingTxnIfClean env now reason st) = st"
  by (simp add: commitOngoingTxnIfClean_def commit_pg_idle)

lemma mark_dirty_frame:
  "rs_sess (snd (mark_dirty r)) = rs_sess (snd r) \<and> rs_ongoingBatchTxn (snd (mark_dirty r)) = rs_ongoingBatchTxn (snd r)"
  by (simp add: mark_dirty_def split: prod.splits option.splits)

lemma processCommit_idle:
  assumes "txn (rs_sess st) = None" "\<not> rs_ongoingBatchTxn st"
  shows "rs_sess (snd (processCommit env now l st)) = rs_sess st \<and> \<not> rs_ongoingBatchTxn (snd (processCommit env now l st))"
  using assms commit_pg_idle [of "st\<lparr>rs_lastCommitLSN := l, rs_commitCount := rs_commitCount st + 1\<rparr>" env now UnknownFlushReason]
  by (auto simp: processCommit_def Let_def mayExtendBatchTxn_pg_def split: prod.splits option.splits)

lemma processMessage_idle:
  assumes "idle d st" "opens_nothing env (Receive (RcvXLogData (Inr (w, x))))"
  shows "idle d (snd (processMessage env now w x st))"
proof (cases "ParseV2 env x (rs_inStream st)")
  case (Inl e)
  then show ?thesis using assms(1) by (simp add: processMessage_def)
next
  case (Inr msg)
  define st1 where "st1 = (if w > rs_lastReceivedLSN st then st\<lparr>rs_lastReceivedLSN := w\<rparr> else st)"
  have 1: "txn (rs_sess st1) = None" "\<not> rs_ongoingBatchTxn st1" "committed (rs_sess st1) = d" using assms(1) by (simp_all add: st1_def idle_def)
  have row: "rs_sess (snd (row_update msg env st1)) = rs_sess st1" "rs_ongoingBatchTxn (snd (row_update msg env st1)) = rs_ongoingBatchTxn st1"
    using row_update_frame [of msg env st1] by (metis surjective_pairing)+
  have "case msg of BeginMessage l \<Rightarrow> False | RelationMessage rel \<Rightarrow> False | TruncateMessage ids \<Rightarrow> False | _ \<Rightarrow> True"
    using assms(2) Inr unfolding opens_nothing_def by blast
  then show ?thesis
    using Inr 1 row mark_dirty_frame processCommit_idle [OF 1(1,2), of env now]
    by (cases msg) (auto simp: processMessage_def Let_def st1_def [symmetric] idle_def row_update_def case_prod_beta)
qed

lemma shutdown_idle: "idle d (rp_state rp) \<Longrightarrow> idle d (rp_state (shutdown env now rp))"
  by (auto simp: idle_def shutdown_def commitIfClean_idle rollback_def CloseTxn_def split: option.splits)

lemma start_round_idle:
  assumes "idle d (rp_state rp)" "start_round env now rp = (e, us, rp')"
  shows "idle d (rp_state rp')"
proof -
  obtain e1 rp1 where c: "ensure_connection env now rp = (e1, rp1)" by (metis surj_pair)
  then have "idle d (rp_state rp1)"
    using assms(1) by (auto simp: ensure_connection_def idle_def rollback_def reset_def CloseTxn_def split: if_splits option.splits
        dest: handleErrWithRetry_stateD)
  then show ?thesis
    using assms(2) by (auto simp: start_round_def c split: if_splits option.splits prod.splits dest: sendStandbyStatusUpdate_stateD)
qed

lemma receive_idle:
  assumes idle: "idle d (rp_state rp)" and "opens_nothing env (Receive inp)" and r: "receive env now inp rp = (e, us, rp')"
  shows "idle d (rp_state rp')"
proof (cases inp)
  case RcvTick
  have "rp_state rp' = rp_state rp"
    using r idle commitIfClean_idle [of "rp_state rp" env now TimeTickFlushReason]
    by (auto simp: receive_def RcvTick idle_def split: if_splits prod.splits option.splits dest: sendStandbyStatusUpdate_stateD)
  then show ?thesis using idle by simp
next
  case (RcvKeepalive x)
  then show ?thesis
    using r idle by (auto simp: receive_def Let_def idle_def split: if_splits sum.splits dest!: sendStandbyStatusUpdate_stateD)
next
  case (RcvXLogData x)
  show ?thesis
  proof (cases x)
    case (Inr wd)
    obtain w y where wd: "wd = (w, y)" by (cases wd)
    obtain e1 c1 st1 where p: "processMessage env now w y (rp_state rp) = ((e1, c1), st1)" by (metis surj_pair)
    then have "idle d st1" using processMessage_idle [OF idle, of env w y now] assms(2) by (simp add: RcvXLogData Inr wd)
    moreover have "rp_state rp' = st1"
      using r p by (auto simp: receive_def RcvXLogData Inr wd split: option.splits go_error.splits if_splits prod.splits
          dest!: handleErrWithRetry_stateD sendStandbyStatusUpdate_stateD)
    ultimately show ?thesis by simp
  qed (use r idle in \<open>auto simp: receive_def RcvXLogData\<close>)
next
  case (RcvError x t b)
  then show ?thesis using r idle by (auto simp: receive_def split: if_splits prod.splits dest!: handleErrWithRetry_stateD)
qed (use r idle in \<open>auto simp: receive_def\<close>)

lemma loop_step_idle:
  assumes idle: "idle d (rp_state rp)" and "opens_nothing env inp" and l: "loop_step env now inp rp = (e, us, rp')"
  shows "idle d (rp_state rp')"
proof (cases inp)
  case StartRound
  obtain e1 us1 rp1 where 1: "start_round env now rp = (e1, us1, rp1)" by (metis prod_cases3)
  from start_round_idle [OF idle 1] shutdown_idle idle l show ?thesis
    by (auto simp: loop_step_def StartRound 1 split: if_splits option.splits)
next
  case (Receive msg)
  show ?thesis using l unfolding Receive
  proof (cases rule: receive_step)
    case (2 rp1 e1)
    have "idle d (rp_state rp1)" using receive_idle [OF _ _ 2(3)] idle assms(2) by (simp add: Receive)
    then show ?thesis using 2(4) shutdown_idle by auto
  qed (use idle in simp)
next
  case StopRequest
  then show ?thesis using l idle shutdown_idle by (auto simp: loop_step_def split: if_splits)
qed

lemma run_loop_idle:
  "idle d (rp_state rp) \<Longrightarrow> \<forall>x\<in>set ins. opens_nothing env (snd x) \<Longrightarrow> idle d (rp_state (run_loop env ins rp))"
proof (induction env ins rp rule: run_loop.induct)
  case (2 env now inp ins rp)
  have "idle d (rp_state (snd (snd (loop_step env now inp rp))))"
    using loop_step_idle [OF 2(2), of env inp now] 2(3) by (metis prod.collapse list.set_intros(1) snd_conv)
  with 2 show ?case by simp
qed simp

lemma commit_closes:
  "commitOngoingTxn_pg env now reason st = (None, st') \<Longrightarrow> txn (rs_sess st) \<noteq> None \<Longrightarrow> idle (committed (rs_sess st')) st'"
  by (auto simp: commitOngoingTxn_pg_def CloseTxn_def idle_def split: option.splits prod.splits)


definition sub_stalled :: replicator where
  "sub_stalled = \<lparr>rp_state = sub_st [[1], [0], [2], [3], [4], [5], [6], [4]], rp_dns = [], rp_slot = [], rp_conn = True, rp_errs = 0, rp_deadline = 0,
     rp_receiving = True, rp_running = True\<rparr>"

lemma sub_stalled_facts:
  "let st = sub_st [[1], [0], [2], [3], [4], [5], [6], [4]] in rs_dirtyTxn st \<and> \<not> rs_dirtyStream st \<and>
     (case txn (rs_sess st) of None \<Rightarrow> False | Some _ \<Rightarrow> True) \<and> rs_lastCommitTime st = 0"
  "fst (commitOngoingTxnIfClean sub_env 201 TimeTickFlushReason (sub_st [[1], [0], [2], [3], [4], [5], [6], [4]])) = None"
  by code_simp+


subsection \<open>Retries\<close>

lemma handleErrWithRetry_count:
  assumes "handleErrWithRetry (Some x) inc rp = (e, rp')" "rp_errs rp < 10"
  shows "rp_errs rp \<le> rp_errs rp' \<and> rp_errs rp' \<le> 10 \<and> (e = None \<longrightarrow> rp_errs rp' < 10)"
  using assms by (auto simp: handleErrWithRetry_def Let_def maxConsecutiveFailures_def split: if_splits)

lemma sendStandbyStatusUpdate_count:
  "sendStandbyStatusUpdate env now rp = (e, us, rp') \<Longrightarrow> rp_errs rp < 10 \<Longrightarrow> rp_errs rp' = rp_errs rp"
  by (auto simp: sendStandbyStatusUpdate_def handleErrWithRetry_def Let_def split: option.splits if_splits)

lemma start_round_count:
  assumes "start_round env now rp = (e, us, rp')" "rp_errs rp < 10"
  shows "rp_errs rp \<le> rp_errs rp' \<and> rp_errs rp' \<le> 10 \<and> (e = None \<longrightarrow> rp_errs rp' < 10)"
proof -
  obtain e1 rp1 where c: "ensure_connection env now rp = (e1, rp1)" by (metis surj_pair)
  then have "rp_errs rp \<le> rp_errs rp1 \<and> rp_errs rp1 \<le> 10 \<and> (e1 = None \<longrightarrow> rp_errs rp1 < 10)"
    using assms(2) by (auto simp: ensure_connection_def split: if_splits option.splits prod.splits dest: handleErrWithRetry_count)
  then show ?thesis
    using assms(1) by (auto simp: start_round_def c split: if_splits option.splits prod.splits dest: sendStandbyStatusUpdate_count)
qed

lemma receive_count:
  assumes r: "receive env now inp rp = (e, us, rp')" and n: "rp_errs rp < 10"
  shows "rp_errs rp \<le> rp_errs rp' \<and> rp_errs rp' \<le> 10 \<and> (e = None \<longrightarrow> rp_errs rp' < 10)"
proof -
  have send: "rp_errs rp' = rp_errs rp" if "sendStandbyStatusUpdate env now (rp\<lparr>rp_state := st\<rparr>) = (e, us, rp')" for st
    using sendStandbyStatusUpdate_count [OF that] n by simp
  have err: "rp_errs rp \<le> rp_errs rp' \<and> rp_errs rp' \<le> 10 \<and> (e = None \<longrightarrow> rp_errs rp' < 10)"
    if "handleErrWithRetry (Some x) True (rp\<lparr>rp_state := st\<rparr>) = (e, rp')" for x st
    using handleErrWithRetry_count [OF that] n by simp
  have err': "rp_errs rp \<le> rp_errs rp' \<and> rp_errs rp' \<le> 10 \<and> (e = None \<longrightarrow> rp_errs rp' < 10)"
    if "handleErrWithRetry (Some x) True rp = (e, rp')" for x
    using handleErrWithRetry_count [OF that] n by simp
  show ?thesis
  proof (cases inp)
    case (RcvXLogData x)
    show ?thesis
    proof (cases x)
      case (Inr wd)
      obtain w y where wd: "wd = (w, y)" by (cases wd)
      obtain e1 c1 st1 where "processMessage env now w y (rp_state rp) = ((e1, c1), st1)" by (metis surj_pair)
      then show ?thesis
        using r n send [of st1] err [of _ st1]
        by (auto simp: receive_def RcvXLogData Inr wd split: option.splits go_error.splits if_splits prod.splits)
    qed (use r n in \<open>auto simp: receive_def RcvXLogData\<close>)
  qed (use r n send err' in \<open>auto simp: receive_def Let_def split: if_splits prod.splits option.splits sum.splits\<close>)
qed

lemma loop_step_count:
  assumes l: "loop_step env now inp rp = (e, us, rp')" and n: "rp_errs rp \<le> 10" "rp_errs rp = 10 \<longrightarrow> \<not> rp_running rp"
  shows "rp_errs rp \<le> rp_errs rp' \<and> rp_errs rp' \<le> 10 \<and> (rp_errs rp' = 10 \<longrightarrow> \<not> rp_running rp')"
proof (cases "rp_running rp")
  case True
  then have less: "rp_errs rp < 10" using n by simp
  have shut: "rp_errs (shutdown env now rp1) = rp_errs rp1" "\<not> rp_running (shutdown env now rp1)" for rp1 by (simp_all add: shutdown_def)
  show ?thesis
  proof (cases inp)
    case StartRound
    obtain e1 us1 rp1 where 1: "start_round env now rp = (e1, us1, rp1)" by (metis prod_cases3)
    from start_round_count [OF 1 less] l less shut show ?thesis by (auto simp: loop_step_def StartRound 1 split: if_splits option.splits)
  next
    case (Receive msg)
    show ?thesis using l unfolding Receive
    proof (cases rule: receive_step)
      case (2 rp1 e1)
      have "rp_errs (rp\<lparr>rp_receiving := False\<rparr>) < 10" using less by simp
      from receive_count [OF 2(3) this] shut [of rp1] 2(4) show ?thesis by auto
    qed (use less in simp)
  next
    case StopRequest
    then show ?thesis using l less shut by (auto simp: loop_step_def split: if_splits)
  qed
next
  case False
  then show ?thesis using l n by (simp add: loop_step_def)
qed

lemma replicator_reaches_count: "replicator_reaches parse rp \<Longrightarrow> rp_errs rp \<le> 10 \<and> (rp_errs rp = 10 \<longrightarrow> \<not> rp_running rp)"
proof (induction rule: replicator_reaches.induct)
  case (start env s now dns slot rp)
  then show ?case by (cases "ExecCatalog env ''USE public'' s") (auto simp: start_replication_def res_simps split: option.splits)
next
  case (step rp env now inp e us rp')
  then show ?case using loop_step_count by blast
qed



subsection \<open>Truncate messages\<close>

lemma flush_tables_no_transaction:
  "reason \<noteq> DDLStmtFlushReason \<Longrightarrow> flush_tables env wi False reason c st db = (e, db', st', c') \<Longrightarrow> c' = c \<and> db' = db"
proof (induction c arbitrary: st e db' st' c')
  case (Cons ta c)
  obtain t a where ta: "ta = (t, a)" by (cases ta)
  obtain e2 db2 st2 c2 where rest: "flush_tables env wi False reason c st db = (e2, db2, st2, c2)" by (metis prod_cases4)
  from Cons.IH [OF Cons.prems(1) rest] Cons.prems rest show ?case
    by (auto simp: ta updateTable_def split: if_splits)
qed simp

lemma truncate_all_deltas: "rs_deltas (snd (truncate_all env ids st)) = rs_deltas st"
proof (induction env ids st rule: truncate_all.induct)
  case (2 env i "is" st)
  have "rs_deltas (snd (truncate_pg env i st)) = rs_deltas st"
    by (simp add: truncate_pg_def split: option.splits prod.splits)
  with 2 show ?case by (cases "truncate_pg env i st") (auto split: option.splits)
qed simp

text \<open>
  (C22) A truncate message does not flush the delta buffer, although it tries to: the flush gets no
  transaction, fails, and its error is dropped. The rows buffered before the \<^verbatim>\<open>TRUNCATE\<close> are still
  in the buffer after it, and are written to the emptied table by the next commit.
\<close>

theorem truncate_message_keeps_buffer:
  assumes "ParseV2 env d (rs_inStream st) = Inr (TruncateMessage ids)"
  shows "rs_deltas (snd (processMessage env now w d st)) = rs_deltas st"
proof -
  have "rs_deltas (snd (flushDeltaBuffer_pg env False DMLStmtFlushReason st1)) = rs_deltas st1" for st1
    using flush_tables_no_transaction [of DMLStmtFlushReason "delta_db env" "without_index env" "rs_deltas st1"]
    by (auto simp: flushDeltaBuffer_pg_def Let_def Flush_def split: prod.splits)
  moreover have "rs_deltas (snd (mark_dirty r)) = rs_deltas (snd r)" for r by (simp add: mark_dirty_def split: prod.splits option.splits)
  ultimately show ?thesis using assms by (simp add: processMessage_def Let_def truncate_all_deltas)
qed

text \<open>The buffered row is still there, and the next commit writes it.\<close>

theorem truncate_message_keeps_buffer_witness:
  "rs_deltas (sub_st [[1], [0], [2], [7]]) = rs_deltas (sub_st [[1], [0], [2]]) \<and>
   map (\<lambda>(t, a). RowCount a) (rs_deltas (sub_st [[1], [0], [2]])) = [1] \<and>
   map_option trows (tables (contents (committed (rs_sess (sub_st [[1], [0], [2], [7], [3]])))) sub_table) = Some [[Val (AInt16 1), Val (AInt16 7)]]"
proof -
  have st: "sub_st [[1], [0], [2], [7]] = snd (processMessage sub_env 0 0 [7] (sub_st [[1], [0], [2]]))" by (simp add: sub_st_def)
  have "ParseV2 sub_env [7] b = Inr (TruncateMessage [1])" for b by (simp add: sub_env_def sub_parse_def)
  from truncate_message_keeps_buffer [OF this, of 0 0] have "rs_deltas (sub_st [[1], [0], [2], [7]]) = rs_deltas (sub_st [[1], [0], [2]])"
    unfolding st .
  moreover have "map (\<lambda>(t, a). RowCount a) (rs_deltas (sub_st [[1], [0], [2]])) = [1]" by code_simp
  moreover have "map_option trows (tables (contents (committed (rs_sess (sub_st [[1], [0], [2], [7], [3]])))) sub_table)
      = Some [[Val (AInt16 1), Val (AInt16 7)]]" by code_simp
  ultimately show ?thesis by blast
qed

subsection \<open>Key tuples\<close>

text \<open>
  (C23) When the old tuple of a delete has the key only, Postgres sends a value for every column, null for
  those outside the key. The replicator reads such tuples as if they had the key columns only: if a
  column stands before the key, the deletion is recorded for the key \<^verbatim>\<open>NULL\<close>, whatever key was sent.
\<close>

theorem key_tuple_misread:
  assumes "rs_relations st i = Some rel" "rel_columns rel = [v, pk]" "rc_flags v \<noteq> 1" "rc_flags pk = 1" "rs_schemas st i = Some sch"
    and "GetDeltaAppender (rs_deltas st) (relation_table rel) sch = Inr (app, c)" "BaseSchema app = sch" "length sch = 2"
    and "ToArrowType (col_type (sch ! 1)) = Inr b"
  shows "\<exists>st' app'. processDelete env i (OldKey [TupleNull, key]) st = (None, st') \<and> map_of (rs_deltas st') (relation_table rel) = Some app' \<and>
    app_rows app' = app_rows app @ [delta_row_of (lsn_stamp st) DeleteRowEvent [Null, Null]]"
proof -
  have cols: "append_columns (codecs env) sch [TupleNull, key] True [v, pk] 0 0 = Inr (0, [Null, Null])"
    using assms(3,4,8,9) by (simp add: tuple_datum_def)
  let ?app = "ObserveEvents DeleteRowEvent 1 (UpdateActionStats DeleteRowEvent 1 (append_rows (lsn_stamp st) DeleteRowEvent [[Null, Null]] app))"
  have "tuple_row env sch rel True [TupleNull, key] = Some [Null, Null]" using cols assms(2,8) by (simp add: tuple_row_def)
  from append_pg_ok [OF assms(1,5) refl assms(6,7) this] obtain sz where
    "processDelete env i (OldKey [TupleNull, key]) st = (None, st\<lparr>rs_deltas := put_appender (relation_table rel) ?app c, rs_deltaBufSize := sz\<rparr>)"
    by (auto simp: processDelete_def)
  moreover have "map_of (put_appender (relation_table rel) ?app c) (relation_table rel) = Some ?app"
    using GetDeltaAppender_again [OF assms(6), of ?app sch] by (auto simp: GetDeltaAppender_def res_simps split: option.splits)
  moreover have "app_rows ?app = app_rows app @ [delta_row_of (lsn_stamp st) DeleteRowEvent [Null, Null]]"
    by (simp add: ObserveEvents_def UpdateActionStats_def append_rows_def)
  ultimately show ?thesis by simp
qed

definition swapped_relation :: relation where
  "swapped_relation = sub_relation\<lparr>rel_columns := rev (rel_columns sub_relation)\<rparr>"

definition swapped_state :: replicationState where
  "swapped_state = (reset 0 2 sub_session)\<lparr>rs_relations := [1 \<mapsto> swapped_relation], rs_schemas := [1 \<mapsto> rev sub_schema]\<rparr>"

theorem key_tuple_misread_witness:
  "\<exists>st' app'. processDelete sub_env 1 (OldKey [TupleNull, TupleText [5]]) swapped_state = (None, st') \<and>
     map_of (rs_deltas st') sub_table = Some app' \<and>
     app_rows app' = [] @ [delta_row_of (lsn_stamp swapped_state) DeleteRowEvent [Null, Null]]"
proof -
  obtain app :: "arrow_value DeltaAppender" where new: "newDeltaAppender (rev sub_schema) = Inr app"
  proof -
    have "\<not> isl (newDeltaAppender (rev sub_schema) :: arrow_value DeltaAppender res)" by code_simp
    then show ?thesis using that by (metis sum.collapse(2))
  qed
  have app: "BaseSchema app = rev sub_schema" "app_rows app = []"
    using recorded_BaseSchema [OF recorded_new [OF new]] recorded_new [OF new] by (simp_all add: recorded_def)
  have "rs_relations swapped_state 1 = Some swapped_relation" "rs_schemas swapped_state 1 = Some (rev sub_schema)"
    "GetDeltaAppender (rs_deltas swapped_state) (relation_table swapped_relation) (rev sub_schema) = Inr (app, [(sub_table, app)])"
    using new by (simp_all add: swapped_state_def reset_def NewController_def GetDeltaAppender_def swapped_relation_def relation_table_def sub_relation_def sub_table_def)
  moreover have "ToArrowType (col_type (rev sub_schema ! 1)) = Inr Arrow_Int16"
    by (simp add: sub_schema_def sub_type_def ToArrowType_def toArrowType_def PostgresTypeToArrowType_def)
  moreover have "relation_table swapped_relation = sub_table" by (simp add: swapped_relation_def relation_table_def sub_relation_def sub_table_def)
  ultimately show ?thesis
    using key_tuple_misread [where st = swapped_state and i = 1 and rel = swapped_relation and sch = "rev sub_schema" and app = app
        and c = "[(sub_table, app)]" and b = Arrow_Int16 and env = sub_env and key = "TupleText [5]"] app
    by (simp add: swapped_relation_def sub_relation_def sub_schema_def)
qed

end
