(* ===== verification/PgWire.thy ===== *)
theory PgWire
  imports Prelude
begin

text \<open>
  The data of a Postgres connection (\<^verbatim>\<open>pgserver/connection_handler.go\<close>, \<^verbatim>\<open>connection_data.go\<close>): the messages of the
  wire protocol, prepared statements, portals and the state of a \<^verbatim>\<open>COPY\<close>, and the record of a connection
  with the few operations that send and receive.

  The messages the client will ever send are \<open>inbox\<close>; when it is empty, receiving fails as it does at the
  end of a connection. Everything sent is \<open>outbox\<close>. A pointer to an \<^verbatim>\<open>atomic.Bool\<close> is an index into
  \<open>closed_flags\<close>, so that a statement and its portals share one flag; a nil pointer is \<open>None\<close>. Statements
  prepared by DuckDB are numbered by \<open>nextStmt\<close>, and \<open>closes\<close> lists the calls of their \<^verbatim>\<open>Close\<close>. The session of
  the engine, with its database, is \<open>engine\<close>.
\<close>

section \<open>Messages\<close>

datatype frontend =
    StartupMessage "(string \<times> string) list"
  | SSLRequest
  | GSSEncRequest
  | SASLInitialResponse string string
  | SASLResponse string
  | Query string
  | Parse string string "u32 list"
  | Bind string string "int list" "bytes option list" "int list"
  | Describe char string
  | Execute string
  | Close char string
  | Sync
  | Terminate
  | CopyData string
  | CopyDone
  | CopyFail
  | OtherFrontend nat

record field_description =
  fd_name :: string
  fd_oid :: u32
  fd_size :: u16
  fd_format :: int

datatype backend =
    AuthenticationOk
  | AuthenticationSASL "string list"
  | AuthenticationSASLContinue string
  | AuthenticationSASLFinal string
  | RawByte char
  | ParameterStatus string string
  | BackendKeyData
  | ReadyForQuery char
  | ErrorResponse string string string
  | CommandComplete string
  | RowDescription "field_description list"
  | DataRow "bytes option list"
  | ParameterDescription "u32 list"
  | NoData
  | EmptyQueryResponse
  | ParseComplete
  | BindComplete
  | CloseComplete
  | CopyInResponse nat
  | CopyOutResponse nat
  | CopyOutData string
  | CopyOutDone

section \<open>Statements\<close>

text \<open>The statements of the parser that the handlers look at, with what they read of them.\<close>

datatype copy_format = FormatText | FormatBinary | FormatCSV | FormatParquet | FormatJSON | FormatArrow

record copy_from =
  cf_target :: string
  cf_stdin :: bool
  cf_format :: copy_format

datatype set_value = UnresolvedName "string list" | StrVal string | DefaultVal | OtherExpr string

datatype ast =
    Deallocate string
  | Discard
  | CopyFrom copy_from
  | CopyTo string copy_format
  | SetVar string "set_value list" bool bool
  | SetSessionCharacteristics string
  | ShowVar string
  | BeginTransaction | CommitTransaction | RollbackTransaction
  | CreateTable | DropTable | AlterTable | CreateIndex | DropIndex
  | Insert | Update | Delete | Truncate
  | CreateDatabase string bool
  | DropDatabase string bool
  | OtherAST nat

datatype special_config = SubscriptionConfig string | BackupConfig string | RestoreConfig string

record ConvertedStatement =
  st_string :: string
  st_ast :: "ast option"
  st_tag :: string
  st_pgParsable :: bool
  st_special :: "special_config option"

text \<open>A statement prepared by DuckDB is a handle; a nil pointer is \<open>None\<close>.\<close>

type_synonym duck_stmt = nat

record PreparedStatementData =
  ps_statement :: ConvertedStatement
  ps_returnFields :: "field_description list"
  ps_bindVarTypes :: "u32 list option"
  ps_stmt :: "duck_stmt option"
  ps_closed :: "nat option"

record PortalData =
  po_statement :: ConvertedStatement
  po_isEmptyQuery :: bool
  po_fields :: "field_description list"
  po_resultFormatCodes :: "int list"
  po_stmt :: "duck_stmt option"
  po_vars :: "string list"
  po_closed :: "nat option"

record 'l copyFromStdinState =
  copyFromStdinNode :: copy_from
  rawOptions :: string
  dataLoader :: "'l option"
  copyErr :: "string option"

section \<open>Connections\<close>

record ('e, 'l) connection =
  preparedStatements :: "string \<Rightarrow> PreparedStatementData option"
  portals :: "string \<Rightarrow> PortalData option"
  waitForSync :: bool
  copyState :: "'l copyFromStdinState option"
  user :: string
  host :: string
  closed_flags :: "bool list"
  nextStmt :: nat
  closes :: "duck_stmt list"
  randoms :: nat
  engine :: 'e
  inbox :: "frontend list"
  outbox :: "backend list"

definition NewConnectionHandler :: "'e \<Rightarrow> frontend list \<Rightarrow> ('e, 'l) connection" where
  "NewConnectionHandler e ms =
     \<lparr>preparedStatements = Map.empty, portals = Map.empty, waitForSync = False, copyState = None, user = [], host = [],
      closed_flags = [], nextStmt = 0, closes = [], randoms = 0, engine = e, inbox = ms, outbox = []\<rparr>"

text \<open>
  A handler ends with a value, an error or a panic, and leaves a connection. \<open>attempt\<close> is a call whose
  error the caller inspects; it does not stop a panic.
\<close>

type_synonym ('e, 'l, 'a) handler = "('e, 'l) connection \<Rightarrow> 'a res \<times> ('e, 'l) connection"

named_theorems go_simps \<open>reasoning about handlers\<close>

definition return_go :: "'a \<Rightarrow> 's \<Rightarrow> 'a res \<times> 's" where
  "return_go x s = (Inr x, s)"

definition raise :: "go_error \<Rightarrow> 's \<Rightarrow> 'a res \<times> 's" where
  "raise e s = (Inl e, s)"

definition bind_go :: "('s \<Rightarrow> 'a res \<times> 's) \<Rightarrow> ('a \<Rightarrow> 's \<Rightarrow> 'b res \<times> 's) \<Rightarrow> 's \<Rightarrow> 'b res \<times> 's" where
  "bind_go m f s = (case m s of (Inl e, s') \<Rightarrow> (Inl e, s') | (Inr x, s') \<Rightarrow> f x s')"

definition attempt :: "('s \<Rightarrow> 'a res \<times> 's) \<Rightarrow> 's \<Rightarrow> (string + 'a) res \<times> 's" where
  "attempt m s =
     (case m s of
        (Inl (Error e), s') \<Rightarrow> (Inr (Inl e), s')
      | (Inl (Panic p), s') \<Rightarrow> (Inl (Panic p), s')
      | (Inr x, s') \<Rightarrow> (Inr (Inr x), s'))"

definition nil_dereference :: go_error where
  "nil_dereference = Panic ''runtime error: invalid memory address or nil pointer dereference''"

text \<open>
  \<^verbatim>\<open>send\<close> flushes at once; \<open>flush_err\<close> says whether the connection still takes what has been sent so far.
  \<^verbatim>\<open>Receive\<close> takes the next message.
\<close>

definition send :: "(backend list \<Rightarrow> string option) \<Rightarrow> backend \<Rightarrow> ('e, 'l, unit) handler" where
  "send flush_err m s =
     (let out = outbox s @ [m] in
      (case flush_err out of None \<Rightarrow> Inr () | Some e \<Rightarrow> Inl (Error e), s\<lparr>outbox := out\<rparr>))"

fun send_all :: "(backend list \<Rightarrow> string option) \<Rightarrow> backend list \<Rightarrow> ('e, 'l, unit) handler" where
  "send_all flush_err [] s = (Inr (), s)"
| "send_all flush_err (m # ms) s = bind_go (send flush_err m) (\<lambda>_. send_all flush_err ms) s"

definition Receive :: "('e, 'l, frontend) handler" where
  "Receive s = (case inbox s of [] \<Rightarrow> (Inl (Error ''unexpected EOF''), s) | m # ms \<Rightarrow> (Inr m, s\<lparr>inbox := ms\<rparr>))"

text \<open>\<^verbatim>\<open>discardToSync\<close>\<close>

fun after_sync :: "frontend list \<Rightarrow> frontend list option" where
  "after_sync [] = None"
| "after_sync (m # ms) = (if m = Sync then Some ms else after_sync ms)"

definition discardToSync :: "('e, 'l, unit) handler" where
  "discardToSync s =
     (case after_sync (inbox s) of
        None \<Rightarrow> (Inl (Error ''unexpected EOF''), s\<lparr>inbox := []\<rparr>)
      | Some ms \<Rightarrow> (Inr (), s\<lparr>inbox := ms\<rparr>))"

fun error_text :: "go_error \<Rightarrow> string" where
  "error_text (Error e) = e"
| "error_text (Panic e) = e"

text \<open>\<^verbatim>\<open>sendError\<close> and \<^verbatim>\<open>endOfMessages\<close>, which panic when the connection is gone.\<close>

definition panicking :: "('s \<Rightarrow> 'a res \<times> 's) \<Rightarrow> 's \<Rightarrow> 'a res \<times> 's" where
  "panicking m s = (case m s of (Inl e, s') \<Rightarrow> (Inl (Panic (error_text e)), s') | (Inr x, s') \<Rightarrow> (Inr x, s'))"

definition sendError :: "(backend list \<Rightarrow> string option) \<Rightarrow> string \<Rightarrow> ('e, 'l, unit) handler" where
  "sendError flush_err e = panicking (send flush_err (ErrorResponse ''ERROR'' ''XX000'' e))"

definition endOfMessages :: "(backend list \<Rightarrow> string option) \<Rightarrow> string option \<Rightarrow> ('e, 'l, unit) handler" where
  "endOfMessages flush_err err =
     bind_go (case err of None \<Rightarrow> return_go () | Some e \<Rightarrow> sendError flush_err e)
       (\<lambda>_. panicking (send flush_err (ReadyForQuery (CHR ''I''))))"

lemma bind_go_cong [fundef_cong]:
  "m s = m' s' \<Longrightarrow> (\<And>x t. m' s' = (Inr x, t) \<Longrightarrow> f x t = f' x t) \<Longrightarrow> bind_go m f s = bind_go m' f' s'"
  by (auto simp: bind_go_def split: sum.splits prod.splits)

lemma return_go_simps [simp]: "return_go x s = (Inr x, s)" "raise e s = (Inl e, s)"
  by (simp_all add: return_go_def raise_def)

lemma bind_go_return [simp]: "bind_go (return_go x) f = f x" "bind_go (raise e) f = raise e"
  by (simp_all add: bind_go_def fun_eq_iff)

end
