(* ===== verification/SqlText.thy ===== *)
theory SqlText
  imports Prelude
begin

text \<open>
  Functions on the text of a statement (\<^verbatim>\<open>pgserver/stmt.go\<close>, \<^verbatim>\<open>pgserver/full_match_handler.go\<close>): statement tags, the
  removal of comments, and the queries that are replaced as a whole. Texts are modelled as ASCII, where the
  bytes and the runes of a Go string are the same. The rewriting of queries by regular expressions is not
  modelled.
\<close>

abbreviation squote :: char where "squote \<equiv> CHR 39"
abbreviation backslash :: char where "backslash \<equiv> CHR 92"
abbreviation newline :: char where "newline \<equiv> CHR 10"
abbreviation quotation :: char where "quotation \<equiv> CHR 34"

section \<open>Statement tags\<close>

definition IsWellKnownStatementTag :: "string \<Rightarrow> bool" where
  "IsWellKnownStatementTag tag \<longleftrightarrow>
     tag \<in> {''SELECT'', ''INSERT'', ''UPDATE'', ''DELETE'', ''CALL'', ''PRAGMA'', ''COPY'', ''ALTER'', ''CREATE'', ''DROP'', ''PREPARE'',
            ''EXECUTE'', ''ATTACH'', ''DETACH''}"

datatype StmtType =
    STATEMENT_SELECT | STATEMENT_INSERT | STATEMENT_UPDATE | STATEMENT_DELETE | STATEMENT_CALL | STATEMENT_PRAGMA | STATEMENT_COPY
  | STATEMENT_ALTER | STATEMENT_CREATE | STATEMENT_CREATE_FUNC | STATEMENT_DROP | STATEMENT_PREPARE | STATEMENT_EXECUTE
  | STATEMENT_ATTACH | STATEMENT_DETACH | STATEMENT_TRANSACTION | STATEMENT_ANALYZE | STATEMENT_EXPLAIN | STATEMENT_SET
  | STATEMENT_VARIABLE_SET | STATEMENT_EXPORT | STATEMENT_LOAD | STATEMENT_RELATION | STATEMENT_OTHER

fun GetStatementTag :: "StmtType \<Rightarrow> string" where
  "GetStatementTag STATEMENT_SELECT = ''SELECT''"
| "GetStatementTag STATEMENT_INSERT = ''INSERT''"
| "GetStatementTag STATEMENT_UPDATE = ''UPDATE''"
| "GetStatementTag STATEMENT_DELETE = ''DELETE''"
| "GetStatementTag STATEMENT_CALL = ''CALL''"
| "GetStatementTag STATEMENT_PRAGMA = ''PRAGMA''"
| "GetStatementTag STATEMENT_COPY = ''COPY''"
| "GetStatementTag STATEMENT_ALTER = ''ALTER''"
| "GetStatementTag STATEMENT_CREATE = ''CREATE''"
| "GetStatementTag STATEMENT_CREATE_FUNC = ''CREATE FUNCTION''"
| "GetStatementTag STATEMENT_DROP = ''DROP''"
| "GetStatementTag STATEMENT_PREPARE = ''PREPARE''"
| "GetStatementTag STATEMENT_EXECUTE = ''EXECUTE''"
| "GetStatementTag STATEMENT_ATTACH = ''ATTACH''"
| "GetStatementTag STATEMENT_DETACH = ''DETACH''"
| "GetStatementTag STATEMENT_TRANSACTION = ''TRANSACTION''"
| "GetStatementTag STATEMENT_ANALYZE = ''ANALYZE''"
| "GetStatementTag STATEMENT_EXPLAIN = ''EXPLAIN''"
| "GetStatementTag STATEMENT_SET = ''SET''"
| "GetStatementTag STATEMENT_VARIABLE_SET = ''SET VARIABLE''"
| "GetStatementTag STATEMENT_EXPORT = ''EXPORT''"
| "GetStatementTag STATEMENT_LOAD = ''LOAD''"
| "GetStatementTag STATEMENT_RELATION = ''UNKNOWN''"
| "GetStatementTag STATEMENT_OTHER = ''UNKNOWN''"

section \<open>Characters\<close>

definition is_space :: "char \<Rightarrow> bool" where
  "is_space c \<longleftrightarrow> (of_char c :: nat) \<in> {9, 10, 11, 12, 13, 32, 0x85, 0xA0}"

definition is_letter :: "char \<Rightarrow> bool" where
  "is_letter c \<longleftrightarrow> (let n = (of_char c :: nat) in 65 \<le> n \<and> n \<le> 90 \<or> 97 \<le> n \<and> n \<le> 122)"

definition is_digit :: "char \<Rightarrow> bool" where
  "is_digit c \<longleftrightarrow> (let n = (of_char c :: nat) in 48 \<le> n \<and> n \<le> 57)"

text \<open>\<^verbatim>\<open>strings.TrimSpace\<close>\<close>

definition TrimSpace :: "string \<Rightarrow> string" where
  "TrimSpace s = rev (dropWhile is_space (rev (dropWhile is_space s)))"

section \<open>Comments\<close>

text \<open>
  The loop over a block comment that is already open \<open>n\<close> levels deep: the levels left open and the text
  after it.
\<close>

fun block_comment :: "nat \<Rightarrow> string \<Rightarrow> nat \<times> string" where
  "block_comment 0 s = (0, s)"
| "block_comment (Suc n) [] = (Suc n, [])"
| "block_comment (Suc n) [c] = (Suc n, [])"
| "block_comment (Suc n) (c # d # cs) =
     (if c = CHR ''/'' \<and> d = CHR ''*'' then block_comment (Suc (Suc n)) cs
      else if c = CHR ''*'' \<and> d = CHR ''/'' then block_comment n cs
      else block_comment (Suc n) (d # cs))"

lemma block_comment_length: "length (snd (block_comment n s)) \<le> length s"
  by (induction n s rule: block_comment.induct) auto

function RemoveLeadingComments :: "string \<Rightarrow> string" where
  "RemoveLeadingComments s =
     (if s = [] then []
      else if has_prefix ''--'' s then
        (case dropWhile (\<lambda>c. c \<noteq> newline) s of [] \<Rightarrow> [] | _ # rest \<Rightarrow> RemoveLeadingComments rest)
      else if has_prefix ''/*'' s then
        (case block_comment 1 (drop 2 s) of (0, rest) \<Rightarrow> RemoveLeadingComments rest | (Suc _, rest) \<Rightarrow> [])
      else if is_space (hd s) then RemoveLeadingComments (tl s)
      else s)"
  by pat_completeness auto
termination
proof (relation "measure length", goal_cases)
  case (2 s c rest)
  have "length (dropWhile (\<lambda>c. c \<noteq> newline) s) \<le> length s" by (rule length_dropWhile_le)
  with 2 show ?case by simp
next
  case (3 s x rest)
  then have "rest = snd (block_comment 1 (drop 2 s))" by (metis snd_conv)
  then have "length rest \<le> length s - 2" using block_comment_length [of 1 "drop 2 s"] by simp
  with 3 show ?case by (cases s) auto
qed auto

declare RemoveLeadingComments.simps [simp del]

text \<open>
  \<^verbatim>\<open>sql.RemoveSpaceAndDelimiter\<close> of the SQL engine is the parameter \<open>trim\<close>.
\<close>

definition GuessStatementTag :: "(string \<Rightarrow> string) \<Rightarrow> string \<Rightarrow> string" where
  "GuessStatementTag trim query = to_upper (takeWhile (\<lambda>c. is_letter c \<or> c = CHR ''_'') (trim (RemoveLeadingComments query)))"

text \<open>
  Quoted texts after their opening quote, split into what belongs to them and the rest. A backslash
  takes the character after it along.
\<close>

fun string_literal :: "string \<Rightarrow> string \<times> string" where
  "string_literal [] = ([], [])"
| "string_literal [c] = ([c], [])"
| "string_literal (c # d # cs) =
     (if c = squote then ([squote], d # cs)
      else if c = backslash then (case string_literal cs of (l, r) \<Rightarrow> (backslash # d # l, r))
      else (case string_literal (d # cs) of (l, r) \<Rightarrow> (c # l, r)))"

fun quoted_identifier :: "string \<Rightarrow> string \<times> string" where
  "quoted_identifier [] = ([], [])"
| "quoted_identifier (c # cs) =
     (if c = quotation then ([quotation], cs) else (case quoted_identifier cs of (l, r) \<Rightarrow> (c # l, r)))"

fun dollar_body :: "string \<Rightarrow> string \<Rightarrow> string \<times> string" where
  "dollar_body tag [] = ([], [])"
| "dollar_body tag (c # cs) =
     (if has_prefix tag (c # cs) then (tag, drop (length tag) (c # cs)) else (case dollar_body tag cs of (l, r) \<Rightarrow> (c # l, r)))"

text \<open>The tag at the dollar sign before \<open>s\<close>, when there is one, and the text after it.\<close>

definition dollar_tag :: "string \<Rightarrow> (string \<times> string) option" where
  "dollar_tag s =
     (let is_tag = (\<lambda>c. is_letter c \<or> is_digit c \<or> c = CHR ''_'') in
      case dropWhile is_tag s of
        [] \<Rightarrow> None
      | c # cs \<Rightarrow> (if c = CHR ''$'' then Some (CHR ''$'' # takeWhile is_tag s @ ''$'', cs) else None))"

lemma string_literal_append: "fst (string_literal s) @ snd (string_literal s) = s"
  by (induction s rule: string_literal.induct) (auto split: prod.splits)

lemma quoted_identifier_append: "fst (quoted_identifier s) @ snd (quoted_identifier s) = s"
  by (induction s rule: quoted_identifier.induct) (auto split: prod.splits)

lemma dollar_body_append: "fst (dollar_body tag s) @ snd (dollar_body tag s) = s"
proof (induction tag s rule: dollar_body.induct)
  case (2 tag c cs)
  have "has_prefix tag (c # cs) \<Longrightarrow> tag @ drop (length tag) (c # cs) = c # cs"
    using append_take_drop_id [of "length tag" "c # cs"] by (metis has_prefix_def)
  with 2 show ?case by (auto split: prod.splits)
qed simp

lemma dollar_tag_append: "dollar_tag s = Some (tag, rest) \<Longrightarrow> tag @ rest = CHR ''$'' # s"
proof -
  let ?P = "\<lambda>c. is_letter c \<or> is_digit c \<or> c = CHR ''_''"
  assume *: "dollar_tag s = Some (tag, rest)"
  then obtain c cs where d: "dropWhile ?P s = c # cs" by (cases "dropWhile ?P s") (auto simp: dollar_tag_def)
  with * have "c = CHR ''$''" "tag = CHR ''$'' # takeWhile ?P s @ ''$''" "rest = cs"
    by (auto simp: dollar_tag_def split: if_splits)
  then show ?thesis using takeWhile_dropWhile_id [of ?P s] d by simp
qed

function RemoveComments :: "string \<Rightarrow> string" where
  "RemoveComments s =
     (case s of
        [] \<Rightarrow> []
      | c # cs \<Rightarrow>
          (if has_prefix ''--'' s then
             (case dropWhile (\<lambda>c. c \<noteq> newline) (drop 2 s) of [] \<Rightarrow> [] | _ # rest \<Rightarrow> newline # RemoveComments rest)
           else if has_prefix ''/*'' s then RemoveComments (snd (block_comment 1 (drop 2 s)))
           else if c = squote then squote # fst (string_literal cs) @ RemoveComments (snd (string_literal cs))
           else if has_prefix [CHR ''E'', squote] s then
             CHR ''E'' # squote # fst (string_literal (tl cs)) @ RemoveComments (snd (string_literal (tl cs)))
           else if c = CHR ''$'' \<and> dollar_tag cs \<noteq> None then
             (case the (dollar_tag cs) of (tag, rest) \<Rightarrow> tag @ fst (dollar_body tag rest) @ RemoveComments (snd (dollar_body tag rest)))
           else if c = quotation then quotation # fst (quoted_identifier cs) @ RemoveComments (snd (quoted_identifier cs))
           else c # RemoveComments cs))"
  by pat_completeness auto
termination
proof (relation "measure length", goal_cases)
  case (2 s c cs x rest)
  have "length (dropWhile (\<lambda>c. c \<noteq> newline) (drop 2 s)) \<le> length (drop 2 s)" by (rule length_dropWhile_le)
  with 2 show ?case by auto
next
  case (3 s c cs)
  then show ?case using block_comment_length [of 1 "drop 2 s"] by auto
next
  case (4 s c cs)
  then show ?case using arg_cong [OF string_literal_append [of cs], of length] by simp
next
  case (5 s c cs)
  then show ?case using arg_cong [OF string_literal_append [of "tl cs"], of length] by simp
next
  case (6 s c cs tag rest)
  then have "dollar_tag cs = Some (tag, rest)" by (metis option.collapse)
  then have "tag @ rest = s" "tag \<noteq> []" using dollar_tag_append 6 by (auto simp: dollar_tag_def Let_def split: list.splits if_splits)
  then have "length rest < length s" by (metis length_append length_greater_0_conv less_add_same_cancel2)
  then show ?case using arg_cong [OF dollar_body_append [of tag rest], of length] by simp
next
  case (7 s c cs)
  then show ?case using arg_cong [OF quoted_identifier_append [of cs], of length] by simp
qed auto

declare RemoveComments.simps [simp del]

section \<open>Queries replaced as a whole\<close>

definition preProcessing :: "string \<Rightarrow> string" where
  "preProcessing q = to_lower (filter (\<lambda>c. (of_char c :: nat) \<notin> {32, 10, 13, 9}) q)"

definition SelectPgTypeOid_original :: string where
  "SelectPgTypeOid_original =
     ''SELECT pg_type.oid, enumlabel FROM pg_enum JOIN pg_type ON pg_type.oid=enumtypid ORDER BY oid, enumsortorder''"

definition SelectPgTypeOid_converted :: string where
  "SelectPgTypeOid_converted =
     ''SELECT pg_type.oid, pg_enum.enumlabel FROM pg_enum JOIN pg_type ON pg_type.oid=enumtypid ORDER BY pg_type.oid, pg_enum.enumsortorder;''"

definition handleFullMatchQuery :: "string \<Rightarrow> string" where
  "handleFullMatchQuery inputQuery =
     (case map_of [(preProcessing SelectPgTypeOid_original, SelectPgTypeOid_converted)] (preProcessing inputQuery) of
        None \<Rightarrow> [] | Some q \<Rightarrow> q)"

section \<open>What comments are\<close>

text \<open>
  A statement cut into comments and the rest. A line comment is written with its end of line, if it has
  one; a block comment without its opening. Quoted texts are whole pieces.
\<close>

datatype piece = Kept string | LineComment string bool | BlockComment string

fun source_of :: "piece \<Rightarrow> string" where
  "source_of (Kept t) = t"
| "source_of (LineComment b nl) = ''--'' @ b @ (if nl then [newline] else [])"
| "source_of (BlockComment b) = ''/*'' @ b"

fun kept_of :: "piece \<Rightarrow> string" where
  "kept_of (Kept t) = t"
| "kept_of (LineComment b nl) = (if nl then [newline] else [])"
| "kept_of (BlockComment b) = []"

definition quoted_text :: "string \<Rightarrow> bool" where
  "quoted_text t \<longleftrightarrow>
     (\<exists>l. t = squote # l \<and> string_literal l = (l, [])) \<or>
     (\<exists>l. t = CHR ''E'' # squote # l \<and> string_literal l = (l, [])) \<or>
     (\<exists>l. t = quotation # l \<and> quoted_identifier l = (l, [])) \<or>
     (\<exists>w l. let tag = CHR ''$'' # w @ ''$'' in
        t = tag @ l \<and> (\<forall>c\<in>set w. is_letter c \<or> is_digit c \<or> c = CHR ''_'') \<and> dollar_body tag l = (l, []))"

fun piece_ok :: "piece \<Rightarrow> string \<Rightarrow> bool" where
  "piece_ok (Kept t) rest \<longleftrightarrow>
     quoted_text t \<or>
     (\<exists>c. t = [c] \<and> c \<noteq> squote \<and> c \<noteq> quotation \<and> \<not> has_prefix [CHR ''E'', squote] (c # rest) \<and>
        (c = CHR ''$'' \<longrightarrow> dollar_tag rest = None) \<and> \<not> has_prefix ''--'' (c # rest) \<and> \<not> has_prefix ''/*'' (c # rest))"
| "piece_ok (LineComment b nl) rest \<longleftrightarrow> newline \<notin> set b \<and> (nl \<or> rest = [])"
| "piece_ok (BlockComment b) rest \<longleftrightarrow> (\<exists>k. block_comment 1 b = (k, []) \<and> (k = 0 \<or> rest = []))"

fun pieces_ok :: "piece list \<Rightarrow> bool" where
  "pieces_ok [] \<longleftrightarrow> True"
| "pieces_ok (p # ps) \<longleftrightarrow> piece_ok p (concat (map source_of ps)) \<and> pieces_ok ps"

lemma block_comment_split:
  "block_comment n s = (k, r) \<Longrightarrow> \<exists>b. s = b @ r \<and> block_comment n b = (k, []) \<and> (k = 0 \<or> r = [])"
proof (induction n s rule: block_comment.induct)
  case (4 n c d cs)
  consider (open_c) "c = CHR ''/''" "d = CHR ''*''" | (close_c) "c = CHR ''*''" "d = CHR ''/''"
    | (other) "\<not> (c = CHR ''/'' \<and> d = CHR ''*'')" "\<not> (c = CHR ''*'' \<and> d = CHR ''/'')" by blast
  then show ?case
  proof cases
    case open_c
    then have "block_comment (Suc (Suc n)) cs = (k, r)" using 4(4) by simp
    from 4(1) [OF _ this] open_c obtain b where "cs = b @ r" "block_comment (Suc (Suc n)) b = (k, [])" "k = 0 \<or> r = []" by auto
    with open_c show ?thesis by (intro exI [of _ "c # d # b"]) simp
  next
    case close_c
    then have "block_comment n cs = (k, r)" using 4(4) by simp
    from 4(2) [OF _ _ this] close_c obtain b where "cs = b @ r" "block_comment n b = (k, [])" "k = 0 \<or> r = []" by auto
    with close_c show ?thesis by (intro exI [of _ "c # d # b"]) simp
  next
    case other
    then have "block_comment (Suc n) (d # cs) = (k, r)" using 4(4) by auto
    from 4(3) [OF other this] obtain b where b: "d # cs = b @ r" "block_comment (Suc n) b = (k, [])" "k = 0 \<or> r = []" by auto
    show ?thesis
    proof (cases b)
      case Nil
      with b show ?thesis by auto
    next
      case (Cons x b')
      with b other show ?thesis by (intro exI [of _ "c # b"]) auto
    qed
  qed
qed auto

lemma string_literal_split: "string_literal s = (l, r) \<Longrightarrow> string_literal l = (l, []) \<and> (s \<noteq> [] \<longrightarrow> l \<noteq> [])"
proof (induction s arbitrary: l r rule: string_literal.induct)
  case (3 c d cs)
  consider (q) "c = squote" | (b) "c \<noteq> squote" "c = backslash" | (o) "c \<noteq> squote" "c \<noteq> backslash" by blast
  then show ?case
  proof cases
    case q
    with 3(3) have "l = [squote]" by simp
    then show ?thesis by simp
  next
    case b
    obtain l' where l': "string_literal cs = (l', r)" "l = backslash # d # l'"
      using 3(3) b by (cases "string_literal cs") simp
    from 3(1) [OF b l'(1)] show ?thesis using l'(2) by simp
  next
    case o
    obtain l' where l': "string_literal (d # cs) = (l', r)" "l = c # l'"
      using 3(3) o by (cases "string_literal (d # cs)") simp
    have "string_literal l' = (l', [])" "l' \<noteq> []" using 3(2) [OF o l'(1)] by auto
    then show ?thesis using o l'(2) by (cases l') auto
  qed
qed auto

lemma quoted_identifier_split: "quoted_identifier s = (l, r) \<Longrightarrow> quoted_identifier l = (l, [])"
  by (induction s arbitrary: l r) (auto split: prod.splits if_splits)

lemma has_prefix_iff: "has_prefix p s \<longleftrightarrow> (\<exists>r. s = p @ r)"
  unfolding has_prefix_def by (metis append_eq_conv_conj append_take_drop_id)

lemma has_prefix_take: "has_prefix p (take n s) \<Longrightarrow> has_prefix p s"
  unfolding has_prefix_iff by (metis append_assoc append_take_drop_id)

lemma dollar_body_split: "dollar_body tag s = (l, r) \<Longrightarrow> dollar_body tag l = (l, [])"
proof (induction s arbitrary: l r)
  case (Cons c cs)
  show ?case
  proof (cases "has_prefix tag (c # cs)")
    case True
    with Cons have "l = tag" by simp
    then show ?thesis by (cases tag) (auto simp: has_prefix_def)
  next
    case False
    then obtain l' where l': "dollar_body tag cs = (l', r)" "l = c # l'" using Cons by (auto split: prod.splits)
    have "l' @ r = cs" using dollar_body_append [of tag cs] l' by simp
    then have "take (length l) (c # cs) = c # l'" using l' by auto
    then have "\<not> has_prefix tag (c # l')" using False has_prefix_take [of tag "length l" "c # cs"] by auto
    then show ?thesis using Cons.IH [OF l'(1)] l' by simp
  qed
qed simp

lemma dollar_tag_shape:
  "dollar_tag s = Some (tag, rest) \<Longrightarrow>
     \<exists>w. tag = CHR ''$'' # w @ ''$'' \<and> (\<forall>c\<in>set w. is_letter c \<or> is_digit c \<or> c = CHR ''_'')"
  by (auto simp: dollar_tag_def Let_def split: list.splits if_splits dest: set_takeWhileD)

text \<open>One round of the loop takes one piece off the text.\<close>

definition takes_piece :: "string \<Rightarrow> bool" where
  "takes_piece s \<longleftrightarrow>
     (\<exists>p rest. piece_ok p rest \<and> source_of p @ rest = s \<and> kept_of p @ RemoveComments rest = RemoveComments s \<and> length rest < length s)"

lemma takes_pieceI:
  "piece_ok p rest \<Longrightarrow> source_of p @ rest = s \<Longrightarrow> kept_of p @ RemoveComments rest = RemoveComments s \<Longrightarrow> source_of p \<noteq> [] \<Longrightarrow>
     takes_piece s"
  unfolding takes_piece_def by (metis length_append length_greater_0_conv less_add_same_cancel2)

lemma RemoveComments_Nil [simp]: "RemoveComments [] = []"
  by (subst RemoveComments.simps) simp

lemma line_comment_piece:
  assumes "has_prefix ''--'' s"
  shows "takes_piece s"
proof -
  let ?P = "\<lambda>c. c \<noteq> newline"
  obtain r where r: "s = ''--'' @ r" using assms by (auto simp: has_prefix_iff)
  have b: "newline \<notin> set (takeWhile ?P r)" "takeWhile ?P r @ dropWhile ?P r = r" by (auto dest: set_takeWhileD)
  have eq: "RemoveComments s = (case dropWhile ?P r of [] \<Rightarrow> [] | _ # rest \<Rightarrow> newline # RemoveComments rest)"
    using assms r by (subst RemoveComments.simps) simp
  show ?thesis
  proof (cases "dropWhile ?P r")
    case Nil
    with eq have "RemoveComments s = []" by (simp only: list.case)
    moreover from Nil b have "takeWhile ?P r = r" by (simp only: append_Nil2)
    ultimately show ?thesis using b(1) r
      by (intro takes_pieceI [of "LineComment (takeWhile ?P r) False" "[]"]) simp_all
  next
    case (Cons c cs)
    then have c: "c = newline" using hd_dropWhile [of ?P r] by simp
    have r': "r = takeWhile ?P r @ newline # cs" using b(2) unfolding Cons c by (rule sym)
    have "source_of (LineComment (takeWhile ?P r) True) @ cs = s" using r r' by simp
    then show ?thesis using b(1) Cons eq
      by (intro takes_pieceI [of "LineComment (takeWhile ?P r) True" cs]) simp_all
  qed
qed

lemma block_comment_piece:
  assumes "\<not> has_prefix ''--'' s" "has_prefix ''/*'' s"
  shows "takes_piece s"
proof -
  obtain r where r: "s = ''/*'' @ r" using assms by (auto simp: has_prefix_iff)
  obtain k rest where k: "block_comment 1 r = (k, rest)" by fastforce
  then obtain b where b: "r = b @ rest" "block_comment 1 b = (k, [])" "k = 0 \<or> rest = []"
    using block_comment_split by blast
  have "RemoveComments s = RemoveComments rest"
    using assms r k by (subst RemoveComments.simps) simp
  then show ?thesis using b r
    by (intro takes_pieceI [of "BlockComment b" rest]) simp_all
qed

lemma literal_piece:
  assumes "\<not> has_prefix ''--'' s" "\<not> has_prefix ''/*'' s" "s = squote # cs \<or> s = CHR ''E'' # squote # cs"
  shows "takes_piece s"
proof -
  obtain l r where l: "string_literal cs = (l, r)" by fastforce
  have lr: "l @ r = cs" "string_literal l = (l, [])"
    using string_literal_append [of cs] string_literal_split [OF l] l by simp_all
  obtain q where q: "s = q @ cs" "q = [squote] \<or> q = [CHR ''E'', squote]" using assms(3) by auto
  have "RemoveComments s = q @ l @ RemoveComments r"
    using assms(1,2) q l by (subst RemoveComments.simps) (auto simp: has_prefix_def)
  moreover have "quoted_text (q @ l)" using q(2) lr(2) by (auto simp: quoted_text_def)
  ultimately show ?thesis using q lr
    by (intro takes_pieceI [of "Kept (q @ l)" r]) auto
qed

lemma identifier_piece:
  assumes "\<not> has_prefix ''--'' s" "\<not> has_prefix ''/*'' s" "s = quotation # cs"
  shows "takes_piece s"
proof -
  obtain l r where l: "quoted_identifier cs = (l, r)" by fastforce
  have "l @ r = cs" "quoted_text (quotation # l)"
    using quoted_identifier_append [of cs] quoted_identifier_split [OF l] l by (auto simp: quoted_text_def)
  moreover have "RemoveComments s = quotation # l @ RemoveComments r"
    using assms l by (subst RemoveComments.simps) (auto simp: has_prefix_def)
  ultimately show ?thesis using assms(3)
    by (intro takes_pieceI [of "Kept (quotation # l)" r]) auto
qed

lemma dollar_piece:
  assumes "\<not> has_prefix ''--'' s" "\<not> has_prefix ''/*'' s" "s = CHR ''$'' # cs" "dollar_tag cs = Some (tag, rest)"
  shows "takes_piece s"
proof -
  obtain l r where l: "dollar_body tag rest = (l, r)" by fastforce
  obtain w where w: "tag = CHR ''$'' # w @ ''$''" "\<forall>c\<in>set w. is_letter c \<or> is_digit c \<or> c = CHR ''_''"
    using dollar_tag_shape [OF assms(4)] by blast
  have "quoted_text (tag @ l)"
    unfolding quoted_text_def Let_def using w dollar_body_split [OF l] by blast
  moreover have "tag @ l @ r = s"
    using dollar_tag_append [OF assms(4)] dollar_body_append [of tag rest] l assms(3) by simp
  moreover have "RemoveComments s = tag @ l @ RemoveComments r"
    using assms l by (subst RemoveComments.simps) (simp add: has_prefix_def)
  ultimately show ?thesis using w(1)
    by (intro takes_pieceI [of "Kept (tag @ l)" r]) simp_all
qed

lemma plain_piece:
  assumes "\<not> has_prefix ''--'' s" "\<not> has_prefix ''/*'' s" "s = c # cs" "c \<noteq> squote" "c \<noteq> quotation"
    "\<not> has_prefix [CHR ''E'', squote] s" "c = CHR ''$'' \<longrightarrow> dollar_tag cs = None"
  shows "takes_piece s"
proof -
  have "RemoveComments s = c # RemoveComments cs"
    using assms by (subst RemoveComments.simps) auto
  then show ?thesis using assms
    by (intro takes_pieceI [of "Kept [c]" cs]) auto
qed

lemma RemoveComments_takes_piece:
  assumes "s \<noteq> []"
  shows "takes_piece s"
proof -
  obtain c cs where s: "s = c # cs" using assms by (cases s) auto
  show ?thesis
    using s line_comment_piece [of s] block_comment_piece [of s] literal_piece [of s cs] literal_piece [of s "tl cs"]
      identifier_piece [of s cs] dollar_piece [of s cs] plain_piece [of s c cs]
    by (cases "dollar_tag cs"; cases cs) (auto simp: has_prefix_def)
qed


end
