(* ===== verification/PgTypes.thy ===== *)
theory PgTypes
  imports SqlTypes
begin

text \<open>
  The tables between the types of DuckDB and of Postgres and the schema of a result
  (\<^verbatim>\<open>pgtypes/pgtypes.go\<close>). The registry of pgtype is the parameter \<open>TypeForName\<close>; a column type of the driver is
  its name, its database type name, its nullability and its decimal size, if it reports one.
\<close>

section \<open>Tables\<close>

datatype duckdb_type =
    TYPE_INVALID | TYPE_BOOLEAN | TYPE_TINYINT | TYPE_SMALLINT | TYPE_INTEGER | TYPE_BIGINT | TYPE_UTINYINT | TYPE_USMALLINT
  | TYPE_UINTEGER | TYPE_UBIGINT | TYPE_FLOAT | TYPE_DOUBLE | TYPE_DECIMAL | TYPE_VARCHAR | TYPE_BLOB | TYPE_TIMESTAMP | TYPE_DATE
  | TYPE_TIME | TYPE_INTERVAL | TYPE_HUGEINT | TYPE_UHUGEINT | TYPE_TIMESTAMP_S | TYPE_TIMESTAMP_MS | TYPE_TIMESTAMP_NS | TYPE_ENUM
  | TYPE_UUID | TYPE_BIT | TYPE_TIME_TZ | TYPE_TIMESTAMP_TZ | TYPE_ANY | TYPE_VARINT | TYPE_NESTED nat

definition duckdbTypeNameToPostgresTypeName :: "string \<Rightarrow> string option" where
  "duckdbTypeNameToPostgresTypeName = map_of
     [(''INVALID'', ''unknown''), (''BOOLEAN'', ''bool''), (''TINYINT'', ''int2''), (''SMALLINT'', ''int2''), (''INTEGER'', ''int4''),
      (''BIGINT'', ''int8''), (''UTINYINT'', ''int2''), (''USMALLINT'', ''int4''), (''UINTEGER'', ''int8''), (''UBIGINT'', ''numeric''),
      (''FLOAT'', ''float4''), (''DOUBLE'', ''float8''), (''TIMESTAMP'', ''timestamp''), (''DATE'', ''date''), (''TIME'', ''time''),
      (''INTERVAL'', ''interval''), (''HUGEINT'', ''numeric''), (''UHUGEINT'', ''numeric''), (''VARCHAR'', ''text''), (''BLOB'', ''bytea''),
      (''DECIMAL'', ''numeric''), (''TIMESTAMP_S'', ''timestamp''), (''TIMESTAMP_MS'', ''timestamp''), (''TIMESTAMP_NS'', ''timestamp''),
      (''ENUM'', ''text''), (''UUID'', ''uuid''), (''BIT'', ''bit''), (''TIMETZ'', ''timetz''), (''TIMESTAMPTZ'', ''timestamptz''),
      (''ANY'', ''text''), (''VARINT'', ''numeric'')]"

fun DuckdbTypeToPostgresOID :: "duckdb_type \<Rightarrow> pg_oid option" where
  "DuckdbTypeToPostgresOID TYPE_INVALID = Some UnknownOID"
| "DuckdbTypeToPostgresOID TYPE_BOOLEAN = Some BoolOID"
| "DuckdbTypeToPostgresOID TYPE_TINYINT = Some Int2OID"
| "DuckdbTypeToPostgresOID TYPE_SMALLINT = Some Int2OID"
| "DuckdbTypeToPostgresOID TYPE_INTEGER = Some Int4OID"
| "DuckdbTypeToPostgresOID TYPE_BIGINT = Some Int8OID"
| "DuckdbTypeToPostgresOID TYPE_UTINYINT = Some Int2OID"
| "DuckdbTypeToPostgresOID TYPE_USMALLINT = Some Int4OID"
| "DuckdbTypeToPostgresOID TYPE_UINTEGER = Some Int8OID"
| "DuckdbTypeToPostgresOID TYPE_UBIGINT = Some NumericOID"
| "DuckdbTypeToPostgresOID TYPE_FLOAT = Some Float4OID"
| "DuckdbTypeToPostgresOID TYPE_DOUBLE = Some Float8OID"
| "DuckdbTypeToPostgresOID TYPE_DECIMAL = Some NumericOID"
| "DuckdbTypeToPostgresOID TYPE_VARCHAR = Some TextOID"
| "DuckdbTypeToPostgresOID TYPE_BLOB = Some ByteaOID"
| "DuckdbTypeToPostgresOID TYPE_TIMESTAMP = Some TimestampOID"
| "DuckdbTypeToPostgresOID TYPE_DATE = Some DateOID"
| "DuckdbTypeToPostgresOID TYPE_TIME = Some TimeOID"
| "DuckdbTypeToPostgresOID TYPE_INTERVAL = Some IntervalOID"
| "DuckdbTypeToPostgresOID TYPE_HUGEINT = Some NumericOID"
| "DuckdbTypeToPostgresOID TYPE_UHUGEINT = Some NumericOID"
| "DuckdbTypeToPostgresOID TYPE_TIMESTAMP_S = Some TimestampOID"
| "DuckdbTypeToPostgresOID TYPE_TIMESTAMP_MS = Some TimestampOID"
| "DuckdbTypeToPostgresOID TYPE_TIMESTAMP_NS = Some TimestampOID"
| "DuckdbTypeToPostgresOID TYPE_ENUM = Some TextOID"
| "DuckdbTypeToPostgresOID TYPE_UUID = Some UUIDOID"
| "DuckdbTypeToPostgresOID TYPE_BIT = Some BitOID"
| "DuckdbTypeToPostgresOID TYPE_TIME_TZ = Some TimetzOID"
| "DuckdbTypeToPostgresOID TYPE_TIMESTAMP_TZ = Some TimestamptzOID"
| "DuckdbTypeToPostgresOID TYPE_ANY = Some TextOID"
| "DuckdbTypeToPostgresOID TYPE_VARINT = Some NumericOID"
| "DuckdbTypeToPostgresOID (TYPE_NESTED n) = None"

section \<open>Schemas\<close>

text \<open>
  The verb \<^verbatim>\<open>%d\<close> of \<^verbatim>\<open>fmt.Sscanf\<close> into an \<^verbatim>\<open>int32\<close>: white space, a sign, digits. \<open>scan_decimal\<close> is the scan of
  \<^verbatim>\<open>DECIMAL(%d,%d)\<close>; what follows the closing parenthesis is not read.
\<close>

definition is_decimal_digit :: "char \<Rightarrow> bool" where
  "is_decimal_digit c \<longleftrightarrow> (let n = (of_char c :: nat) in 48 \<le> n \<and> n \<le> 57)"

fun digits_value :: "string \<Rightarrow> int \<Rightarrow> int" where
  "digits_value [] acc = acc"
| "digits_value (c # cs) acc = digits_value cs (10 * acc + (of_char c - 48))"

definition scan_int32 :: "string \<Rightarrow> (int \<times> string) option" where
  "scan_int32 s0 =
     (let s1 = dropWhile (\<lambda>c. c = CHR '' '') s0;
          neg = has_prefix ''-'' s1;
          s2 = (if neg \<or> has_prefix ''+'' s1 then tl s1 else s1);
          ds = takeWhile is_decimal_digit s2;
          v = (if neg then - digits_value ds 0 else digits_value ds 0) in
      if ds = [] \<or> v < - (2 ^ 31) \<or> v \<ge> 2 ^ 31 then None else Some (v, dropWhile is_decimal_digit s2))"

definition scan_decimal :: "string \<Rightarrow> (int \<times> int) option" where
  "scan_decimal s =
     (if \<not> has_prefix ''DECIMAL('' s then None
      else case scan_int32 (drop 8 s) of
        None \<Rightarrow> None
      | Some (p, s1) \<Rightarrow>
          (if \<not> has_prefix '','' s1 then None
           else case scan_int32 (tl s1) of
             None \<Rightarrow> None
           | Some (sc, s2) \<Rightarrow> (if has_prefix '')'' s2 then Some (p, sc) else None)))"

definition GoDuckDBTypeNameToPostgresType ::
    "(string \<Rightarrow> pg_type option) \<Rightarrow> string \<Rightarrow> (pg_type \<times> int \<times> int \<times> bool) res" where
  "GoDuckDBTypeNameToPostgresType TypeForName name0 =
     (let is_list = has_suffix ''[]'' name0;
          name1 = (if is_list then take (length name0 - 2) name0 else name0);
          is_decimal = has_prefix ''DECIMAL'' name1 in
      case (if is_decimal then scan_decimal name1 else Some (0, 0)) of
        None \<Rightarrow> Inl (Error ''input does not match format'')
      | Some (p, sc) \<Rightarrow>
          (let name = (if is_decimal then ''DECIMAL'' else name1);
               (pgTypeName, fallback) =
                 (case duckdbTypeNameToPostgresTypeName name of None \<Rightarrow> (''text'', True) | Some n \<Rightarrow> (n, False));
               pgTypeName = (if is_list then ''_'' @ pgTypeName else pgTypeName) in
           case TypeForName pgTypeName of
             Some t \<Rightarrow> Inr (t, p, sc, fallback)
           | None \<Rightarrow>
               (case TypeForName ''text'' of
                  Some t \<Rightarrow> Inr (t, p, sc, True)
                | None \<Rightarrow> Inl (Error (''unsupported type '' @ name)))))"

record column_info =
  ci_name :: string
  ci_databaseTypeName :: string
  ci_nullable :: bool
  ci_decimalSize :: "(int \<times> int) option"

definition infer_column :: "(string \<Rightarrow> pg_type option) \<Rightarrow> column_info \<Rightarrow> column res" where
  "infer_column TypeForName t =
     bind_res (GoDuckDBTypeNameToPostgresType TypeForName (ci_databaseTypeName t)) (\<lambda>(pgType, p, sc, fallback).
       let oid = pg_oid_of pgType;
           (p', sc') = (if oid = NumericOID \<or> oid = NumericArrayOID
                        then (case ci_decimalSize t of None \<Rightarrow> (p, sc) | Some ps \<Rightarrow> ps) else (p, sc)) in
       Inr \<lparr>col_name = ci_name t,
            col_type = Postgres \<lparr>PG = pgType, PgPrecision = p', PgScale = sc', PgSize = PostgresTypeSize oid, PgFallback = fallback\<rparr>,
            col_pk = False, col_nullable = ci_nullable t\<rparr>)"

definition InferSchema :: "(string \<Rightarrow> pg_type option) \<Rightarrow> column_info list \<Rightarrow> column list res" where
  "InferSchema TypeForName types = map_res (infer_column TypeForName) types"

section \<open>The two tables agree\<close>

text \<open>
  What the drivers document: the names go-duckdb reports for its types, and the types pgtype registers under
  the names used here.
\<close>

definition driver_names :: "(duckdb_type \<times> string) list" where
  "driver_names =
     [(TYPE_INVALID, ''INVALID''), (TYPE_BOOLEAN, ''BOOLEAN''), (TYPE_TINYINT, ''TINYINT''), (TYPE_SMALLINT, ''SMALLINT''),
      (TYPE_INTEGER, ''INTEGER''), (TYPE_BIGINT, ''BIGINT''), (TYPE_UTINYINT, ''UTINYINT''), (TYPE_USMALLINT, ''USMALLINT''),
      (TYPE_UINTEGER, ''UINTEGER''), (TYPE_UBIGINT, ''UBIGINT''), (TYPE_FLOAT, ''FLOAT''), (TYPE_DOUBLE, ''DOUBLE''),
      (TYPE_VARCHAR, ''VARCHAR''), (TYPE_BLOB, ''BLOB''), (TYPE_TIMESTAMP, ''TIMESTAMP''), (TYPE_DATE, ''DATE''), (TYPE_TIME, ''TIME''),
      (TYPE_INTERVAL, ''INTERVAL''), (TYPE_HUGEINT, ''HUGEINT''), (TYPE_UHUGEINT, ''UHUGEINT''), (TYPE_TIMESTAMP_S, ''TIMESTAMP_S''),
      (TYPE_TIMESTAMP_MS, ''TIMESTAMP_MS''), (TYPE_TIMESTAMP_NS, ''TIMESTAMP_NS''), (TYPE_ENUM, ''ENUM''), (TYPE_UUID, ''UUID''),
      (TYPE_BIT, ''BIT''), (TYPE_TIME_TZ, ''TIMETZ''), (TYPE_TIMESTAMP_TZ, ''TIMESTAMPTZ''), (TYPE_ANY, ''ANY''), (TYPE_VARINT, ''VARINT'')]"

definition registered :: "(string \<times> pg_oid) list" where
  "registered =
     [(''unknown'', UnknownOID), (''bool'', BoolOID), (''int2'', Int2OID), (''int4'', Int4OID), (''int8'', Int8OID), (''numeric'', NumericOID),
      (''float4'', Float4OID), (''float8'', Float8OID), (''timestamp'', TimestampOID), (''date'', DateOID), (''time'', TimeOID),
      (''interval'', IntervalOID), (''text'', TextOID), (''bytea'', ByteaOID), (''uuid'', UUIDOID), (''bit'', BitOID), (''timetz'', TimetzOID),
      (''timestamptz'', TimestamptzOID)]"

definition drivers_as_documented :: "(duckdb_type \<Rightarrow> string) \<Rightarrow> (string \<Rightarrow> pg_type option) \<Rightarrow> bool" where
  "drivers_as_documented typeName TypeForName \<longleftrightarrow>
     (\<forall>(t, n)\<in>set driver_names. typeName t = n) \<and>
     (\<forall>(n, oid)\<in>set registered. \<exists>elem. TypeForName n = Some (PGType oid elem))"

lemma digit_chars:
  assumes "d < 10"
  shows "is_decimal_digit (char_of (48 + d :: nat))" "of_char (char_of (48 + d :: nat)) - 48 = int d"
proof -
  have *: "of_char (char_of (48 + d :: nat) :: char) = (48 + d :: nat)" using assms by simp
  then have "(of_char (char_of (48 + d :: nat) :: char) :: int) = int (48 + d)"
    by (metis of_nat_of_char)
  with * show "is_decimal_digit (char_of (48 + d :: nat))" "of_char (char_of (48 + d :: nat)) - 48 = int d"
    using assms by (simp_all add: is_decimal_digit_def)
qed

lemma digits_value_append: "digits_value (s @ t) acc = digits_value t (digits_value s acc)"
  by (induction s arbitrary: acc) auto

lemma itoa_number: "digits_value (itoa n) 0 = int n \<and> (\<forall>c\<in>set (itoa n). is_decimal_digit c) \<and> itoa n \<noteq> []"
proof (induction n rule: itoa.induct)
  case (1 n)
  show ?case
  proof (cases "n < 10")
    case True
    then show ?thesis by (simp add: itoa.simps [of n] digit_chars)
  next
    case False
    have "10 * int (n div 10) + int (n mod 10) = int n"
      by (metis mult_div_mod_eq of_nat_add of_nat_mult of_nat_numeral)
    with False show ?thesis using 1 digit_chars [of "n mod 10"]
      by (simp add: itoa.simps [of n] digits_value_append)
  qed
qed

lemmas itoa_digits = itoa_number [THEN conjunct1] itoa_number [THEN conjunct2, THEN conjunct1] itoa_number [THEN conjunct2, THEN conjunct2]

lemma scan_int32_itoa:
  assumes "n < 2 ^ 31" "\<not> is_decimal_digit c"
  shows "scan_int32 (itoa n @ c # rest) = Some (int n, c # rest)"
proof -
  obtain d ds where d: "itoa n = d # ds" using itoa_digits(3) [of n] by (cases "itoa n") auto
  have dig: "is_decimal_digit d" using itoa_digits(2) [of n] d by simp
  then have "d \<noteq> CHR '' ''" "\<not> has_prefix ''-'' (d # x)" "\<not> has_prefix ''+'' (d # x)" for x
    by (auto simp: is_decimal_digit_def has_prefix_def)
  then have "scan_int32 (itoa n @ c # rest) =
      (let v = digits_value (takeWhile is_decimal_digit (itoa n @ c # rest)) 0 in
       if takeWhile is_decimal_digit (itoa n @ c # rest) = [] \<or> v < - (2 ^ 31) \<or> v \<ge> 2 ^ 31 then None
       else Some (v, dropWhile is_decimal_digit (itoa n @ c # rest)))"
    using d by (simp add: scan_int32_def Let_def)
  moreover have "takeWhile is_decimal_digit (itoa n @ c # rest) = itoa n" "dropWhile is_decimal_digit (itoa n @ c # rest) = c # rest"
    using itoa_digits(2) [of n] assms(2) by (simp_all add: takeWhile_append2 dropWhile_append2)
  moreover have "int n < 2 ^ 31" using assms(1) by (simp add: of_nat_less_iff [symmetric])
  ultimately show ?thesis by (simp add: itoa_digits)
qed

lemma scan_decimal_itoa:
  assumes "p < 2 ^ 31" "sc < 2 ^ 31"
  shows "scan_decimal (''DECIMAL('' @ itoa p @ '','' @ itoa sc @ '')'') = Some (int p, int sc)"
proof -
  have "\<not> is_decimal_digit (CHR '','')" "\<not> is_decimal_digit (CHR '')'')" by (simp_all add: is_decimal_digit_def)
  then have "scan_int32 (itoa p @ '','' @ itoa sc @ '')'') = Some (int p, '','' @ itoa sc @ '')'')" "scan_int32 (itoa sc @ '')'') = Some (int sc, '')'')"
    using scan_int32_itoa assms by simp_all
  then show ?thesis by (simp add: scan_decimal_def has_prefix_def)
qed

lemma table_entry:
  assumes "drivers_as_documented typeName TypeForName" "(t, n) \<in> set driver_names"
  shows "typeName t = n" "\<exists>oid elem. DuckdbTypeToPostgresOID t = Some oid \<and> GoDuckDBTypeNameToPostgresType TypeForName n = Inr (PGType oid elem, 0, 0, False)"
proof -
  show "typeName t = n" using assms by (auto simp: drivers_as_documented_def)
  have reg: "\<exists>elem. TypeForName m = Some (PGType oid elem)" if "map_of registered m = Some oid" for m oid
    using assms(1) map_of_SomeD [OF that] by (auto simp: drivers_as_documented_def)
  have "\<forall>(t, n)\<in>set driver_names. \<not> has_suffix ''[]'' n \<and> \<not> has_prefix ''DECIMAL'' n \<and>
      (\<exists>m oid. duckdbTypeNameToPostgresTypeName n = Some m \<and> map_of registered m = Some oid \<and> DuckdbTypeToPostgresOID t = Some oid)"
    by (simp add: driver_names_def registered_def has_suffix_def has_prefix_def duckdbTypeNameToPostgresTypeName_def)
  with assms(2) obtain m oid where "\<not> has_suffix ''[]'' n" "\<not> has_prefix ''DECIMAL'' n" "duckdbTypeNameToPostgresTypeName n = Some m"
    "map_of registered m = Some oid" "DuckdbTypeToPostgresOID t = Some oid" by blast
  then show "\<exists>oid elem. DuckdbTypeToPostgresOID t = Some oid \<and> GoDuckDBTypeNameToPostgresType TypeForName n = Inr (PGType oid elem, 0, 0, False)"
    using reg [of m oid] by (auto simp: GoDuckDBTypeNameToPostgresType_def)
qed


definition demo_typeName :: "duckdb_type \<Rightarrow> string" where
  "demo_typeName t = (case map_of driver_names t of None \<Rightarrow> ''LIST'' | Some n \<Rightarrow> n)"

definition demo_TypeForName :: "string \<Rightarrow> pg_type option" where
  "demo_TypeForName n = map_option (\<lambda>oid. PGType oid None) (map_of registered n)"


end
