(* ===== verification/PgExec.thy ===== *)
theory PgExec
  imports PgWire SqlText PgTypes
begin

text \<open>
  The execution of statements for Postgres connections (\<^verbatim>\<open>pgserver/duck_handler.go\<close>): the description of result
  columns, the encoding of rows, the batches in which rows are spooled, and the calls behind the messages of
  the protocol. The engine, the driver of DuckDB and pgx are the fields of \<open>exec_env\<close>.

  The goroutine that spools rows reads a channel that another one fills. Both are one loop here: it takes the
  rows of the iterator in their order, and when the iterator fails it has taken the first \<open>rows_seen\<close> of
  them, a number the scheduler chooses. The channel has room for the rows that follow a panic, and the timer, which fires
  when no row has come for a minute, does not fire. Neither executor sets the flag for results of at most one row or returns a nil schema.
\<close>

section \<open>Environment\<close>

datatype 'v item = RowItem "'v option list" | OkItem u64

record 'v row_iter =
  it_items :: "'v item list"
  it_error :: "string option"
  it_close :: "string option"

datatype 'v exec_result = OkResult u64 | RowResult "column list" "'v row_iter"

record ('e, 'v) exec_env =
  NewContextErr :: "string \<Rightarrow> 'e \<Rightarrow> string option"
  adapter_Exec :: "string \<Rightarrow> 'e \<Rightarrow> (string + u64) \<times> 'e"
  adapter_QueryCatalog :: "string \<Rightarrow> string list \<Rightarrow> 'e \<Rightarrow> (string + column_info list \<times> 'v row_iter) \<times> 'e"
  adapter_ExecCatalog :: "string \<Rightarrow> string list \<Rightarrow> 'e \<Rightarrow> (string + u64) \<times> 'e"
  hasProvider :: bool
  CreateCatalog :: "string \<Rightarrow> bool \<Rightarrow> 'e \<Rightarrow> (string + unit) \<times> 'e"
  DropCatalog :: "string \<Rightarrow> bool \<Rightarrow> 'e \<Rightarrow> (string + unit) \<times> 'e"
  setCurrentDatabase :: "'e \<Rightarrow> 'e"
  CastSQLError :: "string \<Rightarrow> string"
  PreferredFormat :: "pg_oid \<Rightarrow> int"
  MaxTextResponseByteLength :: "gms_type \<Rightarrow> int"
  pgTypeMap_Encode :: "u32 \<Rightarrow> int \<Rightarrow> 'v \<Rightarrow> string + bytes"
  type_SQL :: "gms_type \<Rightarrow> 'v \<Rightarrow> string + bytes"
  rows_seen :: nat
  PrepareContext :: "duck_stmt \<Rightarrow> string \<Rightarrow> 'e \<Rightarrow> (string + duckdb_type list) \<times> 'e"
  StatementType :: "duck_stmt option \<Rightarrow> 'e \<Rightarrow> StmtType res"
  stmt_Bind :: "duck_stmt option \<Rightarrow> string list \<Rightarrow> 'e \<Rightarrow> (string + unit) \<times> 'e"
  stmt_Close :: "duck_stmt option \<Rightarrow> 'e \<Rightarrow> string option \<times> 'e"
  QueryNulls :: "string \<Rightarrow> nat \<Rightarrow> 'e \<Rightarrow> (string + column_info list) \<times> 'e"
  TypeForName :: "string \<Rightarrow> pg_type option"
  RemoveSpaceAndDelimiter :: "string \<Rightarrow> string"

text \<open>A call of the engine, and a handler whose panics or errors are changed.\<close>

definition on_engine :: "('e \<Rightarrow> (string + 'a) \<times> 'e) \<Rightarrow> ('e, 'l, 'a) handler" where
  "on_engine f s =
     (case f (engine s) of
        (Inl e, e') \<Rightarrow> (Inl (Error e), s\<lparr>engine := e'\<rparr>)
      | (Inr x, e') \<Rightarrow> (Inr x, s\<lparr>engine := e'\<rparr>))"

definition new_context :: "('e, 'v) exec_env \<Rightarrow> string \<Rightarrow> ('e, 'l, unit) handler" where
  "new_context env query s = (case NewContextErr env query (engine s) of None \<Rightarrow> Inr () | Some e \<Rightarrow> Inl (Error e), s)"

definition mapping_error :: "(go_error \<Rightarrow> go_error) \<Rightarrow> ('s \<Rightarrow> 'a res \<times> 's) \<Rightarrow> 's \<Rightarrow> 'a res \<times> 's" where
  "mapping_error f m s = (case m s of (Inl e, s') \<Rightarrow> (Inl (f e), s') | (Inr x, s') \<Rightarrow> (Inr x, s'))"

definition lift_res :: "'a res \<Rightarrow> 's \<Rightarrow> 'a res \<times> 's" where
  "lift_res r s = (r, s)"

lemma lift_res_simps [simp]: "lift_res (Inr x) = return_go x" "lift_res (Inl e) = raise e"
  by (simp_all add: lift_res_def fun_eq_iff)

section \<open>Columns and rows\<close>

text \<open>The object ids of Postgres, as pgtype and pq name them.\<close>

fun oid_number :: "pg_oid \<Rightarrow> u32" where
  "oid_number BoolOID = 16" | "oid_number QCharOID = 18" | "oid_number ByteaOID = 17" | "oid_number NameOID = 19"
| "oid_number TextOID = 25" | "oid_number VarcharOID = 1043" | "oid_number BPCharOID = 1042" | "oid_number JSONOID = 114"
| "oid_number JSONBOID = 3802" | "oid_number XMLOID = 142" | "oid_number Int8OID = 20" | "oid_number Int2OID = 21"
| "oid_number Int4OID = 23" | "oid_number OIDOID = 26" | "oid_number TIDOID = 27" | "oid_number XIDOID = 28"
| "oid_number CIDOID = 29" | "oid_number Float4OID = 700" | "oid_number Float8OID = 701" | "oid_number DateOID = 1082"
| "oid_number TimeOID = 1083" | "oid_number TimetzOID = 1266" | "oid_number TimestampOID = 1114" | "oid_number TimestamptzOID = 1184"
| "oid_number IntervalOID = 1186" | "oid_number NumericOID = 1700" | "oid_number NumericArrayOID = 1231" | "oid_number UUIDOID = 2950"
| "oid_number PointOID = 600" | "oid_number UnknownOID = 705" | "oid_number MacaddrOID = 829" | "oid_number Macaddr8OID = 774"
| "oid_number BitOID = 1560" | "oid_number VarbitOID = 1562" | "oid_number (OtherOID n) = of_nat n"

definition VitessTypeToObjectID :: "query_type \<Rightarrow> u32 res" where
  "VitessTypeToObjectID typ =
     (case typ of
        Type_INT8 \<Rightarrow> Inr (oid_number Int2OID)
      | Type_INT16 \<Rightarrow> Inr (oid_number Int2OID)
      | Type_INT24 \<Rightarrow> Inr (oid_number Int4OID)
      | Type_INT32 \<Rightarrow> Inr (oid_number Int4OID)
      | Type_INT64 \<Rightarrow> Inr (oid_number Int8OID)
      | Type_UINT8 \<Rightarrow> Inr (oid_number Int4OID)
      | Type_UINT16 \<Rightarrow> Inr (oid_number Int4OID)
      | Type_UINT24 \<Rightarrow> Inr (oid_number Int4OID)
      | Type_UINT32 \<Rightarrow> Inr (oid_number OIDOID)
      | Type_UINT64 \<Rightarrow> Inr (oid_number NumericOID)
      | Type_FLOAT32 \<Rightarrow> Inr (oid_number Float4OID)
      | Type_FLOAT64 \<Rightarrow> Inr (oid_number Float8OID)
      | Type_DECIMAL \<Rightarrow> Inr (oid_number NumericOID)
      | Type_CHAR \<Rightarrow> Inr (oid_number QCharOID)
      | Type_VARCHAR \<Rightarrow> Inr (oid_number VarcharOID)
      | Type_TEXT \<Rightarrow> Inr (oid_number TextOID)
      | Type_BLOB \<Rightarrow> Inr (oid_number ByteaOID)
      | Type_JSON \<Rightarrow> Inr (oid_number JSONOID)
      | Type_TIMESTAMP \<Rightarrow> Inr (oid_number TimestampOID)
      | Type_DATETIME \<Rightarrow> Inr (oid_number TimestampOID)
      | Type_DATE \<Rightarrow> Inr (oid_number DateOID)
      | Type_NULL_TYPE \<Rightarrow> Inr (oid_number TextOID)
      | Type_ENUM \<Rightarrow> Inr (oid_number TextOID)
      | _ \<Rightarrow> Inl (Error ''unsupported type''))"

datatype QueryMode = SimpleQueryMode | ExtendedQueryMode

definition column_format :: "('e, 'v) exec_env \<Rightarrow> int list \<Rightarrow> QueryMode \<Rightarrow> nat \<Rightarrow> pg_oid \<Rightarrow> int res" where
  "column_format env resultFormatCodes mode i oid =
     (if mode = SimpleQueryMode then Inr 0
      else if resultFormatCodes = [] then Inr (PreferredFormat env oid)
      else if length resultFormatCodes = 1 then Inr (resultFormatCodes ! 0)
      else if i < length resultFormatCodes then Inr (resultFormatCodes ! i)
      else Inl (Panic ''index out of range''))"

definition field_of :: "('e, 'v) exec_env \<Rightarrow> int list \<Rightarrow> QueryMode \<Rightarrow> nat \<times> column \<Rightarrow> field_description res" where
  "field_of env resultFormatCodes mode = (\<lambda>(i, c).
     case col_type c of
       Postgres p \<Rightarrow>
         bind_res (column_format env resultFormatCodes mode i (pg_oid_of (PG p))) (\<lambda>format.
           Inr \<lparr>fd_name = col_name c, fd_oid = oid_number (pg_oid_of (PG p)), fd_size = word_of_int (PgSize p), fd_format = format\<rparr>)
     | GMS g \<Rightarrow>
         (case VitessTypeToObjectID (qtype g) of
            Inl e \<Rightarrow> Inl (Panic (error_text e))
          | Inr oid \<Rightarrow>
              Inr \<lparr>fd_name = col_name c, fd_oid = oid, fd_size = word_of_int (MaxTextResponseByteLength env g), fd_format = 0\<rparr>))"

definition schemaToFieldDescriptions ::
    "('e, 'v) exec_env \<Rightarrow> column list \<Rightarrow> int list \<Rightarrow> QueryMode \<Rightarrow> field_description list res" where
  "schemaToFieldDescriptions env s resultFormatCodes mode = map_res (field_of env resultFormatCodes mode) (enumerate 0 s)"

definition value_to_bytes ::
    "('e, 'v) exec_env \<Rightarrow> column list \<Rightarrow> field_description list \<Rightarrow> nat \<times> 'v option \<Rightarrow> bytes option res" where
  "value_to_bytes env s fds = (\<lambda>(i, v).
     case v of
       None \<Rightarrow> Inr None
     | Some x \<Rightarrow>
         (if i \<ge> length s then Inl (Panic ''index out of range'')
          else case col_type (s ! i) of
            Postgres p \<Rightarrow>
              (if i \<ge> length fds then Inl (Panic ''index out of range'')
               else case pgTypeMap_Encode env (fd_oid (fds ! i)) (fd_format (fds ! i)) x of
                 Inl e \<Rightarrow> Inl (Error e) | Inr b \<Rightarrow> Inr (Some b))
          | GMS g \<Rightarrow> (case type_SQL env g x of Inl e \<Rightarrow> Inl (Error e) | Inr b \<Rightarrow> Inr (Some b))))"

definition rowToBytes ::
    "('e, 'v) exec_env \<Rightarrow> column list \<Rightarrow> field_description list \<Rightarrow> 'v option list \<Rightarrow> bytes option list res" where
  "rowToBytes env s fds row =
     (if row = [] then Inr []
      else if s = [] then Inl (Error ''received empty schema'')
      else map_res (value_to_bytes env s fds) (enumerate 0 row))"

section \<open>Spooling\<close>

record result =
  r_fields :: "field_description list"
  r_rows :: "bytes option list list"
  r_affected :: u64

text \<open>
  A callback is called with a result and the variables it captures, of type \<open>'c\<close>. A full batch is handed to it
  before the next row is read.
\<close>

type_synonym ('c, 'e, 'l) callback = "'c \<Rightarrow> result \<Rightarrow> ('e, 'l, 'c) handler"

definition empty_result :: "field_description list \<Rightarrow> result" where
  "empty_result fds = \<lparr>r_fields = fds, r_rows = [], r_affected = 0\<rparr>"

definition rowsBatch :: u64 where
  "rowsBatch = 128"

definition flush_batch ::
    "('c, 'e, 'l) callback \<Rightarrow> field_description list \<Rightarrow> 'c \<times> result \<times> bool \<Rightarrow> ('e, 'l, 'c \<times> result \<times> bool) handler" where
  "flush_batch callback fds = (\<lambda>(c, r, processed).
     if r_affected r = rowsBatch then bind_go (callback c r) (\<lambda>c'. return_go (c', empty_result fds, True))
     else return_go (c, r, processed))"

fun spool ::
    "('c, 'e, 'l) callback \<Rightarrow> ('v option list \<Rightarrow> bytes option list res) \<Rightarrow> field_description list \<Rightarrow> 'v item list \<Rightarrow>
       'c \<times> result \<times> bool \<Rightarrow> ('e, 'l, 'c \<times> result \<times> bool) handler" where
  "spool callback enc fds [] st = flush_batch callback fds st"
| "spool callback enc fds (x # xs) st =
     bind_go (flush_batch callback fds st) (\<lambda>(c, r, processed).
       case x of
         OkItem n \<Rightarrow>
           (if r_rows r \<noteq> [] then raise (Panic ''Got OkResult mixed with RowResult'')
            else spool callback enc fds xs (c, \<lparr>r_fields = [], r_rows = [], r_affected = n\<rparr>, processed))
       | RowItem row \<Rightarrow>
           (case enc row of
              Inl e \<Rightarrow> raise e
            | Inr out \<Rightarrow> spool callback enc fds xs (c, r\<lparr>r_rows := r_rows r @ [out], r_affected := r_affected r + 1\<rparr>, processed)))"

text \<open>
  A panic of the spooling goroutine becomes an error, which gives way to the error of the iterator or, if there is none, to
  that of its \<^verbatim>\<open>Close\<close>.
\<close>

fun caught_panic :: "'v row_iter \<Rightarrow> go_error \<Rightarrow> go_error" where
  "caught_panic it (Panic p) =
     Error (case it_error it of
       Some e \<Rightarrow> e
     | None \<Rightarrow> (case it_close it of Some e \<Rightarrow> e | None \<Rightarrow> ''DoltgresHandler caught panic: '' @ p))"
| "caught_panic it (Error e) = Error e"

definition resultForDefaultIter ::
    "('e, 'v) exec_env \<Rightarrow> column list \<Rightarrow> 'v row_iter \<Rightarrow> ('c, 'e, 'l) callback \<Rightarrow> field_description list \<Rightarrow> 'c \<Rightarrow>
       ('e, 'l, 'c \<times> result \<times> bool) handler" where
  "resultForDefaultIter env s it callback fds c =
     (let run = (\<lambda>items. mapping_error (caught_panic it) (spool callback (rowToBytes env s fds) fds items (c, empty_result fds, False))) in
      case it_error it of
        None \<Rightarrow> bind_go (run (it_items it)) (\<lambda>st. case it_close it of None \<Rightarrow> return_go st | Some e \<Rightarrow> raise (Error e))
      | Some e \<Rightarrow> bind_go (run (take (rows_seen env) (it_items it))) (\<lambda>_. raise (Error e)))"

definition doQuery ::
    "('e, 'v) exec_env \<Rightarrow> string \<Rightarrow> int list \<Rightarrow> QueryMode \<Rightarrow> ('e, 'l, 'v exec_result) handler \<Rightarrow> ('c, 'e, 'l) callback \<Rightarrow> 'c \<Rightarrow>
       ('e, 'l, 'c) handler" where
  "doQuery env query resultFormatCodes mode queryExec callback c =
     bind_go (new_context env query) (\<lambda>_.
     bind_go queryExec (\<lambda>result s.
       let s' = s\<lparr>engine := setCurrentDatabase env (engine s)\<rparr> in
       case result of
         OkResult n \<Rightarrow> callback c \<lparr>r_fields = [], r_rows = [], r_affected = n\<rparr> s'
       | RowResult sch it \<Rightarrow>
           bind_go (lift_res (schemaToFieldDescriptions env sch resultFormatCodes mode)) (\<lambda>fds.
           bind_go (resultForDefaultIter env sch it callback fds c) (\<lambda>(c', r, processed).
             if r_affected r = 0 \<and> processed then return_go c' else callback c' r)) s'))"

section \<open>Executors\<close>

text \<open>The statements that are executed without reading rows.\<close>

fun returns_no_rows :: "ast \<Rightarrow> bool" where
  "returns_no_rows BeginTransaction = True" | "returns_no_rows CommitTransaction = True" | "returns_no_rows RollbackTransaction = True"
| "returns_no_rows CreateTable = True" | "returns_no_rows DropTable = True" | "returns_no_rows AlterTable = True"
| "returns_no_rows CreateIndex = True" | "returns_no_rows DropIndex = True" | "returns_no_rows Insert = True"
| "returns_no_rows Update = True" | "returns_no_rows Delete = True" | "returns_no_rows Truncate = True"
| "returns_no_rows (CopyFrom c) = True" | "returns_no_rows (CopyTo t f) = True" | "returns_no_rows (SetVar n vs r ra) = True"
| "returns_no_rows a = False"

definition query_rows :: "('e, 'v) exec_env \<Rightarrow> string \<Rightarrow> string list \<Rightarrow> ('e, 'l, 'v exec_result) handler" where
  "query_rows env query vars =
     bind_go (on_engine (adapter_QueryCatalog env query vars)) (\<lambda>(types, it).
     bind_go (lift_res (InferSchema (TypeForName env) types)) (\<lambda>sch. return_go (RowResult sch it)))"

definition executeQuery :: "('e, 'v) exec_env \<Rightarrow> string \<Rightarrow> ast option \<Rightarrow> ('e, 'l, 'v exec_result) handler" where
  "executeQuery env query parsed =
     (case parsed of
        None \<Rightarrow> query_rows env query []
      | Some a \<Rightarrow>
          (if returns_no_rows a then bind_go (on_engine (adapter_Exec env query)) (\<lambda>n. return_go (OkResult n))
           else case a of
             CreateDatabase name ifNotExists \<Rightarrow>
               (if \<not> hasProvider env then raise (Error ''database provider not found'')
                else bind_go (on_engine (CreateCatalog env name ifNotExists)) (\<lambda>_. return_go (OkResult 0)))
           | DropDatabase name ifExists \<Rightarrow>
               (if \<not> hasProvider env then raise (Error ''database provider not found'')
                else bind_go (on_engine (DropCatalog env name ifExists)) (\<lambda>_. return_go (OkResult 0)))
           | _ \<Rightarrow> query_rows env query []))"

definition queries :: "StmtType \<Rightarrow> bool" where
  "queries t \<longleftrightarrow> t \<in> {STATEMENT_SELECT, STATEMENT_RELATION, STATEMENT_CALL, STATEMENT_PRAGMA, STATEMENT_EXPLAIN}"

definition executeBoundPlan :: "('e, 'v) exec_env \<Rightarrow> string \<Rightarrow> duck_stmt option \<Rightarrow> string list \<Rightarrow> ('e, 'l, 'v exec_result) handler" where
  "executeBoundPlan env query stmt vars =
     bind_go (\<lambda>s. (StatementType env stmt (engine s), s)) (\<lambda>stmtType.
       if queries stmtType then query_rows env query vars
       else bind_go (on_engine (adapter_ExecCatalog env query vars)) (\<lambda>n. return_go (OkResult n)))"

section \<open>Calls of the connection handler\<close>

definition cast_error :: "('e, 'v) exec_env \<Rightarrow> go_error \<Rightarrow> go_error" where
  "cast_error env e = (case e of Error m \<Rightarrow> Error (CastSQLError env m) | Panic p \<Rightarrow> Panic p)"

definition ComQuery ::
    "('e, 'v) exec_env \<Rightarrow> string \<Rightarrow> ast option \<Rightarrow> ('c, 'e, 'l) callback \<Rightarrow> 'c \<Rightarrow> ('e, 'l, 'c) handler" where
  "ComQuery env query parsed callback c =
     mapping_error (cast_error env) (doQuery env query [] SimpleQueryMode (executeQuery env query parsed) callback c)"

definition ComExecuteBound ::
    "('e, 'v) exec_env \<Rightarrow> PortalData \<Rightarrow> ('c, 'e, 'l) callback \<Rightarrow> 'c \<Rightarrow> ('e, 'l, 'c) handler" where
  "ComExecuteBound env portal callback c =
     (let query = st_string (po_statement portal) in
      mapping_error (cast_error env)
        (doQuery env query (po_resultFormatCodes portal) ExtendedQueryMode
          (executeBoundPlan env query (po_stmt portal) (po_vars portal)) callback c))"

definition ComBind ::
    "('e, 'v) exec_env \<Rightarrow> PreparedStatementData \<Rightarrow> string list \<Rightarrow> ('e, 'l, field_description list) handler" where
  "ComBind env prepared bindVars =
     bind_go (on_engine (stmt_Bind env (ps_stmt prepared) bindVars)) (\<lambda>_. return_go (ps_returnFields prepared))"

text \<open>\<^verbatim>\<open>Stmt.Close\<close>, whose error is ignored; it may panic.\<close>

definition close_stmt :: "('e, 'v) exec_env \<Rightarrow> duck_stmt option \<Rightarrow> ('e, 'l, unit) handler" where
  "close_stmt env h s =
     (case stmt_Close env h (engine s) of
        (p, e') \<Rightarrow>
          (case p of None \<Rightarrow> Inr () | Some m \<Rightarrow> Inl (Panic m),
           s\<lparr>engine := e', closes := (case h of None \<Rightarrow> closes s | Some n \<Rightarrow> closes s @ [n])\<rparr>))"

definition prepare :: "('e, 'v) exec_env \<Rightarrow> string \<Rightarrow> ('e, 'l, duck_stmt \<times> duckdb_type list) handler" where
  "prepare env query s =
     (let h = nextStmt s in
      bind_go (on_engine (PrepareContext env h query)) (\<lambda>types. return_go (h, types)) (s\<lparr>nextStmt := h + 1\<rparr>))"

text \<open>
  \<^verbatim>\<open>ComPrepareParsed\<close>: the statement, the types of its parameters and the fields of its result. The error of
  \<^verbatim>\<open>InferSchema\<close> is assigned to a variable of the inner scope, so it is dropped and there are no fields.
\<close>

definition affected_rows_field :: field_description where
  "affected_rows_field = \<lparr>fd_name = ''Rows'', fd_oid = oid_number Int4OID, fd_size = 4, fd_format = 0\<rparr>"

definition result_fields ::
    "('e, 'v) exec_env \<Rightarrow> string \<Rightarrow> StmtType \<Rightarrow> nat \<Rightarrow> ('e, 'l, field_description list) handler" where
  "result_fields env query stmtType n =
     (if \<not> queries stmtType then return_go [affected_rows_field]
      else
        let q = (if stmtType = STATEMENT_SELECT \<or> stmtType = STATEMENT_RELATION
                 then ''SELECT * FROM ('' @ RemoveSpaceAndDelimiter env query @ '') LIMIT 0'' else query) in
        bind_go (on_engine (QueryNulls env q n)) (\<lambda>types.
          case InferSchema (TypeForName env) types of
            Inl e \<Rightarrow> return_go []
          | Inr sch \<Rightarrow> lift_res (schemaToFieldDescriptions env sch [] ExtendedQueryMode)))"

definition parameter_oid :: "duckdb_type \<Rightarrow> u32" where
  "parameter_oid t = (case DuckdbTypeToPostgresOID t of None \<Rightarrow> 0 | Some oid \<Rightarrow> oid_number oid)"

definition ComPrepareParsed ::
    "('e, 'v) exec_env \<Rightarrow> string \<Rightarrow> ('e, 'l, duck_stmt \<times> u32 list \<times> field_description list) handler" where
  "ComPrepareParsed env query =
     bind_go (new_context env query) (\<lambda>_.
     bind_go (prepare env query) (\<lambda>(h, types).
     bind_go (\<lambda>s. (StatementType env (Some h) (engine s), s)) (\<lambda>stmtType.
     bind_go (attempt (result_fields env query stmtType (length types))) (\<lambda>r.
       case r of
         Inl e \<Rightarrow> bind_go (close_stmt env (Some h)) (\<lambda>_. raise (Error e))
       | Inr fds \<Rightarrow> return_go (h, map parameter_oid types, fds)))))"

definition getStatementTag :: "('e, 'v) exec_env \<Rightarrow> string \<Rightarrow> ('e, 'l, string) handler" where
  "getStatementTag env query =
     bind_go (new_context env []) (\<lambda>_.
     bind_go (prepare env query) (\<lambda>(h, types).
     bind_go (\<lambda>s. (Inr (StatementType env (Some h) (engine s)), s)) (\<lambda>t.
     bind_go (close_stmt env (Some h)) (\<lambda>_.
     bind_go (lift_res t) (\<lambda>stmtType. return_go (GetStatementTag stmtType))))))"

end
