(* ===== verification/PgQuery.thy ===== *)
theory PgQuery
  imports PgExec
begin

text \<open>
  Statements of Postgres connections: the conversion of a query into statements and the answer to one
  (\<^verbatim>\<open>convertQuery\<close>, \<^verbatim>\<open>run\<close>, \<^verbatim>\<open>spoolRowsCallback\<close> and \<^verbatim>\<open>makeCommandComplete\<close> of \<^verbatim>\<open>pgserver/connection_handler.go\<close>), and the
  statements that are answered without the engine (\<^verbatim>\<open>pgserver/in_place_handler.go\<close>).

  The parser of CockroachDB, the regular expressions and the rewriting functions that use them, the session
  variables of the SQL engine and the management of subscriptions, backups and restores are the fields of
  \<open>text_env\<close> and \<open>session_env\<close>.
\<close>

section \<open>Environment\<close>

record text_env =
  ParseSQL :: "string \<Rightarrow> string + (string \<times> ast \<times> string) list"
  ParseOne :: "string \<Rightarrow> string + ast"
  parseSubscriptionSQL :: "string \<Rightarrow> special_config option"
  parseBackupSQL :: "string \<Rightarrow> special_config option"
  parseRestoreSQL :: "string \<Rightarrow> special_config option"
  pgIsInRecoveryRegex :: "string \<Rightarrow> bool"
  pgWALLSNRegex :: "string \<Rightarrow> bool"
  currentSettingRegex :: "string \<Rightarrow> string option"
  pgCatalogRegex :: "string \<Rightarrow> bool"
  renamePgCatalogFuncRegex :: "string \<Rightarrow> bool"
  pgFuncRegex :: "string \<Rightarrow> bool"
  simpleStringMatchingRegex :: "string \<Rightarrow> bool"
  pgAnyOpRegex :: "string \<Rightarrow> bool"
  ConvertToSys :: "string \<Rightarrow> string"
  ConvertPgCatalogFuncToSys :: "string \<Rightarrow> string"
  ConvertToDuckDBMacro :: "string \<Rightarrow> string"
  SimpleStrReplacement :: "string \<Rightarrow> string"
  ConvertAnyOp :: "string \<Rightarrow> string"
  IsValidPostgresConfigParameter :: "string \<Rightarrow> bool"

record 'e session_env =
  flush_err :: "backend list \<Rightarrow> string option"
  GetGlobal :: "string \<Rightarrow> string option"
  GetSessionValue :: "string \<Rightarrow> 'e \<Rightarrow> (string + string) \<times> 'e"
  SetSessionValue :: "string \<Rightarrow> string option \<Rightarrow> 'e \<Rightarrow> (string + unit) \<times> 'e"
  CountSubscriptions :: "'e \<Rightarrow> (string + nat) \<times> 'e"
  SelectSubscription :: "'e \<Rightarrow> (string + string option) \<times> 'e"
  executeSubscriptionSQL :: "string \<Rightarrow> 'e \<Rightarrow> (string + unit) \<times> 'e"
  executeBackup :: "string \<Rightarrow> 'e \<Rightarrow> (string + string) \<times> 'e"
  executeRestore :: "string \<Rightarrow> 'e \<Rightarrow> (string + string) \<times> 'e"
  CloseConn :: "'e \<Rightarrow> 'e"

record ('e, 'v) query_env =
  exec :: "('e, 'v) exec_env"
  texts :: text_env
  session :: "'e session_env"

abbreviation flushes :: "('e, 'v, 'z) query_env_scheme \<Rightarrow> backend list \<Rightarrow> string option" where
  "flushes env \<equiv> flush_err (session env)"

section \<open>Converting queries\<close>

definition plain_statement :: "string \<Rightarrow> string \<Rightarrow> ConvertedStatement" where
  "plain_statement query tag = \<lparr>st_string = query, st_ast = None, st_tag = tag, st_pgParsable = False, st_special = None\<rparr>"

definition special_statement :: "string \<Rightarrow> special_config \<Rightarrow> ConvertedStatement" where
  "special_statement query c = \<lparr>st_string = query, st_ast = None, st_tag = [], st_pgParsable = True, st_special = Some c\<rparr>"

definition incompatible :: string where
  "incompatible = ''SELECT 'SQL syntax is incompatible with PostgreSQL' AS error''"

definition convert_parsed :: "string \<times> ast \<times> string \<Rightarrow> ConvertedStatement" where
  "convert_parsed = (\<lambda>(sql, a, tag).
     let full = handleFullMatchQuery sql in
     \<lparr>st_string = (if full \<noteq> [] then full else sql), st_ast = Some a, st_tag = tag, st_pgParsable = True, st_special = None\<rparr>)"

definition convertQuery :: "text_env \<Rightarrow> (string \<Rightarrow> string) \<Rightarrow> string \<Rightarrow> ConvertedStatement list res" where
  "convertQuery env trim query =
     (case parseSubscriptionSQL env query of
        Some c \<Rightarrow> Inr [special_statement query c]
      | None \<Rightarrow>
     (case parseBackupSQL env query of
        Some c \<Rightarrow> Inr [special_statement query c]
      | None \<Rightarrow>
     (case parseRestoreSQL env query of
        Some c \<Rightarrow> Inr [special_statement query c]
      | None \<Rightarrow>
     (case ParseSQL env query of
        Inl e \<Rightarrow>
          (case ParseSQL env incompatible of
             Inr ((sql, a, tag) # stmts) \<Rightarrow>
               Inr [\<lparr>st_string = query, st_ast = Some a, st_tag = GuessStatementTag trim query, st_pgParsable = False, st_special = None\<rparr>]
           | _ \<Rightarrow> Inl (Panic ''index out of range''))
      | Inr stmts \<Rightarrow> Inr (if stmts = [] then [plain_statement query []] else map convert_parsed stmts)))))"

section \<open>Answers\<close>

text \<open>The verb \<^verbatim>\<open>%d\<close> for an \<^verbatim>\<open>int32\<close>.\<close>

definition format_int32 :: "u32 \<Rightarrow> string" where
  "format_int32 n = (if sint n < 0 then ''-'' @ itoa (nat (- sint n)) else itoa (nat (sint n)))"

definition makeCommandComplete :: "string \<Rightarrow> u32 \<Rightarrow> backend" where
  "makeCommandComplete tag rows =
     (if tag \<in> {''INSERT'', ''DELETE'', ''UPDATE'', ''MERGE'', ''SELECT'', ''CREATE TABLE AS'', ''MOVE'', ''FETCH'', ''COPY''}
      then CommandComplete ((if tag = ''INSERT'' then ''INSERT 0'' else tag) @ '' '' @ format_int32 rows)
      else CommandComplete tag)"

definition returnsRow :: "string \<Rightarrow> bool" where
  "returnsRow tag \<longleftrightarrow> tag \<in> {''SELECT'', ''SHOW'', ''FETCH'', ''EXPLAIN'', ''SHOW TABLES''}"

text \<open>The callback captures whether the row description has been sent, and the number of rows.\<close>

definition spoolRowsCallback :: "(backend list \<Rightarrow> string option) \<Rightarrow> string \<Rightarrow> bool \<Rightarrow> (bool \<times> u32, 'e, 'l) callback" where
  "spoolRowsCallback flush tag isExecute = (\<lambda>(sent, rows) res.
     let isIUD = tag \<in> {''INSERT'', ''UPDATE'', ''DELETE''};
         describes = returnsRow tag \<and> \<not> isExecute \<and> \<not> sent;
         messages = (if describes then [RowDescription (r_fields res)] else []) @
                    (if returnsRow tag then map DataRow (r_rows res) else []) in
     bind_go (send_all flush messages) (\<lambda>_.
       return_go (sent \<or> describes,
         if isIUD then ucast (r_affected res) else rows + of_nat (length (r_rows res)))))"

definition statement_tag :: "('e, 'v, 'z) query_env_scheme \<Rightarrow> ConvertedStatement \<Rightarrow> ('e, 'l, string) handler" where
  "statement_tag env st =
     (if \<not> st_pgParsable st \<and> \<not> IsWellKnownStatementTag (st_tag st) then getStatementTag (exec env) (st_string st)
      else return_go (st_tag st))"

definition run :: "('e, 'v, 'z) query_env_scheme \<Rightarrow> ConvertedStatement \<Rightarrow> ('e, 'l, unit) handler" where
  "run env st =
     bind_go (statement_tag env st) (\<lambda>tag.
       case st_special st of
         Some (SubscriptionConfig c) \<Rightarrow> on_engine (executeSubscriptionSQL (session env) c)
       | Some (BackupConfig c) \<Rightarrow>
           bind_go (on_engine (executeBackup (session env) c)) (\<lambda>msg. send (flushes env) (ErrorResponse [] [] msg))
       | Some (RestoreConfig c) \<Rightarrow>
           bind_go (on_engine (executeRestore (session env) c)) (\<lambda>msg. send (flushes env) (ErrorResponse [] [] msg))
       | None \<Rightarrow>
           bind_go
             (mapping_error (\<lambda>e. case e of Error m \<Rightarrow> Error (''fallback statement execution failed: '' @ m) | Panic p \<Rightarrow> Panic p)
               (ComQuery (exec env) (st_string st) (st_ast st) (spoolRowsCallback (flushes env) tag False) (False, 0)))
             (\<lambda>(sent, rows). send (flushes env) (makeCommandComplete tag rows)))"

section \<open>Statements answered in place\<close>

text \<open>A result with a flag and an error, as Go functions return it.\<close>

definition flagged :: "bool \<Rightarrow> ('s \<Rightarrow> 'a res \<times> 's) \<Rightarrow> 's \<Rightarrow> (bool \<times> string option) res \<times> 's" where
  "flagged b m = bind_go (attempt m) (\<lambda>r. return_go (b, case r of Inl e \<Rightarrow> Some e | Inr _ \<Rightarrow> None))"

definition isInRecovery :: "('e, 'v, 'z) query_env_scheme \<Rightarrow> ('e, 'l, string) handler" where
  "isInRecovery env =
     bind_go (new_context (exec env) []) (\<lambda>_.
     bind_go (on_engine (CountSubscriptions (session env))) (\<lambda>count. return_go (if count = 0 then ''f'' else ''t'')))"

definition readOneWALPositionStr :: "('e, 'v, 'z) query_env_scheme \<Rightarrow> ('e, 'l, string) handler" where
  "readOneWALPositionStr env =
     bind_go (new_context (exec env) []) (\<lambda>_.
     bind_go (on_engine (SelectSubscription (session env))) (\<lambda>lsn. return_go (case lsn of None \<Rightarrow> ''0/0'' | Some l \<Rightarrow> l)))"

definition queryPGSetting :: "('e, 'v, 'z) query_env_scheme \<Rightarrow> string \<Rightarrow> ('e, 'l, string) handler" where
  "queryPGSetting env name =
     (case GetGlobal (session env) name of
        None \<Rightarrow> raise (Error (''error: '' @ name @ '' variable was not found''))
      | Some _ \<Rightarrow>
          bind_go (mapping_error (\<lambda>e. Error (''error creating context: '' @ error_text e)) (new_context (exec env) [])) (\<lambda>_.
          mapping_error (\<lambda>e. Error (''error: '' @ name @ '' variable was not found, err: '' @ error_text e))
            (on_engine (GetSessionValue (session env) name))))"

definition setPgSessionVar ::
    "('e, 'v, 'z) query_env_scheme \<Rightarrow> string \<Rightarrow> string \<Rightarrow> bool \<Rightarrow> string \<Rightarrow> ('e, 'l, bool \<times> string option) handler" where
  "setPgSessionVar env name value useDefault tag =
     (case GetGlobal (session env) name of
        None \<Rightarrow> return_go (False, Some (''error: '' @ name @ '' variable was not found''))
      | Some _ \<Rightarrow>
          bind_go (attempt
            (bind_go (new_context (exec env) []) (\<lambda>_.
             bind_go (on_engine (SetSessionValue (session env) name (if useDefault then None else Some value))) (\<lambda>_.
             mapping_error (\<lambda>e. Error (''error: '' @ name @ '' variable was not found, err: '' @ error_text e))
               (on_engine (GetSessionValue (session env) name)))))) (\<lambda>r.
          case r of
            Inl e \<Rightarrow> return_go (False, Some e)
          | Inr v \<Rightarrow> flagged True (send_all (flushes env) [makeCommandComplete tag 0, ParameterStatus name v])))"

text \<open>
  \<^verbatim>\<open>selectionConversions\<close>: when a query needs a conversion, the converted text, and whether the converted query is a
  constant.
\<close>

definition selectionConversions ::
    "('e, 'v, 'z) query_env_scheme \<Rightarrow> ((string \<Rightarrow> bool) \<times> (string \<Rightarrow> ('e, 'l, string) handler) \<times> bool) list" where
  "selectionConversions env =
     (let t = texts env in
      [(\<lambda>q. pgIsInRecoveryRegex t (RemoveComments q),
        \<lambda>q. bind_go (isInRecovery env) (\<lambda>r. return_go (''SELECT '' @ [squote] @ r @ [squote] @ '' AS '' @ [quotation] @ ''pg_is_in_recovery'' @ [quotation] @ '';'')),
        False),
       (\<lambda>q. pgWALLSNRegex t (RemoveComments q),
        \<lambda>q. bind_go (readOneWALPositionStr env) (\<lambda>r. return_go (''SELECT '' @ [squote] @ r @ [squote] @ '' AS '' @ [quotation] @ ''pg_current_wal_lsn'' @ [quotation] @ '';'')),
        False),
       (\<lambda>q. case currentSettingRegex t (RemoveComments q) of None \<Rightarrow> False | Some name \<Rightarrow> IsValidPostgresConfigParameter t name,
        \<lambda>q. (case currentSettingRegex t (RemoveComments q) of
               None \<Rightarrow> raise (Panic ''index out of range'')
             | Some name \<Rightarrow>
                 bind_go (queryPGSetting env name) (\<lambda>v. return_go (''SELECT '' @ [squote] @ v @ [squote] @ '' AS '' @ [quotation] @ ''current_setting'' @ [quotation] @ '';''))),
        True),
       (\<lambda>q. pgCatalogRegex t (RemoveComments q), \<lambda>q. return_go (ConvertToSys t q), False),
       (\<lambda>q. renamePgCatalogFuncRegex t (RemoveComments q) \<or> pgFuncRegex t (RemoveComments q),
        \<lambda>q. return_go (ConvertToDuckDBMacro t (if renamePgCatalogFuncRegex t q then ConvertPgCatalogFuncToSys t q else q)),
        False),
       (\<lambda>q. simpleStringMatchingRegex t (RemoveComments q), \<lambda>q. return_go (SimpleStrReplacement t (RemoveComments q)), False),
       (\<lambda>q. pgAnyOpRegex t (RemoveComments q), \<lambda>q. return_go (ConvertAnyOp t (RemoveComments q)), False)])"

text \<open>The handlers of \<^verbatim>\<open>SELECT\<close>: the decision at \<^verbatim>\<open>Parse\<close>, which rewrites the statement, and the execution.\<close>

fun select_in_place ::
    "((string \<Rightarrow> bool) \<times> (string \<Rightarrow> ('e, 'l, string) handler) \<times> bool) list \<Rightarrow> ConvertedStatement \<Rightarrow> ('e, 'l, bool \<times> ConvertedStatement) handler"
where
  "select_in_place [] st s = return_go (False, st) s"
| "select_in_place ((needConvert, doConvert, isConst) # convs) st s =
     (if needConvert (st_string st) then
        (if isConst then return_go (True, st) s
         else bind_go (doConvert (st_string st)) (\<lambda>q. select_in_place convs (st\<lparr>st_string := q\<rparr>)) s)
      else select_in_place convs st s)"

fun convert_selection ::
    "((string \<Rightarrow> bool) \<times> (string \<Rightarrow> ('e, 'l, string) handler) \<times> bool) list \<Rightarrow> bool \<times> ConvertedStatement \<Rightarrow> ('e, 'l, bool \<times> ConvertedStatement) handler"
where
  "convert_selection [] st s = return_go st s"
| "convert_selection ((needConvert, doConvert, isConst) # convs) (converted, st) s =
     (if needConvert (st_string st) then
        bind_go (doConvert (st_string st)) (\<lambda>q. convert_selection convs (True, st\<lparr>st_string := q\<rparr>)) s
      else convert_selection convs (converted, st) s)"

definition handle_select :: "('e, 'v, 'z) query_env_scheme \<Rightarrow> ConvertedStatement \<Rightarrow> ('e, 'l, bool \<times> string option) handler" where
  "handle_select env st =
     bind_go (attempt (convert_selection (selectionConversions env) (False, st))) (\<lambda>r.
       case r of
         Inl e \<Rightarrow> return_go (False, Some e)
       | Inr (converted, st') \<Rightarrow> if converted then flagged True (run env st') else return_go (False, None))"

definition unsupported :: "string \<Rightarrow> backend" where
  "unsupported what = ErrorResponse ''ERROR'' ''0A000'' (''Statement '' @ [squote] @ what @ [squote] @ '' is not supported yet.'')"

definition handle_show :: "('e, 'v, 'z) query_env_scheme \<Rightarrow> ConvertedStatement \<Rightarrow> ('e, 'l, bool \<times> string option) handler" where
  "handle_show env st =
     (case st_ast st of
        Some (ShowVar name) \<Rightarrow>
          (let key = to_lower name in
           if key \<noteq> ''all'' then
             bind_go (attempt (queryPGSetting env key)) (\<lambda>r.
               case r of
                 Inl e \<Rightarrow> return_go (False, Some e)
               | Inr v \<Rightarrow>
                   flagged True (run env
                     (plain_statement (''SELECT '' @ [squote] @ v @ [squote] @ '' AS '' @ [quotation] @ key @ [quotation] @ '';'') ''SELECT'')))
           else bind_go (attempt (send (flushes env) (unsupported ''SHOW ALL''))) (\<lambda>_. return_go (True, None)))
      | _ \<Rightarrow> return_go (False, None))"

text \<open>The value of a \<^verbatim>\<open>SET\<close> and whether it is \<^verbatim>\<open>DEFAULT\<close>.\<close>

fun set_text :: "set_value \<Rightarrow> (string \<times> bool) option" where
  "set_text (UnresolvedName [part]) = Some (part, False)"
| "set_text (UnresolvedName parts) = None"
| "set_text (StrVal v) = Some (v, False)"
| "set_text DefaultVal = Some (''DEFAULT'', True)"
| "set_text (OtherExpr v) = Some (v, False)"

definition handle_set :: "('e, 'v, 'z) query_env_scheme \<Rightarrow> ConvertedStatement \<Rightarrow> ('e, 'l, bool \<times> string option) handler" where
  "handle_set env st =
     (let apply_set = (\<lambda>key value.
        if key = ''database'' \<or> \<not> IsValidPostgresConfigParameter (texts env) key then return_go (False, None)
        else case set_text value of
          None \<Rightarrow> return_go (False, Some (''error: invalid value in set statement: '' @ st_string st))
        | Some (v, isDefault) \<Rightarrow> setPgSessionVar env key v isDefault ''SET'') in
      case st_ast st of
        Some (SetVar name values reset resetAll) \<Rightarrow>
          (case values of [] \<Rightarrow> raise (Panic ''index out of range'') | value # _ \<Rightarrow> apply_set (to_lower name) value)
      | Some (SetSessionCharacteristics isolation) \<Rightarrow>
          apply_set ''default_transaction_isolation'' (OtherExpr (map (\<lambda>c. if c = CHR '' '' then CHR ''-'' else c) isolation))
      | _ \<Rightarrow> return_go (False, Some (''error: invalid set statement: '' @ st_string st)))"

definition handle_reset :: "('e, 'v, 'z) query_env_scheme \<Rightarrow> ConvertedStatement \<Rightarrow> ('e, 'l, bool \<times> string option) handler" where
  "handle_reset env st =
     (case st_ast st of
        Some (SetVar name values reset resetAll) \<Rightarrow>
          (if \<not> reset \<and> \<not> resetAll then return_go (False, Some (''error: invalid reset statement: '' @ st_string st))
           else if \<not> IsValidPostgresConfigParameter (texts env) (to_lower name) then return_go (False, None)
           else if \<not> resetAll then setPgSessionVar env (to_lower name) [] True ''RESET''
           else bind_go (attempt (send (flushes env) (unsupported ''RESET ALL''))) (\<lambda>_. return_go (True, None)))
      | _ \<Rightarrow> return_go (False, Some (''error: invalid reset statement: '' @ st_string st)))"

definition handleInPlaceQueries :: "('e, 'v, 'z) query_env_scheme \<Rightarrow> ConvertedStatement \<Rightarrow> ('e, 'l, bool \<times> string option) handler" where
  "handleInPlaceQueries env st =
     (if st_tag st = ''SELECT'' then handle_select env st
      else if st_tag st = ''SHOW'' then handle_show env st
      else if st_tag st = ''SET'' then handle_set env st
      else if st_tag st = ''RESET'' then handle_reset env st
      else return_go (False, None))"

text \<open>The decisions at \<^verbatim>\<open>Parse\<close>; the one for \<^verbatim>\<open>SELECT\<close> is \<open>select_in_place\<close>.\<close>

definition show_in_place :: "ConvertedStatement \<Rightarrow> bool" where
  "show_in_place st \<longleftrightarrow> (case st_ast st of Some (ShowVar name) \<Rightarrow> True | _ \<Rightarrow> False)"

definition set_in_place :: "('e, 'v, 'z) query_env_scheme \<Rightarrow> ConvertedStatement \<Rightarrow> bool res" where
  "set_in_place env st =
     (case st_ast st of
        Some (SetVar name values reset resetAll) \<Rightarrow>
          (if to_lower name = ''database'' \<or> \<not> IsValidPostgresConfigParameter (texts env) (to_lower name) then Inr False
           else if length values > 1 then Inl (Error (''error: invalid set statement: '' @ st_string st))
           else Inr True)
      | Some (SetSessionCharacteristics isolation) \<Rightarrow> Inr True
      | _ \<Rightarrow> Inr False)"

definition reset_in_place :: "('e, 'v, 'z) query_env_scheme \<Rightarrow> ConvertedStatement \<Rightarrow> bool res" where
  "reset_in_place env st =
     (case st_ast st of
        Some (SetVar name values reset resetAll) \<Rightarrow>
          (if \<not> reset \<and> \<not> resetAll then Inl (Error ''error: invalid reset statement'')
           else Inr (IsValidPostgresConfigParameter (texts env) (to_lower name)))
      | _ \<Rightarrow> Inr False)"

definition shouldQueryBeHandledInPlace ::
    "('e, 'v, 'z) query_env_scheme \<Rightarrow> ConvertedStatement \<Rightarrow> ('e, 'l, bool \<times> ConvertedStatement) handler" where
  "shouldQueryBeHandledInPlace env st =
     (if st_tag st = ''SELECT'' then select_in_place (selectionConversions env) st
      else if st_tag st = ''SHOW'' then return_go (show_in_place st, st)
      else if st_tag st = ''SET'' then bind_go (lift_res (set_in_place env st)) (\<lambda>b. return_go (b, st))
      else if st_tag st = ''RESET'' then bind_go (lift_res (reset_in_place env st)) (\<lambda>b. return_go (b, st))
      else return_go (False, st))"

end
