(* ===== verification/PsqlCommands.thy ===== *)
theory PsqlCommands
  imports SqlText
begin

text \<open>
  The queries that psql and workbenches send for their commands, which are recognised as a whole and answered by
  other statements (\<^verbatim>\<open>handledPSQLCommands\<close> and \<^verbatim>\<open>handledWorkbenchCommands\<close> of
  \<^verbatim>\<open>pgserver/connection_handler.go\<close>). A text is the list of its lines, joined. A statement is converted
  first or run as it is; one command is refused.
\<close>

datatype psql_action = PsqlConvert string | PsqlRun string | PsqlUnsupported

definition psql_l :: string where
  "psql_l = join [newline]
     [''select d.datname as \"name\",'',
      ''       pg_catalog.pg_get_userbyid(d.datdba) as \"owner\",'',
      ''       pg_catalog.pg_encoding_to_char(d.encoding) as \"encoding\",'',
      ''       d.datcollate as \"collate\",'',
      ''       d.datctype as \"ctype\",'',
      ''       d.daticulocale as \"icu locale\",'',
      ''       case d.datlocprovider when 'c' then 'libc' when 'i' then 'icu' end as \"locale provider\",'',
      ''       pg_catalog.array_to_string(d.datacl, e'' @ [squote] @ [backslash] @ ''n') as \"access privileges\"'',
      ''from pg_catalog.pg_database d'',
      ''order by 1;'']"

definition psql_l_16 :: string where
  "psql_l_16 = join [newline]
     [''select'',
      ''  d.datname as \"name\",'',
      ''  pg_catalog.pg_get_userbyid(d.datdba) as \"owner\",'',
      ''  pg_catalog.pg_encoding_to_char(d.encoding) as \"encoding\",'',
      ''  case d.datlocprovider when 'c' then 'libc' when 'i' then 'icu' end as \"locale provider\",'',
      ''  d.datcollate as \"collate\",'',
      ''  d.datctype as \"ctype\",'',
      ''  d.daticulocale as \"icu locale\",'',
      ''  null as \"icu rules\",'',
      ''  pg_catalog.array_to_string(d.datacl, e'' @ [squote] @ [backslash] @ ''n') as \"access privileges\"'',
      ''from pg_catalog.pg_database d'',
      ''order by 1;'']"

definition psql_dt :: string where
  "psql_dt = join [newline]
     [''select n.nspname as \"schema\",'',
      ''  c.relname as \"name\",'',
      ''  case c.relkind when 'r' then 'table' when 'v' then 'view' when 'm' then 'materialized view' when 'i' then 'index' when 's' then 'sequence' when 't' then 'toast table' when 'f' then 'foreign table' when 'p' then 'partitioned table' when 'i' then 'partitioned index' end as \"type\",'',
      ''  pg_catalog.pg_get_userbyid(c.relowner) as \"owner\"'',
      ''from pg_catalog.pg_class c'',
      ''     left join pg_catalog.pg_namespace n on n.oid = c.relnamespace'',
      ''     left join pg_catalog.pg_am am on am.oid = c.relam'',
      ''where c.relkind in ('r','p','' @ [squote, squote] @ '')'',
      ''      and n.nspname <> 'pg_catalog'' @ [squote],
      ''      and n.nspname !~ '^pg_toast'' @ [squote],
      ''      and n.nspname <> 'information_schema'' @ [squote],
      ''  and pg_catalog.pg_table_is_visible(c.oid)'',
      ''order by 1,2;'']"

definition psql_d :: string where
  "psql_d = join [newline]
     [''select n.nspname as \"schema\",'',
      ''  c.relname as \"name\",'',
      ''  case c.relkind when 'r' then 'table' when 'v' then 'view' when 'm' then 'materialized view' when 'i' then 'index' when 's' then 'sequence' when 't' then 'toast table' when 'f' then 'foreign table' when 'p' then 'partitioned table' when 'i' then 'partitioned index' end as \"type\",'',
      ''  pg_catalog.pg_get_userbyid(c.relowner) as \"owner\"'',
      ''from pg_catalog.pg_class c'',
      ''     left join pg_catalog.pg_namespace n on n.oid = c.relnamespace'',
      ''     left join pg_catalog.pg_am am on am.oid = c.relam'',
      ''where c.relkind in ('r','p','v','m','s','f','' @ [squote, squote] @ '')'',
      ''      and n.nspname <> 'pg_catalog'' @ [squote],
      ''      and n.nspname !~ '^pg_toast'' @ [squote],
      ''      and n.nspname <> 'information_schema'' @ [squote],
      ''  and pg_catalog.pg_table_is_visible(c.oid)'',
      ''order by 1,2;'']"

definition psql_d_14 :: string where
  "psql_d_14 = join [newline]
     [''select n.nspname as \"schema\",'',
      ''  c.relname as \"name\",'',
      ''  case c.relkind when 'r' then 'table' when 'v' then 'view' when 'm' then 'materialized view' when 'i' then 'index' when 's' then 'sequence' when 's' then 'special' when 't' then 'toast table' when 'f' then 'foreign table' when 'p' then 'partitioned table' when 'i' then 'partitioned index' end as \"type\",'',
      ''  pg_catalog.pg_get_userbyid(c.relowner) as \"owner\"'',
      ''from pg_catalog.pg_class c'',
      ''     left join pg_catalog.pg_namespace n on n.oid = c.relnamespace'',
      ''     left join pg_catalog.pg_am am on am.oid = c.relam'',
      ''where c.relkind in ('r','p','v','m','s','f','' @ [squote, squote] @ '')'',
      ''      and n.nspname <> 'pg_catalog'' @ [squote],
      ''      and n.nspname !~ '^pg_toast'' @ [squote],
      ''      and n.nspname <> 'information_schema'' @ [squote],
      ''  and pg_catalog.pg_table_is_visible(c.oid)'',
      ''order by 1,2;'']"

definition psql_d_table_prefix :: string where
  "psql_d_table_prefix = join [newline]
     [''select c.oid,'',
      ''  n.nspname,'',
      ''  c.relname'',
      ''from pg_catalog.pg_class c'',
      ''     left join pg_catalog.pg_namespace n on n.oid = c.relnamespace'',
      ''where c.relname operator(pg_catalog.~) '^('']"

definition psql_d_table_suffix :: string where
  "psql_d_table_suffix = join [newline]
     ['')$' collate pg_catalog.default'',
      ''  and pg_catalog.pg_table_is_visible(c.oid)'',
      ''order by 2, 3;'']"

definition psql_dn :: string where
  "psql_dn = join [newline]
     [''select n.nspname as \"name\",'',
      ''  pg_catalog.pg_get_userbyid(n.nspowner) as \"owner\"'',
      ''from pg_catalog.pg_namespace n'',
      ''where n.nspname !~ '^pg_' and n.nspname <> 'information_schema'' @ [squote],
      ''order by 1;'']"

definition psql_df :: string where
  "psql_df = join [newline]
     [''select n.nspname as \"schema\",'',
      ''  p.proname as \"name\",'',
      ''  pg_catalog.pg_get_function_result(p.oid) as \"result data type\",'',
      ''  pg_catalog.pg_get_function_arguments(p.oid) as \"argument data types\",'',
      '' case p.prokind'',
      ''  when 'a' then 'agg'' @ [squote],
      ''  when 'w' then 'window'' @ [squote],
      ''  when 'p' then 'proc'' @ [squote],
      ''  else 'func'' @ [squote],
      '' end as \"type\"'',
      ''from pg_catalog.pg_proc p'',
      ''     left join pg_catalog.pg_namespace n on n.oid = p.pronamespace'',
      ''where pg_catalog.pg_function_is_visible(p.oid)'',
      ''      and n.nspname <> 'pg_catalog'' @ [squote],
      ''      and n.nspname <> 'information_schema'' @ [squote],
      ''order by 1, 2, 4;'']"

definition psql_dv :: string where
  "psql_dv = join [newline]
     [''select n.nspname as \"schema\",'',
      ''  c.relname as \"name\",'',
      ''  case c.relkind when 'r' then 'table' when 'v' then 'view' when 'm' then 'materialized view' when 'i' then 'index' when 's' then 'sequence' when 't' then 'toast table' when 'f' then 'foreign table' when 'p' then 'partitioned table' when 'i' then 'partitioned index' end as \"type\",'',
      ''  pg_catalog.pg_get_userbyid(c.relowner) as \"owner\"'',
      ''from pg_catalog.pg_class c'',
      ''     left join pg_catalog.pg_namespace n on n.oid = c.relnamespace'',
      ''where c.relkind in ('v','' @ [squote, squote] @ '')'',
      ''      and n.nspname <> 'pg_catalog'' @ [squote],
      ''      and n.nspname !~ '^pg_toast'' @ [squote],
      ''      and n.nspname <> 'information_schema'' @ [squote],
      ''  and pg_catalog.pg_table_is_visible(c.oid)'',
      ''order by 1,2;'']"

definition psql_du :: string where
  "psql_du = join [newline]
     [''select r.rolname, r.rolsuper, r.rolinherit,'',
      ''  r.rolcreaterole, r.rolcreatedb, r.rolcanlogin,'',
      ''  r.rolconnlimit, r.rolvaliduntil,'',
      ''  array(select b.rolname'',
      ''        from pg_catalog.pg_auth_members m'',
      ''        join pg_catalog.pg_roles b on (m.roleid = b.oid)'',
      ''        where m.member = r.oid) as memberof'',
      '', r.rolreplication'',
      '', r.rolbypassrls'',
      ''from pg_catalog.pg_roles r'',
      ''where r.rolname !~ '^pg_'' @ [squote],
      ''order by 1;'']"

definition answer_l :: string where
  "answer_l = ''select d.datname as \"Name\", 'postgres' as \"Owner\", 'UTF8' as \"Encoding\", 'en_US.UTF-8' as \"Collate\", 'en_US.UTF-8' as \"Ctype\", 'en-US' as \"ICU Locale\", case d.datlocprovider when 'c' then 'libc' when 'i' then 'icu' end as \"locale provider\", '' @ [squote, squote] @ '' as \"access privileges\" from pg_catalog.pg_database d order by 1;''"

definition answer_dt :: string where
  "answer_dt = ''SELECT table_schema AS \"Schema\", TABLE_NAME AS \"Name\", 'table' AS \"Type\", 'postgres' AS \"Owner\" FROM INFORMATION_SCHEMA.TABLES WHERE TABLE_SCHEMA <> 'pg_catalog' AND TABLE_SCHEMA <> 'information_schema' AND TABLE_TYPE = 'BASE TABLE' ORDER BY 2;''"

definition answer_d :: string where
  "answer_d = ''SELECT table_schema AS \"Schema\", TABLE_NAME AS \"Name\", IF(TABLE_TYPE = 'VIEW', 'view', 'table') AS \"Type\", 'postgres' AS \"Owner\" FROM INFORMATION_SCHEMA.TABLES WHERE TABLE_SCHEMA <> 'pg_catalog' AND TABLE_SCHEMA <> 'information_schema' AND TABLE_TYPE = 'BASE TABLE' OR TABLE_TYPE = 'VIEW' ORDER BY 2;''"

definition answer_dn :: string where
  "answer_dn = ''SELECT 'public' AS \"Name\", 'pg_database_owner' AS \"Owner\";''"

definition answer_df :: string where
  "answer_df = ''SELECT '' @ [squote, squote] @ '' AS \"Schema\", '' @ [squote, squote] @ '' AS \"Name\", '' @ [squote, squote] @ '' AS \"Result data type\", '' @ [squote, squote] @ '' AS \"Argument data types\", '' @ [squote, squote] @ '' AS \"Type\" LIMIT 0;''"

definition answer_dv :: string where
  "answer_dv = ''SELECT table_schema AS \"Schema\", TABLE_NAME AS \"Name\", 'view' AS \"Type\", 'postgres' AS \"Owner\" FROM INFORMATION_SCHEMA.TABLES WHERE TABLE_SCHEMA <> 'pg_catalog' AND TABLE_SCHEMA <> 'information_schema' AND TABLE_TYPE = 'VIEW' ORDER BY 2;''"

definition answer_du :: string where
  "answer_du = ''SELECT '' @ [squote, squote] @ '' FROM dual LIMIT 0;''"

definition psql_command :: "string \<Rightarrow> psql_action option" where
  "psql_command query =
     (let statement = to_lower query in
      if statement = psql_l then Some (PsqlConvert answer_l)
      else if statement = psql_l_16 then Some (PsqlConvert answer_l)
      else if statement = psql_dt then Some (PsqlRun answer_dt)
      else if statement = psql_d then Some (PsqlRun answer_d)
      else if statement = psql_d_14 then Some (PsqlRun answer_d)
      else if has_prefix psql_d_table_prefix statement \<and> has_suffix psql_d_table_suffix statement then Some PsqlUnsupported
      else if statement = psql_dn then Some (PsqlRun answer_dn)
      else if statement = psql_df then Some (PsqlRun answer_df)
      else if statement = psql_dv then Some (PsqlRun answer_dv)
      else if statement = psql_du then Some (PsqlRun answer_du)
      else None)"

definition workbench_command :: "string \<Rightarrow> psql_action option" where
  "workbench_command query =
     (let lower = to_lower query in
      if lower = ''select * from current_schema()'' \<or> lower = ''select * from current_schema();''
      then Some (PsqlRun ''SELECT search_path AS \"current_schema\";'')
      else if lower = ''select * from current_database()'' \<or> lower = ''select * from current_database();''
      then Some (PsqlRun ''SELECT DATABASE() AS \"current_database\";'')
      else None)"

end
