(* ===== verification/Scram.thy ===== *)
theory Scram
  imports PgWire
begin

unbundle bit_operations_syntax

text \<open>
  SCRAM authentication of Postgres connections (\<^verbatim>\<open>pgserver/authentication_scram.go\<close>). The functions of RFC 5802, the
  roles and the random octets come from doltgresql and are the fields of \<open>scram_env\<close>; base64 of Go's
  standard library is \<open>base64\<close>. Messages are texts, keys and proofs byte lists. The n-th call of the random
  generator on a connection returns \<open>GenerateRandomOctetString n\<close>.
\<close>

section \<open>Environment\<close>

record scram_password =
  pw_salt :: bytes
  pw_storedKey :: bytes
  pw_serverKey :: bytes

record role =
  role_name :: string
  CanLogin :: bool
  Password :: "scram_password option"

record scram_env =
  EnableAuthentication :: bool
  GetRole :: "string \<Rightarrow> role"
  RemoteHost :: "string option"
  GenerateRandomOctetString :: "nat \<Rightarrow> nat \<Rightarrow> bytes"
  rfc_H :: "bytes \<Rightarrow> bytes"
  rfc_ClientSignature :: "bytes \<Rightarrow> string \<Rightarrow> bytes"
  rfc_StoredKey :: "bytes \<Rightarrow> bytes"
  rfc_ServerSignature :: "bytes \<Rightarrow> string \<Rightarrow> bytes"
  octets_Xor :: "bytes \<Rightarrow> bytes \<Rightarrow> bytes"
  octets_Equals :: "bytes \<Rightarrow> bytes \<Rightarrow> bool"
  octets_ToBase64 :: "bytes \<Rightarrow> string"
  Base64ToOctetString :: "string \<Rightarrow> bytes"

text \<open>\<^verbatim>\<open>base64.StdEncoding\<close>\<close>

definition base64_digit :: "nat \<Rightarrow> char" where
  "base64_digit n =
     ''ABCDEFGHIJKLMNOPQRSTUVWXYZabcdefghijklmnopqrstuvwxyz0123456789+/'' ! n"

fun base64 :: "nat list \<Rightarrow> string" where
  "base64 [] = []"
| "base64 [a] = [base64_digit (a div 4), base64_digit (a mod 4 * 16), CHR ''='', CHR ''='']"
| "base64 [a, b] = [base64_digit (a div 4), base64_digit (a mod 4 * 16 + b div 16), base64_digit (b mod 16 * 4), CHR ''='']"
| "base64 (a # b # c # rest) =
     base64_digit (a div 4) # base64_digit (a mod 4 * 16 + b div 16) # base64_digit (b mod 16 * 4 + c div 64) # base64_digit (c mod 64)
       # base64 rest"

definition octets :: "string \<Rightarrow> bytes" where
  "octets s = map of_char s"

section \<open>Messages of the exchange\<close>

definition SASLMechanism_SCRAM_SHA_256 :: string where
  "SASLMechanism_SCRAM_SHA_256 = ''SCRAM-SHA-256''"

datatype SASLBindingFlag =
  SASLBindingFlag_None | SASLBindingFlag_NoClientSupport | SASLBindingFlag_AssumedNoServerSupport | SASLBindingFlag_Used

record SASLInitial =
  si_flag :: SASLBindingFlag
  si_bindName :: string
  si_binding :: string
  si_authzid :: string
  si_username :: string
  si_nonce :: string
  si_rawData :: string

record SASLContinue =
  sc_nonce :: string
  sc_salt :: string
  sc_iterations :: nat

record SASLFinal =
  sr_gs2Header :: string
  sr_nonce :: string
  sr_clientProof :: string
  sr_rawData :: string

definition no_initial :: SASLInitial where
  "no_initial = \<lparr>si_flag = SASLBindingFlag_None, si_bindName = [], si_binding = [], si_authzid = [], si_username = [], si_nonce = [], si_rawData = []\<rparr>"

definition no_continue :: SASLContinue where
  "no_continue = \<lparr>sc_nonce = [], sc_salt = [], sc_iterations = 0\<rparr>"

text \<open>\<^verbatim>\<open>readSASLInitial\<close>: the attributes after the GS2 header, then the whole message.\<close>

fun read_initial_attributes :: "string list \<Rightarrow> SASLInitial \<Rightarrow> SASLInitial res" where
  "read_initial_attributes [] si = Inr si"
| "read_initial_attributes (sec # secs) si =
     (if length sec < 2 then Inl (Error ''invalid SASLInitialResponse: malformed gs2-header'')
      else if sec ! 0 = CHR ''c'' then read_initial_attributes secs (si\<lparr>si_binding := drop 2 sec\<rparr>)
      else if sec ! 0 = CHR ''n'' then read_initial_attributes secs (si\<lparr>si_username := drop 2 sec\<rparr>)
      else if sec ! 0 = CHR ''r'' then read_initial_attributes secs (si\<lparr>si_nonce := drop 2 sec\<rparr>)
      else Inl (Error ''invalid SASLInitialResponse: unknown gs2-header option''))"

definition read_binding_flag :: "string \<Rightarrow> SASLInitial \<Rightarrow> SASLInitial res" where
  "read_binding_flag flag si =
     (if flag = [] then Inl (Error ''invalid SASLInitialResponse: malformed gs2-cbind-flag'')
      else if flag ! 0 = CHR ''n'' then Inr (si\<lparr>si_flag := SASLBindingFlag_NoClientSupport\<rparr>)
      else if flag ! 0 = CHR ''p'' then
        (if length flag < 3 then Inl (Error ''invalid SASLInitialResponse: malformed gs2-cbind-flag channel binding'')
         else Inr (si\<lparr>si_flag := SASLBindingFlag_Used, si_bindName := drop 2 flag\<rparr>))
      else if flag ! 0 = CHR ''y'' then Inr (si\<lparr>si_flag := SASLBindingFlag_AssumedNoServerSupport\<rparr>)
      else Inl (Error ''invalid SASLInitialResponse: malformed gs2-cbind-flag options''))"

definition read_authzid :: "string \<Rightarrow> SASLInitial \<Rightarrow> SASLInitial res" where
  "read_authzid authzid si =
     (if authzid = [] then Inr si
      else if length authzid < 3 then Inl (Error ''invalid SASLInitialResponse: malformed authzid'')
      else Inr (si\<lparr>si_authzid := drop 2 authzid\<rparr>))"

definition readSASLInitial :: "string \<Rightarrow> string \<Rightarrow> SASLInitial res" where
  "readSASLInitial mechanism data =
     (if mechanism \<noteq> SASLMechanism_SCRAM_SHA_256 then Inl (Error ''SASL mechanism not supported'')
      else
        let sections = split_on (CHR '','') data in
        if length sections < 3 then Inl (Error ''invalid SASLInitialResponse: too few sections'')
        else
          bind_res (read_binding_flag (sections ! 0) no_initial) (\<lambda>si1.
          bind_res (read_authzid (sections ! 1) si1) (\<lambda>si2.
          bind_res (read_initial_attributes (drop 2 sections) si2) (\<lambda>si3.
            if si_nonce si3 = [] then Inl (Error ''invalid SASLInitialResponse: missing nonce'')
            else Inr (si3\<lparr>si_rawData := data\<rparr>)))))"

text \<open>\<^verbatim>\<open>readSASLResponse\<close>\<close>

fun read_response_attributes :: "string \<Rightarrow> string \<Rightarrow> string list \<Rightarrow> SASLFinal \<Rightarrow> SASLFinal res" where
  "read_response_attributes header nonce [] sr = Inr sr"
| "read_response_attributes header nonce (sec # secs) sr =
     (if length sec < 3 then Inl (Error ''invalid SASLResponse: attribute too small'')
      else if sec ! 0 = CHR ''c'' then
        (if drop 2 sec \<noteq> header then Inl (Error ''invalid SASLResponse: inconsistent GS2 header'')
         else read_response_attributes header nonce secs (sr\<lparr>sr_gs2Header := drop 2 sec\<rparr>))
      else if sec ! 0 = CHR ''p'' then read_response_attributes header nonce secs (sr\<lparr>sr_clientProof := drop 2 sec\<rparr>)
      else if sec ! 0 = CHR ''r'' then
        (if drop 2 sec \<noteq> nonce then Inl (Error ''invalid SASLResponse: nonce does not match authentication session'')
         else read_response_attributes header nonce secs (sr\<lparr>sr_nonce := drop 2 sec\<rparr>))
      else Inl (Error ''invalid SASLResponse: unknown attribute''))"

definition readSASLResponse :: "string \<Rightarrow> string \<Rightarrow> string \<Rightarrow> SASLFinal res" where
  "readSASLResponse header nonce data =
     bind_res (read_response_attributes header nonce (split_on (CHR '','') data)
                 \<lparr>sr_gs2Header = [], sr_nonce = [], sr_clientProof = [], sr_rawData = []\<rparr>) (\<lambda>sr.
       if sr_nonce sr = [] then Inl (Error ''invalid SASLResponse: missing nonce'')
       else if sr_clientProof sr = [] then Inl (Error ''invalid SASLResponse: missing nonce'')
       else Inr (sr\<lparr>sr_rawData := data\<rparr>))"

definition base64HeaderBytes :: "SASLInitial \<Rightarrow> string" where
  "base64HeaderBytes si =
     (case si_flag si of
        SASLBindingFlag_None \<Rightarrow> []
      | SASLBindingFlag_NoClientSupport \<Rightarrow> ''n,''
      | SASLBindingFlag_AssumedNoServerSupport \<Rightarrow> ''y,''
      | SASLBindingFlag_Used \<Rightarrow> ''p='' @ si_bindName si @ '','') @ si_authzid si @ '',''"

definition Base64Header :: "SASLInitial \<Rightarrow> string" where
  "Base64Header si = base64 (map of_char (base64HeaderBytes si))"

definition MessageBare :: "SASLInitial \<Rightarrow> string" where
  "MessageBare si = trim_prefix (si_rawData si) (base64HeaderBytes si)"

definition encode_continue :: "SASLContinue \<Rightarrow> string" where
  "encode_continue sc = ''r='' @ sc_nonce sc @ '',s='' @ sc_salt sc @ '',i='' @ itoa (sc_iterations sc)"

definition MessageWithoutProof :: "SASLFinal \<Rightarrow> string" where
  "MessageWithoutProof sr =
     (case last_index (sr_rawData sr) '',p='' of None \<Rightarrow> sr_rawData sr | Some i \<Rightarrow> take i (sr_rawData sr))"

section \<open>The server\<close>

definition authMessage :: "SASLInitial \<Rightarrow> SASLContinue \<Rightarrow> SASLFinal \<Rightarrow> string" where
  "authMessage si sc sr = MessageBare si @ '','' @ encode_continue sc @ '','' @ MessageWithoutProof sr"

definition verifySASLClientProof :: "scram_env \<Rightarrow> role \<Rightarrow> SASLInitial \<Rightarrow> SASLContinue \<Rightarrow> SASLFinal \<Rightarrow> string res" where
  "verifySASLClientProof env r si sc sr =
     (let failed = Inl (Error (''password authentication failed for user '' @ [CHR 34] @ role_name r @ [CHR 34])) in
      case Password r of
        None \<Rightarrow> failed
      | Some pw \<Rightarrow>
          (if \<not> CanLogin r then failed
           else
             let clientProof = Base64ToOctetString env (sr_clientProof sr);
                 clientSignature = rfc_ClientSignature env (pw_storedKey pw) (authMessage si sc sr) in
             if length clientProof \<noteq> length clientSignature then failed
             else
               let clientKey = octets_Xor env clientSignature clientProof in
               if \<not> octets_Equals env (rfc_StoredKey env clientKey) (pw_storedKey pw) then failed
               else Inr (octets_ToBase64 env (rfc_ServerSignature env (pw_serverKey pw) (authMessage si sc sr)))))"

text \<open>The salt of the role, or a stable one for a role without a password.\<close>

definition client_salt :: "scram_env \<Rightarrow> role \<Rightarrow> string \<Rightarrow> string res" where
  "client_salt env r username =
     (case Password r of
        Some pw \<Rightarrow> Inr (octets_ToBase64 env (pw_salt pw))
      | None \<Rightarrow>
          (let h = rfc_H env (octets username) in
           if length h < 16 then Inl (Panic ''slice bounds out of range'') else Inr (octets_ToBase64 env (take 16 h))))"

definition fatal :: "(backend list \<Rightarrow> string option) \<Rightarrow> string \<Rightarrow> go_error \<Rightarrow> ('e, 'l, 'a) handler" where
  "fatal flush_err code e s =
     (case e of
        Panic p \<Rightarrow> (Inl e, s)
      | Error m \<Rightarrow> (Inl e, snd (send flush_err (ErrorResponse ''FATAL'' code m) s)))"

definition saslInitialStep ::
    "scram_env \<Rightarrow> (backend list \<Rightarrow> string option) \<Rightarrow> role \<Rightarrow> string \<Rightarrow> string \<Rightarrow> string \<Rightarrow> ('e, 'l, SASLInitial \<times> SASLContinue) handler" where
  "saslInitialStep env flush_err r username mechanism data s =
     (case readSASLInitial mechanism data of
        Inl e \<Rightarrow> fatal flush_err ''XX000'' e s
      | Inr si \<Rightarrow>
          (case client_salt env r username of
             Inl e \<Rightarrow> (Inl e, s)
           | Inr salt \<Rightarrow>
               (let sc = \<lparr>sc_nonce = si_nonce si @ octets_ToBase64 env (GenerateRandomOctetString env (randoms s) 16),
                          sc_salt = salt, sc_iterations = 4096\<rparr>
                in bind_go (send flush_err (AuthenticationSASLContinue (encode_continue sc))) (\<lambda>_. return_go (si, sc))
                     (s\<lparr>randoms := randoms s + 1\<rparr>))))"

definition saslResponseStep ::
    "scram_env \<Rightarrow> (backend list \<Rightarrow> string option) \<Rightarrow> role \<Rightarrow> SASLInitial \<Rightarrow> SASLContinue \<Rightarrow> string \<Rightarrow> ('e, 'l, unit) handler" where
  "saslResponseStep env flush_err r si sc data s =
     (case readSASLResponse (Base64Header si) (sc_nonce sc) data of
        Inl e \<Rightarrow> fatal flush_err ''XX000'' e s
      | Inr sr \<Rightarrow>
          (case verifySASLClientProof env r si sc sr of
             Inl e \<Rightarrow> fatal flush_err ''28P01'' e s
           | Inr signature \<Rightarrow>
               bind_go (send flush_err (AuthenticationSASLFinal (''v='' @ signature))) (\<lambda>_. send flush_err AuthenticationOk) s))"

fun sasl_loop ::
    "scram_env \<Rightarrow> (backend list \<Rightarrow> string option) \<Rightarrow> role \<Rightarrow> string \<Rightarrow> frontend list \<Rightarrow> SASLInitial \<Rightarrow> SASLContinue \<Rightarrow> ('e, 'l, unit) handler"
where
  "sasl_loop env flush_err r username [] si sc s = (Inl (Error ''unexpected EOF''), s\<lparr>inbox := []\<rparr>)"
| "sasl_loop env flush_err r username (m # ms) si sc s =
     (case m of
        SASLInitialResponse mechanism data \<Rightarrow>
          bind_go (saslInitialStep env flush_err r username mechanism data)
            (\<lambda>(si', sc'). sasl_loop env flush_err r username ms si' sc') (s\<lparr>inbox := ms\<rparr>)
      | SASLResponse data \<Rightarrow> saslResponseStep env flush_err r si sc data (s\<lparr>inbox := ms\<rparr>)
      | _ \<Rightarrow> (Inl (Error ''unknown message type encountered during SASL authentication''), s\<lparr>inbox := ms\<rparr>))"

text \<open>\<^verbatim>\<open>handleAuthentication\<close>: the host is \<^verbatim>\<open>localhost\<close> on a Unix socket (\<open>RemoteHost = None\<close>) and when it is empty.\<close>

definition startup_identity :: "scram_env \<Rightarrow> (string \<times> string) list \<Rightarrow> string \<times> string" where
  "startup_identity env params =
     (case map_of params ''user'' of
        None \<Rightarrow> (''postgres'', ''localhost'')
      | Some u \<Rightarrow>
          (if u = [] then (''postgres'', ''localhost'')
           else (u, case RemoteHost env of None \<Rightarrow> ''localhost'' | Some h \<Rightarrow> if h = [] then ''localhost'' else h)))"

definition handleAuthentication ::
    "scram_env \<Rightarrow> (backend list \<Rightarrow> string option) \<Rightarrow> (string \<times> string) list \<Rightarrow> ('e, 'l, unit) handler" where
  "handleAuthentication env flush_err params s0 =
     (case startup_identity env params of
        (username, hst) \<Rightarrow>
          (let s = s0\<lparr>user := username, host := hst\<rparr> in
           if \<not> EnableAuthentication env then send flush_err AuthenticationOk s
           else
             bind_go (send flush_err (AuthenticationSASL [SASLMechanism_SCRAM_SHA_256]))
               (\<lambda>_ s'. sasl_loop env flush_err (GetRole env username) username (inbox s') no_initial no_continue s') s))"

text \<open>
  \<^verbatim>\<open>InitSuperuser\<close>: the roles and whether authentication is enabled. An empty password disables it.
\<close>

definition InitSuperuser ::
    "(string \<Rightarrow> scram_password res) \<Rightarrow> (string \<Rightarrow> role) \<Rightarrow> string \<Rightarrow> (string \<Rightarrow> role option) \<times> bool \<Rightarrow>
       ((string \<Rightarrow> role option) \<times> bool) res" where
  "InitSuperuser NewScramSha256Password CreateDefaultRole password st =
     (let dropped = (fst st)(''doltgres'' := None, ''postgres'' := None) in
      bind_res (case NewScramSha256Password password of Inl e \<Rightarrow> Inl (Panic (error_text e)) | Inr pw \<Rightarrow> Inr pw) (\<lambda>pw.
        let postgres = (CreateDefaultRole ''postgres'')\<lparr>CanLogin := True, Password := Some pw\<rparr> in
        Inr (dropped(role_name postgres := Some postgres), if password = [] then False else snd st)))"

end
