(* ===== verification/PgConn.thy ===== *)
theory PgConn
  imports PgQuery PsqlCommands Scram
begin

text \<open>
  The life of a Postgres connection (\<^verbatim>\<open>pgserver/connection_handler.go\<close>): startup, the messages of the simple and the
  extended query protocol, \<^verbatim>\<open>COPY\<close> in both directions, and the loop with its recovery from errors and panics.
  Data loaders and writers and the validation of a \<^verbatim>\<open>COPY\<close> are the fields of \<open>copy_env\<close>. Panics are handled, which is the
  default.
\<close>

section \<open>Environment\<close>

text \<open>
  What a writer of \<^verbatim>\<open>COPY TO\<close> delivers through its pipe: whether the reader opens it before the writer fails, the
  chunks read, the error that ends them, if any, the result of the writer, and whether the cancelled context or
  the result is seen first when both are there.
\<close>

record copy_output =
  co_started :: bool
  co_chunks :: "string list"
  co_read_error :: "string option"
  co_result :: "string + nat"
  co_cancel_first :: bool

record ('e, 'l) copy_env =
  ValidateCopyFrom :: "copy_from \<Rightarrow> 'e \<Rightarrow> string option"
  ValidateCopyTo :: "string \<Rightarrow> 'e \<Rightarrow> string option"
  ParseCopyFrom :: "string \<Rightarrow> (string \<times> copy_format \<times> string) option"
  ParseCopyTo :: "string \<Rightarrow> (string \<times> copy_format \<times> string) option"
  NewDataLoader :: "copy_from \<Rightarrow> string \<Rightarrow> 'e \<Rightarrow> (string + 'l) \<times> 'e"
  loader_Start :: "'l \<Rightarrow> 'e \<Rightarrow> (string + 'l) \<times> 'e"
  LoadChunk :: "'l \<Rightarrow> string \<Rightarrow> 'e \<Rightarrow> string option \<times> 'l \<times> 'e"
  loader_Finish :: "'l \<Rightarrow> 'e \<Rightarrow> (string + u32) \<times> 'e"
  CopyWriter :: "string \<Rightarrow> copy_format \<Rightarrow> string \<Rightarrow> 'e \<Rightarrow> (string + copy_output) \<times> 'e"

record ('e, 'l, 'v) conn_env = "('e, 'v) query_env" +
  copying :: "('e, 'l) copy_env"
  scram :: scram_env
  hasCertificate :: bool
  DefaultCatalogName :: string
  ScanText :: "u32 \<Rightarrow> int \<Rightarrow> bytes option \<Rightarrow> string + string \<times> bool"
  AddConn :: "'e \<Rightarrow> 'e"
  CloseSession :: "'e \<Rightarrow> 'e"

definition convert :: "('e, 'l, 'v) conn_env \<Rightarrow> string \<Rightarrow> ConvertedStatement list res" where
  "convert env query = convertQuery (texts env) (RemoveSpaceAndDelimiter (exec env)) query"

section \<open>Statements and portals\<close>

text \<open>
  \<^verbatim>\<open>CompareAndSwap(false, true)\<close> on a flag, and \<^verbatim>\<open>deletePreparedStatement\<close> and \<^verbatim>\<open>deletePortal\<close>.
\<close>

definition compare_and_swap :: "nat option \<Rightarrow> ('e, 'l, bool) handler" where
  "compare_and_swap flag s =
     (case flag of
        None \<Rightarrow> (Inl nil_dereference, s)
      | Some i \<Rightarrow>
          (if i < length (closed_flags s) \<and> \<not> closed_flags s ! i then (Inr True, s\<lparr>closed_flags := (closed_flags s)[i := True]\<rparr>)
           else (Inr False, s)))"

definition close_once :: "('e, 'l, 'v) conn_env \<Rightarrow> nat option \<Rightarrow> duck_stmt option \<Rightarrow> ('e, 'l, unit) handler" where
  "close_once env flag stmt = bind_go (compare_and_swap flag) (\<lambda>swapped. if swapped then close_stmt (exec env) stmt else return_go ())"

definition deletePreparedStatement :: "('e, 'l, 'v) conn_env \<Rightarrow> string \<Rightarrow> ('e, 'l, unit) handler" where
  "deletePreparedStatement env name s =
     (case preparedStatements s name of
        None \<Rightarrow> (Inr (), s)
      | Some ps \<Rightarrow> close_once env (ps_closed ps) (ps_stmt ps) (s\<lparr>preparedStatements := (preparedStatements s)(name := None)\<rparr>))"

definition deletePortal :: "('e, 'l, 'v) conn_env \<Rightarrow> string \<Rightarrow> ('e, 'l, unit) handler" where
  "deletePortal env name s =
     (case portals s name of
        None \<Rightarrow> (Inr (), s)
      | Some p \<Rightarrow> close_once env (po_closed p) (po_stmt p) (s\<lparr>portals := (portals s)(name := None)\<rparr>))"

definition deallocatePreparedStatement :: "('e, 'l, 'v) conn_env \<Rightarrow> string \<Rightarrow> string \<Rightarrow> ('e, 'l, unit) handler" where
  "deallocatePreparedStatement env name tag s =
     (case preparedStatements s name of
        None \<Rightarrow> (Inl (Error (''prepared statement '' @ name @ '' does not exist'')), s)
      | Some _ \<Rightarrow> bind_go (deletePreparedStatement env name) (\<lambda>_. send (flushes env) (CommandComplete tag)) s)"

definition closeBackendConn :: "('e, 'l, 'v) conn_env \<Rightarrow> ('e, 'l, unit) handler" where
  "closeBackendConn env s =
     (case NewContextErr (exec env) [] (engine s) of
        Some e \<Rightarrow> (Inr (), s)
      | None \<Rightarrow> (Inr (), s\<lparr>engine := CloseConn (session env) (engine s)\<rparr>))"

definition discardAll :: "('e, 'l, 'v) conn_env \<Rightarrow> string \<Rightarrow> ('e, 'l, unit) handler" where
  "discardAll env tag = bind_go (closeBackendConn env) (\<lambda>_. send (flushes env) (CommandComplete tag))"

text \<open>A new \<^verbatim>\<open>atomic.Bool\<close>.\<close>

definition new_flag :: "('e, 'l, nat) handler" where
  "new_flag s = (Inr (length (closed_flags s)), s\<lparr>closed_flags := closed_flags s @ [False]\<rparr>)"

definition store_statement :: "string \<Rightarrow> PreparedStatementData \<Rightarrow> ('e, 'l, unit) handler" where
  "store_statement name ps s = (Inr (), s\<lparr>preparedStatements := (preparedStatements s)(name := Some ps)\<rparr>)"

definition store_portal :: "string \<Rightarrow> PortalData \<Rightarrow> ('e, 'l, unit) handler" where
  "store_portal name p s = (Inr (), s\<lparr>portals := (portals s)(name := Some p)\<rparr>)"

definition set_waitForSync :: "bool \<Rightarrow> ('e, 'l, unit) handler" where
  "set_waitForSync b s = (Inr (), s\<lparr>waitForSync := b\<rparr>)"

section \<open>COPY\<close>

definition handleCopyFromStdinQuery :: "('e, 'l, 'v) conn_env \<Rightarrow> ConvertedStatement \<Rightarrow> copy_from \<Rightarrow> string \<Rightarrow> ('e, 'l, unit) handler" where
  "handleCopyFromStdinQuery env st copyFrom rawOpts =
     bind_go (new_context (exec env) (st_string st)) (\<lambda>_ s.
       case ValidateCopyFrom (copying env) copyFrom (engine s) of
         Some e \<Rightarrow> (Inl (Error e), s)
       | None \<Rightarrow>
           send (flushes env) (CopyInResponse (if cf_format copyFrom \<in> {FormatText, FormatCSV, FormatJSON} then 0 else 1))
             (s\<lparr>copyState := Some \<lparr>copyFromStdinNode = copyFrom, rawOptions = rawOpts, dataLoader = None, copyErr = None\<rparr>\<rparr>))"

definition strip_end_of_data :: "string \<Rightarrow> string" where
  "strip_end_of_data data =
     (let d1 = (if has_suffix [backslash, CHR ''.'', newline] data then take (length data - 3) data else data) in
      if has_suffix [backslash, CHR ''.'', CHR 13, newline] d1 then take (length d1 - 4) d1 else d1)"

definition open_loader ::
    "('e, 'l, 'v) conn_env \<Rightarrow> 'l copyFromStdinState \<Rightarrow> string \<Rightarrow> ('e, 'l, 'l \<times> string) handler" where
  "open_loader env cs data =
     (let copyFrom = copyFromStdinNode cs; f = cf_format copyFrom in
      if f = FormatBinary then raise (Error ''BINARY format is not supported for COPY FROM'')
      else if f \<notin> {FormatArrow, FormatText, FormatCSV} then raise (Error ''unknown format specified for COPY FROM'')
      else
        bind_go (on_engine (NewDataLoader (copying env) copyFrom (rawOptions cs))) (\<lambda>l0.
        bind_go (on_engine (loader_Start (copying env) l0)) (\<lambda>l s.
          (Inr (l, if f = FormatText then strip_end_of_data data else data), s\<lparr>copyState := Some (cs\<lparr>dataLoader := Some l\<rparr>)\<rparr>))))"

text \<open>
  \<^verbatim>\<open>handleCopyDataHelper\<close>; its value is \<^verbatim>\<open>endOfMessages\<close> and the error.
\<close>

definition load_chunk :: "('e, 'l, 'v) conn_env \<Rightarrow> 'l copyFromStdinState \<Rightarrow> string \<Rightarrow> ('e, 'l, unit) handler" where
  "load_chunk env cs data =
     bind_go (new_context (exec env) []) (\<lambda>_.
     bind_go (case dataLoader cs of Some l \<Rightarrow> return_go (l, data) | None \<Rightarrow> open_loader env cs data) (\<lambda>(l, data') s.
       case LoadChunk (copying env) l data' (engine s) of
         (err, l', e') \<Rightarrow>
           (case err of None \<Rightarrow> Inr () | Some m \<Rightarrow> Inl (Error m),
            s\<lparr>engine := e', copyState := Some (cs\<lparr>dataLoader := Some l'\<rparr>)\<rparr>)))"

definition handleCopyDataHelper :: "('e, 'l, 'v) conn_env \<Rightarrow> string \<Rightarrow> ('e, 'l, bool \<times> string option) handler" where
  "handleCopyDataHelper env data s =
     (case copyState s of
        None \<Rightarrow> (Inr (True, Some ''COPY DATA message received without a COPY FROM STDIN operation in progress''), s)
      | Some cs \<Rightarrow> flagged False (load_chunk env cs data) s)"

definition handleCopyData :: "('e, 'l, 'v) conn_env \<Rightarrow> string \<Rightarrow> ('e, 'l, bool \<times> string option) handler" where
  "handleCopyData env data =
     bind_go (handleCopyDataHelper env data) (\<lambda>(eom, err) s.
       case err of
         None \<Rightarrow> (Inr (eom, None), s)
       | Some e \<Rightarrow>
           (case copyState s of
              None \<Rightarrow> (Inl nil_dereference, s)
            | Some cs \<Rightarrow> (Inr (eom, Some e), s\<lparr>copyState := Some (cs\<lparr>copyErr := Some e\<rparr>)\<rparr>)))"

definition handleCopyDone :: "('e, 'l, 'v) conn_env \<Rightarrow> ('e, 'l, bool \<times> string option) handler" where
  "handleCopyDone env s =
     (case copyState s of
        None \<Rightarrow> (Inr (True, Some ''COPY DONE message received without a COPY FROM STDIN operation in progress''), s)
      | Some cs \<Rightarrow>
          (if copyErr cs \<noteq> None then (Inr (False, None), s)
           else case dataLoader cs of
             None \<Rightarrow> (Inr (True, Some ''no data loader found for COPY FROM STDIN operation''), s)
           | Some l \<Rightarrow>
               bind_go (attempt (bind_go (new_context (exec env) []) (\<lambda>_. on_engine (loader_Finish (copying env) l)))) (\<lambda>r s'.
                 case r of
                   Inl e \<Rightarrow> (Inr (False, Some e), s')
                 | Inr n \<Rightarrow> flagged True (send (flushes env) (CommandComplete (''COPY '' @ format_int32 n))) (s'\<lparr>copyState := None\<rparr>)) s))"

definition handleCopyFail :: "('e, 'l, 'v) conn_env \<Rightarrow> ('e, 'l, bool \<times> string option) handler" where
  "handleCopyFail env s =
     (case copyState s of
        None \<Rightarrow> (Inr (True, Some ''COPY FAIL message received without a COPY FROM STDIN operation in progress''), s)
      | Some cs \<Rightarrow>
          (if dataLoader cs = None then (Inr (True, Some ''no data loader found for COPY FROM STDIN operation''), s)
           else (Inr (True, None), s\<lparr>copyState := None\<rparr>)))"

text \<open>
  The reader of \<^verbatim>\<open>COPY TO STDOUT\<close>. For the text format it reads lines with a buffered reader of 4096 bytes: a line that
  does not fit is an error, and what follows the last end of line is dropped. The first line gives the number of
  columns. For the other formats every chunk is sent as it is.
\<close>

fun text_lines :: "string \<Rightarrow> string list \<times> string" where
  "text_lines [] = ([], [])"
| "text_lines (c # cs) =
     (case text_lines cs of
        (ls, rest) \<Rightarrow>
          (if c = newline then ([newline] # ls, rest)
           else case ls of [] \<Rightarrow> ([], c # rest) | l # ls' \<Rightarrow> ((c # l) # ls', rest)))"

definition read_buffer :: nat where
  "read_buffer = 4096"

definition column_count :: "string \<Rightarrow> nat" where
  "column_count line = length (filter (\<lambda>c. c = CHR 9) line) + 1"

fun copy_lines :: "(backend list \<Rightarrow> string option) \<Rightarrow> bool \<Rightarrow> string list \<Rightarrow> ('e, 'l, unit) handler" where
  "copy_lines flush responded [] s = (Inr (), s)"
| "copy_lines flush responded (l # ls) s =
     (if length l > read_buffer then (Inl (Error ''bufio: buffer full''), s)
      else
        bind_go (send_all flush ((if responded then [] else [CopyOutResponse (column_count l)]) @ [CopyOutData l]))
          (\<lambda>_. copy_lines flush True ls) s)"

definition copy_reader :: "(backend list \<Rightarrow> string option) \<Rightarrow> copy_format \<Rightarrow> copy_output \<Rightarrow> ('e, 'l, unit) handler" where
  "copy_reader flush format out =
     (let ended = (case co_read_error out of None \<Rightarrow> return_go () | Some e \<Rightarrow> raise (Error e)) in
      if \<not> co_started out then ended
      else if format = FormatText then
        (case text_lines (concat (co_chunks out)) of
           (ls, rest) \<Rightarrow>
             bind_go (copy_lines flush False ls) (\<lambda>_.
               if length rest \<ge> read_buffer then raise (Error ''bufio: buffer full'') else ended))
      else
        bind_go (send_all flush (CopyOutResponse 1 # map CopyOutData (filter (\<lambda>c. c \<noteq> []) (co_chunks out)))) (\<lambda>_. ended))"

definition handleCopyToStdout ::
    "('e, 'l, 'v) conn_env \<Rightarrow> ConvertedStatement \<Rightarrow> string option \<Rightarrow> string \<Rightarrow> copy_format \<Rightarrow> string \<Rightarrow> ('e, 'l, unit) handler" where
  "handleCopyToStdout env st copyTo subquery format rawOpts =
     bind_go (new_context (exec env) (st_string st)) (\<lambda>_.
     bind_go (\<lambda>s. case copyTo of
                None \<Rightarrow> (Inr subquery, s)
              | Some target \<Rightarrow>
                  (case ValidateCopyTo (copying env) target (engine s) of None \<Rightarrow> (Inr target, s) | Some e \<Rightarrow> (Inl (Error e), s))) (\<lambda>source.
     bind_go (on_engine (CopyWriter (copying env) source format rawOpts)) (\<lambda>out.
     bind_go (attempt (copy_reader (flushes env) format out)) (\<lambda>r.
       if co_cancel_first out \<and> (r \<noteq> Inr () \<or> \<not> co_started out) then raise (Error ''context canceled'')
       else case co_result out of
         Inl e \<Rightarrow> raise (Error (''failed to copy data: '' @ e))
       | Inr n \<Rightarrow>
           (case r of
              Inl e \<Rightarrow> raise (Error e)
            | Inr _ \<Rightarrow> send_all (flushes env) [CopyOutDone, CommandComplete (''COPY '' @ itoa n)])))))"

section \<open>Statements outside the engine\<close>

text \<open>
  \<^verbatim>\<open>handleStatementOutsideEngine\<close>: whether the statement was handled, \<^verbatim>\<open>endOfMessages\<close> and the error.
\<close>

definition outside :: "bool \<Rightarrow> ('e, 'l, unit) handler \<Rightarrow> ('e, 'l, bool \<times> bool \<times> string option) handler" where
  "outside eom m = bind_go (flagged eom m) (\<lambda>(b, err). return_go (True, b, err))"

definition copy_outside :: "('e, 'l, 'v) conn_env \<Rightarrow> ConvertedStatement \<Rightarrow> ('e, 'l, bool \<times> bool \<times> string option) handler option" where
  "copy_outside env st =
     (if st_tag st \<noteq> ''COPY'' then None
      else case ParseCopyFrom (copying env) (st_string st) of
        Some (target, format, options) \<Rightarrow>
          Some (case ParseOne (texts env) (''COPY '' @ target @ '' FROM STDIN'') of
                  Inl e \<Rightarrow> return_go (False, True, Some e)
                | Inr (CopyFrom cf) \<Rightarrow> outside False (handleCopyFromStdinQuery env st (cf\<lparr>cf_format := format\<rparr>) options)
                | Inr _ \<Rightarrow> raise (Panic ''interface conversion''))
      | None \<Rightarrow>
          (case ParseCopyTo (copying env) (st_string st) of
             Some (subquery, format, options) \<Rightarrow>
               Some (if has_prefix ''('' subquery \<and> has_suffix '')'' subquery
                     then outside True (handleCopyToStdout env st None subquery format options)
                     else case ParseOne (texts env) (''COPY '' @ subquery @ '' TO STDOUT'') of
                       Inl e \<Rightarrow> return_go (False, True, Some e)
                     | Inr (CopyTo target f) \<Rightarrow> outside True (handleCopyToStdout env st (Some target) [] format options)
                     | Inr _ \<Rightarrow> raise (Panic ''interface conversion''))
           | None \<Rightarrow> None))"

definition in_place_outside :: "('e, 'l, 'v) conn_env \<Rightarrow> ConvertedStatement \<Rightarrow> ('e, 'l, bool \<times> bool \<times> string option) handler" where
  "in_place_outside env st =
     (case copy_outside env st of
        Some m \<Rightarrow> m
      | None \<Rightarrow>
          bind_go (handleInPlaceQueries env st) (\<lambda>(handled, err).
            return_go (if handled \<or> err \<noteq> None then (True, True, err) else (False, True, None))))"

definition handleStatementOutsideEngine ::
    "('e, 'l, 'v) conn_env \<Rightarrow> ConvertedStatement \<Rightarrow> ('e, 'l, bool \<times> bool \<times> string option) handler" where
  "handleStatementOutsideEngine env st =
     (case st_ast st of
        Some (Deallocate name) \<Rightarrow> outside True (deallocatePreparedStatement env name (st_tag st))
      | Some Discard \<Rightarrow> outside True (discardAll env (st_tag st))
      | Some (CopyFrom cf) \<Rightarrow>
          (if cf_stdin cf then outside False (handleCopyFromStdinQuery env st cf []) else in_place_outside env st)
      | Some (CopyTo target format) \<Rightarrow> outside True (handleCopyToStdout env st (Some target) [] format [])
      | _ \<Rightarrow> in_place_outside env st)"

section \<open>Messages\<close>

definition run_action :: "('e, 'l, 'v) conn_env \<Rightarrow> psql_action \<Rightarrow> ('e, 'l, bool \<times> string option) handler" where
  "run_action env a =
     (case a of
        PsqlUnsupported \<Rightarrow> return_go (True, Some ''PSQL command not yet supported'')
      | PsqlRun q \<Rightarrow> flagged True (run env (plain_statement q ''SELECT''))
      | PsqlConvert q \<Rightarrow>
          (case convert env q of
             Inl (Error e) \<Rightarrow> return_go (False, Some e)
           | Inl (Panic p) \<Rightarrow> raise (Panic p)
           | Inr [] \<Rightarrow> raise (Panic ''index out of range'')
           | Inr (st # sts) \<Rightarrow> flagged True (run env st)))"

definition handledPSQLCommands :: "('e, 'l, 'v) conn_env \<Rightarrow> string \<Rightarrow> ('e, 'l, bool \<times> string option) handler" where
  "handledPSQLCommands env q = (case psql_command q of None \<Rightarrow> return_go (False, None) | Some a \<Rightarrow> run_action env a)"

definition handledWorkbenchCommands :: "('e, 'l, 'v) conn_env \<Rightarrow> string \<Rightarrow> ('e, 'l, bool \<times> string option) handler" where
  "handledWorkbenchCommands env q = (case workbench_command q of None \<Rightarrow> return_go (False, None) | Some a \<Rightarrow> run_action env a)"

fun handle_statements ::
    "('e, 'l, 'v) conn_env \<Rightarrow> bool \<Rightarrow> ConvertedStatement list \<Rightarrow> ('e, 'l, bool \<times> string option) handler" where
  "handle_statements env eom [] s = (Inr (eom, None), s)"
| "handle_statements env eom (st # sts) s =
     bind_go (handleStatementOutsideEngine env st) (\<lambda>(handled, eom', err).
       if handled then (if err \<noteq> None then return_go (True, err) else handle_statements env eom' sts)
       else
         bind_go (attempt (run env st)) (\<lambda>r.
           case r of Inl e \<Rightarrow> return_go (True, Some e) | Inr _ \<Rightarrow> handle_statements env True sts)) s"

definition handle_converted :: "('e, 'l, 'v) conn_env \<Rightarrow> string \<Rightarrow> ('e, 'l, bool \<times> string option) handler" where
  "handle_converted env q =
     (case convert env q of
        Inl (Error e) \<Rightarrow> return_go (True, Some e)
      | Inl (Panic p) \<Rightarrow> raise (Panic p)
      | Inr sts \<Rightarrow>
          bind_go (deletePreparedStatement env []) (\<lambda>_.
          bind_go (deletePortal env []) (\<lambda>_. handle_statements env False sts)))"

definition handleQuery :: "('e, 'l, 'v) conn_env \<Rightarrow> string \<Rightarrow> ('e, 'l, bool \<times> string option) handler" where
  "handleQuery env q =
     (if q = '';'' then flagged True (send (flushes env) (makeCommandComplete [] 0))
      else
        bind_go (handledPSQLCommands env q) (\<lambda>(handled, err).
        if handled \<or> err \<noteq> None then return_go (True, err)
        else
          bind_go (handledWorkbenchCommands env q) (\<lambda>(handled, err).
          if handled \<or> err \<noteq> None then return_go (True, err) else handle_converted env q)))"

definition merge_types :: "u32 list \<Rightarrow> u32 list \<Rightarrow> u32 list" where
  "merge_types given params =
     (let all = given @ drop (length given) params in
      map (\<lambda>i. if i < length params \<and> all ! i = 0 then params ! i else all ! i) [0..<length all])"

definition is_empty_query :: "ConvertedStatement \<Rightarrow> bool" where
  "is_empty_query st \<longleftrightarrow> TrimSpace (st_string st) = []"

text \<open>An entry with a flag of its own, and the answer to \<^verbatim>\<open>Parse\<close>.\<close>

definition stores :: "('e, 'l, 'v) conn_env \<Rightarrow> string \<Rightarrow> (nat \<Rightarrow> PreparedStatementData) \<Rightarrow> ('e, 'l, unit) handler" where
  "stores env name f = bind_go new_flag (\<lambda>i. bind_go (store_statement name (f i)) (\<lambda>_. send (flushes env) ParseComplete))"

definition parse_statement :: "('e, 'l, 'v) conn_env \<Rightarrow> string \<Rightarrow> u32 list \<Rightarrow> ConvertedStatement \<Rightarrow> ('e, 'l, unit) handler" where
  "parse_statement env name oids st0 =
     bind_go (shouldQueryBeHandledInPlace env st0) (\<lambda>(in_place, st).
       if in_place then
         stores env name (\<lambda>i. \<lparr>ps_statement = st, ps_returnFields = [], ps_bindVarTypes = None, ps_stmt = None, ps_closed = Some i\<rparr>)
       else
         bind_go (ComPrepareParsed (exec env) (st_string st)) (\<lambda>(h, params, fds).
         bind_go (\<lambda>s. (if st_pgParsable st then Inr st
             else map_sum id (\<lambda>t. st\<lparr>st_tag := GetStatementTag t\<rparr>) (StatementType (exec env) (Some h) (engine s)), s)) (\<lambda>st'.
         stores env name (\<lambda>i. \<lparr>ps_statement = st', ps_returnFields = fds, ps_bindVarTypes = Some (merge_types oids params), ps_stmt = Some h,
            ps_closed = Some i\<rparr>))))"

definition handleParse :: "('e, 'l, 'v) conn_env \<Rightarrow> string \<Rightarrow> string \<Rightarrow> u32 list \<Rightarrow> ('e, 'l, unit) handler" where
  "handleParse env name query oids =
     bind_go (set_waitForSync True) (\<lambda>_.
     bind_go (lift_res (convert env query)) (\<lambda>sts.
       case sts of
         [] \<Rightarrow> raise (Panic ''index out of range'')
       | st # _ \<Rightarrow>
           (if st_ast st = None \<and> is_empty_query st then
              bind_go (store_statement name
                \<lparr>ps_statement = st, ps_returnFields = [], ps_bindVarTypes = None, ps_stmt = None, ps_closed = None\<rparr>) (\<lambda>_.
              send (flushes env) ParseComplete)
            else parse_statement env name oids st)))"

definition sendDescribeResponse ::
    "('e, 'l, 'v) conn_env \<Rightarrow> field_description list \<Rightarrow> u32 list option \<Rightarrow> string \<Rightarrow> ('e, 'l, unit) handler" where
  "sendDescribeResponse env fds types tag =
     send_all (flushes env)
       ((case types of None \<Rightarrow> [] | Some ts \<Rightarrow> [ParameterDescription ts]) @ [if returnsRow tag then RowDescription fds else NoData])"

definition describe_statement :: "('e, 'l, 'v) conn_env \<Rightarrow> PreparedStatementData \<Rightarrow> ('e, 'l, unit) handler" where
  "describe_statement env ps =
     (if ps_stmt ps = None then sendDescribeResponse env [] (Some []) []
      else sendDescribeResponse env (map (\<lambda>f. f\<lparr>fd_format := 0\<rparr>) (ps_returnFields ps))
        (Some (case ps_bindVarTypes ps of None \<Rightarrow> [] | Some ts \<Rightarrow> ts)) (st_tag (ps_statement ps)))"

definition handleDescribe :: "('e, 'l, 'v) conn_env \<Rightarrow> char \<Rightarrow> string \<Rightarrow> ('e, 'l, unit) handler" where
  "handleDescribe env objectType name =
     bind_go (set_waitForSync True) (\<lambda>_ s.
       if objectType = CHR ''S'' then
         (case preparedStatements s name of
            None \<Rightarrow> (Inl (Error (''prepared statement '' @ name @ '' does not exist'')), s)
          | Some ps \<Rightarrow> describe_statement env ps s)
       else
         (case portals s name of
            None \<Rightarrow> (Inl (Error (''portal '' @ name @ '' does not exist'')), s)
          | Some p \<Rightarrow>
              (if po_stmt p = None then (Inr (), s)
               else sendDescribeResponse env (po_fields p) None (st_tag (po_statement p)) s)))"

text \<open>\<^verbatim>\<open>convertBindParameters\<close>; a scanned text is its string and whether it is valid.\<close>

definition convertBindParameters :: "('e, 'l, 'v) conn_env \<Rightarrow> u32 list \<Rightarrow> int list \<Rightarrow> bytes option list \<Rightarrow> string list res" where
  "convertBindParameters env types formatCodes values =
     (if length types \<noteq> length values then Inl (Error ''number of values does not match number of parameters'')
      else map_res (\<lambda>i.
        if i \<ge> length formatCodes then Inl (Panic ''index out of range'')
        else case ScanText env (types ! i) (formatCodes ! i) (values ! i) of
          Inl e \<Rightarrow> Inl (Error e) | Inr (text, valid) \<Rightarrow> Inr text) [0..<length values])"

definition bind_portal ::
    "('e, 'l, 'v) conn_env \<Rightarrow> string \<Rightarrow> PreparedStatementData \<Rightarrow> int list \<Rightarrow> bytes option list \<Rightarrow> int list \<Rightarrow> ('e, 'l, unit) handler" where
  "bind_portal env portal ps formatCodes values resultCodes =
     (let empty_portal = (\<lambda>b. \<lparr>po_statement = ps_statement ps, po_isEmptyQuery = b, po_fields = [], po_resultFormatCodes = [],
        po_stmt = None, po_vars = [], po_closed = None\<rparr>) in
      if ps_stmt ps = None then
        bind_go (store_portal portal (empty_portal (is_empty_query (ps_statement ps)))) (\<lambda>_. send (flushes env) BindComplete)
      else if st_ast (ps_statement ps) = None then
        bind_go (store_portal portal (empty_portal True)) (\<lambda>_. send (flushes env) BindComplete)
      else
        bind_go (lift_res (convertBindParameters env (case ps_bindVarTypes ps of None \<Rightarrow> [] | Some ts \<Rightarrow> ts) formatCodes values)) (\<lambda>vars.
        bind_go (ComBind (exec env) ps vars) (\<lambda>fds.
        bind_go (store_portal portal
          \<lparr>po_statement = ps_statement ps, po_isEmptyQuery = False, po_fields = fds, po_resultFormatCodes = resultCodes,
           po_stmt = ps_stmt ps, po_vars = vars, po_closed = ps_closed ps\<rparr>) (\<lambda>_.
        send (flushes env) BindComplete))))"

definition handleBind ::
    "('e, 'l, 'v) conn_env \<Rightarrow> string \<Rightarrow> string \<Rightarrow> int list \<Rightarrow> bytes option list \<Rightarrow> int list \<Rightarrow> ('e, 'l, unit) handler" where
  "handleBind env portal statement formatCodes values resultCodes =
     bind_go (set_waitForSync True) (\<lambda>_ s.
       case preparedStatements s statement of
         None \<Rightarrow> (Inl (Error (''prepared statement '' @ statement @ '' does not exist'')), s)
       | Some ps \<Rightarrow> bind_portal env portal ps formatCodes values resultCodes s)"

definition execute_portal :: "('e, 'l, 'v) conn_env \<Rightarrow> PortalData \<Rightarrow> ('e, 'l, unit) handler" where
  "execute_portal env p =
     (let st = po_statement p in
      if po_isEmptyQuery p then
        bind_go (mapping_error (\<lambda>e. Error (''error sending NoData message: '' @ error_text e)) (send (flushes env) NoData)) (\<lambda>_.
        send (flushes env) EmptyQueryResponse)
      else
        bind_go (if to_upper (st_tag st) \<noteq> ''SELECT'' \<or> po_stmt p = None then handleStatementOutsideEngine env st
                 else return_go (False, True, None)) (\<lambda>(handled, _, err).
        if handled then (case err of None \<Rightarrow> return_go () | Some e \<Rightarrow> raise (Error e))
        else
          bind_go (ComExecuteBound (exec env) p (spoolRowsCallback (flushes env) (st_tag st) True) (False, 0)) (\<lambda>(_, rows).
          send (flushes env) (makeCommandComplete (st_tag st) rows))))"

definition handleExecute :: "('e, 'l, 'v) conn_env \<Rightarrow> string \<Rightarrow> ('e, 'l, unit) handler" where
  "handleExecute env portal =
     bind_go (set_waitForSync True) (\<lambda>_ s.
       case portals s portal of
         None \<Rightarrow> (Inl (Error (''portal '' @ portal @ '' does not exist'')), s)
       | Some p \<Rightarrow> execute_portal env p s)"

text \<open>\<^verbatim>\<open>handleMessage\<close>: \<^verbatim>\<open>stop\<close>, \<^verbatim>\<open>endOfMessages\<close> and the error.\<close>

definition continuing :: "('e, 'l, bool \<times> string option) handler \<Rightarrow> ('e, 'l, bool \<times> bool \<times> string option) handler" where
  "continuing m = bind_go m (\<lambda>r. return_go (False, r))"

definition handleClose :: "('e, 'l, 'v) conn_env \<Rightarrow> char \<Rightarrow> string \<Rightarrow> ('e, 'l, unit) handler" where
  "handleClose env objectType name =
     bind_go (if objectType = CHR ''S'' then deletePreparedStatement env name else deletePortal env name) (\<lambda>_.
     send (flushes env) CloseComplete)"

definition handleMessage :: "('e, 'l, 'v) conn_env \<Rightarrow> frontend \<Rightarrow> ('e, 'l, bool \<times> bool \<times> string option) handler" where
  "handleMessage env msg =
     (case msg of
        Terminate \<Rightarrow> return_go (True, False, None)
      | Sync \<Rightarrow> bind_go (set_waitForSync False) (\<lambda>_. return_go (False, True, None))
      | Query q \<Rightarrow> continuing (handleQuery env q)
      | Parse name q oids \<Rightarrow> continuing (flagged False (handleParse env name q oids))
      | Describe t name \<Rightarrow> continuing (flagged False (handleDescribe env t name))
      | Bind portal st formats values results \<Rightarrow> continuing (flagged False (handleBind env portal st formats values results))
      | Execute portal \<Rightarrow> continuing (flagged False (handleExecute env portal))
      | Close t name \<Rightarrow> continuing (flagged False (handleClose env t name))
      | CopyData d \<Rightarrow> continuing (handleCopyData env d)
      | CopyDone \<Rightarrow> continuing (handleCopyDone env)
      | CopyFail \<Rightarrow> continuing (handleCopyFail env)
      | _ \<Rightarrow> return_go (False, True, Some ''unhandled message''))"

section \<open>The message loop\<close>

definition discard_when_waiting :: "bool \<Rightarrow> ('e, 'l, unit) handler" where
  "discard_when_waiting eom s = (if \<not> eom \<and> waitForSync s then (Inr (), snd (discardToSync s)) else (Inr (), s))"

definition finish_message :: "('e, 'l, 'v) conn_env \<Rightarrow> bool \<Rightarrow> string option \<Rightarrow> ('e, 'l, unit) handler" where
  "finish_message env eom err =
     (case err of
        Some e \<Rightarrow> bind_go (discard_when_waiting eom) (\<lambda>_. endOfMessages (flushes env) (Some e))
      | None \<Rightarrow> if eom then endOfMessages (flushes env) None else return_go ())"

text \<open>The recovery from a panic, and \<^verbatim>\<open>receiveMessage\<close>, whose value is \<^verbatim>\<open>stop\<close>.\<close>

definition recover :: "('e, 'l, 'v) conn_env \<Rightarrow> bool \<Rightarrow> go_error \<Rightarrow> ('e, 'l, bool) handler" where
  "recover env eom e =
     bind_go (discard_when_waiting eom) (\<lambda>_. bind_go (endOfMessages (flushes env) (Some (error_text e))) (\<lambda>_. return_go False))"

definition process_message :: "('e, 'l, 'v) conn_env \<Rightarrow> frontend \<Rightarrow> ('e, 'l, bool) handler" where
  "process_message env msg s =
     (case handleMessage env msg s of
        (Inl e, s1) \<Rightarrow> recover env False e s1
      | (Inr (stop, eom, err), s1) \<Rightarrow>
          (case finish_message env eom err s1 of
             (Inl e, s2) \<Rightarrow> recover env eom e s2
           | (Inr _, s2) \<Rightarrow> (Inr stop, s2)))"

definition receiveMessage :: "('e, 'l, 'v) conn_env \<Rightarrow> ('e, 'l, bool) handler" where
  "receiveMessage env s =
     (case Receive s of
        (Inl e, s1) \<Rightarrow> (Inl (Error (''error receiving message: '' @ error_text e)), s1)
      | (Inr msg, s1) \<Rightarrow> process_message env msg s1)"

section \<open>Startup\<close>

definition session_parameters :: "(string \<times> string option) list" where
  "session_parameters =
     [(''in_hot_standby'', None), (''integer_datetimes'', Some ''on''), (''TimeZone'', None), (''IntervalStyle'', None),
      (''is_superuser'', Some ''on''), (''application_name'', None), (''default_transaction_read_only'', None), (''scram_iterations'', None),
      (''DateStyle'', None), (''standard_conforming_strings'', None), (''session_authorization'', Some ''postgres''),
      (''client_encoding'', None), (''server_version'', None), (''server_encoding'', None)]"

fun send_parameters :: "('e, 'l, 'v) conn_env \<Rightarrow> (string \<times> string option) list \<Rightarrow> ('e, 'l, unit) handler" where
  "send_parameters env [] s = (Inr (), s)"
| "send_parameters env ((name, value) # params) s =
     (case (case value of Some v \<Rightarrow> Some v | None \<Rightarrow> GetGlobal (session env) name) of
        None \<Rightarrow> (Inl (Error (''error: '' @ name @ '' variable was not found'')), s)
      | Some v \<Rightarrow> bind_go (send (flushes env) (ParameterStatus name v)) (\<lambda>_. send_parameters env params) s)"

definition sendClientStartupMessages :: "('e, 'l, 'v) conn_env \<Rightarrow> ('e, 'l, unit) handler" where
  "sendClientStartupMessages env = bind_go (send_parameters env session_parameters) (\<lambda>_. send (flushes env) BackendKeyData)"

definition initial_database :: "('e, 'l, 'v) conn_env \<Rightarrow> (string \<times> string) list \<Rightarrow> string \<Rightarrow> string \<times> bool" where
  "initial_database env params username =
     (let specified = (case map_of params ''database'' of None \<Rightarrow> False | Some db \<Rightarrow> db \<noteq> []);
          db = (if specified then the (map_of params ''database'') else username) in
      (if db \<in> {''postgres'', ''mysql''} \<and> hasProvider (exec env) then DefaultCatalogName env else db, specified))"

definition chooseInitialDatabase :: "('e, 'l, 'v) conn_env \<Rightarrow> (string \<times> string) list \<Rightarrow> ('e, 'l, unit) handler" where
  "chooseInitialDatabase env params s =
     (case initial_database env params (user s) of
        (db, specified) \<Rightarrow>
          (case ParseOne (texts env) (''SET database TO '' @ db @ '';'') of
             Inl e \<Rightarrow> (Inl (Error e), s)
           | Inr a \<Rightarrow>
               bind_go (attempt (ComQuery (exec env) (''USE '' @ db @ ''.public;'') (Some a) (\<lambda>c res. return_go c) ())) (\<lambda>r s'.
                 case r of
                   Inl e \<Rightarrow>
                     (if specified then
                        (Inl (Error e),
                         snd (send (flushes env) (ErrorResponse ''FATAL'' ''3D000''
                           ([quotation] @ ''database '' @ [quotation] @ db @ [quotation] @ '' does not exist, err: '' @ e @ [quotation])) s'))
                      else (Inr (), s'))
                 | Inr _ \<Rightarrow> (Inr (), s')) s))"

text \<open>
  \<^verbatim>\<open>handleStartup\<close>: the value is false when the client is gone. The requests for encryption are answered with one
  byte and startup begins again.
\<close>

definition start_session :: "('e, 'l, 'v) conn_env \<Rightarrow> (string \<times> string) list \<Rightarrow> ('e, 'l, bool) handler" where
  "start_session env params =
     bind_go (handleAuthentication (scram env) (flushes env) params) (\<lambda>_.
     bind_go (sendClientStartupMessages env) (\<lambda>_.
     bind_go (chooseInitialDatabase env params) (\<lambda>_.
     bind_go (send (flushes env) (ReadyForQuery (CHR ''I''))) (\<lambda>_. return_go True))))"

fun startup_loop :: "('e, 'l, 'v) conn_env \<Rightarrow> frontend list \<Rightarrow> ('e, 'l, bool) handler" where
  "startup_loop env [] s = (Inr False, s\<lparr>inbox := []\<rparr>)"
| "startup_loop env (m # ms) s =
     (case m of
        StartupMessage params \<Rightarrow> start_session env params (s\<lparr>inbox := ms\<rparr>)
      | SSLRequest \<Rightarrow>
          bind_go (mapping_error (\<lambda>e. Error (''error sending SSL request: '' @ error_text e))
            (send (flushes env) (RawByte (if hasCertificate env then CHR ''S'' else CHR ''N'')))) (\<lambda>_. startup_loop env ms) (s\<lparr>inbox := ms\<rparr>)
      | GSSEncRequest \<Rightarrow>
          bind_go (mapping_error (\<lambda>e. Error (''error sending response to GSS Enc Request: '' @ error_text e))
            (send (flushes env) (RawByte (CHR ''N'')))) (\<lambda>_. startup_loop env ms) (s\<lparr>inbox := ms\<rparr>)
      | _ \<Rightarrow> (Inl (Error ''terminating connection: unexpected start message''), s\<lparr>inbox := ms\<rparr>))"

definition handleStartup :: "('e, 'l, 'v) conn_env \<Rightarrow> ('e, 'l, bool) handler" where
  "handleStartup env s = startup_loop env (inbox s) s"

end
