(* ===== verification/PgFrame.thy ===== *)
theory PgFrame
  imports PgConn
begin

text \<open>
  What the handlers of a Postgres connection keep, whatever message they handle. A relation between the
  connections before and after a handler is kept by every handler if it is reflexive and transitive and the few
  operations that change a connection keep it; the locales state these laws, from the primitive updates to the
  operations on prepared statements and portals, and end with the law for \<^verbatim>\<open>handleMessage\<close> on every message but
  \<^verbatim>\<open>Sync\<close>, which resets a flag that the others only set.
\<close>

section \<open>Relations that handlers keep\<close>

definition keeps :: "('s \<Rightarrow> 's \<Rightarrow> bool) \<Rightarrow> ('s \<Rightarrow> 'a res \<times> 's) \<Rightarrow> bool" where
  "keeps R m \<longleftrightarrow> (\<forall>s. R s (snd (m s)))"

lemma keepsI: "(\<And>s. R s (snd (m s))) \<Longrightarrow> keeps R m"
  by (simp add: keeps_def)

fun is_ready :: "backend \<Rightarrow> bool" where
  "is_ready (ReadyForQuery c) = True"
| "is_ready m = False"

named_theorems frame_intros \<open>handlers that keep a relation\<close>

locale step_relation =
  fixes R :: "'s \<Rightarrow> 's \<Rightarrow> bool"
  assumes refl: "R s s"
    and trans: "R s t \<Longrightarrow> R t u \<Longrightarrow> R s u"
begin

lemma keeps_return [frame_intros]: "keeps R (return_go x)" "keeps R (raise e)" "keeps R (lift_res r)"
  by (simp_all add: keeps_def refl lift_res_def)

lemma keeps_bind [frame_intros]:
  assumes "keeps R m" "\<And>x. keeps R (f x)"
  shows "keeps R (bind_go m f)"
proof (rule keepsI)
  fix s
  obtain r s' where m: "m s = (r, s')" by fastforce
  have "R s s'" using assms(1) m unfolding keeps_def by (metis snd_conv)
  moreover have "R s' (snd (f x s'))" for x using assms(2) by (simp add: keeps_def)
  ultimately show "R s (snd (bind_go m f s))"
    unfolding bind_go_def m by (cases r) (auto intro: trans)
qed

lemma keeps_same_state:
  assumes "keeps R m" "\<And>s. snd (n s) = snd (m s)"
  shows "keeps R n"
  using assms by (simp add: keeps_def)

lemma keeps_attempt [frame_intros]: "keeps R m \<Longrightarrow> keeps R (attempt m)"
  by (erule keeps_same_state) (simp add: attempt_def split: prod.splits sum.splits go_error.splits)

lemma keeps_mapping_error [frame_intros]: "keeps R m \<Longrightarrow> keeps R (mapping_error f m)"
  by (erule keeps_same_state) (simp add: mapping_error_def split: prod.splits sum.splits)

lemma keeps_flagged [frame_intros]: "keeps R m \<Longrightarrow> keeps R (flagged b m)"
  unfolding flagged_def by (intro frame_intros)

lemma keeps_if [frame_intros]: "(b \<Longrightarrow> keeps R m) \<Longrightarrow> (\<not> b \<Longrightarrow> keeps R n) \<Longrightarrow> keeps R (if b then m else n)"
  by simp

lemma keeps_option [frame_intros]: "(x = None \<Longrightarrow> keeps R m) \<Longrightarrow> (\<And>y. x = Some y \<Longrightarrow> keeps R (f y)) \<Longrightarrow> keeps R (case x of None \<Rightarrow> m | Some y \<Rightarrow> f y)"
  by (cases x) auto

lemma keeps_sum [frame_intros]: "(\<And>y. x = Inl y \<Longrightarrow> keeps R (f y)) \<Longrightarrow> (\<And>y. x = Inr y \<Longrightarrow> keeps R (g y)) \<Longrightarrow> keeps R (case x of Inl y \<Rightarrow> f y | Inr y \<Rightarrow> g y)"
  by (cases x) auto

lemma keeps_prod [frame_intros]: "(\<And>y z. x = (y, z) \<Longrightarrow> keeps R (f y z)) \<Longrightarrow> keeps R (case x of (y, z) \<Rightarrow> f y z)"
  by (cases x) auto

end

locale connection_frame = step_relation R
  for R :: "('e, 'l) connection \<Rightarrow> ('e, 'l) connection \<Rightarrow> bool" +
  assumes engine_law: "R s (s\<lparr>engine := e\<rparr>)"
    and out_law: "\<not> is_ready m \<Longrightarrow> R s (s\<lparr>outbox := outbox s @ [m]\<rparr>)"
    and wait_law: "R s (s\<lparr>waitForSync := True\<rparr>)"
    and copy_law: "R s (s\<lparr>copyState := cs\<rparr>)"
begin

lemma keeps_on_engine [frame_intros]: "keeps R (on_engine f)"
  unfolding keeps_def on_engine_def by (auto split: prod.splits sum.splits intro: engine_law)

lemma keeps_new_context [frame_intros]: "keeps R (new_context env q)"
  by (simp add: keeps_def new_context_def refl)

lemma keeps_send [frame_intros]: "\<not> is_ready m \<Longrightarrow> keeps R (send fl m)"
  by (simp add: keeps_def send_def Let_def out_law)

lemma keeps_send_all [frame_intros]: "list_all (\<lambda>m. \<not> is_ready m) ms \<Longrightarrow> keeps R (send_all fl ms)"
proof (induction ms)
  case Nil
  then show ?case by (simp add: keeps_def refl)
next
  case (Cons m ms)
  then have "keeps R (bind_go (send fl m) (\<lambda>_. send_all fl ms))" by (intro frame_intros) auto
  then show ?case by (simp add: keeps_def)
qed

lemma keeps_callback [frame_intros]: "keeps R (spoolRowsCallback fl tag ex c res)"
  unfolding spoolRowsCallback_def Let_def case_prod_unfold by (intro frame_intros) (auto simp: list_all_iff)

lemma keeps_flush_batch [frame_intros]:
  assumes "\<And>c res. keeps R (cb c res)"
  shows "keeps R (flush_batch cb fds st)"
  unfolding flush_batch_def case_prod_unfold by (intro frame_intros assms)

lemma keeps_spool [frame_intros]:
  assumes "\<And>c res. keeps R (cb c res)"
  shows "keeps R (spool cb enc fds items st)"
proof (induction items arbitrary: st)
  case Nil
  show ?case using keeps_flush_batch [OF assms] by simp
next
  case (Cons x xs)
  show ?case
    unfolding spool.simps case_prod_unfold
    by (cases x) (simp_all add: keeps_bind keeps_flush_batch [OF assms] keeps_if keeps_return keeps_sum Cons.IH split: sum.split)
qed

lemma keeps_resultForDefaultIter [frame_intros]:
  "(\<And>c res. keeps R (cb c res)) \<Longrightarrow> keeps R (resultForDefaultIter env sch it cb fds c)"
  unfolding resultForDefaultIter_def Let_def by (intro frame_intros)

lemma keeps_doQuery [frame_intros]:
  assumes "keeps R ex" "\<And>c res. keeps R (cb c res)"
  shows "keeps R (doQuery env q codes mode ex cb c)"
proof -
  have "keeps R (\<lambda>s. let s' = s\<lparr>engine := setCurrentDatabase env (engine s)\<rparr> in
       case result of
         OkResult n \<Rightarrow> cb c \<lparr>r_fields = [], r_rows = [], r_affected = n\<rparr> s'
       | RowResult sch it \<Rightarrow>
           bind_go (lift_res (schemaToFieldDescriptions env sch codes mode)) (\<lambda>fds.
           bind_go (resultForDefaultIter env sch it cb fds c) (\<lambda>(c', r, processed).
             if r_affected r = 0 \<and> processed then return_go c' else cb c' r)) s')" (is "keeps R ?f") for result
  proof -
    have "keeps R (case result of
         OkResult n \<Rightarrow> cb c \<lparr>r_fields = [], r_rows = [], r_affected = n\<rparr>
       | RowResult sch it \<Rightarrow>
           bind_go (lift_res (schemaToFieldDescriptions env sch codes mode)) (\<lambda>fds.
           bind_go (resultForDefaultIter env sch it cb fds c) (\<lambda>(c', r, processed).
             if r_affected r = 0 \<and> processed then return_go c' else cb c' r)))" (is "keeps R ?g")
      by (cases result) (auto intro!: frame_intros assms)
    then have "R s (snd (?g (s\<lparr>engine := setCurrentDatabase env (engine s)\<rparr>)))" for s
      unfolding keeps_def using trans [OF engine_law] by blast
    then show ?thesis by (cases result) (simp_all add: keeps_def)
  qed
  then show ?thesis unfolding doQuery_def by (intro frame_intros assms)
qed

lemma keeps_statement_type [frame_intros]: "keeps R (\<lambda>s. (f s, s))"
  by (simp add: keeps_def refl)

lemma keeps_query_rows [frame_intros]: "keeps R (query_rows env q vars)"
  unfolding query_rows_def case_prod_unfold by (intro frame_intros)

lemma keeps_executeQuery [frame_intros]: "keeps R (executeQuery env q a)"
  unfolding executeQuery_def by (intro frame_intros) (auto split: ast.split intro!: frame_intros)

lemma keeps_executeBoundPlan [frame_intros]: "keeps R (executeBoundPlan env q stmt vars)"
  unfolding executeBoundPlan_def by (intro frame_intros)

lemma keeps_Com [frame_intros]:
  "(\<And>c res. keeps R (cb c res)) \<Longrightarrow> keeps R (ComQuery env q a cb c)"
  "(\<And>c res. keeps R (cb c res)) \<Longrightarrow> keeps R (ComExecuteBound env p cb c)"
  "keeps R (ComBind env ps vars)"
  unfolding ComQuery_def ComExecuteBound_def ComBind_def Let_def by (intro frame_intros; assumption)+

end

locale statement_frame = connection_frame R
  for R :: "('e, 'l) connection \<Rightarrow> ('e, 'l) connection \<Rightarrow> bool" +
  fixes env :: "('e, 'l, 'v) conn_env"
  assumes tag_law: "keeps R (getStatementTag (exec env) q)"
begin

lemma keeps_run [frame_intros]: "keeps R (run env st)"
  unfolding run_def statement_tag_def case_prod_unfold
  by (intro frame_intros tag_law)
    (auto split: option.split special_config.split intro!: frame_intros simp: makeCommandComplete_def)

lemma keeps_settings [frame_intros]:
  "keeps R (isInRecovery env)" "keeps R (readOneWALPositionStr env)" "keeps R (queryPGSetting env name)"
  unfolding isInRecovery_def readOneWALPositionStr_def queryPGSetting_def by (intro frame_intros)+

lemma keeps_setPgSessionVar [frame_intros]: "keeps R (setPgSessionVar env name v d tag)"
  unfolding setPgSessionVar_def by (intro frame_intros) (auto simp: makeCommandComplete_def)

lemma conversions: "\<forall>(need, doConvert, c)\<in>set (selectionConversions env). \<forall>q. keeps R (doConvert q)"
  unfolding selectionConversions_def Let_def by (auto intro!: frame_intros split: option.split)

lemma keeps_select_in_place:
  "\<forall>(need, doConvert, c)\<in>set convs. \<forall>q. keeps R (doConvert q) \<Longrightarrow> keeps R (select_in_place convs st)"
proof (induction convs arbitrary: st)
  case Nil
  then show ?case by (simp add: keeps_def refl)
next
  case (Cons conv convs)
  obtain need dc c where conv: "conv = (need, dc, c)" by (cases conv)
  have "keeps R (if need (st_string st) then
        (if c then return_go (True, st) else bind_go (dc (st_string st)) (\<lambda>q. select_in_place convs (st\<lparr>st_string := q\<rparr>)))
      else select_in_place convs st)"
    using Cons conv by (intro frame_intros) auto
  then show ?case by (simp add: keeps_def conv split: if_splits)
qed

lemma keeps_convert_selection:
  "\<forall>(need, doConvert, c)\<in>set convs. \<forall>q. keeps R (doConvert q) \<Longrightarrow> keeps R (convert_selection convs (b, st))"
proof (induction convs arbitrary: b st)
  case Nil
  then show ?case by (simp add: keeps_def refl)
next
  case (Cons conv convs)
  obtain need dc c where conv: "conv = (need, dc, c)" by (cases conv)
  have "keeps R (if need (st_string st) then bind_go (dc (st_string st)) (\<lambda>q. convert_selection convs (True, st\<lparr>st_string := q\<rparr>))
      else convert_selection convs (b, st))"
    using Cons conv by (intro frame_intros) auto
  then show ?case by (simp add: keeps_def conv split: if_splits)
qed

lemma keeps_handle_select [frame_intros]: "keeps R (handle_select env st)"
  unfolding handle_select_def case_prod_unfold by (intro frame_intros keeps_convert_selection conversions)

lemma keeps_handle_show [frame_intros]: "keeps R (handle_show env st)"
  unfolding handle_show_def Let_def by (auto split: option.split ast.split intro!: frame_intros simp: unsupported_def)

lemma keeps_handle_set [frame_intros]: "keeps R (handle_set env st)"
  unfolding handle_set_def Let_def case_prod_unfold by (auto split: option.split ast.split list.split intro!: frame_intros)

lemma keeps_handle_reset [frame_intros]: "keeps R (handle_reset env st)"
  unfolding handle_reset_def by (auto split: option.split ast.split intro!: frame_intros simp: unsupported_def)

lemma keeps_in_place [frame_intros]: "keeps R (handleInPlaceQueries env st)"
  unfolding handleInPlaceQueries_def by (intro frame_intros)

lemma keeps_should_be_handled [frame_intros]: "keeps R (shouldQueryBeHandledInPlace env st)"
  unfolding shouldQueryBeHandledInPlace_def Let_def
  by (auto split: option.split ast.split intro!: frame_intros keeps_select_in_place conversions)

end

context statement_frame
begin

lemma after_copy: "keeps R m \<Longrightarrow> R s (snd (m (s\<lparr>copyState := cs\<rparr>)))"
  using trans [OF copy_law [of s cs]] by (simp add: keeps_def)

lemma keeps_copy_from [frame_intros]: "keeps R (handleCopyFromStdinQuery env st cf opts)"
proof -
  have "R s (snd (send fl (CopyInResponse f) (s\<lparr>copyState := cs\<rparr>)))" for s fl f cs
    by (intro after_copy frame_intros) simp
  then show ?thesis
    unfolding handleCopyFromStdinQuery_def
    by (intro frame_intros keepsI) (auto split: option.split intro: refl)
qed

lemma keeps_open_loader [frame_intros]: "keeps R (open_loader env cs d)"
  unfolding open_loader_def Let_def by (intro frame_intros keepsI) (auto intro: copy_law)

lemma keeps_load_chunk [frame_intros]: "keeps R (load_chunk env cs d)"
  unfolding load_chunk_def case_prod_unfold
  by (intro frame_intros keepsI) (simp, rule trans [OF engine_law copy_law])

lemma keeps_copy_data [frame_intros]: "keeps R (handleCopyData env d)"
proof -
  have "keeps R (flagged False (load_chunk env cs d))" for cs by (intro frame_intros)
  then have "keeps R (handleCopyDataHelper env d)"
    unfolding handleCopyDataHelper_def keeps_def by (auto split: option.split intro: refl)
  then show ?thesis
    unfolding handleCopyData_def case_prod_unfold
    by (intro frame_intros keepsI [where m = "\<lambda>s. case_option (f1 s) (f2 s) y" for f1 f2 y]) (auto split: option.split intro: refl copy_law)
qed

lemma keeps_copy_done [frame_intros]: "keeps R (handleCopyDone env)"
proof (rule keepsI)
  fix s
  have f: "R s' (snd (flagged True (send (flushes env) (CommandComplete x)) (s'\<lparr>copyState := None\<rparr>)))" for s' x
    by (intro after_copy frame_intros) simp
  have "keeps R (bind_go (attempt (bind_go (new_context (exec env) []) (\<lambda>_. on_engine (loader_Finish (copying env) l)))) (\<lambda>r s'.
                 case r of
                   Inl e \<Rightarrow> (Inr (False, Some e), s')
                 | Inr n \<Rightarrow> flagged True (send (flushes env) (CommandComplete (''COPY '' @ format_int32 n))) (s'\<lparr>copyState := None\<rparr>)))" for l
    by (intro frame_intros keepsI) (auto split: sum.split intro: refl f)
  then show "R s (snd (handleCopyDone env s))"
    unfolding handleCopyDone_def keeps_def by (auto split: option.split intro: refl)
qed

lemma keeps_copy_fail [frame_intros]: "keeps R (handleCopyFail env)"
  unfolding handleCopyFail_def by (rule keepsI) (auto split: option.split intro: refl copy_law)

lemma keeps_copy_lines: "keeps R (copy_lines fl b ls)"
proof (induction ls arbitrary: b)
  case Nil
  then show ?case by (simp add: keeps_def refl)
next
  case (Cons l ls)
  have "keeps R (if length l > read_buffer then raise (Error ''bufio: buffer full'')
      else bind_go (send_all fl ((if b then [] else [CopyOutResponse (column_count l)]) @ [CopyOutData l])) (\<lambda>_. copy_lines fl True ls))"
    by (intro frame_intros Cons.IH) auto
  then show ?case by (simp add: keeps_def split: if_splits)
qed

lemma keeps_copy_reader [frame_intros]: "keeps R (copy_reader fl f out)"
  unfolding copy_reader_def Let_def case_prod_unfold
  by (intro frame_intros keeps_copy_lines) (auto simp: list_all_iff)

lemma keeps_copy_to [frame_intros]: "keeps R (handleCopyToStdout env st ct sub f opts)"
  unfolding handleCopyToStdout_def
  by (intro frame_intros keepsI) (auto split: option.split intro: refl)

lemma keeps_discard [frame_intros]: "keeps R (discardAll env tag)"
proof -
  have "keeps R (closeBackendConn env)"
    unfolding closeBackendConn_def by (rule keepsI) (auto split: option.split intro: refl engine_law)
  then show ?thesis unfolding discardAll_def by (intro frame_intros) auto
qed

lemma keeps_outside [frame_intros]: "keeps R m \<Longrightarrow> keeps R (outside eom m)"
  unfolding outside_def case_prod_unfold by (intro frame_intros)

lemma keeps_copy_outside: "copy_outside env st = Some m \<Longrightarrow> keeps R m"
  unfolding copy_outside_def
  by (auto split: if_splits option.splits sum.splits ast.splits intro!: frame_intros)

lemma keeps_in_place_outside [frame_intros]: "keeps R (in_place_outside env st)"
  unfolding in_place_outside_def case_prod_unfold by (intro frame_intros) (rule keeps_copy_outside)

end

locale message_frame = statement_frame R env
  for R :: "('e, 'l) connection \<Rightarrow> ('e, 'l) connection \<Rightarrow> bool" and env :: "('e, 'l, 'v) conn_env" +
  assumes delete_law: "keeps R (deletePreparedStatement env n)"
    and delete_portal_law: "keeps R (deletePortal env n)"
    and parse_law: "keeps R (parse_statement env n oids st)"
    and empty_law: "ps_stmt ps = None \<Longrightarrow> ps_closed ps = None \<Longrightarrow> keeps R (store_statement n ps)"
    and bind_law: "keeps R (\<lambda>s. case preparedStatements s n of
        None \<Rightarrow> (Inl (Error (''prepared statement '' @ n @ '' does not exist'')), s)
      | Some ps \<Rightarrow> bind_portal env portal ps formats values results s)"
begin

lemma keeps_deallocate [frame_intros]: "keeps R (deallocatePreparedStatement env n tag)"
proof -
  have "keeps R (bind_go (deletePreparedStatement env n) (\<lambda>_. send (flushes env) (CommandComplete tag)))"
    by (intro frame_intros delete_law) simp
  then show ?thesis
    unfolding deallocatePreparedStatement_def keeps_def by (auto split: option.split intro: refl)
qed

lemma keeps_outside_engine [frame_intros]: "keeps R (handleStatementOutsideEngine env st)"
  unfolding handleStatementOutsideEngine_def by (auto split: option.split ast.split intro!: frame_intros)

lemma keeps_run_action [frame_intros]: "keeps R (run_action env a)"
  unfolding run_action_def
  by (auto split: psql_action.split sum.split go_error.split list.split intro!: frame_intros)

lemma keeps_handle_statements [frame_intros]: "keeps R (handle_statements env eom sts)"
proof (induction sts arbitrary: eom)
  case Nil
  then show ?case by (simp add: keeps_def refl)
next
  case (Cons st sts)
  have "keeps R (bind_go (handleStatementOutsideEngine env st) (\<lambda>(handled, eom', err).
       if handled then (if err \<noteq> None then return_go (True, err) else handle_statements env eom' sts)
       else
         bind_go (attempt (run env st)) (\<lambda>r.
           case r of Inl e \<Rightarrow> return_go (True, Some e) | Inr _ \<Rightarrow> handle_statements env True sts)))"
    unfolding case_prod_unfold by (intro frame_intros Cons.IH)
  then show ?case by (simp add: keeps_def)
qed

lemma keeps_query [frame_intros]: "keeps R (handleQuery env q)"
proof -
  have "keeps R (handle_converted env q)"
    unfolding handle_converted_def by (auto split: sum.split go_error.split intro!: frame_intros delete_law delete_portal_law)
  then show ?thesis
    unfolding handleQuery_def handledPSQLCommands_def handledWorkbenchCommands_def case_prod_unfold
    by (intro frame_intros) (simp_all add: makeCommandComplete_def)
qed

lemma keeps_wait [frame_intros]: "keeps R (set_waitForSync True)"
  by (simp add: keeps_def set_waitForSync_def wait_law)

lemma keeps_parse [frame_intros]: "keeps R (handleParse env n q oids)"
  unfolding handleParse_def
  by (auto split: list.split intro!: frame_intros parse_law empty_law)

lemma keeps_describe_response [frame_intros]: "keeps R (sendDescribeResponse env fds types tag)"
  unfolding sendDescribeResponse_def by (intro frame_intros) (auto split: option.split)

lemma keeps_describe [frame_intros]: "keeps R (handleDescribe env t n)"
proof -
  have "R s (snd (describe_statement env ps s))" "R s (snd (sendDescribeResponse env fds types tag s))" for ps s fds types tag
    using keeps_describe_response unfolding describe_statement_def keeps_def by simp_all
  then show ?thesis
    unfolding handleDescribe_def by (intro frame_intros keepsI) (auto split: option.split intro: refl)
qed

lemma keeps_bind_message [frame_intros]: "keeps R (handleBind env portal n formats values results)"
  unfolding handleBind_def by (intro frame_intros bind_law)

lemma keeps_execute [frame_intros]: "keeps R (handleExecute env n)"
proof -
  have "keeps R (execute_portal env p)" for p
    unfolding execute_portal_def Let_def case_prod_unfold by (intro frame_intros) (simp_all add: makeCommandComplete_def)
  then show ?thesis
    unfolding handleExecute_def by (intro frame_intros keepsI) (auto simp: keeps_def split: option.split intro: refl)
qed

lemma keeps_close [frame_intros]: "keeps R (handleClose env t n)"
  unfolding handleClose_def by (intro frame_intros delete_law delete_portal_law) simp

theorem keeps_message: "msg \<noteq> Sync \<Longrightarrow> keeps R (handleMessage env msg)"
  unfolding handleMessage_def continuing_def by (auto split: frontend.split intro!: frame_intros)

end

end
