(* ===== verification/PgSession.thy ===== *)
theory PgSession
  imports PgFrame
begin

text \<open>
  The loop of a Postgres connection (\<^verbatim>\<open>HandleConnection\<close> of \<^verbatim>\<open>pgserver/connection_handler.go\<close>). Every handler leaves the
  inbox as it is and sends no \<^verbatim>\<open>ReadyForQuery\<close>, which makes the loop end: each round takes at least one message.
\<close>

section \<open>Answers and the inbox\<close>

text \<open>
  A handler takes nothing from the inbox, sends anything but \<^verbatim>\<open>ReadyForQuery\<close>, and does not stop waiting for a
  \<^verbatim>\<open>Sync\<close>.
\<close>

definition answers :: "('e, 'l) connection \<Rightarrow> ('e, 'l) connection \<Rightarrow> bool" where
  "answers s t \<longleftrightarrow>
     inbox t = inbox s \<and> (\<exists>out. outbox t = outbox s @ out \<and> list_all (\<lambda>m. \<not> is_ready m) out) \<and> (waitForSync s \<longrightarrow> waitForSync t)"

lemma answers_same: "inbox t = inbox s \<Longrightarrow> outbox t = outbox s \<Longrightarrow> waitForSync t = waitForSync s \<Longrightarrow> answers s t"
  by (simp add: answers_def)

interpretation reply: connection_frame answers
proof unfold_locales
  show "answers s t \<Longrightarrow> answers t u \<Longrightarrow> answers s u" for s t u :: "('e, 'l) connection"
    unfolding answers_def by (metis append.assoc list_all_append)
  show "\<not> is_ready m \<Longrightarrow> answers s (s\<lparr>outbox := outbox s @ [m]\<rparr>)" for m and s :: "('e, 'l) connection"
    unfolding answers_def by simp
  show "answers s (s\<lparr>waitForSync := True\<rparr>)" for s :: "('e, 'l) connection"
    by (simp add: answers_def)
qed (simp_all add: answers_same)

lemma answers_close [frame_intros]: "keeps answers (close_stmt env h)"
  unfolding close_stmt_def by (rule keepsI) (simp add: answers_same split: prod.split)

lemma answers_prepare [frame_intros]: "keeps answers (prepare env q)"
proof (rule keepsI)
  fix s :: "('a, 'b) connection"
  have "keeps answers (bind_go (on_engine (PrepareContext env h q)) (\<lambda>types. return_go (h, types)) :: ('a, 'b, _) handler)" for h
    by (intro reply.keeps_bind reply.keeps_on_engine reply.keeps_return)
  then have "answers (s\<lparr>nextStmt := n\<rparr>) (snd (bind_go (on_engine (PrepareContext env h q)) (\<lambda>types. return_go (h, types)) (s\<lparr>nextStmt := n\<rparr>)))" for h n
    by (simp add: keeps_def)
  then show "answers s (snd (prepare env q s))"
    unfolding prepare_def Let_def by (rule reply.trans [rotated]) (simp add: answers_same)
qed

lemma answers_tag: "keeps answers (getStatementTag env q)"
  unfolding getStatementTag_def case_prod_unfold by (intro frame_intros)

interpretation statement_reply: statement_frame answers env for env :: "('e, 'l, 'v) conn_env"
  by unfold_locales (rule answers_tag)

lemma answers_ComPrepareParsed [frame_intros]: "keeps answers (ComPrepareParsed env q)"
  unfolding ComPrepareParsed_def result_fields_def Let_def case_prod_unfold by (intro frame_intros)

lemma answers_store [frame_intros]:
  "keeps answers (store_statement n ps)" "keeps answers (store_portal n p)" "keeps answers new_flag" "keeps answers (compare_and_swap flag)"
  unfolding store_statement_def store_portal_def new_flag_def compare_and_swap_def
  by (auto intro!: keepsI split: option.split simp: answers_same)

lemma answers_close_once: "keeps answers (close_once env flag stmt)"
  unfolding close_once_def by (intro frame_intros)

lemma answers_delete:
  "keeps answers (deletePreparedStatement env n)" "keeps answers (deletePortal env n)"
proof -
  have "answers t (snd (close_once env flag stmt t))" for t flag stmt
    by (rule answers_close_once [unfolded keeps_def, rule_format])
  then have "answers s (snd (close_once env flag stmt (s\<lparr>preparedStatements := m\<rparr>)))" "answers s (snd (close_once env flag stmt (s\<lparr>portals := m'\<rparr>)))"
    for s flag stmt m m'
    by (rule reply.trans [rotated]; simp add: answers_same)+
  then show "keeps answers (deletePreparedStatement env n)" "keeps answers (deletePortal env n)"
    unfolding deletePreparedStatement_def deletePortal_def keeps_def
    by (auto split: option.split simp: answers_same)
qed

interpretation message_reply: message_frame answers env for env :: "('e, 'l, 'v) conn_env"
proof unfold_locales
  show "keeps answers (parse_statement env n oids st)" for n oids st
    unfolding parse_statement_def stores_def case_prod_unfold
    by (intro frame_intros; simp)
  show "keeps answers (\<lambda>s. case preparedStatements s n of
        None \<Rightarrow> (Inl (Error (''prepared statement '' @ n @ '' does not exist'')), s)
      | Some ps \<Rightarrow> bind_portal env portal ps formats vals results s)" for n portal formats vals results
  proof (rule keepsI)
    fix s :: "('e, 'l) connection"
    have "keeps answers (bind_portal env portal ps formats vals results)" for ps
      unfolding bind_portal_def Let_def by (intro frame_intros; simp)
    then show "answers s (snd (case preparedStatements s n of
        None \<Rightarrow> (Inl (Error (''prepared statement '' @ n @ '' does not exist'')), s)
      | Some ps \<Rightarrow> bind_portal env portal ps formats vals results s))"
      by (auto split: option.split simp: keeps_def answers_same)
  qed
qed (intro answers_delete answers_store)+
lemma answers_message: "msg \<noteq> Sync \<Longrightarrow> answers s (snd (handleMessage env msg s))"
  using message_reply.keeps_message [of msg env] by (simp add: keeps_def)

lemma message_inbox: "inbox (snd (handleMessage env msg s)) = inbox s"
proof (cases "msg = Sync")
  case True
  then show ?thesis by (simp add: handleMessage_def set_waitForSync_def bind_go_def)
next
  case False
  then show ?thesis using answers_message [of msg s env] by (simp add: answers_def)
qed

section \<open>The loop\<close>

lemma send_inbox [simp]: "inbox (snd (send fl m s)) = inbox s"
  by (simp add: send_def Let_def)

lemma end_of_messages_inbox [simp]: "inbox (snd (endOfMessages fl err s)) = inbox s"
  unfolding endOfMessages_def sendError_def panicking_def bind_go_def
  by (auto simp: send_def Let_def split: option.split)

lemma after_sync_length: "after_sync ms = Some rest \<Longrightarrow> length rest \<le> length ms"
  by (induction ms) (auto split: if_splits)

lemma discard_length: "length (inbox (snd (discard_when_waiting eom s))) \<le> length (inbox s)"
  by (auto simp: discard_when_waiting_def discardToSync_def after_sync_length split: option.split)

lemma discard_always: "fst (discard_when_waiting eom s) = Inr ()"
  by (simp add: discard_when_waiting_def)

lemma bind_discard: "bind_go (discard_when_waiting eom) f s = f () (snd (discard_when_waiting eom s))"
  by (simp add: bind_go_def discard_when_waiting_def)

lemma finish_length: "length (inbox (snd (finish_message env eom err s))) \<le> length (inbox s)"
  by (auto simp: finish_message_def bind_discard discard_length split: option.split)

lemma snd_bind_return: "snd (bind_go m (\<lambda>_. return_go x) s) = snd (m s)"
  by (simp add: bind_go_def split: prod.split sum.split)

lemma recover_length: "length (inbox (snd (recover env eom e s))) \<le> length (inbox s)"
  by (simp add: recover_def bind_discard snd_bind_return discard_length)

lemma process_length: "length (inbox (snd (process_message env msg s))) \<le> length (inbox s)"
proof -
  obtain r s1 where h: "handleMessage env msg s = (r, s1)" by fastforce
  have s1: "inbox s1 = inbox s" using message_inbox [of env msg s] h by simp
  show ?thesis
  proof (cases r)
    case (Inl e)
    then show ?thesis using recover_length [of env False e s1] h s1 by (simp add: process_message_def)
  next
    case (Inr x)
    obtain stop eom err where x: "x = (stop, eom, err)" by (cases x)
    obtain r' s2 where f: "finish_message env eom err s1 = (r', s2)" by fastforce
    have s2: "length (inbox s2) \<le> length (inbox s)" using finish_length [of env eom err s1] f s1 by simp
    have "length (inbox (snd (recover env eom e s2))) \<le> length (inbox s)" for e
      using recover_length [of env eom e s2] s2 by linarith
    with s2 show ?thesis using Inr x f h by (cases r') (simp_all add: process_message_def)
  qed
qed

lemma receive_shorter: "receiveMessage env s = (Inr b, s') \<Longrightarrow> length (inbox s') < length (inbox s)"
proof -
  assume r: "receiveMessage env s = (Inr b, s')"
  then obtain m ms where ms: "inbox s = m # ms" by (cases "inbox s") (auto simp: receiveMessage_def Receive_def)
  with r have "s' = snd (process_message env m (s\<lparr>inbox := ms\<rparr>))" by (simp add: receiveMessage_def Receive_def)
  then show ?thesis using process_length [of env m "s\<lparr>inbox := ms\<rparr>"] ms by simp
qed

function session_loop :: "('e, 'l, 'v) conn_env \<Rightarrow> ('e, 'l, unit) handler" where
  "session_loop env s =
     (case receiveMessage env s of
        (Inl e, s') \<Rightarrow> (Inl e, s')
      | (Inr stop, s') \<Rightarrow> if stop then (Inr (), s') else session_loop env s')"
  by pat_completeness auto
termination
  by (relation "measure (\<lambda>(env, s). length (inbox s))") (auto simp: receive_shorter dest: sym)

declare session_loop.simps [simp del]

definition HandleConnection :: "('e, 'l, 'v) conn_env \<Rightarrow> ('e, 'l) connection \<Rightarrow> ('e, 'l) connection" where
  "HandleConnection env s =
     (let (r, s1) = bind_go (handleStartup env) (\<lambda>proceed. if proceed then session_loop env else return_go ())
            (s\<lparr>engine := AddConn env (engine s)\<rparr>);
          s2 = (case r of Inl (Panic p) \<Rightarrow> snd (endOfMessages (flushes env) (Some p) s1) | _ \<Rightarrow> s1) in
      snd (closeBackendConn env (s2\<lparr>engine := CloseSession env (engine s2)\<rparr>)))"

end
