(* ===== verification/PgStatements.thy ===== *)
theory PgStatements
  imports PgSession
begin

text \<open>
  The prepared statements and portals of a Postgres connection: no message makes it close a statement of DuckDB twice.
\<close>

section \<open>Statements are closed once\<close>

text \<open>
  The tables of a connection that name statements of DuckDB, and their invariant. An owner is an entry's
  statement with its flag: entries with one flag have one statement and the other way round, and the flag of a
  statement says whether it has been closed.
\<close>

definition same_tables :: "('e, 'l) connection \<Rightarrow> ('e, 'l) connection \<Rightarrow> bool" where
  "same_tables s t \<longleftrightarrow> preparedStatements t = preparedStatements s \<and> portals t = portals s \<and> closed_flags t = closed_flags s \<and>
     nextStmt t = nextStmt s \<and> closes t = closes s"

definition owns :: "('e, 'l) connection \<Rightarrow> duck_stmt option \<Rightarrow> nat \<Rightarrow> bool" where
  "owns s x i \<longleftrightarrow> (\<exists>n ps. preparedStatements s n = Some ps \<and> ps_stmt ps = x \<and> ps_closed ps = Some i) \<or>
     (\<exists>n p. portals s n = Some p \<and> po_stmt p = x \<and> po_closed p = Some i)"

definition has_flags :: "('e, 'l) connection \<Rightarrow> bool" where
  "has_flags s \<longleftrightarrow> (\<forall>n ps. preparedStatements s n = Some ps \<longrightarrow> ps_stmt ps \<noteq> None \<longrightarrow> ps_closed ps \<noteq> None) \<and>
     (\<forall>n p. portals s n = Some p \<longrightarrow> po_stmt p \<noteq> None \<longrightarrow> po_closed p \<noteq> None)"

definition statements_ok :: "('e, 'l) connection \<Rightarrow> bool" where
  "statements_ok s \<longleftrightarrow> has_flags s \<and> distinct (closes s) \<and> (\<forall>h\<in>set (closes s). h < nextStmt s) \<and>
     (\<forall>x i. owns s x i \<longrightarrow> i < length (closed_flags s)) \<and>
     (\<forall>h i. owns s (Some h) i \<longrightarrow> h < nextStmt s \<and> (closed_flags s ! i \<longleftrightarrow> h \<in> set (closes s))) \<and>
     (\<forall>x y i. owns s x i \<longrightarrow> owns s y i \<longrightarrow> x = y) \<and>
     (\<forall>h i j. owns s (Some h) i \<longrightarrow> owns s (Some h) j \<longrightarrow> i = j)"

definition keeps_statements :: "('e, 'l) connection \<Rightarrow> ('e, 'l) connection \<Rightarrow> bool" where
  "keeps_statements s t \<longleftrightarrow> (statements_ok s \<longrightarrow> statements_ok t)"

lemma same_tables_ok: "same_tables s t \<Longrightarrow> statements_ok t \<longleftrightarrow> statements_ok s"
  by (simp add: same_tables_def statements_ok_def has_flags_def owns_def)

lemma same_tables_keeps: "same_tables s t \<Longrightarrow> keeps_statements s t"
  unfolding keeps_statements_def by (metis same_tables_ok)

interpretation plain: connection_frame same_tables
  by unfold_locales (simp_all add: same_tables_def)

interpretation closing: connection_frame keeps_statements
proof unfold_locales
  show "keeps_statements s s" "keeps_statements s t \<Longrightarrow> keeps_statements t u \<Longrightarrow> keeps_statements s u" for s t u :: "('e, 'l) connection"
    by (simp_all add: keeps_statements_def)
qed (simp_all add: same_tables_keeps same_tables_def)

lemma same_keeps: "keeps same_tables m \<Longrightarrow> keeps keeps_statements m"
  by (simp add: keeps_def same_tables_keeps)

lemma preparing:
  "prepare env q s = (r, t) \<Longrightarrow> same_tables (s\<lparr>nextStmt := nextStmt s + 1\<rparr>) t \<and> (\<forall>h types. r = Inr (h, types) \<longrightarrow> h = nextStmt s)"
  unfolding prepare_def Let_def bind_go_def on_engine_def same_tables_def by (auto split: prod.splits sum.splits)

lemma closing_stmt: "close_stmt env (Some h) s = (r, t) \<Longrightarrow> same_tables (s\<lparr>closes := closes s @ [h]\<rparr>) t"
  by (auto simp: close_stmt_def same_tables_def split: prod.splits)

text \<open>A new statement that is in no table, closed or not.\<close>

lemma fresh_ok:
  assumes "statements_ok s"
  shows "statements_ok (s\<lparr>nextStmt := nextStmt s + 1\<rparr>)"
    "statements_ok (s\<lparr>nextStmt := nextStmt s + 1, closes := closes s @ [nextStmt s]\<rparr>)"
proof -
  have o: "owns (s\<lparr>nextStmt := n\<rparr>) = owns s" "owns (s\<lparr>nextStmt := n, closes := c\<rparr>) = owns s"
    "has_flags (s\<lparr>nextStmt := n\<rparr>) = has_flags s" "has_flags (s\<lparr>nextStmt := n, closes := c\<rparr>) = has_flags s" for n c
    by (auto simp: owns_def has_flags_def fun_eq_iff)
  show "statements_ok (s\<lparr>nextStmt := nextStmt s + 1\<rparr>)" using assms unfolding statements_ok_def o by (auto simp: less_Suc_eq)
  show "statements_ok (s\<lparr>nextStmt := nextStmt s + 1, closes := closes s @ [nextStmt s]\<rparr>)"
    using assms unfolding statements_ok_def o by (auto simp: less_Suc_eq)
qed

lemma plain_result_fields: "keeps same_tables (result_fields env q t n)"
  unfolding result_fields_def Let_def by (intro frame_intros)
lemma new_context_state: "new_context env q s = (r, t) \<Longrightarrow> t = s"
  by (simp add: new_context_def)

lemma same_tables_fresh:
  "same_tables (s\<lparr>nextStmt := nextStmt s + 1\<rparr>) t \<Longrightarrow> keeps_statements s t"
  unfolding keeps_statements_def using fresh_ok(1) same_tables_ok by blast

lemma same_tables_fresh_closed:
  assumes "same_tables (s\<lparr>nextStmt := nextStmt s + 1\<rparr>) t" "same_tables t t'" "same_tables (t'\<lparr>closes := closes t' @ [nextStmt s]\<rparr>) u"
  shows "keeps_statements s u"
proof -
  have "same_tables (s\<lparr>nextStmt := nextStmt s + 1, closes := closes s @ [nextStmt s]\<rparr>) u"
    using assms by (simp add: same_tables_def)
  then show ?thesis unfolding keeps_statements_def using fresh_ok(2) same_tables_ok by blast
qed

lemma keeps_getStatementTag: "keeps keeps_statements (getStatementTag env q)"
proof (rule keepsI)
  fix s :: "('a, 'b) connection"
  obtain r t where p: "prepare env q s = (r, t)" by fastforce
  note prep = preparing [OF p]
  obtain r0 where c: "new_context env [] s = (r0, s)" using new_context_state by (metis surj_pair)
  show "keeps_statements s (snd (getStatementTag env q s))"
  proof (cases "\<exists>e. r0 = Inl e \<or> r = Inl e")
    case True
    then have "snd (getStatementTag env q s) \<in> {s, t}"
      unfolding getStatementTag_def bind_go_def c using p by (auto split: sum.splits)
    then show ?thesis using prep same_tables_fresh closing.refl by auto
  next
    case False
    then obtain u h types where h: "r0 = Inr u" "r = Inr (h, types)" by (metis old.sum.exhaust surj_pair)
    obtain r2 v where cl: "close_stmt env (Some h) t = (r2, v)" by fastforce
    have "snd (getStatementTag env q s) = v"
      unfolding getStatementTag_def bind_go_def c using p h cl by (auto simp: lift_res_def split: sum.split)
    then show ?thesis
      using same_tables_fresh_closed [of s t t v] prep closing_stmt [OF cl] h by (simp add: plain.refl)
  qed
qed

text \<open>What \<^verbatim>\<open>ComPrepareParsed\<close> leaves: on success one new open statement, which it returns.\<close>

lemma ComPrepareParsed_tables:
  assumes "ComPrepareParsed env q s = (r, u)"
  shows "keeps_statements s u" "r = Inr (h, params, fds) \<Longrightarrow> h = nextStmt s \<and> same_tables (s\<lparr>nextStmt := nextStmt s + 1\<rparr>) u"
proof -
  obtain r0 where c: "new_context env q s = (r0, s)" using new_context_state by (metis surj_pair)
  obtain r1 t where p: "prepare env q s = (r1, t)" by fastforce
  note prep = preparing [OF p]
  have "keeps_statements s u \<and> (\<forall>h params fds. r = Inr (h, params, fds) \<longrightarrow> h = nextStmt s \<and> same_tables (s\<lparr>nextStmt := nextStmt s + 1\<rparr>) u)"
  proof (cases "\<exists>e. r0 = Inl e \<or> r1 = Inl e")
    case True
    then have "u \<in> {s, t} \<and> (\<exists>e. r = Inl e)"
      using assms unfolding ComPrepareParsed_def bind_go_def c using p by (auto split: sum.splits)
    then show ?thesis using prep same_tables_fresh closing.refl by auto
  next
    case False
    then obtain x h types where h: "r0 = Inr x" "r1 = Inr (h, types)" by (metis old.sum.exhaust surj_pair)
    have hn: "h = nextStmt s" using prep h by simp
    show ?thesis
    proof (cases "StatementType env (Some h) (engine t)")
      case (Inl e)
      then have "u = t \<and> r = Inl e"
        using assms unfolding ComPrepareParsed_def bind_go_def c using p h by simp
      then show ?thesis using prep same_tables_fresh by auto
    next
      case (Inr ty)
      obtain r3 t3 where f: "attempt (result_fields env q ty (length types)) t = (r3, t3)" by fastforce
      have t3: "same_tables t t3" using plain.keeps_attempt [OF plain_result_fields] f unfolding keeps_def by (metis snd_conv)
      have st: "same_tables (s\<lparr>nextStmt := nextStmt s + 1\<rparr>) t3" using plain.trans prep t3 by blast
      obtain r4 v where cl: "close_stmt env (Some h) t3 = (r4, v)" by fastforce
      have "r = Inr (h', ps, fds) \<Longrightarrow> u = t3 \<and> h' = h" "u \<in> {t3, v}" for h' ps fds
        using assms unfolding ComPrepareParsed_def bind_go_def c using p h f Inr cl
        by (auto split: sum.splits)
      then show ?thesis
        using st hn same_tables_fresh same_tables_fresh_closed [OF _ t3, of s v] prep closing_stmt [OF cl] by (auto simp: hn)
    qed
  qed
  then show "keeps_statements s u" "r = Inr (h, params, fds) \<Longrightarrow> h = nextStmt s \<and> same_tables (s\<lparr>nextStmt := nextStmt s + 1\<rparr>) u" by auto
qed
text \<open>An entry is removed, and the statement it owned is closed.\<close>

definition fewer_entries :: "('e, 'l) connection \<Rightarrow> ('e, 'l) connection \<Rightarrow> bool" where
  "fewer_entries s t \<longleftrightarrow> has_flags t \<and> (\<forall>x i. owns t x i \<longrightarrow> owns s x i) \<and> closed_flags t = closed_flags s \<and> nextStmt t = nextStmt s \<and>
     closes t = closes s"

lemma fewer_entries_ok: "fewer_entries s t \<Longrightarrow> statements_ok s \<Longrightarrow> statements_ok t"
  unfolding fewer_entries_def statements_ok_def by (elim conjE, simp, blast)

definition logged :: "duck_stmt option \<Rightarrow> duck_stmt list" where
  "logged x = (case x of None \<Rightarrow> [] | Some h \<Rightarrow> [h])"

lemma close_stmt_tables: "same_tables (s\<lparr>closes := closes s @ logged x\<rparr>) (snd (close_stmt env x s))"
  by (auto simp: close_stmt_def same_tables_def logged_def split: prod.split option.split)

lemma marked_ok:
  assumes "statements_ok s" "owns s x i" "\<not> closed_flags s ! i" "fewer_entries s t"
  shows "statements_ok (t\<lparr>closed_flags := (closed_flags t)[i := True], closes := closes t @ logged x\<rparr>)" (is "statements_ok ?t")
proof -
  have t: "statements_ok t" using fewer_entries_ok assms by blast
  have own: "owns ?t = owns t" "has_flags ?t = has_flags t" by (auto simp: owns_def has_flags_def fun_eq_iff)
  have sub: "owns t y j \<Longrightarrow> owns s y j" for y j using assms(4) by (simp add: fewer_entries_def)
  have i: "i < length (closed_flags t)" "closed_flags t = closed_flags s" "nextStmt t = nextStmt s" "closes t = closes s"
    using assms by (auto simp: statements_ok_def fewer_entries_def)
  have x: "h < nextStmt s \<and> h \<notin> set (closes s)" if "x = Some h" for h
    using assms(1-3) that by (auto simp: statements_ok_def)
  have flag: "(closed_flags t)[i := True] ! j \<longleftrightarrow> h \<in> set (closes t @ logged x)" if "owns t (Some h) j" for h j
  proof (cases "j = i")
    case True
    then have "x = Some h" using sub [OF that] assms(1,2) by (auto simp: statements_ok_def)
    then show ?thesis using True i(1) by (simp add: logged_def)
  next
    case False
    then have "x \<noteq> Some h" using sub [OF that] assms(1,2) unfolding statements_ok_def by metis
    then have "h \<notin> set (logged x)" by (auto simp: logged_def split: option.split)
    moreover have "closed_flags t ! j \<longleftrightarrow> h \<in> set (closes t)" using t that by (simp add: statements_ok_def)
    ultimately show ?thesis using False by simp
  qed
  have "distinct (closes t @ logged x)" "\<forall>h\<in>set (closes t @ logged x). h < nextStmt t"
    using t x i by (auto simp: statements_ok_def logged_def split: option.splits)
  then show ?thesis using t flag unfolding statements_ok_def own by simp
qed

lemma close_once_ok:
  assumes "statements_ok s" "fewer_entries s t" "\<And>i. flag = Some i \<Longrightarrow> owns s x i"
  shows "statements_ok (snd (close_once env flag x t))"
proof (cases "\<exists>i. flag = Some i \<and> \<not> closed_flags t ! i")
  case False
  then have "snd (close_once env flag x t) = t"
    by (auto simp: close_once_def bind_go_def compare_and_swap_def split: option.split)
  then show ?thesis using fewer_entries_ok assms by metis
next
  case True
  then obtain j where j: "flag = Some j" "\<not> closed_flags t ! j" by blast
  have own: "owns s x j" "j < length (closed_flags t)" "\<not> closed_flags s ! j"
    using assms j by (auto simp: statements_ok_def fewer_entries_def)
  have "snd (close_once env flag x t) = snd (close_stmt (exec env) x (t\<lparr>closed_flags := (closed_flags t)[j := True]\<rparr>))"
    using j own(2) by (simp add: close_once_def bind_go_def compare_and_swap_def)
  moreover have "same_tables (t\<lparr>closed_flags := (closed_flags t)[j := True], closes := closes t @ logged x\<rparr>)
      (snd (close_stmt (exec env) x (t\<lparr>closed_flags := (closed_flags t)[j := True]\<rparr>)))"
    using close_stmt_tables [of "t\<lparr>closed_flags := (closed_flags t)[j := True]\<rparr>" x "exec env"] by simp
  ultimately show ?thesis using marked_ok [OF assms(1) own(1) own(3) assms(2)] same_tables_ok by metis
qed

lemma fewer_without:
  assumes "has_flags s"
  shows "fewer_entries s (s\<lparr>preparedStatements := (preparedStatements s)(n := None)\<rparr>)"
    "fewer_entries s (s\<lparr>portals := (portals s)(n := None)\<rparr>)"
proof -
  have "((preparedStatements s)(n := None)) m = Some ps \<Longrightarrow> preparedStatements s m = Some ps"
    "((portals s)(n := None)) m = Some p \<Longrightarrow> portals s m = Some p" for m ps p
    by (auto split: if_splits)
  then show "fewer_entries s (s\<lparr>preparedStatements := (preparedStatements s)(n := None)\<rparr>)"
    "fewer_entries s (s\<lparr>portals := (portals s)(n := None)\<rparr>)"
    using assms unfolding fewer_entries_def has_flags_def owns_def by (simp_all, blast+)
qed

lemma keeps_delete_statement: "keeps keeps_statements (deletePreparedStatement env n)"
proof (rule keepsI, unfold keeps_statements_def, rule impI)
  fix s :: "('a, 'b) connection"
  assume ok: "statements_ok s"
  show "statements_ok (snd (deletePreparedStatement env n s))"
  proof (cases "preparedStatements s n")
    case None
    then show ?thesis using ok by (simp add: deletePreparedStatement_def)
  next
    case (Some ps)
    have "owns s (ps_stmt ps) i" if "ps_closed ps = Some i" for i using Some that unfolding owns_def by blast
    moreover have "has_flags s" using ok by (simp add: statements_ok_def)
    ultimately have "statements_ok (snd (close_once env (ps_closed ps) (ps_stmt ps) (s\<lparr>preparedStatements := (preparedStatements s)(n := None)\<rparr>)))"
      by (intro close_once_ok [OF ok fewer_without(1)])
    then show ?thesis using Some by (simp add: deletePreparedStatement_def)
  qed
qed

lemma keeps_delete_portal: "keeps keeps_statements (deletePortal env n)"
proof (rule keepsI, unfold keeps_statements_def, rule impI)
  fix s :: "('a, 'b) connection"
  assume ok: "statements_ok s"
  show "statements_ok (snd (deletePortal env n s))"
  proof (cases "portals s n")
    case None
    then show ?thesis using ok by (simp add: deletePortal_def)
  next
    case (Some p)
    have "owns s (po_stmt p) i" if "po_closed p = Some i" for i using Some that unfolding owns_def by blast
    moreover have "has_flags s" using ok by (simp add: statements_ok_def)
    ultimately have "statements_ok (snd (close_once env (po_closed p) (po_stmt p) (s\<lparr>portals := (portals s)(n := None)\<rparr>)))"
      by (intro close_once_ok [OF ok fewer_without(2)])
    then show ?thesis using Some by (simp add: deletePortal_def)
  qed
qed

text \<open>An entry is stored: one without a statement, one with a new statement and a new flag, a portal of a known statement.\<close>

lemma store_plain_ok:
  assumes "statements_ok s" "ps_stmt ps = None" "ps_closed ps = None"
  shows "statements_ok (s\<lparr>preparedStatements := (preparedStatements s)(n \<mapsto> ps)\<rparr>)"
proof (rule fewer_entries_ok [OF _ assms(1)])
  have "has_flags s" using assms(1) by (simp add: statements_ok_def)
  then show "fewer_entries s (s\<lparr>preparedStatements := (preparedStatements s)(n \<mapsto> ps)\<rparr>)"
    using assms(2,3) unfolding fewer_entries_def has_flags_def owns_def by (auto split: if_splits)
qed

lemma store_portal_ok:
  assumes "statements_ok s" "po_stmt p = None \<and> po_closed p = None \<or> (\<exists>i. po_closed p = Some i \<and> owns s (po_stmt p) i)"
  shows "statements_ok (s\<lparr>portals := (portals s)(n \<mapsto> p)\<rparr>)"
proof (rule fewer_entries_ok [OF _ assms(1)])
  have "has_flags s" using assms(1) by (simp add: statements_ok_def)
  then have "has_flags (s\<lparr>portals := (portals s)(n \<mapsto> p)\<rparr>)" using assms(2) by (auto simp: has_flags_def split: if_splits)
  moreover have "owns s x i" if "owns (s\<lparr>portals := (portals s)(n \<mapsto> p)\<rparr>) x i" for x i
    using that assms(2) unfolding owns_def by (auto split: if_splits)
  ultimately show "fewer_entries s (s\<lparr>portals := (portals s)(n \<mapsto> p)\<rparr>)" by (simp add: fewer_entries_def)
qed
lemma store_new_ok:
  assumes ok: "statements_ok s" and ps: "ps_closed ps = Some (length (closed_flags s))"
    and new: "ps_stmt ps = None \<or> (\<exists>h. ps_stmt ps = Some h \<and> h < nextStmt s \<and> h \<notin> set (closes s) \<and> (\<forall>i. \<not> owns s (Some h) i))"
  shows "statements_ok (s\<lparr>closed_flags := closed_flags s @ [False], preparedStatements := (preparedStatements s)(n \<mapsto> ps)\<rparr>)" (is "statements_ok ?t")
proof -
  let ?k = "length (closed_flags s)"
  have own: "owns s y j \<or> y = ps_stmt ps \<and> j = ?k" if "owns ?t y j" for y j
    using that ps unfolding owns_def by (auto split: if_splits)
  have lt: "j < ?k" if "owns s y j" for y j using that ok by (auto simp: statements_ok_def)
  have "has_flags ?t" using ok ps unfolding statements_ok_def has_flags_def by (auto split: if_splits)
  moreover have "j < length (closed_flags ?t)" if "owns ?t y j" for y j using own [OF that] lt [of y j] by auto
  moreover have "h < nextStmt ?t \<and> (closed_flags ?t ! j \<longleftrightarrow> h \<in> set (closes ?t))" if "owns ?t (Some h) j" for h j
    using own [OF that] lt new ok unfolding statements_ok_def by (auto simp: nth_append)
  moreover have "y = z" if "owns ?t y j" "owns ?t z j" for y z j
    using own [OF that(1)] own [OF that(2)] lt [of y j] lt [of z j] ok unfolding statements_ok_def by auto
  moreover have "i = j" if "owns ?t (Some h) i" "owns ?t (Some h) j" for h i j
    using own [OF that(1)] own [OF that(2)] new ok unfolding statements_ok_def by auto
  moreover have "distinct (closes ?t)" "\<forall>h\<in>set (closes ?t). h < nextStmt ?t" using ok by (auto simp: statements_ok_def)
  ultimately show ?thesis unfolding statements_ok_def by blast
qed

lemma stores_ok:
  fixes s :: "('e, 'l) connection"
  assumes "statements_ok (s\<lparr>closed_flags := closed_flags s @ [False], preparedStatements := (preparedStatements s)(n \<mapsto> f (length (closed_flags s)))\<rparr>)"
  shows "statements_ok (snd (stores env n f s))"
proof -
  have "keeps keeps_statements (send (flushes env) ParseComplete :: ('e, 'l, unit) handler)" by (intro closing.keeps_send) simp
  then show ?thesis using assms
    by (simp add: stores_def bind_go_def new_flag_def store_statement_def keeps_def keeps_statements_def)
qed

interpretation statement_closing: statement_frame keeps_statements env for env :: "('e, 'l, 'v) conn_env"
  by unfold_locales (rule keeps_getStatementTag)

lemma keeps_in_place_statement:
  "keeps keeps_statements (stores env n (\<lambda>i. \<lparr>ps_statement = st, ps_returnFields = [], ps_bindVarTypes = None, ps_stmt = None, ps_closed = Some i\<rparr>))"
  by (rule keepsI) (auto simp: keeps_statements_def intro!: stores_ok store_new_ok)

lemma owned_bound: "statements_ok s \<Longrightarrow> owns s (Some h) i \<Longrightarrow> h < nextStmt s" "statements_ok s \<Longrightarrow> h \<in> set (closes s) \<Longrightarrow> h < nextStmt s"
  by (auto simp: statements_ok_def)

lemma keeps_prepared_statement:
  "keeps keeps_statements (bind_go (ComPrepareParsed (exec env) q) (\<lambda>(h, params, fds).
     bind_go (\<lambda>s. (tagged h s, s)) (\<lambda>st'. stores env n (\<lambda>i. \<lparr>ps_statement = st', ps_returnFields = fds, ps_bindVarTypes = Some (types params),
       ps_stmt = Some h, ps_closed = Some i\<rparr>))))" (is "keeps _ (bind_go _ ?f)")
proof (rule keepsI)
  fix s :: "('a, 'b) connection"
  obtain r u where p: "ComPrepareParsed (exec env) q s = (r, u)" by fastforce
  note tables = ComPrepareParsed_tables [OF p]
  show "keeps_statements s (snd (bind_go (ComPrepareParsed (exec env) q) ?f s))"
  proof (cases r)
    case (Inl e)
    then show ?thesis using tables(1) p by (simp add: bind_go_def)
  next
    case (Inr x)
    obtain h params fds where x: "x = (h, params, fds)" by (cases x)
    have h: "h = nextStmt s" "same_tables (s\<lparr>nextStmt := nextStmt s + 1\<rparr>) u" using tables(2) Inr x by auto
    show ?thesis
    proof (cases "tagged h u")
      case (Inl e)
      then show ?thesis using tables(1) p Inr x by (simp add: bind_go_def)
    next
      case (Inr st')
      have "statements_ok s \<Longrightarrow> statements_ok (snd (stores env n (\<lambda>i. \<lparr>ps_statement = st', ps_returnFields = fds, ps_bindVarTypes = Some (types params),
          ps_stmt = Some h, ps_closed = Some i\<rparr>) u))"
      proof (intro stores_ok store_new_ok)
        assume ok: "statements_ok s"
        then show "statements_ok u" using tables(1) by (simp add: keeps_statements_def)
        have "owns u (Some h) i \<longleftrightarrow> owns s (Some h) i" for i using h(2) by (simp add: owns_def same_tables_def)
        then show "ps_stmt \<lparr>ps_statement = st', ps_returnFields = fds, ps_bindVarTypes = Some (types params), ps_stmt = Some h,
              ps_closed = Some (length (closed_flags u))\<rparr> = None \<or>
            (\<exists>h'. ps_stmt \<lparr>ps_statement = st', ps_returnFields = fds, ps_bindVarTypes = Some (types params), ps_stmt = Some h,
              ps_closed = Some (length (closed_flags u))\<rparr> = Some h' \<and> h' < nextStmt u \<and> h' \<notin> set (closes u) \<and> (\<forall>i. \<not> owns u (Some h') i))"
          using h owned_bound [OF ok] by (fastforce simp: same_tables_def)
      qed simp
      then show ?thesis using p \<open>r = Inr x\<close> x Inr by (simp add: bind_go_def keeps_statements_def)
    qed
  qed
qed
lemma keeps_bind_portal:
  assumes "statements_ok s" "preparedStatements s n = Some ps"
  shows "statements_ok (snd (bind_portal env portal ps formats vals results s))"
proof -
  have sent: "statements_ok (snd (bind_go (store_portal portal p) (\<lambda>_. send (flushes env) BindComplete) t))"
    if "statements_ok t" "po_stmt p = None \<and> po_closed p = None \<or> (\<exists>i. po_closed p = Some i \<and> owns t (po_stmt p) i)" for t :: "('a, 'b) connection" and p
  proof -
    have "keeps keeps_statements (send (flushes env) BindComplete :: ('a, 'b, unit) handler)" by (intro closing.keeps_send) simp
    then show ?thesis using store_portal_ok [OF that] by (simp add: bind_go_def store_portal_def keeps_def keeps_statements_def)
  qed
  show ?thesis
  proof (cases "ps_stmt ps = None \<or> st_ast (ps_statement ps) = None")
    case True
    then show ?thesis using assms(1) by (auto simp: bind_portal_def Let_def intro!: sent)
  next
    case False
    obtain h a where ha: "ps_stmt ps = Some h" "st_ast (ps_statement ps) = Some a" using False by auto
    have "has_flags s" using assms(1) by (simp add: statements_ok_def)
    then obtain i where i: "ps_closed ps = Some i" using False assms(2) unfolding has_flags_def by blast
    then have own: "owns s (ps_stmt ps) i" using assms(2) unfolding owns_def by blast
    let ?vars = "convertBindParameters env (case ps_bindVarTypes ps of None \<Rightarrow> [] | Some ts \<Rightarrow> ts) formats vals"
    show ?thesis
    proof (cases ?vars)
      case (Inl e)
      then show ?thesis using ha assms(1) by (simp add: bind_portal_def Let_def)
    next
      case (Inr vars)
      obtain r t where t: "ComBind (exec env) ps vars s = (r, t)" by fastforce
      have "keeps same_tables (ComBind (exec env) ps vars)" by (intro plain.keeps_Com)
      then have "same_tables s t" using t unfolding keeps_def by (metis snd_conv)
      then have t_ok: "statements_ok t" "owns t (ps_stmt ps) i"
        using assms(1) own same_tables_ok by (blast, simp add: same_tables_def owns_def)
      then show ?thesis using ha Inr t i
        by (cases r) (auto simp: bind_portal_def Let_def bind_go_def [of "ComBind (exec env) ps vars"] intro!: sent)
    qed
  qed
qed

interpretation message_closing: message_frame keeps_statements env for env :: "('e, 'l, 'v) conn_env"
proof unfold_locales
  show "keeps keeps_statements (parse_statement env n oids st)" for n oids st
    unfolding parse_statement_def case_prod_unfold
    by (intro frame_intros keeps_in_place_statement keeps_prepared_statement [unfolded case_prod_unfold])
  show "ps_stmt ps = None \<Longrightarrow> ps_closed ps = None \<Longrightarrow> keeps keeps_statements (store_statement n ps)" for ps n
    by (rule keepsI) (simp add: store_statement_def keeps_statements_def store_plain_ok)
  show "keeps keeps_statements (\<lambda>s. case preparedStatements s n of
        None \<Rightarrow> (Inl (Error (''prepared statement '' @ n @ '' does not exist'')), s)
      | Some ps \<Rightarrow> bind_portal env portal ps formats vals results s)" for n portal formats vals results
    by (rule keepsI) (auto simp: keeps_statements_def keeps_bind_portal split: option.split)
qed (intro keeps_delete_statement keeps_delete_portal)+
lemma statements_message: "statements_ok s \<Longrightarrow> statements_ok (snd (handleMessage env msg s))"
proof (cases "msg = Sync")
  case True
  assume "statements_ok s"
  then show ?thesis using True same_tables_ok [of s "s\<lparr>waitForSync := False\<rparr>"]
    by (simp add: handleMessage_def set_waitForSync_def bind_go_def same_tables_def)
next
  case False
  assume "statements_ok s"
  then show ?thesis using message_closing.keeps_message [OF False, of env] by (simp add: keeps_def keeps_statements_def)
qed

lemma tables_end_of_messages: "same_tables s (snd (endOfMessages fl err s))"
  unfolding endOfMessages_def sendError_def panicking_def bind_go_def
  by (auto simp: send_def Let_def same_tables_def split: option.split)

lemma tables_discard: "same_tables s (snd (discard_when_waiting eom s))"
  by (auto simp: discard_when_waiting_def discardToSync_def same_tables_def split: option.split)

lemma tables_finish: "same_tables s (snd (finish_message env eom err s))" "same_tables s (snd (recover env eom e s))"
  unfolding finish_message_def recover_def bind_discard snd_bind_return
  using plain.trans [OF tables_discard tables_end_of_messages] tables_end_of_messages
  by (auto simp: bind_discard plain.refl split: option.split)

lemma statements_process:
  assumes "statements_ok s"
  shows "statements_ok (snd (process_message env msg s))"
proof -
  obtain r s1 where h: "handleMessage env msg s = (r, s1)" by fastforce
  have s1: "statements_ok s1" using statements_message [OF assms, of env msg] h by simp
  have rec: "statements_ok (snd (recover env eom e t))" if "statements_ok t" for eom e t
    using that tables_finish(2) same_tables_ok by blast
  show ?thesis
  proof (cases r)
    case (Inl e)
    then show ?thesis using rec [OF s1] h by (simp add: process_message_def)
  next
    case (Inr x)
    obtain stop eom err where x: "x = (stop, eom, err)" by (cases x)
    obtain r' s2 where f: "finish_message env eom err s1 = (r', s2)" by fastforce
    have "statements_ok s2" using s1 tables_finish(1) [of s1 env eom err] f same_tables_ok by (metis snd_conv)
    then show ?thesis using rec Inr x f h by (cases r') (simp_all add: process_message_def)
  qed
qed

lemma statements_receive: "statements_ok s \<Longrightarrow> statements_ok (snd (receiveMessage env s))"
proof (cases "inbox s")
  case Nil
  assume "statements_ok s"
  then show ?thesis using Nil by (simp add: receiveMessage_def Receive_def)
next
  case (Cons m ms)
  assume "statements_ok s"
  then have "statements_ok (s\<lparr>inbox := ms\<rparr>)" using same_tables_ok [of s "s\<lparr>inbox := ms\<rparr>"] by (simp add: same_tables_def)
  then show ?thesis using statements_process Cons by (simp add: receiveMessage_def Receive_def)
qed

text \<open>Authentication touches neither the tables nor the engine.\<close>

definition untouched :: "('e, 'l) connection \<Rightarrow> ('e, 'l) connection \<Rightarrow> bool" where
  "untouched s t \<longleftrightarrow> same_tables s t \<and> engine t = engine s"

interpretation untouched: step_relation untouched
  by unfold_locales (simp_all add: untouched_def same_tables_def)

lemma untouched_initial: "untouched s (snd (saslInitialStep senv fl r name mech d s))"
  unfolding saslInitialStep_def fatal_def bind_go_def
  by (auto simp: untouched_def same_tables_def send_def Let_def split: sum.split go_error.split option.split)

lemma untouched_response: "untouched s (snd (saslResponseStep senv fl r si sc d s))"
  unfolding saslResponseStep_def fatal_def bind_go_def
  by (auto simp: untouched_def same_tables_def send_def Let_def split: sum.split go_error.split option.split)

lemma untouched_inbox: "untouched (s\<lparr>inbox := ms\<rparr>) t \<longleftrightarrow> untouched s t"
  by (simp add: untouched_def same_tables_def)

lemma untouched_sasl:
  fixes s :: "('a, 'b) connection"
  shows "untouched s (snd (sasl_loop senv fl r name ms si sc s))"
proof (induction ms arbitrary: si sc s)
  case Nil
  then show ?case by (simp add: untouched_def same_tables_def)
next
  case (Cons m ms)
  have "untouched (s\<lparr>inbox := ms\<rparr>) (snd (bind_go (saslInitialStep senv fl r name mech d)
      (\<lambda>(si', sc'). sasl_loop senv fl r name ms si' sc') (s\<lparr>inbox := ms\<rparr>)))" for mech d
  proof -
    have "keeps untouched (saslInitialStep senv fl r name mech d :: ('a, 'b, _) handler)" by (rule keepsI, rule untouched_initial)
    moreover have "keeps untouched (sasl_loop senv fl r name ms si' sc' :: ('a, 'b, _) handler)" for si' sc' by (rule keepsI, rule Cons.IH)
    ultimately have "keeps untouched (bind_go (saslInitialStep senv fl r name mech d) (\<lambda>(si', sc'). sasl_loop senv fl r name ms si' sc') :: ('a, 'b, _) handler)"
      unfolding case_prod_unfold by (intro untouched.keeps_bind)
    then show ?thesis by (simp add: keeps_def)
  qed
  then show ?case using untouched_response [of "s\<lparr>inbox := ms\<rparr>"]
    by (auto simp: untouched_inbox simp: untouched_def same_tables_def split: frontend.split)
qed

lemma untouched_authentication: "untouched s (snd (handleAuthentication senv fl params s))"
proof -
  have u: "untouched (s\<lparr>user := u, host := h\<rparr>) t \<longleftrightarrow> untouched s t" for u h t by (simp add: untouched_def same_tables_def)
  have send: "untouched t (snd (send fl m t))" for t :: "('a, 'b) connection" and m by (simp add: send_def Let_def untouched_def same_tables_def)
  show ?thesis
  proof (cases "startup_identity senv params")
    case (Pair name h)
    let ?s = "s\<lparr>user := name, host := h\<rparr>"
    obtain r t where t: "send fl (AuthenticationSASL [SASLMechanism_SCRAM_SHA_256]) ?s = (r, t)" by fastforce
    have "untouched s t" using send [of ?s] t u by (metis snd_conv)
    then have "untouched s (snd (sasl_loop senv fl (GetRole senv name) name (inbox t) no_initial no_continue t))"
      by (rule untouched.trans [OF _ untouched_sasl])
    with \<open>untouched s t\<close> show ?thesis using Pair t send [of ?s AuthenticationOk] u
      by (cases r) (auto simp: handleAuthentication_def Let_def bind_go_def)
  qed
qed

lemma keeps_any_send: "keeps keeps_statements (send fl m)"
  by (rule keepsI, rule same_tables_keeps) (simp add: send_def Let_def same_tables_def)

lemma keeps_parameters: "keeps keeps_statements (send_parameters env ps)"
proof (induction ps)
  case Nil
  then show ?case by (simp add: keeps_def closing.refl)
next
  case (Cons p ps)
  have "keeps keeps_statements (bind_go (send (flushes env) (ParameterStatus n v)) (\<lambda>_. send_parameters env ps))" for n v
    by (intro closing.keeps_bind keeps_any_send Cons.IH)
  then show ?case by (cases p) (auto simp: keeps_def closing.refl split: option.split)
qed

lemma keeps_database: "keeps keeps_statements (chooseInitialDatabase env params)"
proof (rule keepsI)
  fix s :: "('a, 'b) connection"
  obtain db specified where d: "initial_database env params (user s) = (db, specified)" by fastforce
  show "keeps_statements s (snd (chooseInitialDatabase env params s))"
  proof (cases "ParseOne (texts env) (''SET database TO '' @ db @ '';'')")
    case (Inl e)
    then show ?thesis using d by (simp add: chooseInitialDatabase_def closing.refl)
  next
    case (Inr a)
    let ?m = "attempt (ComQuery (exec env) (''USE '' @ db @ ''.public;'') (Some a) (\<lambda>c res. return_go c) ()) :: ('a, 'b, _) handler"
    obtain r t where t: "?m s = (r, t)" by fastforce
    have "keeps keeps_statements ?m" by (intro closing.keeps_attempt closing.keeps_Com closing.keeps_return)
    then have st: "keeps_statements s t" using t unfolding keeps_def by (metis snd_conv)
    have "keeps_statements s (snd (send (flushes env) m t))" for m
      using closing.trans [OF st keeps_any_send [unfolded keeps_def, rule_format]] .
    with st show ?thesis using Inr d t by (simp add: chooseInitialDatabase_def bind_go_def split: sum.split)
  qed
qed

lemma keeps_session: "keeps keeps_statements (start_session env params)"
proof -
  have "keeps keeps_statements (handleAuthentication (scram env) (flushes env) params)"
    by (rule keepsI, rule same_tables_keeps, rule untouched_authentication [unfolded untouched_def, THEN conjunct1])
  then show ?thesis
    unfolding start_session_def sendClientStartupMessages_def
    by (intro closing.keeps_bind keeps_parameters keeps_any_send keeps_database closing.keeps_return)
qed

lemma keeps_startup: "keeps keeps_statements (startup_loop env ms)"
proof (induction ms)
  case Nil
  then show ?case by (simp add: keeps_def same_tables_keeps same_tables_def)
next
  case (Cons m ms)
  have tail: "keeps keeps_statements (bind_go (mapping_error f (send (flushes env) b)) (\<lambda>_. startup_loop env ms))" for f b
    by (intro closing.keeps_bind closing.keeps_mapping_error keeps_any_send Cons.IH)
  have "keeps_statements s (s\<lparr>inbox := ms\<rparr>)" for s :: "('a, 'b) connection" by (simp add: same_tables_keeps same_tables_def)
  then have "keeps_statements s (snd (h (s\<lparr>inbox := ms\<rparr>)))" if "keeps keeps_statements h" for s and h :: "('a, 'b, bool) handler"
    using that closing.trans unfolding keeps_def by blast
  from this [OF tail] this [OF keeps_session] show ?case
    by (auto intro!: keepsI simp: same_tables_keeps same_tables_def split: frontend.split)
qed

text \<open>The states of a connection: after startup, and after every message.\<close>

inductive reaches :: "('e, 'l, 'v) conn_env \<Rightarrow> 'e \<Rightarrow> frontend list \<Rightarrow> ('e, 'l) connection \<Rightarrow> bool" for env e ms where
  started: "handleStartup env (NewConnectionHandler e ms) = (Inr True, s) \<Longrightarrow> reaches env e ms s"
| received: "reaches env e ms s \<Longrightarrow> receiveMessage env s = (r, t) \<Longrightarrow> reaches env e ms t"

lemma new_connection_ok: "statements_ok (NewConnectionHandler e ms)"
  by (simp add: statements_ok_def has_flags_def owns_def NewConnectionHandler_def)

lemma reaches_ok: "reaches env e ms s \<Longrightarrow> statements_ok s"
proof (induction rule: reaches.induct)
  case (started s)
  then show ?case
    using keeps_startup [unfolded keeps_def, rule_format] new_connection_ok unfolding keeps_statements_def handleStartup_def by (metis snd_conv)
next
  case (received s r t)
  then show ?case using statements_receive [of s env] by simp
qed

text \<open>
  (C10) No statement of DuckDB is closed twice, whatever messages a client sends: in every state of a connection the
  calls of \<^verbatim>\<open>Close\<close> are for different statements. A prepared statement and the portals bound to it share one flag,
  which is set exactly when their statement has been closed, and no other entry has it.
\<close>

theorem statements_closed_once:
  assumes "reaches env e ms s"
  shows "distinct (closes s) \<and>
    (\<forall>n ps h. preparedStatements s n = Some ps \<and> ps_stmt ps = Some h \<longrightarrow>
      (\<exists>i. ps_closed ps = Some i \<and> i < length (closed_flags s) \<and> (closed_flags s ! i \<longleftrightarrow> h \<in> set (closes s)) \<and>
        (\<forall>m p. portals s m = Some p \<and> po_stmt p \<noteq> None \<longrightarrow> (po_closed p = Some i \<longleftrightarrow> po_stmt p = Some h))))"
proof (intro conjI allI impI)
  have ok: "statements_ok s" by (rule reaches_ok [OF assms])
  then show "distinct (closes s)" by (simp add: statements_ok_def)
  fix n ps h
  assume ps: "preparedStatements s n = Some ps \<and> ps_stmt ps = Some h"
  then obtain i where i: "ps_closed ps = Some i" using ok unfolding statements_ok_def has_flags_def by blast
  have own: "owns s (Some h) i" using ps i unfolding owns_def by blast
  have "po_closed p = Some i \<longleftrightarrow> po_stmt p = Some h" if p: "portals s m = Some p \<and> po_stmt p \<noteq> None" for m p
  proof -
    obtain j where j: "po_closed p = Some j" using p ok unfolding statements_ok_def has_flags_def by blast
    then have "owns s (po_stmt p) j" using p unfolding owns_def by blast
    then show ?thesis using own ok j unfolding statements_ok_def by auto
  qed
  then show "\<exists>i. ps_closed ps = Some i \<and> i < length (closed_flags s) \<and> (closed_flags s ! i \<longleftrightarrow> h \<in> set (closes s)) \<and>
      (\<forall>m p. portals s m = Some p \<and> po_stmt p \<noteq> None \<longrightarrow> (po_closed p = Some i \<longleftrightarrow> po_stmt p = Some h))"
    using i own ok unfolding statements_ok_def by auto
qed

end
