(* ===== verification/ScramProps.thy ===== *)
theory ScramProps
  imports Scram
begin

unbundle bit_operations_syntax

text \<open>
  What the SCRAM exchange guarantees: a client that is let in has proved the possession of a key behind
  the stored key of its role, for the nonce of this very exchange, and a client that knows the key is let
  in. The laws of the octet strings are hypotheses; the hash functions stay arbitrary.
\<close>

definition octets_laws :: "scram_env \<Rightarrow> bool" where
  "octets_laws env \<longleftrightarrow>
     (\<forall>a b. length a = length b \<longrightarrow> octets_Xor env a b = map2 (XOR) a b) \<and>
     (\<forall>a b. octets_Equals env a b \<longleftrightarrow> a = b)"

definition base64_laws :: "scram_env \<Rightarrow> bool" where
  "base64_laws env \<longleftrightarrow>
     (\<forall>x. Base64ToOctetString env (octets_ToBase64 env x) = x) \<and>
     (\<forall>x. CHR '','' \<notin> set (octets_ToBase64 env x)) \<and>
     (\<forall>x. x \<noteq> [] \<longrightarrow> octets_ToBase64 env x \<noteq> [])"

lemma map2_xor_cancel:
  "length a = length b \<Longrightarrow> map2 (XOR) a (map2 (XOR) a b) = (b :: bytes)"
  by (induction a b rule: list_induct2) (auto simp flip: xor.assoc)

section \<open>Texts\<close>

lemma split_on_no: "c \<notin> set a \<Longrightarrow> split_on c a = [a]"
  by (induction a) auto

lemma split_on_at: "c \<notin> set a \<Longrightarrow> split_on c (a @ c # b) = a # split_on c b"
  by (induction a) auto

lemma has_prefix_append [simp]: "has_prefix p (p @ s)"
  by (simp add: has_prefix_def)

lemma has_prefix_head: "has_prefix (c # p) s \<Longrightarrow> c \<in> set s"
  by (cases s) (auto simp: has_prefix_def)

lemma find_append: "find P (xs @ ys) = (case find P xs of None \<Rightarrow> find P ys | Some x \<Rightarrow> Some x)"
  by (induction xs) auto

lemma last_index_at:
  assumes "c \<notin> set (p @ y)"
  shows "last_index (x @ (c # p) @ y) (c # p) = Some (length x)"
proof -
  let ?s = "x @ (c # p) @ y"
  have later: "\<not> has_prefix (c # p) (drop i ?s)" if "length x < i" for i
  proof
    assume "has_prefix (c # p) (drop i ?s)"
    then have "c \<in> set (drop i ?s)" by (rule has_prefix_head)
    moreover have "drop i ?s = drop (i - length x - 1) (p @ y)"
      using that by (cases "i - length x") (auto simp: drop_append)
    ultimately show False using assms by (metis in_set_dropD)
  qed
  have "[0..<length ?s + 1] = [0..<length x] @ [length x..<length ?s + 1]"
    using upt_add_eq_append [of 0 "length x" "length ?s + 1 - length x"] by simp
  also have "[length x..<length ?s + 1] = length x # [Suc (length x)..<length ?s + 1]"
    by (rule upt_conv_Cons) simp
  finally have "rev [0..<length ?s + 1] = rev [Suc (length x)..<length ?s + 1] @ length x # rev [0..<length x]" by simp
  moreover have "find (\<lambda>i. has_prefix (c # p) (drop i ?s)) (rev [Suc (length x)..<length ?s + 1]) = None"
    unfolding find_None_iff set_rev set_upt using later by (meson Suc_le_lessD atLeastLessThan_iff)
  moreover have "has_prefix (c # p) (drop (length x) ?s)"
    by (simp add: has_prefix_def)
  ultimately show ?thesis
    by (simp only: last_index_def find_append option.case option.simps) simp
qed


section \<open>Accepted responses\<close>

text \<open>The key behind a proof: with the signature of the exchange it gives the proof, and hashed the stored key.\<close>

definition proves :: "scram_env \<Rightarrow> role \<Rightarrow> SASLInitial \<Rightarrow> SASLContinue \<Rightarrow> string \<Rightarrow> bool" where
  "proves env r si sc data \<longleftrightarrow>
     (\<exists>sr pw key. readSASLResponse (Base64Header si) (sc_nonce sc) data = Inr sr \<and> CanLogin r \<and> Password r = Some pw \<and>
        rfc_StoredKey env key = pw_storedKey pw \<and>
        Base64ToOctetString env (sr_clientProof sr) =
          map2 (XOR) (rfc_ClientSignature env (pw_storedKey pw) (authMessage si sc sr)) key \<and>
        length key = length (rfc_ClientSignature env (pw_storedKey pw) (authMessage si sc sr)))"

lemma verify_accepts:
  assumes "octets_laws env" "verifySASLClientProof env r si sc sr = Inr v" "readSASLResponse (Base64Header si) (sc_nonce sc) data = Inr sr"
  shows "proves env r si sc data"
proof -
  obtain pw where pw: "Password r = Some pw"
    using assms(2) by (auto simp: verifySASLClientProof_def Let_def split: option.splits)
  let ?sig = "rfc_ClientSignature env (pw_storedKey pw) (authMessage si sc sr)"
  let ?proof = "Base64ToOctetString env (sr_clientProof sr)"
  have len: "length ?proof = length ?sig" and login: "CanLogin r"
    and eq: "octets_Equals env (rfc_StoredKey env (octets_Xor env ?sig ?proof)) (pw_storedKey pw)"
    using assms(2) by (auto simp: verifySASLClientProof_def pw Let_def split: if_splits)
  let ?key = "map2 (XOR) ?sig ?proof"
  have "rfc_StoredKey env ?key = pw_storedKey pw"
    using eq assms(1) len by (simp add: octets_laws_def)
  moreover have "map2 (XOR) ?sig ?key = ?proof"
    using len by (simp add: map2_xor_cancel)
  ultimately show ?thesis
    using assms(3) pw login len unfolding proves_def
    by (intro exI [of _ sr] exI [of _ pw] exI [of _ ?key]) (simp add: map2_xor_cancel)
qed

lemma response_attributes_nonce:
  "read_response_attributes h n secs sr = Inr sr' \<Longrightarrow> sr_nonce sr \<in> {[], n} \<Longrightarrow> sr_nonce sr' \<in> {[], n}"
  by (induction secs arbitrary: sr) (auto split: if_splits)

lemma readSASLResponse_nonce: "readSASLResponse h n data = Inr sr \<Longrightarrow> sr_nonce sr = n \<and> n \<noteq> []"
  by (auto simp: readSASLResponse_def res_simps split: if_splits dest!: response_attributes_nonce)

lemma fatal_fails: "fst (fatal fl code e s) = Inl e"
  by (auto simp: fatal_def split: go_error.splits)

lemma saslResponseStep_accepts:
  assumes "octets_laws env" "saslResponseStep env fl r si sc data s = (Inr (), s')"
  shows "proves env r si sc data \<and> inbox s' = inbox s \<and> user s' = user s \<and> engine s' = engine s \<and> sc_nonce sc \<noteq> []"
proof -
  obtain sr where sr: "readSASLResponse (Base64Header si) (sc_nonce sc) data = Inr sr"
    using assms(2) by (auto simp: saslResponseStep_def fatal_def split: sum.splits go_error.splits)
  obtain v where v: "verifySASLClientProof env r si sc sr = Inr v"
    using assms(2) sr by (auto simp: saslResponseStep_def fatal_def split: sum.splits go_error.splits)
  show ?thesis
    using assms(2) sr v verify_accepts [OF assms(1) v sr] readSASLResponse_nonce [OF sr]
    by (auto simp: saslResponseStep_def bind_go_def send_def Let_def split: option.splits prod.splits sum.splits)
qed

definition continue_for :: "scram_env \<Rightarrow> role \<Rightarrow> string \<Rightarrow> SASLInitial \<Rightarrow> nat \<Rightarrow> SASLContinue \<Rightarrow> bool" where
  "continue_for env r username si k sc \<longleftrightarrow>
     client_salt env r username = Inr (sc_salt sc) \<and> sc_iterations sc = 4096 \<and>
     sc_nonce sc = si_nonce si @ octets_ToBase64 env (GenerateRandomOctetString env k 16)"

lemma saslInitialStep_ok:
  assumes "saslInitialStep env fl r username mech data s = (Inr (si, sc), s')"
  shows "mech = SASLMechanism_SCRAM_SHA_256 \<and> readSASLInitial mech data = Inr si \<and> continue_for env r username si (randoms s) sc \<and>
    randoms s' = Suc (randoms s) \<and> inbox s' = inbox s \<and> user s' = user s \<and> engine s' = engine s"
  using assms
  by (auto simp: saslInitialStep_def readSASLInitial_def fatal_def continue_for_def bind_go_def send_def Let_def
      split: sum.splits option.splits go_error.splits prod.splits if_splits)

text \<open>The exchange that ended well: initial messages, the last of them answered by the response.\<close>

lemma sasl_loop_accepts:
  assumes "octets_laws env" "sasl_loop env fl r username ms si sc s = (Inr (), s')" "inbox s = ms"
  shows "user s' = user s \<and> engine s' = engine s \<and>
    ((\<exists>data. ms = SASLResponse data # inbox s' \<and> proves env r si sc data \<and> sc_nonce sc \<noteq> []) \<or>
     (\<exists>pre d1 d2 si' sc'. ms = pre @ SASLInitialResponse SASLMechanism_SCRAM_SHA_256 d1 # SASLResponse d2 # inbox s' \<and>
        readSASLInitial SASLMechanism_SCRAM_SHA_256 d1 = Inr si' \<and> continue_for env r username si' (randoms s + length pre) sc' \<and> proves env r si' sc' d2))"
  using assms(2,3)
proof (induction ms arbitrary: si sc s)
  case Nil
  then show ?case by simp
next
  case (Cons m ms)
  consider (ini) mech data where "m = SASLInitialResponse mech data" | (resp) data where "m = SASLResponse data"
    using Cons.prems by (cases m) auto
  then show ?case
  proof cases
    case ini
    obtain si1 sc1 s1 where step: "saslInitialStep env fl r username mech data (s\<lparr>inbox := ms\<rparr>) = (Inr (si1, sc1), s1)"
      and rest: "sasl_loop env fl r username ms si1 sc1 s1 = (Inr (), s')"
      using Cons.prems(1) ini by (auto simp: bind_go_def split: prod.splits sum.splits)
    note ok = saslInitialStep_ok [OF step]
    have "inbox s1 = ms" using ok by simp
    from Cons.IH [OF rest this] show ?thesis
    proof (elim conjE disjE exE, goal_cases)
      case (1 d2)
      then show ?case using ok ini by (intro conjI disjI2 exI [of _ "[]"] exI [of _ data] exI [of _ d2]) auto
    next
      case (2 pre d1 d2 si' sc')
      then show ?case using ok ini
        by (intro conjI disjI2 exI [of _ "m # pre"] exI [of _ d1] exI [of _ d2]) auto
    qed
  next
    case resp
    then show ?thesis using Cons.prems saslResponseStep_accepts [OF assms(1), of fl r si sc data "s\<lparr>inbox := ms\<rparr>" s'] by auto
  qed
qed

section \<open>An honest client\<close>

definition client_first_bare :: "string \<Rightarrow> string \<Rightarrow> string" where
  "client_first_bare u n = ''n='' @ u @ '',r='' @ n"

definition client_final_bare :: "string \<Rightarrow> string" where
  "client_final_bare n = ''c=biws,r='' @ n"

definition client_proof :: "scram_env \<Rightarrow> bytes \<Rightarrow> bytes \<Rightarrow> string \<Rightarrow> bytes" where
  "client_proof env stored key msg = map2 (XOR) (rfc_ClientSignature env stored msg) key"

lemma gs2_header_none: "base64 [110, 44, 44] = ''biws''"
  by code_simp

lemma read_client_first:
  assumes "CHR '','' \<notin> set u" "CHR '','' \<notin> set n" "n \<noteq> []"
  shows "readSASLInitial SASLMechanism_SCRAM_SHA_256 (''n,,'' @ client_first_bare u n) =
    Inr \<lparr>si_flag = SASLBindingFlag_NoClientSupport, si_bindName = [], si_binding = [], si_authzid = [], si_username = u, si_nonce = n,
         si_rawData = ''n,,'' @ client_first_bare u n\<rparr>"
proof -
  have "split_on (CHR '','') ((''n='' @ u) @ CHR '','' # (''r='' @ n)) = [''n='' @ u, ''r='' @ n]"
    using assms by (subst split_on_at) (auto simp: split_on_no)
  then have "split_on (CHR '','') (''n,,'' @ client_first_bare u n) = [''n'', [], ''n='' @ u, ''r='' @ n]"
    by (simp add: client_first_bare_def)
  then show ?thesis
    using assms by (simp add: readSASLInitial_def read_binding_flag_def read_authzid_def no_initial_def Let_def)
qed

lemma header_client_first:
  assumes "readSASLInitial SASLMechanism_SCRAM_SHA_256 (''n,,'' @ client_first_bare u n) = Inr si"
    "CHR '','' \<notin> set u" "CHR '','' \<notin> set n" "n \<noteq> []"
  shows "Base64Header si = ''biws'' \<and> MessageBare si = client_first_bare u n \<and> si_nonce si = n"
  using assms gs2_header_none read_client_first [OF assms(2-4)]
  by (auto simp: Base64Header_def base64HeaderBytes_def MessageBare_def trim_prefix_def has_prefix_def)

lemma read_client_final:
  assumes "CHR '','' \<notin> set n" "CHR '','' \<notin> set p" "n \<noteq> []" "p \<noteq> []"
  shows "readSASLResponse ''biws'' n (client_final_bare n @ '',p='' @ p) =
    Inr \<lparr>sr_gs2Header = ''biws'', sr_nonce = n, sr_clientProof = p, sr_rawData = client_final_bare n @ '',p='' @ p\<rparr>"
proof -
  have "split_on (CHR '','') ((''r='' @ n) @ CHR '','' # (''p='' @ p)) = [''r='' @ n, ''p='' @ p]"
    using assms by (subst split_on_at) (auto simp: split_on_no)
  then have "split_on (CHR '','') (client_final_bare n @ '',p='' @ p) = [''c=biws'', ''r='' @ n, ''p='' @ p]"
    by (simp add: client_final_bare_def)
  moreover have "\<not> length (''r='' @ n) < 3" using assms(3) by (cases n) simp_all
  moreover have "\<not> length (''p='' @ p) < 3" using assms(4) by (cases p) simp_all
  ultimately show ?thesis
    using assms by (simp add: readSASLResponse_def)
qed

lemma without_proof:
  assumes "CHR '','' \<notin> set p"
  shows "MessageWithoutProof (sr\<lparr>sr_rawData := m @ '',p='' @ p\<rparr>) = m"
proof -
  have "last_index (m @ (CHR '','' # ''p='') @ p) (CHR '','' # ''p='') = Some (length m)"
    by (rule last_index_at) (use assms in simp)
  then show ?thesis by (simp add: MessageWithoutProof_def)
qed

lemma verify_honest:
  assumes "octets_laws env" "CanLogin r" "Password r = Some pw" "rfc_StoredKey env key = pw_storedKey pw"
    "length (rfc_ClientSignature env (pw_storedKey pw) (authMessage si sc sr)) = length key"
    "Base64ToOctetString env (sr_clientProof sr) = client_proof env (pw_storedKey pw) key (authMessage si sc sr)"
  shows "verifySASLClientProof env r si sc sr =
    Inr (octets_ToBase64 env (rfc_ServerSignature env (pw_serverKey pw) (authMessage si sc sr)))"
proof -
  let ?sig = "rfc_ClientSignature env (pw_storedKey pw) (authMessage si sc sr)"
  have "octets_Xor env ?sig (map2 (XOR) ?sig key) = key"
    using assms(1,5) by (simp add: octets_laws_def map2_xor_cancel)
  then show ?thesis
    using assms by (simp add: verifySASLClientProof_def client_proof_def octets_laws_def Let_def)
qed

section \<open>Properties\<close>

text \<open>
  With authentication enabled, a connection is let in only on a proof of possession. The last two
  messages the server read are an initial response and the final response to it; the role of the user
  named at startup can log in and has a password; and the proof is the exclusive or of a key whose hash is
  the stored key with the signature of this exchange. The signed text holds the nonce the server drew for
  this exchange, after one for every earlier initial response. The exchange touches neither the engine
  nor any other state but the identity, the nonces and the messages.
\<close>

lemma authentication_requires_proof:
  assumes "octets_laws env" "EnableAuthentication env" "handleAuthentication env fl params s = (Inr (), s')"
  shows "user s' = fst (startup_identity env params) \<and> engine s' = engine s \<and>
    (\<exists>pre d1 d2 si sc. inbox s = pre @ SASLInitialResponse SASLMechanism_SCRAM_SHA_256 d1 # SASLResponse d2 # inbox s' \<and>
       readSASLInitial SASLMechanism_SCRAM_SHA_256 d1 = Inr si \<and>
       continue_for env (GetRole env (user s')) (user s') si (randoms s + length pre) sc \<and>
       proves env (GetRole env (user s')) si sc d2)"
proof -
  obtain u h where u: "startup_identity env params = (u, h)" by fastforce
  define s1 where "s1 = snd (send fl (AuthenticationSASL [SASLMechanism_SCRAM_SHA_256]) (s\<lparr>user := u, host := h\<rparr>))"
  have loop: "sasl_loop env fl (GetRole env u) u (inbox s) no_initial no_continue s1 = (Inr (), s')"
    and s1: "inbox s1 = inbox s" "user s1 = u" "engine s1 = engine s" "randoms s1 = randoms s"
    using assms(2,3) u
    by (auto simp: handleAuthentication_def s1_def bind_go_def send_def Let_def split: option.splits)
  have "sc_nonce no_continue = []" by (simp add: no_continue_def)
  then show ?thesis
    using sasl_loop_accepts [OF assms(1) loop s1(1)] s1 u by auto
qed

text \<open>
  (C12) A client that knows the key of a role that can log in is let in: it sends its name and a nonce, and
  then, for the challenge of the server, the proof. The server answers with the challenge, its own
  signature and \<^verbatim>\<open>AuthenticationOk\<close>, and reads no further.
\<close>

theorem honest_client_accepted:
  assumes laws: "octets_laws env" "base64_laws env" and enabled: "EnableAuthentication env" and up: "fl = (\<lambda>_. None)"
    and u: "startup_identity env params = (u, h)" "CHR '','' \<notin> set u"
    and n: "CHR '','' \<notin> set n" "n \<noteq> []"
    and role: "CanLogin (GetRole env u)" "Password (GetRole env u) = Some pw" "rfc_StoredKey env key = pw_storedKey pw" "key \<noteq> []"
    and sig: "\<And>msg. length (rfc_ClientSignature env (pw_storedKey pw) msg) = length key"
    and sc: "sc = \<lparr>sc_nonce = n @ octets_ToBase64 env (GenerateRandomOctetString env (randoms s) 16),
                  sc_salt = octets_ToBase64 env (pw_salt pw), sc_iterations = 4096\<rparr>"
    and msg: "msg = client_first_bare u n @ '','' @ encode_continue sc @ '','' @ client_final_bare (sc_nonce sc)"
    and inbox: "inbox s = SASLInitialResponse SASLMechanism_SCRAM_SHA_256 (''n,,'' @ client_first_bare u n) #
      SASLResponse (client_final_bare (sc_nonce sc) @ '',p='' @ octets_ToBase64 env (client_proof env (pw_storedKey pw) key msg)) # rest"
  shows "\<exists>s'. handleAuthentication env fl params s = (Inr (), s') \<and> inbox s' = rest \<and>
    outbox s' = outbox s @ [AuthenticationSASL [SASLMechanism_SCRAM_SHA_256], AuthenticationSASLContinue (encode_continue sc),
      AuthenticationSASLFinal (''v='' @ octets_ToBase64 env (rfc_ServerSignature env (pw_serverKey pw) msg)), AuthenticationOk]"
proof -
  obtain si where si: "readSASLInitial SASLMechanism_SCRAM_SHA_256 (''n,,'' @ client_first_bare u n) = Inr si"
    using read_client_first [OF u(2) n] by blast
  note hdr = header_client_first [OF si u(2) n]
  let ?p = "octets_ToBase64 env (client_proof env (pw_storedKey pw) key msg)"
  have "client_proof env (pw_storedKey pw) key msg \<noteq> []"
    using role(4) sig [of msg] by (cases key; cases "rfc_ClientSignature env (pw_storedKey pw) msg") (auto simp: client_proof_def)
  then have p: "CHR '','' \<notin> set ?p" "?p \<noteq> []"
    using laws(2) by (auto simp: base64_laws_def)
  have nonce: "CHR '','' \<notin> set (sc_nonce sc)" "sc_nonce sc \<noteq> []"
    using n laws(2) by (auto simp: sc base64_laws_def)
  define sr where "sr = \<lparr>sr_gs2Header = ''biws'', sr_nonce = sc_nonce sc, sr_clientProof = ?p, sr_rawData = client_final_bare (sc_nonce sc) @ '',p='' @ ?p\<rparr>"
  have sr: "readSASLResponse (Base64Header si) (sc_nonce sc) (client_final_bare (sc_nonce sc) @ '',p='' @ ?p) = Inr sr"
    using read_client_final [OF nonce(1) p(1) nonce(2) p(2)] hdr by (simp add: sr_def)
  have "MessageWithoutProof sr = client_final_bare (sc_nonce sc)"
    using without_proof [OF p(1), where sr = sr and m = "client_final_bare (sc_nonce sc)"] by (simp add: sr_def)
  then have am: "authMessage si sc sr = msg"
    using hdr by (simp add: authMessage_def msg)
  have "Base64ToOctetString env (sr_clientProof sr) = client_proof env (pw_storedKey pw) key msg"
    using laws(2) by (simp add: sr_def base64_laws_def)
  then have ver: "verifySASLClientProof env (GetRole env u) si sc sr = Inr (octets_ToBase64 env (rfc_ServerSignature env (pw_serverKey pw) msg))"
    using verify_honest [OF laws(1) role(1-3), of si sc sr] sig by (simp add: am)
  have "client_salt env (GetRole env u) u = Inr (octets_ToBase64 env (pw_salt pw))"
    by (simp add: client_salt_def role(2))
  then have first: "saslInitialStep env fl (GetRole env u) u SASLMechanism_SCRAM_SHA_256 (''n,,'' @ client_first_bare u n) t =
      (Inr (si, sc), t\<lparr>randoms := Suc (randoms t), outbox := outbox t @ [AuthenticationSASLContinue (encode_continue sc)]\<rparr>)"
    if "randoms t = randoms s" for t :: "('a, 'b) connection"
    using si hdr that unfolding saslInitialStep_def by (simp add: bind_go_def send_def up sc Let_def)
  have final: "saslResponseStep env fl (GetRole env u) si sc (client_final_bare (sc_nonce sc) @ '',p='' @ ?p) t =
      (Inr (), t\<lparr>outbox := outbox t @ [AuthenticationSASLFinal (''v='' @ octets_ToBase64 env (rfc_ServerSignature env (pw_serverKey pw) msg)),
        AuthenticationOk]\<rparr>)" for t :: "('a, 'b) connection"
    unfolding saslResponseStep_def using sr ver by (simp add: bind_go_def send_def up)
  show ?thesis
    using enabled u(1) first final unfolding handleAuthentication_def
    by (simp add: inbox bind_go_def send_def up)
qed

section \<open>A concrete server\<close>

text \<open>
  Two hexadecimal-like digits per octet instead of base64, and signatures and hashes that shift octets:
  an environment with the laws, for one role.
\<close>

definition plain_ToBase64 :: "bytes \<Rightarrow> string" where
  "plain_ToBase64 x = concat (map (\<lambda>b. [char_of (65 + unat b div 16), char_of (65 + unat b mod 16)]) x)"

fun plain_octets :: "string \<Rightarrow> bytes" where
  "plain_octets (a # b # cs) = word_of_nat ((of_char a - 65) * 16 + (of_char b - 65)) # plain_octets cs"
| "plain_octets _ = []"

definition demo_password :: scram_password where
  "demo_password = \<lparr>pw_salt = [1, 2], pw_storedKey = [8, 9], pw_serverKey = [3]\<rparr>"

definition demo_scram :: scram_env where
  "demo_scram = \<lparr>EnableAuthentication = True,
     GetRole = (\<lambda>u. \<lparr>role_name = u, CanLogin = (u = ''ann''), Password = (if u = ''ann'' then Some demo_password else None)\<rparr>),
     RemoteHost = None, GenerateRandomOctetString = (\<lambda>k n. replicate n (word_of_nat k)), rfc_H = (\<lambda>x. replicate 32 0),
     rfc_ClientSignature = (\<lambda>k m. map (\<lambda>b. b + word_of_nat (length m)) k), rfc_StoredKey = map (\<lambda>b. b + 1),
     rfc_ServerSignature = (\<lambda>k m. k), octets_Xor = (\<lambda>a b. map2 (XOR) a b), octets_Equals = (=),
     octets_ToBase64 = plain_ToBase64, Base64ToOctetString = plain_octets\<rparr>"

lemma octet_digits: "unat (b :: byte) div 16 < 16" "unat b mod 16 < 16"
  using unat_byte_lt [of b] by (simp_all add: div_less_iff_less_mult)

lemma plain_round_trip: "plain_octets (plain_ToBase64 x) = x"
proof (induction x)
  case Nil
  then show ?case by (simp add: plain_ToBase64_def)
next
  case (Cons b x)
  have "of_char (char_of (65 + unat b div 16) :: char) = 65 + unat b div 16"
    "of_char (char_of (65 + unat b mod 16) :: char) = 65 + unat b mod 16"
    using octet_digits [of b] by simp_all
  then show ?case using Cons by (simp add: plain_ToBase64_def)
qed

lemma plain_no_comma: "CHR '','' \<notin> set (plain_ToBase64 x)"
proof -
  have digit: "CHR '','' \<noteq> char_of (65 + k)" if "k < 16" for k :: nat
  proof
    assume "CHR '','' = char_of (65 + k)"
    then have "of_char (CHR '','') = (of_char (char_of (65 + k) :: char) :: nat)" by simp
    then show False using that by simp
  qed
  show ?thesis using digit [OF octet_digits(1)] digit [OF octet_digits(2)] by (simp add: plain_ToBase64_def)
qed

lemma demo_laws: "octets_laws demo_scram" "base64_laws demo_scram"
  using plain_round_trip plain_no_comma
  by (auto simp: octets_laws_def base64_laws_def demo_scram_def plain_ToBase64_def concat_eq_Nil_conv)

definition demo_challenge :: SASLContinue where
  "demo_challenge = \<lparr>sc_nonce = ''abc'' @ plain_ToBase64 (replicate 16 0), sc_salt = plain_ToBase64 [1, 2], sc_iterations = 4096\<rparr>"

definition demo_message :: string where
  "demo_message = client_first_bare ''ann'' ''abc'' @ '','' @ encode_continue demo_challenge @ '','' @ client_final_bare (sc_nonce demo_challenge)"

definition demo_connection :: "frontend list \<Rightarrow> (unit, unit) connection" where
  "demo_connection ms = NewConnectionHandler () ms"

definition demo_login :: "frontend list" where
  "demo_login = [SASLInitialResponse SASLMechanism_SCRAM_SHA_256 (''n,,'' @ client_first_bare ''ann'' ''abc''),
     SASLResponse (client_final_bare (sc_nonce demo_challenge) @ '',p='' @ plain_ToBase64 (client_proof demo_scram [8, 9] [7, 8] demo_message))]"

theorem honest_client_accepted_witness:
  "\<exists>s'. handleAuthentication demo_scram (\<lambda>_. None) [(''user'', ''ann'')] (demo_connection demo_login) = (Inr (), s') \<and> inbox s' = [] \<and>
     outbox s' = [AuthenticationSASL [SASLMechanism_SCRAM_SHA_256], AuthenticationSASLContinue (encode_continue demo_challenge),
       AuthenticationSASLFinal (''v='' @ plain_ToBase64 [3]), AuthenticationOk]"
proof -
  have "sc_salt demo_challenge = octets_ToBase64 demo_scram (pw_salt demo_password)" "sc_iterations demo_challenge = 4096"
    "sc_nonce demo_challenge = ''abc'' @ octets_ToBase64 demo_scram (GenerateRandomOctetString demo_scram (randoms (demo_connection demo_login)) 16)"
    by (simp_all add: demo_challenge_def demo_scram_def demo_password_def demo_connection_def NewConnectionHandler_def)
  then have sc: "demo_challenge = \<lparr>sc_nonce = ''abc'' @ octets_ToBase64 demo_scram (GenerateRandomOctetString demo_scram (randoms (demo_connection demo_login)) 16),
      sc_salt = octets_ToBase64 demo_scram (pw_salt demo_password), sc_iterations = 4096\<rparr>" by simp
  have role: "CanLogin (GetRole demo_scram ''ann'')" "Password (GetRole demo_scram ''ann'') = Some demo_password"
    "rfc_StoredKey demo_scram [7, 8] = pw_storedKey demo_password" "EnableAuthentication demo_scram"
    "startup_identity demo_scram [(''user'', ''ann'')] = (''ann'', ''localhost'')"
    "\<And>msg. length (rfc_ClientSignature demo_scram (pw_storedKey demo_password) msg) = length [7, 8 :: byte]"
    by (simp_all add: demo_scram_def demo_password_def startup_identity_def)
  have inbox: "inbox (demo_connection demo_login) = SASLInitialResponse SASLMechanism_SCRAM_SHA_256 (''n,,'' @ client_first_bare ''ann'' ''abc'') #
      SASLResponse (client_final_bare (sc_nonce demo_challenge) @ '',p='' @
        octets_ToBase64 demo_scram (client_proof demo_scram (pw_storedKey demo_password) [7, 8] demo_message)) # []"
    by (simp add: demo_connection_def NewConnectionHandler_def demo_login_def demo_password_def) (simp add: demo_scram_def)
  have out: "outbox (demo_connection demo_login) = []" "octets_ToBase64 demo_scram (rfc_ServerSignature demo_scram (pw_serverKey demo_password) m) = plain_ToBase64 [3]" for m
    by (simp_all add: demo_connection_def NewConnectionHandler_def demo_scram_def demo_password_def)
  show ?thesis
    using honest_client_accepted [OF demo_laws role(4) refl role(5) _ _ _ role(1-3) _ role(6) sc demo_message_def inbox]
    unfolding out by simp
qed

text \<open>A server whose signatures and stored keys are single octets.\<close>

definition tiny_scram :: scram_env where
  "tiny_scram = \<lparr>EnableAuthentication = True,
     GetRole = (\<lambda>u. \<lparr>role_name = u, CanLogin = True, Password = Some \<lparr>pw_salt = [], pw_storedKey = [5], pw_serverKey = []\<rparr>\<rparr>),
     RemoteHost = None, GenerateRandomOctetString = (\<lambda>k n. []), rfc_H = (\<lambda>x. []), rfc_ClientSignature = (\<lambda>k m. [0]), rfc_StoredKey = id,
     rfc_ServerSignature = (\<lambda>k m. []), octets_Xor = (\<lambda>a b. map2 (XOR) a b), octets_Equals = (=),
     octets_ToBase64 = (\<lambda>x. ''x''), Base64ToOctetString = (\<lambda>x. [5])\<rparr>"

definition tiny_login :: "frontend list" where
  "tiny_login = [SASLInitialResponse SASLMechanism_SCRAM_SHA_256 (''n,,'' @ client_first_bare ''ann'' ''q''),
     SASLResponse (client_final_bare ''qx'' @ '',p='' @ ''z'')]"

lemma authentication_requires_proof_example:
  "\<exists>s'. handleAuthentication tiny_scram (\<lambda>_. None) [(''user'', ''ann'')] (demo_connection tiny_login) = (Inr (), s') \<and>
     (\<exists>pre d1 d2 si sc. tiny_login = pre @ SASLInitialResponse SASLMechanism_SCRAM_SHA_256 d1 # SASLResponse d2 # inbox s' \<and>
        proves tiny_scram (GetRole tiny_scram ''ann'') si sc d2)"
proof -
  obtain si where si: "readSASLInitial SASLMechanism_SCRAM_SHA_256 (''n,,'' @ client_first_bare ''ann'' ''q'') = Inr si"
    using read_client_first [of "''ann''" "''q''"] by auto
  have hdr: "Base64Header si = ''biws''" "si_nonce si = ''q''" using header_client_first [OF si] by auto
  obtain sr where sr: "readSASLResponse ''biws'' ''qx'' (client_final_bare ''qx'' @ '',p='' @ ''z'') = Inr sr"
    using read_client_final [of "''qx''" "''z''"] by auto
  have "\<exists>s'. handleAuthentication tiny_scram (\<lambda>_. None) [(''user'', ''ann'')] (demo_connection tiny_login) = (Inr (), s')"
    using si sr hdr
    by (simp add: handleAuthentication_def tiny_login_def tiny_scram_def demo_connection_def NewConnectionHandler_def startup_identity_def bind_go_def send_def
        saslInitialStep_def saslResponseStep_def client_salt_def verifySASLClientProof_def Let_def)
  then obtain s' where s': "handleAuthentication tiny_scram (\<lambda>_. None) [(''user'', ''ann'')] (demo_connection tiny_login) = (Inr (), s')"
    by blast
  have "octets_laws tiny_scram" "EnableAuthentication tiny_scram" "startup_identity tiny_scram [(''user'', ''ann'')] = (''ann'', ''localhost'')"
    by (simp_all add: tiny_scram_def startup_identity_def octets_laws_def)
  then show ?thesis
    using authentication_requires_proof [OF _ _ s'] s' by (fastforce simp: demo_connection_def NewConnectionHandler_def)
qed
section \<open>Authorization identities\<close>

text \<open>
  The header is rebuilt without the \<^verbatim>\<open>a=\<close> of the authorization identity, so a client that sends one and
  then repeats its header, as it must, is refused.
\<close>

lemma authzid_refused:
  "\<exists>si. readSASLInitial SASLMechanism_SCRAM_SHA_256 ''n,a=bob,n=ann,r=q'' = Inr si \<and>
     readSASLResponse (Base64Header si) ''qx'' (''c='' @ base64 (map of_char ''n,a=bob,'') @ '',r=qx,p=z'') =
       Inl (Error ''invalid SASLResponse: inconsistent GS2 header'')"
proof -
  define si where "si = \<lparr>si_flag = SASLBindingFlag_NoClientSupport, si_bindName = [], si_binding = [], si_authzid = ''bob'',
    si_username = ''ann'', si_nonce = ''q'', si_rawData = ''n,a=bob,n=ann,r=q''\<rparr>"
  have "readSASLInitial SASLMechanism_SCRAM_SHA_256 ''n,a=bob,n=ann,r=q'' = Inr si"
    unfolding si_def by code_simp
  moreover have "readSASLResponse (Base64Header si) ''qx'' (''c='' @ base64 (map of_char ''n,a=bob,'') @ '',r=qx,p=z'') =
       Inl (Error ''invalid SASLResponse: inconsistent GS2 header'')"
    unfolding si_def by code_simp
  ultimately show ?thesis by blast
qed

end
