(* ===== verification/PgExample.thy ===== *)
theory PgExample
  imports PgStatements ScramProps
begin

text \<open>
  A small environment for the connection of \<^verbatim>\<open>PgConn\<close>, on which its properties are instantiated: an engine that
  records the queries it is given and answers each with two rows of one column, a parser that takes every text
  that is not empty for one statement, and a transport that never fails. \<open>demo_env\<close> has authentication
  disabled, \<open>demo_conn demo_scram\<close> has it enabled.
\<close>

section \<open>An example\<close>

definition demo_column :: column_info where
  "demo_column = \<lparr>ci_name = ''x'', ci_databaseTypeName = ''VARCHAR'', ci_nullable = True, ci_decimalSize = None\<rparr>"

definition demo_rows :: "string row_iter" where
  "demo_rows = \<lparr>it_items = [RowItem [Some ''a''], RowItem [None]], it_error = None, it_close = None\<rparr>"

definition demo_exec :: "(string list, string) exec_env" where
  "demo_exec =
     \<lparr>NewContextErr = (\<lambda>q e. None), adapter_Exec = (\<lambda>q e. (Inr 0, e @ [q])),
      adapter_QueryCatalog = (\<lambda>q vars e. (Inr ([demo_column], demo_rows), e @ [q])), adapter_ExecCatalog = (\<lambda>q vars e. (Inr 0, e @ [q])),
      hasProvider = False, CreateCatalog = (\<lambda>n b e. (Inr (), e)), DropCatalog = (\<lambda>n b e. (Inr (), e)), setCurrentDatabase = (\<lambda>e. e),
      CastSQLError = (\<lambda>e. e), PreferredFormat = (\<lambda>oid. 0), MaxTextResponseByteLength = (\<lambda>g. 0),
      pgTypeMap_Encode = (\<lambda>oid f v. Inr (map of_char v)), type_SQL = (\<lambda>g v. Inr (map of_char v)), rows_seen = 0,
      PrepareContext = (\<lambda>h q e. (Inr [TYPE_VARCHAR], e)),
      StatementType = (\<lambda>h e. case h of None \<Rightarrow> Inl nil_dereference | Some _ \<Rightarrow> Inr STATEMENT_SELECT),
      stmt_Bind = (\<lambda>h vs e. (Inr (), e)), stmt_Close = (\<lambda>h e. (if h = None then Some ''nil pointer'' else None, e)),
      QueryNulls = (\<lambda>q n e. (Inr [demo_column], e)), TypeForName = demo_TypeForName, RemoveSpaceAndDelimiter = (\<lambda>q. q)\<rparr>"

definition demo_texts :: text_env where
  "demo_texts =
     \<lparr>ParseSQL = (\<lambda>q. Inr (if q = [] then [] else [(q, OtherAST 0, ''SELECT'')])), ParseOne = (\<lambda>q. Inr (SetVar ''database'' [] False False)),
      parseSubscriptionSQL = (\<lambda>q. None), parseBackupSQL = (\<lambda>q. None), parseRestoreSQL = (\<lambda>q. None), pgIsInRecoveryRegex = (\<lambda>q. False),
      pgWALLSNRegex = (\<lambda>q. False), currentSettingRegex = (\<lambda>q. None), pgCatalogRegex = (\<lambda>q. False), renamePgCatalogFuncRegex = (\<lambda>q. False),
      pgFuncRegex = (\<lambda>q. False), simpleStringMatchingRegex = (\<lambda>q. False), pgAnyOpRegex = (\<lambda>q. False), ConvertToSys = (\<lambda>q. q),
      ConvertPgCatalogFuncToSys = (\<lambda>q. q), ConvertToDuckDBMacro = (\<lambda>q. q), SimpleStrReplacement = (\<lambda>q. q), ConvertAnyOp = (\<lambda>q. q),
      IsValidPostgresConfigParameter = (\<lambda>q. False)\<rparr>"

definition demo_session :: "string list session_env" where
  "demo_session =
     \<lparr>flush_err = (\<lambda>out. None), GetGlobal = (\<lambda>n. Some ''v''), GetSessionValue = (\<lambda>n e. (Inr ''v'', e)), SetSessionValue = (\<lambda>n v e. (Inr (), e)),
      CountSubscriptions = (\<lambda>e. (Inr 0, e)), SelectSubscription = (\<lambda>e. (Inr None, e)), executeSubscriptionSQL = (\<lambda>c e. (Inr (), e)),
      executeBackup = (\<lambda>c e. (Inr [], e)), executeRestore = (\<lambda>c e. (Inr [], e)), CloseConn = (\<lambda>e. e)\<rparr>"

definition demo_copy :: "(string list, unit) copy_env" where
  "demo_copy =
     \<lparr>ValidateCopyFrom = (\<lambda>c e. None), ValidateCopyTo = (\<lambda>t e. None), ParseCopyFrom = (\<lambda>q. None), ParseCopyTo = (\<lambda>q. None),
      NewDataLoader = (\<lambda>c r e. (Inr (), e)), loader_Start = (\<lambda>l e. (Inr l, e)), LoadChunk = (\<lambda>l d e. (None, l, e)),
      loader_Finish = (\<lambda>l e. (Inr 0, e)),
      CopyWriter = (\<lambda>t f r e. (Inr \<lparr>co_started = True, co_chunks = [''1'' @ [CHR 9], ''a'' @ [newline]], co_read_error = None, co_result = Inr 1,
        co_cancel_first = False\<rparr>, e))\<rparr>"

definition demo_conn :: "scram_env \<Rightarrow> (string list, unit, string) conn_env" where
  "demo_conn sc =
     \<lparr>exec = demo_exec, texts = demo_texts, session = demo_session, copying = demo_copy, scram = sc, hasCertificate = False,
      DefaultCatalogName = ''db'', ScanText = (\<lambda>t f v. case v of None \<Rightarrow> Inr ([], False) | Some b \<Rightarrow> Inr (map (\<lambda>x. char_of (unat x)) b, True)),
      AddConn = (\<lambda>e. e), CloseSession = (\<lambda>e. e)\<rparr>"

definition demo_env :: "(string list, unit, string) conn_env" where
  "demo_env = demo_conn (tiny_scram\<lparr>EnableAuthentication := False\<rparr>)"

lemmas demo_defs = demo_env_def demo_conn_def demo_exec_def demo_texts_def demo_session_def demo_copy_def demo_column_def demo_rows_def

lemma demo_startup:
  "fst (handleStartup demo_env (NewConnectionHandler [] (StartupMessage [(''user'', ''ann'')] # ms))) = Inr True \<and>
   (\<exists>s. snd (handleStartup demo_env (NewConnectionHandler [] (StartupMessage [(''user'', ''ann'')] # ms))) = s \<and> inbox s = ms \<and> closes s = [] \<and>
     closed_flags s = [] \<and> nextStmt s = 0)"
  by (simp add: handleStartup_def NewConnectionHandler_def start_session_def bind_go_def handleAuthentication_def startup_identity_def
    tiny_scram_def send_def Let_def sendClientStartupMessages_def session_parameters_def chooseInitialDatabase_def initial_database_def
    ComQuery_def doQuery_def executeQuery_def on_engine_def new_context_def attempt_def mapping_error_def demo_defs)

lemma demo_parts [simp]:
  "exec (demo_conn sc) = demo_exec" "texts (demo_conn sc) = demo_texts" "session (demo_conn sc) = demo_session" "copying (demo_conn sc) = demo_copy"
  "scram (demo_conn sc) = sc" "exec demo_env = demo_exec" "texts demo_env = demo_texts" "session demo_env = demo_session" "copying demo_env = demo_copy"
  by (simp_all add: demo_conn_def demo_env_def)

lemma demo_flushes: "\<forall>out. flush_err (session demo_env) out = None"
  by (simp add: demo_session_def)

lemma demo_context: "NewContextErr (exec demo_env) q e = None"
  by (simp add: demo_exec_def)

lemma demo_digits: "itoa 1 = ''1''" "itoa (Suc 0) = ''1''" "itoa 2 = ''2''" "itoa (Suc (Suc 0)) = ''2''"
  by code_simp+

section \<open>A query and its answer\<close>

definition demo_select :: ConvertedStatement where
  "demo_select = \<lparr>st_string = ''q'', st_ast = Some (OtherAST 0), st_tag = ''SELECT'', st_pgParsable = True, st_special = None\<rparr>"

definition demo_schema :: "column list" where
  "demo_schema = [\<lparr>col_name = ''x'', col_type = Postgres \<lparr>PG = PGType TextOID None, PgPrecision = 0, PgScale = 0, PgSize = - 1, PgFallback = False\<rparr>,
     col_pk = False, col_nullable = True\<rparr>]"

definition demo_field :: field_description where
  "demo_field = \<lparr>fd_name = ''x'', fd_oid = oid_number TextOID, fd_size = - 1, fd_format = 0\<rparr>"

lemma demo_select_schema: "InferSchema (TypeForName demo_exec) [demo_column] = Inr demo_schema"
  by code_simp

lemma demo_select_fields: "schemaToFieldDescriptions demo_exec demo_schema [] SimpleQueryMode = Inr [demo_field]"
  by (simp add: schemaToFieldDescriptions_def demo_schema_def demo_field_def field_of_def column_format_def demo_exec_def)

lemma demo_select_rows: "map_res (rowToBytes demo_exec demo_schema [demo_field]) [[Some ''a''], [None]] = Inr [[Some [97]], [None]]"
  by (simp add: rowToBytes_def value_to_bytes_def demo_schema_def demo_exec_def)

section \<open>A prepared statement\<close>

lemma demo_converted: "convert demo_env ''q'' = Inr [convert_parsed (''q'', OtherAST 0, ''SELECT'')]"
  by (simp add: convert_def convertQuery_def demo_texts_def)

lemma convert_parsed_parts [simp]:
  "st_tag (convert_parsed (q, a, t)) = t" "st_ast (convert_parsed (q, a, t)) = Some a" "st_pgParsable (convert_parsed (q, a, t))"
  by (simp_all add: convert_parsed_def Let_def)

lemma demo_extended_fields: "schemaToFieldDescriptions demo_exec demo_schema [] ExtendedQueryMode = Inr [demo_field]"
  by (simp add: schemaToFieldDescriptions_def demo_schema_def demo_field_def field_of_def column_format_def demo_exec_def)

lemma demo_prepare: "ComPrepareParsed demo_exec q s = (Inr (nextStmt s, [parameter_oid TYPE_VARCHAR], [demo_field]), s\<lparr>nextStmt := nextStmt s + 1\<rparr>)"
proof -
  have "NewContextErr demo_exec q e = None" "PrepareContext demo_exec h q e = (Inr [TYPE_VARCHAR], e)" "StatementType demo_exec (Some h) e = Inr STATEMENT_SELECT"
    "QueryNulls demo_exec q n e = (Inr [demo_column], e)" for h q n e by (simp_all add: demo_exec_def)
  then show ?thesis
    by (simp add: ComPrepareParsed_def new_context_def bind_go_def prepare_def Let_def on_engine_def result_fields_def attempt_def queries_def
      demo_select_schema demo_extended_fields)
qed

definition demo_entry :: "duck_stmt \<Rightarrow> nat \<Rightarrow> PreparedStatementData" where
  "demo_entry h i = \<lparr>ps_statement = convert_parsed (''q'', OtherAST 0, ''SELECT''), ps_returnFields = [demo_field],
     ps_bindVarTypes = Some (merge_types [] [parameter_oid TYPE_VARCHAR]), ps_stmt = Some h, ps_closed = Some i\<rparr>"

lemma demo_in_place: "shouldQueryBeHandledInPlace demo_env (convert_parsed (''q'', OtherAST 0, ''SELECT'')) s = (Inr (False, convert_parsed (''q'', OtherAST 0, ''SELECT'')), s)"
  by (simp add: shouldQueryBeHandledInPlace_def selectionConversions_def demo_texts_def bind_go_def Let_def)

lemma demo_parse:
  "handleParse demo_env ''s'' ''q'' [] s =
     (Inr (), s\<lparr>waitForSync := True, nextStmt := nextStmt s + 1, closed_flags := closed_flags s @ [False],
       preparedStatements := (preparedStatements s)(''s'' \<mapsto> demo_entry (nextStmt s) (length (closed_flags s))), outbox := outbox s @ [ParseComplete]\<rparr>)"
  by (simp add: handleParse_def bind_go_def set_waitForSync_def demo_converted parse_statement_def demo_in_place demo_prepare stores_def new_flag_def
    store_statement_def send_def Let_def demo_session_def demo_entry_def)

definition demo_empty :: "(string list, unit) connection" where
  "demo_empty = snd (handleParse demo_env [] [] [] (NewConnectionHandler [] [Query ''r'']))"

lemma demo_empty_state:
  "waitForSync demo_empty \<and> inbox demo_empty = [Query ''r''] \<and> outbox demo_empty = [ParseComplete] \<and>
   (\<exists>ps. preparedStatements demo_empty [] = Some ps \<and> ps_closed ps = None)"
  by (simp add: demo_empty_def handleParse_def bind_go_def set_waitForSync_def lift_res_def convert_def convertQuery_def plain_statement_def
    demo_texts_def is_empty_query_def TrimSpace_def store_statement_def send_def Let_def NewConnectionHandler_def demo_session_def)

definition demo_prepared :: "(string list, unit) connection" where
  "demo_prepared = snd (handleParse demo_env ''s'' ''q'' [] (NewConnectionHandler [] []))"

lemma demo_prepared_state:
  "\<exists>ps h a t. preparedStatements demo_prepared ''s'' = Some ps \<and> ps_stmt ps = Some h \<and> st_ast (ps_statement ps) = Some a \<and> ps_bindVarTypes ps = Some [t]"
  by (simp add: demo_prepared_def demo_parse demo_entry_def merge_types_def)

end
