(* ===== verification/PgConnProps.thy ===== *)
theory PgConnProps
  imports PgExample
begin

text \<open>
  Properties of a connection of the Postgres protocol: a batch of the extended query protocol is answered once, the
  engine serves only clients that have authenticated, a query and a \<^verbatim>\<open>COPY TO STDOUT\<close> are answered in full, and
  what the code does with an empty prepared statement and with parameters. Each property is followed by an instance on
  the environment of \<^verbatim>\<open>PgExample\<close>.
\<close>

section \<open>One answer for each batch\<close>

fun extended :: "frontend \<Rightarrow> bool" where
  "extended (Parse n q oids) = True"
| "extended (Bind p n formats vs results) = True"
| "extended (Describe t n) = True"
| "extended (Execute n) = True"
| "extended m = False"

fun is_close :: "frontend \<Rightarrow> bool" where
  "is_close (Close t n) = True"
| "is_close m = False"

definition flushing :: "('e, 'l, 'v) conn_env \<Rightarrow> bool" where
  "flushing env \<longleftrightarrow> (\<forall>out. flushes env out = None)"

lemma continuing_flagged:
  "continuing (flagged False m) s = (case m s of
     (Inl (Error e), s') \<Rightarrow> (Inr (False, False, Some e), s') | (Inl (Panic p), s') \<Rightarrow> (Inl (Panic p), s') | (Inr x, s') \<Rightarrow> (Inr (False, False, None), s'))"
  by (simp add: continuing_def flagged_def bind_go_def attempt_def split: prod.split sum.split go_error.split)

lemma batch_message_shape:
  assumes "extended msg \<or> is_close msg"
  shows "(\<exists>e s'. handleMessage env msg s = (Inl e, s')) \<or> (\<exists>err s'. handleMessage env msg s = (Inr (False, False, err), s'))"
  using assms
  by (cases msg) (auto simp: handleMessage_def continuing_flagged split: prod.split sum.split go_error.split)

lemma extended_waits:
  assumes "extended msg"
  shows "waitForSync (snd (handleMessage env msg s))"
proof -
  have "handleMessage env msg s = handleMessage env msg (s\<lparr>waitForSync := True\<rparr>)"
    using assms
    by (cases msg) (simp_all add: handleMessage_def continuing_flagged handleParse_def handleBind_def handleDescribe_def handleExecute_def
      set_waitForSync_def bind_go_def)
  moreover have "answers (s\<lparr>waitForSync := True\<rparr>) (snd (handleMessage env msg (s\<lparr>waitForSync := True\<rparr>)))"
    using assms by (intro answers_message) auto
  ultimately show ?thesis by (simp add: answers_def)
qed

lemma batch_waits:
  assumes "extended msg \<or> is_close msg \<and> waitForSync s"
  shows "waitForSync (snd (handleMessage env msg s))"
proof (cases "extended msg")
  case True
  then show ?thesis by (rule extended_waits)
next
  case False
  with assms have "answers s (snd (handleMessage env msg s))" "waitForSync s" by (auto intro: answers_message)
  then show ?thesis by (simp add: answers_def)
qed

lemma end_of_messages_sends:
  assumes "flushing env"
  shows "endOfMessages (flushes env) (Some e) s =
      (Inr (), s\<lparr>outbox := outbox s @ [ErrorResponse ''ERROR'' ''XX000'' e, ReadyForQuery (CHR ''I'')]\<rparr>)"
    "endOfMessages (flushes env) None s = (Inr (), s\<lparr>outbox := outbox s @ [ReadyForQuery (CHR ''I'')]\<rparr>)"
  using assms by (simp_all add: flushing_def endOfMessages_def sendError_def panicking_def bind_go_def send_def Let_def)

text \<open>What the failure of a message of a batch does: the rest of the batch is discarded.\<close>

definition fails_to :: "('e, 'l) connection \<Rightarrow> frontend list \<Rightarrow> ('e, 'l) connection \<Rightarrow> bool" where
  "fails_to s rest t \<longleftrightarrow> inbox t = rest \<and>
     (\<exists>out. outbox t = outbox s @ out @ [ReadyForQuery (CHR ''I'')] \<and> list_all (\<lambda>m. \<not> is_ready m) out)"

lemma recovery_fails_to:
  assumes "flushing env" "answers s s1" "waitForSync s1" "after_sync (inbox s) = Some rest"
  shows "\<exists>t. bind_go (discard_when_waiting False) (\<lambda>_. endOfMessages (flushes env) (Some e)) s1 = (Inr (), t) \<and> fails_to s rest t"
proof -
  obtain out where out: "outbox s1 = outbox s @ out" "list_all (\<lambda>m. \<not> is_ready m) out" "inbox s1 = inbox s"
    using assms(2) by (auto simp: answers_def)
  then show ?thesis using assms
    by (intro exI [of _ "s1\<lparr>inbox := rest, outbox := outbox s @ (out @ [ErrorResponse ''ERROR'' ''XX000'' e]) @ [ReadyForQuery (CHR ''I'')]\<rparr>"])
      (auto simp: bind_discard discard_when_waiting_def discardToSync_def end_of_messages_sends fails_to_def)
qed

lemma batch_step:
  assumes "flushing env" "extended msg \<or> is_close msg \<and> waitForSync s" "after_sync (inbox s) = Some rest"
  shows "\<exists>t. process_message env msg s = (Inr False, t) \<and> (answers s t \<and> waitForSync t \<or> fails_to s rest t)"
proof -
  have sync: "msg \<noteq> Sync" using assms(2) by auto
  obtain r s1 where h: "handleMessage env msg s = (r, s1)" by fastforce
  have s1: "answers s s1" "waitForSync s1"
    using answers_message [OF sync, of s env] batch_waits [OF assms(2), of env] h by simp_all
  note fail = recovery_fails_to [OF assms(1) s1 assms(3)]
  consider (panic) e where "r = Inl e" | (err) e where "r = Inr (False, False, Some e)" | (ok) "r = Inr (False, False, None)"
    using batch_message_shape [of msg env s] assms(2) h by (metis option.exhaust prod.inject)
  then show ?thesis
  proof cases
    case panic
    obtain t where "endOfMessages (flushes env) (Some (error_text e)) (snd (discard_when_waiting False s1)) = (Inr (), t)" "fails_to s rest t"
      using fail [of "error_text e"] by (auto simp: bind_discard)
    then show ?thesis using h panic
      by (simp add: process_message_def recover_def bind_discard) (simp add: bind_go_def)
  next
    case err
    then show ?thesis using fail [of e] h by (auto simp: process_message_def finish_message_def)
  next
    case ok
    then show ?thesis using s1 h by (auto simp: process_message_def finish_message_def)
  qed
qed

lemma receive_message: "inbox s = m # ms \<Longrightarrow> receiveMessage env s = process_message env m (s\<lparr>inbox := ms\<rparr>)"
  by (simp add: receiveMessage_def Receive_def)

text \<open>One round of the loop that does not end it, and the rounds of the loop.\<close>

inductive serves :: "('e, 'l, 'v) conn_env \<Rightarrow> ('e, 'l) connection \<Rightarrow> ('e, 'l) connection \<Rightarrow> bool" for env where
  "receiveMessage env s = (Inr False, t) \<Longrightarrow> serves env s t"

inductive_simps serves_iff: "serves env s t"

lemma session_loop_serves: "rtranclp (serves env) s t \<Longrightarrow> session_loop env s = session_loop env t"
proof (induction rule: rtranclp_induct)
  case (step t u)
  then have "receiveMessage env t = (Inr False, u)" by (simp add: serves_iff)
  then have "session_loop env t = session_loop env u" by (subst session_loop.simps) simp
  with step show ?case by simp
qed simp

lemma loop_step: "inbox s = m # ms \<Longrightarrow> process_message env m (s\<lparr>inbox := ms\<rparr>) = (Inr False, t) \<Longrightarrow> rtranclp (serves env) s t"
  by (simp add: serves_iff receive_message r_into_rtranclp)

lemma sync_step:
  assumes "flushing env" "inbox s = Sync # rest"
  shows "\<exists>t. rtranclp (serves env) s t \<and> fails_to s rest t"
proof -
  let ?t = "s\<lparr>inbox := rest, waitForSync := False, outbox := outbox s @ [ReadyForQuery (CHR ''I'')]\<rparr>"
  have "process_message env Sync (s\<lparr>inbox := rest\<rparr>) = (Inr False, ?t)"
    using assms(1) by (simp add: process_message_def handleMessage_def set_waitForSync_def bind_go_def finish_message_def end_of_messages_sends)
  then show ?thesis using loop_step [OF assms(2)] by (intro exI [of _ ?t]) (simp add: fails_to_def)
qed

lemma fails_after_answer: "answers s t \<Longrightarrow> fails_to t rest u \<Longrightarrow> fails_to s rest u"
  unfolding answers_def fails_to_def by (metis append.assoc list_all_append)

lemma after_sync_batch: "list_all (\<lambda>m. extended m \<or> is_close m) ms \<Longrightarrow> after_sync (ms @ Sync # rest) = Some rest"
  by (induction ms) auto

lemma batch_tail:
  assumes "flushing env"
  shows "inbox s = ms @ Sync # rest \<Longrightarrow> list_all (\<lambda>m. extended m \<or> is_close m) ms \<Longrightarrow> waitForSync s \<Longrightarrow>
    \<exists>t. rtranclp (serves env) s t \<and> fails_to s rest t"
proof (induction ms arbitrary: s)
  case Nil
  then show ?case using sync_step [OF assms] by simp
next
  case (Cons m ms)
  let ?s = "s\<lparr>inbox := ms @ Sync # rest\<rparr>"
  have "after_sync (inbox ?s) = Some rest" using Cons.prems(2) by (simp add: after_sync_batch)
  then obtain t where t: "process_message env m ?s = (Inr False, t)" "answers ?s t \<and> waitForSync t \<or> fails_to ?s rest t"
    using batch_step [OF assms, of m ?s rest] Cons.prems by auto
  have loop: "rtranclp (serves env) s t" using loop_step [OF _ t(1)] Cons.prems(1) by simp
  have same: "fails_to ?s rest u \<Longrightarrow> fails_to s rest u" for u by (simp add: fails_to_def)
  show ?case
  proof (cases "fails_to ?s rest t")
    case True
    then show ?thesis using loop same by blast
  next
    case False
    with t(2) have a: "answers ?s t" "waitForSync t" by auto
    then have "inbox t = ms @ Sync # rest" by (simp add: answers_def)
    then obtain u where "rtranclp (serves env) t u" "fails_to t rest u"
      using Cons.IH [of t] Cons.prems(2) a(2) by auto
    then show ?thesis using loop same fails_after_answer [OF a(1)] rtranclp_trans by metis
  qed
qed


definition demo_batch :: "(string list, unit) connection" where
  "demo_batch = NewConnectionHandler [] [Parse ''s'' ''q'' [], Bind [] ''s'' [] [] [], Execute [], Sync, Terminate]"


section \<open>No statement without a proof\<close>

definition closed_session :: "('e, 'l, 'v) conn_env \<Rightarrow> 'e \<Rightarrow> 'e" where
  "closed_session env e =
     (let e' = CloseSession env e in case NewContextErr (exec env) [] e' of None \<Rightarrow> CloseConn (session env) e' | Some _ \<Rightarrow> e')"

text \<open>A client has proved its identity in a sequence of messages.\<close>

definition proved_in :: "('e, 'l, 'v) conn_env \<Rightarrow> frontend list \<Rightarrow> bool" where
  "proved_in env ms \<longleftrightarrow> (\<exists>pre params mid d1 d2 rest si sc.
     ms = pre @ StartupMessage params # mid @ SASLInitialResponse SASLMechanism_SCRAM_SHA_256 d1 # SASLResponse d2 # rest \<and>
     readSASLInitial SASLMechanism_SCRAM_SHA_256 d1 = Inr si \<and>
     continue_for (scram env) (GetRole (scram env) (fst (startup_identity (scram env) params))) (fst (startup_identity (scram env) params))
       si (length mid) sc \<and>
     proves (scram env) (GetRole (scram env) (fst (startup_identity (scram env) params))) si sc d2)"

lemma proved_in_Cons: "proved_in env ms \<Longrightarrow> proved_in env (m # ms)"
  unfolding proved_in_def by (metis append_Cons)

lemma start_session_proof:
  assumes "octets_laws (scram env)" "EnableAuthentication (scram env)" "start_session env params s = (r, t)" "inbox s = ms" "randoms s = 0"
  shows "(engine t = engine s \<and> (\<exists>e. r = Inl e)) \<or> proved_in env (StartupMessage params # ms)"
proof -
  obtain r0 s0 where a: "handleAuthentication (scram env) (flushes env) params s = (r0, s0)" by fastforce
  show ?thesis
  proof (cases r0)
    case (Inl e)
    then have "t = s0 \<and> r = Inl e" using assms(3) a by (simp add: start_session_def bind_go_def)
    moreover have "engine s0 = engine s" using untouched_authentication [of s "scram env" "flushes env" params] a by (simp add: untouched_def)
    ultimately show ?thesis by simp
  next
    case (Inr u)
    then have "handleAuthentication (scram env) (flushes env) params s = (Inr (), s0)" using a by simp
    from authentication_requires_proof [OF assms(1,2) this] assms(4,5)
    obtain mid d1 d2 si sc where "ms = mid @ SASLInitialResponse SASLMechanism_SCRAM_SHA_256 d1 # SASLResponse d2 # inbox s0"
      "readSASLInitial SASLMechanism_SCRAM_SHA_256 d1 = Inr si"
      "continue_for (scram env) (GetRole (scram env) (fst (startup_identity (scram env) params))) (fst (startup_identity (scram env) params))
        si (length mid) sc"
      "proves (scram env) (GetRole (scram env) (fst (startup_identity (scram env) params))) si sc d2" by auto
    then show ?thesis unfolding proved_in_def by (metis append_Nil)
  qed
qed

lemma startup_proof:
  assumes "octets_laws (scram env)" "EnableAuthentication (scram env)"
  shows "startup_loop env ms s = (r, t) \<Longrightarrow> randoms s = 0 \<Longrightarrow> (engine t = engine s \<and> r \<noteq> Inr True) \<or> proved_in env ms"
proof (induction ms arbitrary: s)
  case Nil
  then show ?case by auto
next
  case (Cons m ms)
  have request: "(engine t = engine s \<and> r \<noteq> Inr True) \<or> proved_in env (m # ms)"
    if "bind_go (mapping_error f (send (flushes env) b)) (\<lambda>_. startup_loop env ms) (s\<lparr>inbox := ms\<rparr>) = (r, t)" for f b
  proof (cases "flushes env (outbox s @ [b])")
    case None
    then have "startup_loop env ms (s\<lparr>inbox := ms, outbox := outbox s @ [b]\<rparr>) = (r, t)"
      using that by (simp add: bind_go_def mapping_error_def send_def Let_def)
    from Cons.IH [OF this] Cons.prems(2) show ?thesis using proved_in_Cons by auto
  next
    case (Some e)
    then show ?thesis using that by (auto simp: bind_go_def mapping_error_def send_def Let_def)
  qed
  consider (start) params where "m = StartupMessage params" | (ssl) "m = SSLRequest" | (gss) "m = GSSEncRequest"
    | (other) "startup_loop env (m # ms) s = (Inl (Error ''terminating connection: unexpected start message''), s\<lparr>inbox := ms\<rparr>)"
    by (cases m) auto
  then show ?case
  proof cases
    case start
    then have "start_session env params (s\<lparr>inbox := ms\<rparr>) = (r, t)" using Cons.prems by simp
    from start_session_proof [OF assms this] start Cons.prems(2) show ?thesis by auto
  next
    case ssl
    then show ?thesis using Cons.prems request by simp
  next
    case gss
    then show ?thesis using Cons.prems request by simp
  next
    case other
    then show ?thesis using Cons.prems by auto
  qed
qed

text \<open>
  (C8) With authentication enabled, the engine serves a client only after a proof of its identity: a connection on
  which the client never sends one leaves the engine as opening and closing a session leave it, whatever else it
  sends. A proof is the response to a challenge of the server, in the exchange after a startup message, that shows
  a key of the role named there (\<open>proves\<close>); the challenge holds the nonce that the server draws for this
  exchange, after one for each earlier initial response (\<open>continue_for\<close>).
\<close>

theorem engine_needs_proof:
  assumes "octets_laws (scram env)" "EnableAuthentication (scram env)"
  shows "engine (HandleConnection env (NewConnectionHandler e ms)) = closed_session env (AddConn env e) \<or> proved_in env ms"
proof -
  let ?s = "(NewConnectionHandler e ms)\<lparr>engine := AddConn env e\<rparr>"
  obtain r t where st: "startup_loop env ms ?s = (r, t)" by fastforce
  show ?thesis
  proof (rule disjCI)
    assume no: "\<not> proved_in env ms"
    then have t: "engine t = AddConn env e" "r \<noteq> Inr True" using startup_proof [OF assms st] by (auto simp: NewConnectionHandler_def)
    have eom: "engine (snd (endOfMessages (flushes env) (Some p) t)) = engine t" for p
      unfolding endOfMessages_def sendError_def panicking_def bind_go_def by (simp add: send_def Let_def split: option.split)
    have close: "engine (snd (closeBackendConn env (u\<lparr>engine := CloseSession env x\<rparr>))) = closed_session env x" for u x
      by (auto simp: closeBackendConn_def closed_session_def Let_def split: option.split)
    have "handleStartup env ?s = (r, t)" using st by (simp add: handleStartup_def NewConnectionHandler_def)
    then show "engine (HandleConnection env (NewConnectionHandler e ms)) = closed_session env (AddConn env e)"
      using t close eom
      by (cases r) (auto simp: HandleConnection_def bind_go_def NewConnectionHandler_def split: go_error.split bool.split)
  qed
qed

theorem engine_needs_proof_witness:
  "engine (HandleConnection (demo_conn demo_scram) (NewConnectionHandler [] [StartupMessage [(''user'', ''ann'')], Query ''q''])) =
     closed_session (demo_conn demo_scram) []"
proof -
  let ?ms = "[StartupMessage [(''user'', ''ann'')], Query ''q'']"
  have "\<not> proved_in (demo_conn demo_scram) ?ms" by (auto simp: proved_in_def Cons_eq_append_conv append_eq_Cons_conv)
  then show ?thesis
    using engine_needs_proof [of "demo_conn demo_scram" "[]" ?ms] demo_laws by (simp add: demo_conn_def demo_scram_def)
qed

section \<open>The answer to a query\<close>

text \<open>
  The rows still to be sent: the description of the columns, unless it has been sent or the statement is executed
  by a portal, and the rows of the current batch.
\<close>

definition pending :: "bool \<Rightarrow> bool \<Rightarrow> result \<Rightarrow> backend list" where
  "pending isExecute sent r = (if isExecute \<or> sent then [] else [RowDescription (r_fields r)]) @ map DataRow (r_rows r)"

definition batch_ok :: "field_description list \<Rightarrow> result \<Rightarrow> bool" where
  "batch_ok fds r \<longleftrightarrow> r_fields r = fds \<and> length (r_rows r) \<le> 128 \<and> r_affected r = of_nat (length (r_rows r))"

lemma send_all_flushing: "\<forall>out. fl out = None \<Longrightarrow> send_all fl ms s = (Inr (), s\<lparr>outbox := outbox s @ ms\<rparr>)"
proof (induction ms arbitrary: s)
  case (Cons m ms)
  then show ?case by (simp add: bind_go_def send_def Let_def)
qed simp

lemma callback_rows:
  assumes "\<forall>out. fl out = None" "returnsRow tag"
  shows "spoolRowsCallback fl tag ex (sent, n) r s =
    (Inr (sent \<or> \<not> ex, n + of_nat (length (r_rows r))), s\<lparr>outbox := outbox s @ pending ex sent r\<rparr>)"
proof -
  have "tag \<notin> {''INSERT'', ''UPDATE'', ''DELETE''}" using assms(2) by (auto simp: returnsRow_def)
  then show ?thesis using assms
    by (auto simp: spoolRowsCallback_def send_all_flushing bind_go_def pending_def send_def Let_def)
qed

lemma small_count: "k \<le> 128 \<Longrightarrow> j \<le> 128 \<Longrightarrow> (of_nat k :: u64) = of_nat j \<longleftrightarrow> k = j"
proof -
  assume kj: "k \<le> 128" "j \<le> 128"
  have "(of_nat k :: u64) = of_nat j \<longleftrightarrow> k mod 2 ^ 64 = j mod 2 ^ 64"
    by (simp only: word_of_nat_eq_iff take_bit_eq_mod len_bit0 len_num1) simp
  then show ?thesis using kj by simp
qed

lemma full_batch: "k \<le> 128 \<Longrightarrow> (of_nat k :: u64) = rowsBatch \<longleftrightarrow> k = 128"
  using small_count [of k 128] by (simp add: rowsBatch_def)

lemma empty_batch: "k \<le> 128 \<Longrightarrow> (of_nat k :: u64) = 0 \<longleftrightarrow> k = 0"
  using small_count [of k 0] by simp

text \<open>The loop keeps what has been sent together with what is pending, and the number of rows.\<close>

definition spooled :: "bool \<Rightarrow> field_description list \<Rightarrow> backend list \<Rightarrow> u32 \<Rightarrow> (bool \<times> u32) \<times> result \<times> bool \<Rightarrow> ('e, 'l) connection \<Rightarrow> bool" where
  "spooled ex fds out cnt st s \<longleftrightarrow>
     (case st of ((sent, n), r, processed) \<Rightarrow>
        batch_ok fds r \<and> (processed \<longrightarrow> ex \<or> sent) \<and> outbox s @ pending ex sent r = out \<and> n + of_nat (length (r_rows r)) = cnt)"

lemma spooled_flush:
  assumes "\<forall>out. fl out = None" "returnsRow tag" "spooled ex fds out cnt st s"
  shows "\<exists>st' s'. flush_batch (spoolRowsCallback fl tag ex) fds st s = (Inr st', s') \<and> spooled ex fds out cnt st' s' \<and>
    length (r_rows (fst (snd st'))) < 128 \<and> inbox s' = inbox s \<and> (snd (snd st) \<longrightarrow> snd (snd st'))"
proof -
  obtain sent n r processed where st: "st = ((sent, n), r, processed)" by (cases st) auto
  have r: "batch_ok fds r" using assms(3) st by (simp add: spooled_def)
  show ?thesis
  proof (cases "length (r_rows r) = 128")
    case True
    then have "r_affected r = rowsBatch" using r full_batch [of "length (r_rows r)"] by (simp add: batch_ok_def)
    then show ?thesis using assms st
      by (auto simp: flush_batch_def callback_rows bind_go_def spooled_def empty_result_def batch_ok_def pending_def)
  next
    case False
    then have "r_affected r \<noteq> rowsBatch" "length (r_rows r) < 128" using r full_batch [of "length (r_rows r)"] by (auto simp: batch_ok_def)
    then show ?thesis using assms(3) st by (simp add: flush_batch_def)
  qed
qed

lemma spooled_rows:
  assumes "\<forall>out. fl out = None" "returnsRow tag"
  shows "map_res enc rows = Inr outs \<Longrightarrow> spooled ex fds out cnt st s \<Longrightarrow>
    \<exists>st' s'. spool (spoolRowsCallback fl tag ex) enc fds (map RowItem rows) st s = (Inr st', s') \<and>
      spooled ex fds (out @ map DataRow outs) (cnt + of_nat (length outs)) st' s' \<and> inbox s' = inbox s"
proof (induction rows arbitrary: outs out cnt st s)
  case Nil
  then show ?case using spooled_flush [OF assms, of ex fds out cnt st s] by auto
next
  case (Cons row rows)
  obtain o1 os where outs: "enc row = Inr o1" "map_res enc rows = Inr os" "outs = o1 # os"
    using Cons.prems(1) by (auto simp: res_simps)
  obtain st1 s1 where f: "flush_batch (spoolRowsCallback fl tag ex) fds st s = (Inr st1, s1)" "spooled ex fds out cnt st1 s1"
    "length (r_rows (fst (snd st1))) < 128" "inbox s1 = inbox s"
    using spooled_flush [OF assms Cons.prems(2)] by blast
  obtain sent n r processed where st1: "st1 = ((sent, n), r, processed)" by (cases st1) auto
  let ?r = "r\<lparr>r_rows := r_rows r @ [o1], r_affected := r_affected r + 1\<rparr>"
  have "spooled ex fds (out @ [DataRow o1]) (cnt + 1) ((sent, n), ?r, processed) s1"
    using f(2,3) st1 by (auto simp: spooled_def batch_ok_def pending_def algebra_simps)
  from Cons.IH [OF outs(2) this] f(4) obtain st' s' where
    "spool (spoolRowsCallback fl tag ex) enc fds (map RowItem rows) ((sent, n), ?r, processed) s1 = (Inr st', s')"
    "spooled ex fds ((out @ [DataRow o1]) @ map DataRow os) (cnt + 1 + of_nat (length os)) st' s'" "inbox s' = inbox s" by auto
  then show ?case using f(1) st1 outs by (auto simp: bind_go_def algebra_simps)
qed

lemma spooled_result:
  assumes "\<forall>out. fl out = None" "returnsRow tag" "map_res (rowToBytes env sch fds) rows = Inr outs"
    "it_items it = map RowItem rows" "it_error it = None" "it_close it = None"
  shows "\<exists>st s'. resultForDefaultIter env sch it (spoolRowsCallback fl tag ex) fds (False, 0) s = (Inr st, s') \<and> inbox s' = inbox s \<and>
    spooled ex fds (outbox s @ (if ex then [] else [RowDescription fds]) @ map DataRow outs) (of_nat (length outs)) st s'"
proof -
  let ?out = "outbox s @ (if ex then [] else [RowDescription fds])"
  have "spooled ex fds ?out 0 ((False, 0), empty_result fds, False) s"
    by (simp add: spooled_def batch_ok_def empty_result_def pending_def)
  then obtain st s' where "spool (spoolRowsCallback fl tag ex) (rowToBytes env sch fds) fds (map RowItem rows) ((False, 0), empty_result fds, False) s = (Inr st, s')"
    "spooled ex fds (?out @ map DataRow outs) (0 + of_nat (length outs)) st s'" "inbox s' = inbox s"
    using spooled_rows [OF assms(1,2,3)] by blast
  then show ?thesis using assms(4-6) by (simp add: resultForDefaultIter_def mapping_error_def bind_go_def)
qed

lemma doQuery_rows:
  assumes fl: "\<forall>out. fl out = None" and tag: "returnsRow tag" and ctx: "NewContextErr env q (engine s) = None"
    and ex: "queryExec s = (Inr (RowResult sch it), s1)" "outbox s1 = outbox s" "inbox s1 = inbox s"
    and rows: "it_items it = map RowItem rows" "it_error it = None" "it_close it = None"
    and fds: "schemaToFieldDescriptions env sch codes mode = Inr fds" and enc: "map_res (rowToBytes env sch fds) rows = Inr outs"
  shows "\<exists>s' sent. doQuery env q codes mode queryExec (spoolRowsCallback fl tag isex) (False, 0) s = (Inr (sent, of_nat (length rows)), s') \<and>
    inbox s' = inbox s \<and> outbox s' = outbox s @ (if isex then [] else [RowDescription fds]) @ map DataRow outs"
proof -
  let ?s = "s1\<lparr>engine := setCurrentDatabase env (engine s1)\<rparr>"
  obtain sent n r processed s2 where
    res: "resultForDefaultIter env sch it (spoolRowsCallback fl tag isex) fds (False, 0) ?s = (Inr ((sent, n), r, processed), s2)" "inbox s2 = inbox s"
    and sp: "spooled isex fds (outbox s @ (if isex then [] else [RowDescription fds]) @ map DataRow outs) (of_nat (length outs)) ((sent, n), r, processed) s2"
    using spooled_result [OF fl tag enc rows, of isex ?s] ex(2,3) by (auto simp: split_paired_all)
  have len: "length rows = length outs" using map_res_length [OF enc] by simp
  have run: "doQuery env q codes mode queryExec (spoolRowsCallback fl tag isex) (False, 0) s =
      (if r_affected r = 0 \<and> processed then return_go (sent, n) else spoolRowsCallback fl tag isex (sent, n) r) s2"
    using ctx ex fds res(1) by (simp add: doQuery_def new_context_def bind_go_def)
  show ?thesis
  proof (cases "r_affected r = 0 \<and> processed")
    case True
    have "batch_ok fds r" using sp by (simp add: spooled_def)
    then have "r_rows r = []" using True empty_batch [of "length (r_rows r)"] by (simp add: batch_ok_def)
    then show ?thesis using True run sp res(2) len by (auto simp: spooled_def pending_def)
  next
    case False
    then show ?thesis using run sp res(2) len by (auto simp: callback_rows [OF fl tag] spooled_def)
  qed
qed

text \<open>
  (C11) A query is answered in full: its columns are described once, every row of the result is sent once and in
  order, however many batches of \<open>rowsBatch\<close> rows they make and also when there are none, and the command tag has
  their number. The number is an \<^verbatim>\<open>int32\<close>, so it is exact below \<open>2 ^ 31\<close> rows.
\<close>

theorem select_answered:
  assumes fl: "\<forall>out. flush_err (session env) out = None"
    and st: "st_special st = None" "st_pgParsable st" "st_tag st = ''SELECT''" "st_ast st = Some (OtherAST k)"
    and ctx: "NewContextErr (exec env) (st_string st) (engine s) = None"
    and query: "adapter_QueryCatalog (exec env) (st_string st) [] (engine s) = (Inr (types, it), e')"
    and rows: "it_items it = map RowItem rows" "it_error it = None" "it_close it = None"
    and sch: "InferSchema (TypeForName (exec env)) types = Inr sch"
    and fds: "schemaToFieldDescriptions (exec env) sch [] SimpleQueryMode = Inr fds"
    and enc: "map_res (rowToBytes (exec env) sch fds) rows = Inr outs"
  shows "\<exists>s'. run env st s = (Inr (), s') \<and> inbox s' = inbox s \<and>
    outbox s' = outbox s @ RowDescription fds # map DataRow outs @ [CommandComplete (''SELECT '' @ format_int32 (of_nat (length rows)))] \<and>
    (length rows < 2 ^ 31 \<longrightarrow> format_int32 (of_nat (length rows)) = itoa (length rows))"
proof -
  have ex: "executeQuery (exec env) (st_string st) (st_ast st) s = (Inr (RowResult sch it), s\<lparr>engine := e'\<rparr>)"
    using st(4) query sch by (simp add: executeQuery_def query_rows_def on_engine_def bind_go_def)
  have "returnsRow ''SELECT''" by (simp add: returnsRow_def)
  from doQuery_rows [where queryExec = "executeQuery (exec env) (st_string st) (st_ast st)" and isex = False, OF fl this ctx ex _ _ rows fds enc] obtain s1 sent where
    q: "doQuery (exec env) (st_string st) [] SimpleQueryMode (executeQuery (exec env) (st_string st) (st_ast st))
        (spoolRowsCallback (flushes env) ''SELECT'' False) (False, 0) s = (Inr (sent, of_nat (length rows)), s1)"
    "inbox s1 = inbox s" "outbox s1 = outbox s @ RowDescription fds # map DataRow outs" by auto
  have "format_int32 (of_nat n) = itoa n" if "n < 2 ^ 31" for n
  proof -
    have "sint (of_nat n :: u32) = int n" using that by (simp add: signed_of_nat signed_take_bit_int_eq_self)
    then show ?thesis by (simp add: format_int32_def)
  qed
  then show ?thesis using q st fl
    by (simp add: run_def statement_tag_def ComQuery_def mapping_error_def makeCommandComplete_def bind_go_def send_def Let_def)
qed

theorem select_answered_witness:
  "\<exists>s'. run demo_env demo_select (NewConnectionHandler [] [] :: (string list, unit) connection) = (Inr (), s') \<and> inbox s' = [] \<and>
    outbox s' = [RowDescription [demo_field], DataRow [Some [97]], DataRow [None], CommandComplete ''SELECT 2'']"
proof -
  let ?s = "NewConnectionHandler [] [] :: (string list, unit) connection"
  have st: "st_special demo_select = None" "st_pgParsable demo_select" "st_tag demo_select = ''SELECT''" "st_ast demo_select = Some (OtherAST 0)"
    by (simp_all add: demo_select_def)
  have query: "adapter_QueryCatalog (exec demo_env) (st_string demo_select) [] (engine ?s) = (Inr ([demo_column], demo_rows), [''q''])"
    by (simp add: demo_exec_def demo_select_def NewConnectionHandler_def)
  have rows: "it_items demo_rows = map RowItem [[Some ''a''], [None]]" "it_error demo_rows = None" "it_close demo_rows = None"
    by (simp_all add: demo_rows_def)
  have start: "inbox ?s = []" "outbox ?s = []" by (simp_all add: NewConnectionHandler_def)
  have "\<exists>s'. run demo_env demo_select ?s = (Inr (), s') \<and> inbox s' = inbox ?s \<and>
    outbox s' = outbox ?s @ RowDescription [demo_field] # map DataRow [[Some [97]], [None]] @ [CommandComplete (''SELECT '' @ format_int32 (of_nat (length [[Some ''a''], [None]])))] \<and>
    (length [[Some ''a''], [None]] < 2 ^ 31 \<longrightarrow> format_int32 (of_nat (length [[Some ''a''], [None]])) = itoa (length [[Some ''a''], [None]]))"
    by (rule select_answered [OF demo_flushes st demo_context query rows])
      (use demo_select_schema demo_select_fields demo_select_rows in simp_all)
  then show ?thesis using start by (auto simp: demo_digits)
qed

section \<open>COPY TO STDOUT\<close>

definition is_line :: "string \<Rightarrow> bool" where
  "is_line l \<longleftrightarrow> (\<exists>b. l = b @ [newline] \<and> newline \<notin> set b)"

lemma text_lines_line: "newline \<notin> set b \<Longrightarrow> text_lines (b @ newline # s) = ((b @ [newline]) # fst (text_lines s), snd (text_lines s))"
  by (induction b) (auto split: prod.split)

lemma text_lines_concat: "list_all is_line ls \<Longrightarrow> text_lines (concat ls) = (ls, [])"
proof (induction ls)
  case (Cons l ls)
  then obtain b where b: "l = b @ [newline]" "newline \<notin> set b" by (auto simp: is_line_def)
  then show ?case using Cons text_lines_line [of b "concat ls"] by simp
qed simp

lemma copy_lines_sends:
  assumes "\<forall>out. fl out = None"
  shows "\<forall>l\<in>set ls. length l \<le> read_buffer \<Longrightarrow>
    copy_lines fl responded ls s =
      (Inr (), s\<lparr>outbox := outbox s @ (if responded \<or> ls = [] then [] else [CopyOutResponse (column_count (hd ls))]) @ map CopyOutData ls\<rparr>)"
proof (induction ls arbitrary: responded s)
  case (Cons l ls)
  then show ?case by (auto simp: bind_go_def send_all_flushing [OF assms] simp del: send_all.simps)
qed simp

lemma copy_lines_full:
  assumes "\<forall>out. fl out = None"
  shows "\<not> (\<forall>l\<in>set ls. length l \<le> read_buffer) \<Longrightarrow> \<exists>s'. copy_lines fl responded ls s = (Inl (Error ''bufio: buffer full''), s')"
proof (induction ls arbitrary: responded s)
  case (Cons l ls)
  then show ?case by (auto simp: bind_go_def send_all_flushing [OF assms] simp del: send_all.simps)
qed simp

text \<open>
  (C14) \<^verbatim>\<open>COPY TO STDOUT\<close> in text format delivers the lines that DuckDB writes, one message each and in order, between a
  response with the number of columns of the first line and the number of rows; but only as long as no line is
  longer than the buffer of the reader. One longer line makes the whole copy fail, and the client is told that a buffer
  is full or that the context has been cancelled.
\<close>

theorem copy_text_delivered:
  assumes fl: "\<forall>out. flush_err (session env) out = None"
    and ctx: "NewContextErr (exec env) (st_string st) (engine s) = None" "ValidateCopyTo (copying env) target (engine s) = None"
    and writer: "CopyWriter (copying env) target FormatText opts (engine s) = (Inr out, e')" "co_started out" "co_read_error out = None" "co_result out = Inr n"
    and lines: "concat (co_chunks out) = concat ls" "list_all is_line ls" "ls \<noteq> []"
  shows "\<exists>r s'. handleCopyToStdout env st (Some target) [] FormatText opts s = (r, s') \<and>
    (if \<forall>l\<in>set ls. length l \<le> 4096 then
       r = Inr () \<and> outbox s' = outbox s @ CopyOutResponse (column_count (hd ls)) # map CopyOutData ls @ [CopyOutDone, CommandComplete (''COPY '' @ itoa n)]
     else r \<in> {Inl (Error ''bufio: buffer full''), Inl (Error ''context canceled'')})"
proof -
  have tl: "text_lines (concat (co_chunks out)) = (ls, [])" using lines text_lines_concat by simp
  let ?s = "s\<lparr>engine := e'\<rparr>"
  show ?thesis
  proof (cases "\<forall>l\<in>set ls. length l \<le> 4096")
    case True
    then have "copy_lines (flushes env) False ls ?s = (Inr (), ?s\<lparr>outbox := outbox s @ [CopyOutResponse (column_count (hd ls))] @ map CopyOutData ls\<rparr>)"
      using copy_lines_sends [OF fl, of ls False ?s] lines(3) by (simp add: read_buffer_def)
    then have "copy_reader (flushes env) FormatText out ?s = (Inr (), ?s\<lparr>outbox := outbox s @ [CopyOutResponse (column_count (hd ls))] @ map CopyOutData ls\<rparr>)"
      using writer tl by (simp add: copy_reader_def bind_go_def read_buffer_def)
    then show ?thesis using True ctx writer
      by (simp add: handleCopyToStdout_def new_context_def bind_go_def on_engine_def attempt_def send_all_flushing [OF fl] del: send_all.simps)
  next
    case False
    then obtain s1 where "copy_lines (flushes env) False ls ?s = (Inl (Error ''bufio: buffer full''), s1)"
      using copy_lines_full [OF fl, of ls False ?s] by (auto simp: read_buffer_def)
    then have "copy_reader (flushes env) FormatText out ?s = (Inl (Error ''bufio: buffer full''), s1)"
      using writer tl by (simp add: copy_reader_def bind_go_def)
    then show ?thesis using False ctx writer
      by (auto simp: handleCopyToStdout_def new_context_def bind_go_def on_engine_def attempt_def)
  qed
qed

theorem copy_text_delivered_witness:
  "\<exists>s'. handleCopyToStdout demo_env demo_select (Some ''t'') [] FormatText [] (NewConnectionHandler [] []) = (Inr (), s') \<and>
    outbox s' = [CopyOutResponse 2, CopyOutData (''1'' @ [CHR 9] @ ''a'' @ [newline]), CopyOutDone, CommandComplete ''COPY 1'']"
proof -
  let ?l = "''1'' @ [CHR 9] @ ''a'' @ [newline]" and ?s = "NewConnectionHandler [] [] :: (string list, unit) connection"
  let ?out = "\<lparr>co_started = True, co_chunks = [''1'' @ [CHR 9], ''a'' @ [newline]], co_read_error = None, co_result = Inr 1, co_cancel_first = False\<rparr>"
  have line: "list_all is_line [?l]" by (simp add: is_line_def)
  have "ValidateCopyTo (copying demo_env) ''t'' (engine ?s) = None" "CopyWriter (copying demo_env) ''t'' FormatText [] (engine ?s) = (Inr ?out, engine ?s)"
    by (simp_all add: demo_copy_def)
  from copy_text_delivered [OF demo_flushes demo_context [of "st_string demo_select"] this, of 1 "[?l]"] line show ?thesis
    by (auto simp: column_count_def NewConnectionHandler_def demo_digits numeral_2_eq_2)
qed

section \<open>A query after an empty statement\<close>

lemma handleQuery_converted:
  assumes "q \<noteq> '';''" "psql_command q = None" "workbench_command q = None" "convert env q = Inr sts"
  shows "handleQuery env q = bind_go (deletePreparedStatement env []) (\<lambda>_. bind_go (deletePortal env []) (\<lambda>_. handle_statements env False sts))"
  using assms by (simp add: handleQuery_def handledPSQLCommands_def handledWorkbenchCommands_def handle_converted_def)


lemmas psql_text_defs = psql_l_def psql_l_16_def psql_dt_def psql_d_def psql_d_14_def psql_d_table_prefix_def psql_d_table_suffix_def psql_dn_def psql_df_def psql_dv_def psql_du_def 


section \<open>Parameters\<close>

text \<open>
  (C25) \<^verbatim>\<open>Bind\<close> indexes the format codes of the parameters by the position of the parameter. A message without
  format codes, which stands for text in all parameters, makes it panic whenever there is a parameter.
\<close>

theorem bind_without_formats_panics:
  assumes "preparedStatements s n = Some ps" "ps_stmt ps = Some h" "st_ast (ps_statement ps) = Some a"
    "ps_bindVarTypes ps = Some ts" "length ts = length vs" "vs \<noteq> []"
  shows "handleBind env portal n [] vs results s = (Inl (Panic ''index out of range''), s\<lparr>waitForSync := True\<rparr>)"
proof -
  have "convertBindParameters env ts [] vs = Inl (Panic ''index out of range'')"
  proof -
    obtain k where k: "length vs = Suc k" using assms(6) by (cases vs) auto
    have "[0..<Suc k] = 0 # [1..<Suc k]" by (simp add: upt_conv_Cons del: upt_Suc)
    then show ?thesis using assms(5) k by (simp add: convertBindParameters_def del: upt_Suc)
  qed
  then show ?thesis using assms by (simp add: handleBind_def bind_portal_def set_waitForSync_def bind_go_def)
qed

theorem bind_without_formats_panics_witness:
  "handleBind demo_env [] ''s'' [] [Some [97]] [] demo_prepared = (Inl (Panic ''index out of range''), demo_prepared\<lparr>waitForSync := True\<rparr>)"
proof -
  obtain ps h a t where "preparedStatements demo_prepared ''s'' = Some ps" "ps_stmt ps = Some h" "st_ast (ps_statement ps) = Some a"
    "ps_bindVarTypes ps = Some [t]" using demo_prepared_state by blast
  from bind_without_formats_panics [OF this, of "[Some [97]]" demo_env "[]" "[]"] show ?thesis by simp
qed



section \<open>A statement closed once\<close>

definition demo_messages :: "frontend list" where
  "demo_messages = [StartupMessage [(''user'', ''ann'')], Parse ''s'' ''q'' [], Close (CHR ''S'') ''s'', Sync]"

definition demo_started :: "(string list, unit) connection" where
  "demo_started = snd (handleStartup demo_env (NewConnectionHandler [] demo_messages))"

definition demo_closed :: "(string list, unit) connection" where
  "demo_closed = snd (receiveMessage demo_env (snd (receiveMessage demo_env demo_started)))"

lemma demo_closed_reached: "reaches demo_env [] demo_messages demo_closed"
proof -
  have "reaches demo_env [] demo_messages demo_started"
    using demo_startup by (intro reaches.started) (simp add: demo_started_def demo_messages_def prod_eq_iff)
  then have "reaches demo_env [] demo_messages (snd (receiveMessage demo_env demo_started))"
    by (rule reaches.received) (rule prod.collapse [symmetric])
  then show ?thesis unfolding demo_closed_def by (rule reaches.received) (rule prod.collapse [symmetric])
qed

lemma demo_closed_calls: "closes demo_closed = [0]"
proof -
  have st: "inbox demo_started = [Parse ''s'' ''q'' [], Close (CHR ''S'') ''s'', Sync]" "closes demo_started = []" "closed_flags demo_started = []"
    "nextStmt demo_started = 0" using demo_startup by (simp_all add: demo_started_def demo_messages_def)
  show ?thesis unfolding demo_closed_def
    using st by (simp add: receive_message process_message_def handleMessage_def continuing_flagged demo_parse finish_message_def
      demo_entry_def handleClose_def deletePreparedStatement_def close_once_def compare_and_swap_def close_stmt_def bind_go_def send_def Let_def
      demo_session_def demo_exec_def)
qed

theorem statements_closed_once_witness: "closes demo_closed = [0] \<and> distinct (closes demo_closed)"
  using statements_closed_once [OF demo_closed_reached] demo_closed_calls by simp

end
