(* ===== verification/Spec2Isabelle.thy ===== *)
theory Spec2Isabelle
  imports Prelude Identifiers SqlTypes DeltaTotal ApplierProps PgDecode LogreplProps PgConnProps
begin

text \<open>
  MyDuck Server is a server with the wire protocols of MySQL and Postgres on top of DuckDB. It is also a replica: it
  follows the binlog of a MySQL primary or a logical replication slot of a Postgres primary, collects row changes in a
  buffer per table and writes them to DuckDB in batches, together with the position it has reached. This library
  models these two replication pipelines, the delta buffer they share, and the connections of Postgres clients.

  \<^bold>\<open>Conventions.\<close> A Go function that may fail returns \<open>'a res\<close>, with \<open>Error\<close> for an error value and \<open>Panic\<close> for a
  panic; the texts of run-time panics are shortened where no client sees them. Structs are records and stateful code
  takes and returns its state. The handlers of a connection are functions from \<open>connection\<close> to a result and a
  connection, composed with \<open>bind_go\<close>; the messages still to be read and those sent so far are part of the
  connection. Machine integers are words where they may wrap. DuckDB, the SQL engine, drivers, parsers of third parties
  and the network are fields of environment records, and what a property relies on about them is a hypothesis of it,
  met by a concrete environment in its witness. Loops are recursive functions with termination proofs. Fuel occurs in
  one place, the scanner that reads back quoted names in \<^verbatim>\<open>Identifiers\<close>: one unit for each name, and the theorem gives it
  as many as there are names.

  \<^bold>\<open>Shared.\<close> \<^verbatim>\<open>Prelude\<close> has the errors, byte slices and string functions. \<^verbatim>\<open>Identifiers\<close> models \<^verbatim>\<open>catalog/identifier.go\<close>:
  quoted names scan back to the given ones, and index names decode under conditions that are shown to be needed.
  \<^verbatim>\<open>Charset\<close> (\<^verbatim>\<open>charset/charset.go\<close>) and \<^verbatim>\<open>SqlTypes\<close> (\<^verbatim>\<open>myarrow/schema.go\<close>, \<^verbatim>\<open>pgtypes/pgtypes.go\<close>) have character sets and the
  Arrow types of columns.

  \<^bold>\<open>Delta buffer\<close> (\<^verbatim>\<open>delta/\<close>). \<^verbatim>\<open>DuckDB\<close> has the statements the controller sends, their text and their meaning on a database
  of tables; \<^verbatim>\<open>Delta\<close> has the appenders and the flush of \<^verbatim>\<open>delta/controller.go\<close> with its five cases. \<^verbatim>\<open>DeltaCorrect\<close> says
  what a sequence of row events means, \<^verbatim>\<open>DeltaFlush\<close> that a successful flush leaves the rows of that sequence, and
  \<^verbatim>\<open>DeltaTotal\<close> that a flush of well-formed changes succeeds, and what is lost when a statement fails.

  \<^bold>\<open>Replication from MySQL.\<close> \<^verbatim>\<open>RowBinlog\<close> models the cells of row events (\<^verbatim>\<open>binlog/rbr.go\<close>), and \<^verbatim>\<open>RowBinlogProps\<close> shows
  that lengths agree, that values have the type of their column, and that integers, decimals and times are read back.
  \<^verbatim>\<open>Filtering\<close> models the replication filters. \<^verbatim>\<open>Applier\<close> is the event handler and the loop of
  \<^verbatim>\<open>binlogreplication/binlog_replica_applier.go\<close>. \<^verbatim>\<open>ApplierCorrect\<close> is proved against the locale \<open>delta_buffer\<close>, the contract
  of the table writers; \<^verbatim>\<open>ReplicaProvider\<close> (\<^verbatim>\<open>replica/replication.go\<close>) interprets it on the delta buffer, and
  \<^verbatim>\<open>TableUpdater\<close> with \<^verbatim>\<open>TableUpdaterProps\<close> models the writes that go around it (\<^verbatim>\<open>replica/updater.go\<close>). \<^verbatim>\<open>ApplierProps\<close> has the
  main property, that the committed data and the saved position name the same prefix of the source's transactions.

  \<^bold>\<open>Replication from Postgres.\<close> \<^verbatim>\<open>PgDecode\<close> models the decoding of columns and \<^verbatim>\<open>Logrepl\<close> the replicator (both of
  \<^verbatim>\<open>pgserver/logrepl\<close>). \<^verbatim>\<open>LogreplSafety\<close> shows, for any source and any failure, that the position reported to the primary
  is the saved one; \<^verbatim>\<open>LogreplStream\<close> describes runs against a log, with lost connections and restarts, and \<^verbatim>\<open>LogreplProps\<close>
  has the properties of such runs.

  \<^bold>\<open>Postgres connections.\<close> \<^verbatim>\<open>PgWire\<close> has the messages, the state of \<^verbatim>\<open>ConnectionHandler\<close> and the combinators of handlers.
  \<^verbatim>\<open>Scram\<close> is the authentication (\<^verbatim>\<open>pgserver/authentication_scram.go\<close>), \<^verbatim>\<open>SqlText\<close> the functions on statement texts
  (\<^verbatim>\<open>stmt.go\<close>, \<^verbatim>\<open>full_match_handler.go\<close>), \<^verbatim>\<open>PgTypes\<close> the types of results (\<^verbatim>\<open>pgtypes/pgtypes.go\<close>), \<^verbatim>\<open>PgExec\<close> the execution of
  statements (\<^verbatim>\<open>duck_handler.go\<close>), \<^verbatim>\<open>PgQuery\<close> and \<^verbatim>\<open>PsqlCommands\<close> the conversion of queries and the statements answered in
  place (\<^verbatim>\<open>in_place_handler.go\<close>), and \<^verbatim>\<open>PgConn\<close> every message, \<^verbatim>\<open>COPY\<close>, startup and the recovery from panics
  (\<^verbatim>\<open>connection_handler.go\<close>). \<^verbatim>\<open>PgFrame\<close> states in a chain of locales what a relation between connections needs to be kept
  by every message; \<^verbatim>\<open>PgSession\<close>, which has the loop of a connection, interprets it for answers without
  \<^verbatim>\<open>ReadyForQuery\<close>, and \<^verbatim>\<open>PgStatements\<close> for the tables of statements and portals, with the invariant that no statement is
  closed twice. \<^verbatim>\<open>ScramProps\<close> shows that a client is let in with a proof and only with one, and \<^verbatim>\<open>PgConnProps\<close> that the engine
  serves no other client, that every batch is answered once and every query in full. \<^verbatim>\<open>PgExample\<close> is the environment of
  their witnesses.

  \<^bold>\<open>Defects.\<close> Some theorems state what the code does where that is not what it means to do: positions and batches around
  ticks, partial row images, truncation, parameters and empty statements of the extended protocol.

  \<^bold>\<open>Not modelled.\<close> The execution of MySQL queries (\<^verbatim>\<open>backend/\<close>) and the catalog (\<^verbatim>\<open>catalog/\<close>) implement interfaces of the SQL
  engine, a third-party library, and have little behaviour without it. The Flight SQL server, the programs and the test
  harnesses are glue. Translation by sqlglot runs in a Python process. The conversions of statement texts by regular
  expressions, the SQL of subscriptions, the loaders and writers of \<^verbatim>\<open>COPY\<close>, backup and restore are part of the sources, but
  work through regular expressions, pipes, files and object storage; the connection takes them as parameters, and its
  properties hold whatever they do. The control of the binlog replica starts and stops goroutines and persists
  configuration. The switch to TLS, timers of the row reader and logging are left out of the connection. Statement texts
  are ASCII. Goroutines that hand rows or chunks to one another are one loop; where the order is up to the scheduler, it is
  a parameter.
\<close>

end
